(* ===== verification/Kryon_Prelude.thy ===== *)
theory Kryon_Prelude
  imports Complex_Main "HOL-Library.Multiset" "HOL-Library.Signed_Division" "HOL-Library.Code_Target_Nat"
begin

text \<open>
  Shared vocabulary of the development: the theorem collections the component theories feed,
  generic facts on lists and on \<open>sdiv\<close> (JavaScript's BigInt division, which truncates towards
  zero), and the model of the SQL statements the services issue, as operations on a table (a
  list of rows in storage order):
  \<^item> \<open>update_where P f t\<close> is \<open>UPDATE ... SET f WHERE P\<close>, and \<open>returning P t\<close> the rows its
    \<open>RETURNING\<close> clause reports (the rows that satisfied \<open>P\<close> before the update);
  \<^item> \<open>delete_where P t\<close> is \<open>DELETE ... WHERE P\<close>;
  \<^item> \<open>insert_unless P r t\<close> is \<open>INSERT ... ON CONFLICT DO NOTHING\<close>, where \<open>P\<close> says which rows
    conflict with the new one; its flag tells whether \<open>RETURNING\<close> reports a row.
\<close>

named_theorems table_simps \<open>rewriting of table operations\<close>
named_theorems handler_defs \<open>definitions of request handlers and service steps\<close>
named_theorems js_eval \<open>equations that evaluate the JavaScript runtime on literals\<close>

subsection \<open>Tables\<close>

definition update_where :: "('r \<Rightarrow> bool) \<Rightarrow> ('r \<Rightarrow> 'r) \<Rightarrow> 'r list \<Rightarrow> 'r list" where
  "update_where P f t = map (\<lambda>r. if P r then f r else r) t"

definition returning :: "('r \<Rightarrow> bool) \<Rightarrow> 'r list \<Rightarrow> 'r list" where
  "returning P t = filter P t"

definition delete_where :: "('r \<Rightarrow> bool) \<Rightarrow> 'r list \<Rightarrow> 'r list" where
  "delete_where P t = filter (\<lambda>r. \<not> P r) t"

definition insert_unless :: "('r \<Rightarrow> bool) \<Rightarrow> 'r \<Rightarrow> 'r list \<Rightarrow> bool \<times> 'r list" where
  "insert_unless P r t = (if \<exists>x \<in> set t. P x then (False, t) else (True, t @ [r]))"

lemma update_where_Nil [simp, table_simps]: "update_where P f [] = []"
  by (simp add: update_where_def)

lemma update_where_Cons [simp, table_simps]:
  "update_where P f (r # t) = (if P r then f r else r) # update_where P f t"
  by (simp add: update_where_def)

lemma update_where_append [simp, table_simps]:
  "update_where P f (s @ t) = update_where P f s @ update_where P f t"
  by (simp add: update_where_def)

lemma length_update_where [simp]: "length (update_where P f t) = length t"
  by (simp add: update_where_def)

lemma set_update_where: "set (update_where P f t) = (\<lambda>r. if P r then f r else r) ` set t"
  by (simp add: update_where_def)

lemma update_where_idle: "\<forall>r \<in> set t. \<not> P r \<Longrightarrow> update_where P f t = t"
  by (induction t) auto

lemma map_update_where:
  assumes "\<And>r. P r \<Longrightarrow> g (f r) = g r"
  shows "map g (update_where P f t) = map g t"
  using assms by (induction t) auto

lemma update_where_all:
  assumes "\<forall>r \<in> set t. Q r" and "\<And>r. r \<in> set t \<Longrightarrow> P r \<Longrightarrow> Q r \<Longrightarrow> Q (f r)"
  shows "\<forall>r \<in> set (update_where P f t). Q r"
  using assms by (auto simp: set_update_where)

lemma returning_empty_iff: "returning P t = [] \<longleftrightarrow> (\<forall>r \<in> set t. \<not> P r)"
  by (simp add: returning_def filter_empty_conv)

lemma returning_Nil [simp, table_simps]: "returning P [] = []"
  by (simp add: returning_def)

lemma returning_Cons [simp, table_simps]:
  "returning P (r # t) = (if P r then r # returning P t else returning P t)"
  by (simp add: returning_def)

lemma set_delete_where [simp]: "set (delete_where P t) = {r \<in> set t. \<not> P r}"
  by (simp add: delete_where_def)

lemma delete_where_Nil [simp, table_simps]: "delete_where P [] = []"
  by (simp add: delete_where_def)

lemma delete_where_Cons [simp, table_simps]:
  "delete_where P (r # t) = (if P r then delete_where P t else r # delete_where P t)"
  by (simp add: delete_where_def)

lemma delete_where_append [simp, table_simps]:
  "delete_where P (s @ t) = delete_where P s @ delete_where P t"
  by (simp add: delete_where_def)

lemma delete_where_idle: "\<forall>r \<in> set t. \<not> P r \<Longrightarrow> delete_where P t = t"
  by (induction t) auto

lemma insert_unless_flag: "fst (insert_unless P r t) \<longleftrightarrow> \<not> (\<exists>x \<in> set t. P x)"
  by (simp add: insert_unless_def)

lemma insert_unless_rows:
  "snd (insert_unless P r t) = (if \<exists>x \<in> set t. P x then t else t @ [r])"
  by (simp add: insert_unless_def)

text \<open>A table with a key: the rows with a given key, when keys are unique.\<close>

definition find_row :: "('r \<Rightarrow> bool) \<Rightarrow> 'r list \<Rightarrow> 'r option" where
  "find_row P t = find P t"

lemma find_row_Nil [simp, table_simps]: "find_row P [] = None"
  by (simp add: find_row_def)

lemma find_row_Cons [simp, table_simps]:
  "find_row P (r # t) = (if P r then Some r else find_row P t)"
  by (simp add: find_row_def)

lemma find_row_Some: "find_row P t = Some r \<Longrightarrow> r \<in> set t \<and> P r"
  by (auto simp: find_row_def find_Some_iff)

lemma find_row_None: "find_row P t = None \<longleftrightarrow> (\<forall>r \<in> set t. \<not> P r)"
  by (auto simp: find_row_def find_None_iff)

lemma find_row_unique:
  assumes "distinct (map key t)" and "r \<in> set t" and "key r = k"
  shows "find_row (\<lambda>x. key x = k) t = Some r"
  using assms by (induction t) auto

subsection \<open>Checks\<close>

text \<open>A sequence of early returns: the first condition that holds gives the error.\<close>

definition first_error :: "(bool \<times> 'e) list \<Rightarrow> 'e option" where
  "first_error cs = map_option snd (find fst cs)"

lemma first_error_None: "first_error cs = None \<longleftrightarrow> (\<forall>c \<in> set cs. \<not> fst c)"
  by (auto simp: first_error_def find_None_iff)

subsection \<open>Sums over lists\<close>

lemma sum_list_nonneg_int:
  fixes f :: "'a \<Rightarrow> int"
  assumes "\<And>x. x \<in> set xs \<Longrightarrow> 0 \<le> f x"
  shows "0 \<le> sum_list (map f xs)"
  using assms by (induction xs) auto

lemma sum_list_member_le_int:
  fixes f :: "'a \<Rightarrow> int"
  assumes "\<And>x. x \<in> set xs \<Longrightarrow> 0 \<le> f x" and "x \<in> set xs"
  shows "f x \<le> sum_list (map f xs)"
  using assms
proof (induction xs)
  case Nil
  then show ?case by simp
next
  case (Cons y ys)
  have "0 \<le> sum_list (map f ys)" using Cons.prems(1) by (intro sum_list_nonneg_int) auto
  then show ?case using Cons by (cases "x = y") (auto intro: add_increasing)
qed

subsection \<open>BigInt division\<close>

lemma sdiv_nonneg: "0 \<le> (a::int) \<Longrightarrow> 0 < b \<Longrightarrow> a sdiv b = a div b"
  by (cases "a = 0") (auto simp: signed_divide_int_def)

lemma sdiv_minus_left: "(- a::int) sdiv b = - (a sdiv b)"
  by (simp add: signed_divide_int_def sgn_minus)

lemma sdiv_mult_self: "(b::int) \<noteq> 0 \<Longrightarrow> (a * b) sdiv b = a"
  by (simp add: signed_divide_int_def abs_mult sgn_mult mult.assoc [symmetric] sgn_mult_abs)
     (simp add: mult.assoc sgn_mult_abs mult.left_commute abs_sgn_eq sgn_mult_self_eq flip: mult_sgn_abs)

lemma sdiv_nonneg_nonneg: "0 \<le> (a::int) \<Longrightarrow> 0 < b \<Longrightarrow> 0 \<le> a sdiv b"
  by (simp add: sdiv_nonneg pos_imp_zdiv_nonneg_iff)

lemma sdiv_mono_nonneg: "0 \<le> (a::int) \<Longrightarrow> a \<le> a' \<Longrightarrow> 0 < b \<Longrightarrow> a sdiv b \<le> a' sdiv b"
  by (simp add: sdiv_nonneg zdiv_mono1)

end
