(* ===== verification/Js_Number.thy ===== *)
theory Js_Number
  imports Kryon_Prelude
begin

text \<open>
  The JavaScript Number type (IEEE 754 binary64, round to nearest, ties to even) and the
  conversions the code uses between Number and BigInt. A Number is \<open>NaN\<close>, an infinity or a finite
  value; finite values are rationals, and every operation that produces one rounds its exact
  result with \<open>fl\<close>. The sign of zero is not represented: no operation of the modelled code
  observes it.
\<close>

subsection \<open>Powers of two and the exponent of a rational\<close>

function ilog2 :: "int \<Rightarrow> int" where
  "ilog2 n = (if n \<le> 1 then 0 else 1 + ilog2 (n div 2))"
  by pat_completeness auto
termination
  by (relation "measure nat") auto

declare ilog2.simps [simp del]

definition pow2 :: "int \<Rightarrow> rat" where
  "pow2 k = (if 0 \<le> k then 2 ^ nat k else 1 / 2 ^ nat (- k))"

text \<open>The exponent of a positive rational: \<open>2 ^ expo x \<le> x < 2 ^ (expo x + 1)\<close>.\<close>

definition expo :: "rat \<Rightarrow> int" where
  "expo x = (if 1 \<le> x then ilog2 \<lfloor>x\<rfloor> else - (ilog2 (\<lceil>1 / x\<rceil> - 1) + 1))"

lemma ilog2_nonneg: "0 \<le> ilog2 n"
proof (induction n rule: ilog2.induct)
  case (1 n)
  then show ?case by (simp add: ilog2.simps [of n])
qed

lemma ilog2_bounds: "1 \<le> n \<Longrightarrow> 2 ^ nat (ilog2 n) \<le> n \<and> n < 2 ^ nat (ilog2 n + 1)"
proof (induction n rule: ilog2.induct)
  case (1 n)
  show ?case
  proof (cases "n \<le> 1")
    case True
    with "1.prems" have "n = 1" by simp
    then show ?thesis by (simp add: ilog2.simps [of 1])
  next
    case False
    let ?k = "ilog2 (n div 2)"
    have k: "0 \<le> ?k" by (rule ilog2_nonneg)
    have IH: "2 ^ nat ?k \<le> n div 2 \<and> n div 2 < 2 ^ nat (?k + 1)"
      using "1.IH" False by simp
    have "nat (1 + ?k) = Suc (nat ?k)" "nat (1 + ?k + 1) = Suc (nat (?k + 1))"
      using k by auto
    with IH False show ?thesis by (simp add: ilog2.simps [of n]) linarith
  qed
qed

lemma pow2_pos [simp]: "0 < pow2 k"
  by (simp add: pow2_def)

lemma pow2_neq_0 [simp]: "pow2 k \<noteq> 0"
  using pow2_pos [of k] by linarith

lemma pow2_0 [simp]: "pow2 0 = 1"
  by (simp add: pow2_def)

lemma pow2_Suc: "pow2 (k + 1) = 2 * pow2 k"
proof (cases "0 \<le> k")
  case True
  then show ?thesis by (simp add: pow2_def nat_add_distrib)
next
  case False
  then have "nat (- k) = Suc (nat (- (k + 1)))" by simp
  with False show ?thesis by (auto simp: pow2_def)
qed

lemma pow2_nat_add: "pow2 (k + int n) = 2 ^ n * pow2 k"
  by (induction n) (use pow2_Suc [of "k + int _"] in \<open>auto simp: ac_simps\<close>)

lemma pow2_add: "pow2 (j + k) = pow2 j * pow2 k"
proof (cases "0 \<le> k")
  case True
  then have "pow2 (j + k) = 2 ^ nat k * pow2 j" using pow2_nat_add [of j "nat k"] by simp
  with True show ?thesis by (simp add: pow2_def)
next
  case False
  then have "pow2 j = 2 ^ nat (- k) * pow2 (j + k)" using pow2_nat_add [of "j + k" "nat (- k)"] by simp
  with False show ?thesis by (simp add: pow2_def)
qed

lemma pow2_mono: "j \<le> k \<Longrightarrow> pow2 j \<le> pow2 k"
proof -
  assume "j \<le> k"
  then have "pow2 k = 2 ^ nat (k - j) * pow2 j" using pow2_nat_add [of j "nat (k - j)"] by simp
  moreover have "(1::rat) \<le> 2 ^ nat (k - j)" by simp
  ultimately show ?thesis by (metis mult_le_cancel_right1 pow2_pos not_less_iff_gr_or_eq)
qed

lemma pow2_less_cancel: "pow2 j < pow2 k \<Longrightarrow> j < k"
  using pow2_mono [of k j] by force

lemma expo_bounds:
  assumes "0 < x"
  shows "pow2 (expo x) \<le> x \<and> x < pow2 (expo x + 1)"
proof (cases "1 \<le> x")
  case True
  let ?k = "ilog2 \<lfloor>x\<rfloor>"
  have b: "2 ^ nat ?k \<le> \<lfloor>x\<rfloor>" "\<lfloor>x\<rfloor> < 2 ^ nat (?k + 1)"
    using ilog2_bounds [of "\<lfloor>x\<rfloor>"] True by auto
  have "rat_of_int (2 ^ nat ?k) \<le> x" using b(1) by (simp add: le_floor_iff)
  moreover have "x < rat_of_int (2 ^ nat (?k + 1))" using b(2) by (simp add: floor_less_iff)
  ultimately show ?thesis using True ilog2_nonneg [of "\<lfloor>x\<rfloor>"] by (simp add: expo_def pow2_def)
next
  case False
  let ?m = "\<lceil>1 / x\<rceil>" and ?k = "ilog2 (\<lceil>1 / x\<rceil> - 1)"
  have "1 < 1 / x" using False assms by simp
  then have "1 < ?m" by (simp only: one_less_ceiling)
  then have "1 \<le> ?m - 1" by linarith
  then have b: "2 ^ nat ?k \<le> ?m - 1" "?m - 1 < 2 ^ nat (?k + 1)"
    using ilog2_bounds [of "?m - 1"] by auto
  have k: "0 \<le> ?k" by (rule ilog2_nonneg)
  have "?m \<le> 2 ^ nat (?k + 1)" using b(2) by linarith
  then have "1 / x \<le> rat_of_int (2 ^ nat (?k + 1))" by (simp only: ceiling_le_iff)
  then have lo: "1 / 2 ^ nat (?k + 1) \<le> x" using assms by (simp add: field_simps)
  have "rat_of_int (2 ^ nat ?k) < 1 / x" using b(1) by (simp add: less_ceiling_iff)
  then have hi: "x < 1 / 2 ^ nat ?k" using assms by (simp add: field_simps)
  have p1: "pow2 (- (?k + 1)) = 1 / 2 ^ nat (?k + 1)" using k by (simp add: pow2_def add.commute)
  have p2: "pow2 (- (?k + 1) + 1) = 1 / 2 ^ nat ?k" using k by (simp add: pow2_def)
  have e: "expo x = - (?k + 1)" using False by (simp add: expo_def)
  show ?thesis unfolding e p1 p2 using lo hi by blast
qed

lemma expo_unique:
  assumes "pow2 e \<le> x" and "x < pow2 (e + 1)"
  shows "expo x = e"
proof -
  have "0 < x" using assms(1) pow2_pos [of e] by linarith
  then have b: "pow2 (expo x) \<le> x" "x < pow2 (expo x + 1)" using expo_bounds by auto
  have "pow2 (expo x) < pow2 (e + 1)" "pow2 e < pow2 (expo x + 1)" using assms b by auto
  then have "expo x < e + 1" "e < expo x + 1" by (simp_all only: pow2_less_cancel)
  then show ?thesis by linarith
qed

lemma expo_mono: "0 < x \<Longrightarrow> x \<le> y \<Longrightarrow> expo x \<le> expo y"
proof -
  assume "0 < x" and "x \<le> y"
  then have "pow2 (expo x) < pow2 (expo y + 1)"
    using expo_bounds [of x] expo_bounds [of y] by auto
  then show ?thesis by (auto dest: pow2_less_cancel)
qed

lemma expo_double: "0 < x \<Longrightarrow> expo (2 * x) = expo x + 1"
proof (rule expo_unique)
  assume "0 < x"
  then have b: "pow2 (expo x) \<le> x" "x < pow2 (expo x + 1)" using expo_bounds by auto
  show "pow2 (expo x + 1) \<le> 2 * x" using b(1) by (simp add: pow2_Suc)
  show "2 * x < pow2 (expo x + 1 + 1)" using b(2) unfolding pow2_Suc by linarith
qed

subsection \<open>Rounding to nearest, ties to even\<close>

definition rne :: "rat \<Rightarrow> int" where
  "rne y = (let f = \<lfloor>y\<rfloor>; d = y - of_int f in
     if d < 1 / 2 then f else if 1 / 2 < d then f + 1 else if even f then f else f + 1)"

lemma rne_of_int [simp]: "rne (of_int n) = n"
  by (simp add: rne_def)

lemma rne_floor: "\<lfloor>y\<rfloor> \<le> rne y \<and> rne y \<le> \<lfloor>y\<rfloor> + 1"
  by (simp add: rne_def Let_def)

lemma rne_mono: "x \<le> y \<Longrightarrow> rne x \<le> rne y"
proof (cases "\<lfloor>x\<rfloor> = \<lfloor>y\<rfloor>")
  case True
  assume "x \<le> y"
  with True show ?thesis by (auto simp: rne_def Let_def)
next
  case False
  assume "x \<le> y"
  then have "\<lfloor>x\<rfloor> < \<lfloor>y\<rfloor>" using floor_mono [of x y] False by simp
  then show ?thesis using rne_floor [of x] rne_floor [of y] by linarith
qed

text \<open>The unit in the last place of a positive value: 53 significant bits, subnormals below.\<close>

definition ulp :: "rat \<Rightarrow> rat" where
  "ulp x = pow2 (max (expo x - 52) (- 1074))"

definition fl_pos :: "rat \<Rightarrow> rat" where
  "fl_pos x = of_int (rne (x / ulp x)) * ulp x"

definition fl :: "rat \<Rightarrow> rat" where
  "fl x = (if x = 0 then 0 else if 0 < x then fl_pos x else - fl_pos (- x))"

lemma ulp_pos [simp]: "0 < ulp x"
  by (simp add: ulp_def)

lemma ulp_neq_0 [simp]: "ulp x \<noteq> 0"
  by (simp add: ulp_def)

lemma fl_pos_nonneg: "0 < x \<Longrightarrow> 0 \<le> fl_pos x"
proof -
  assume "0 < x"
  then have "rne 0 \<le> rne (x / ulp x)" by (intro rne_mono) (simp add: less_imp_le)
  then have "0 \<le> rne (x / ulp x)" using rne_of_int [of 0] by simp
  then show ?thesis unfolding fl_pos_def by (intro mult_nonneg_nonneg) (auto intro: less_imp_le)
qed

lemma fl_pos_mono:
  assumes "0 < x" and "x \<le> y"
  shows "fl_pos x \<le> fl_pos y"
proof (cases "ulp x = ulp y")
  case True
  have "rne (x / ulp y) \<le> rne (y / ulp y)" using assms by (intro rne_mono divide_right_mono) (auto intro: less_imp_le)
  with True show ?thesis by (simp add: fl_pos_def mult_right_mono less_imp_le)
next
  case False
  let ?ex = "max (expo x - 52) (- 1074)" and ?ey = "expo y"
  have "expo x \<le> expo y" using assms by (rule expo_mono)
  moreover have "max (expo x - 52) (- 1074) \<noteq> max (expo y - 52) (- 1074)"
    using False by (auto simp: ulp_def)
  ultimately have lt: "expo x < ?ey" "- 1074 < ?ey - 52" by (auto simp: max_def split: if_splits)
  have y: "0 < y" using assms by simp
  have xlt: "x \<le> pow2 ?ey"
    using expo_bounds [OF assms(1)] pow2_mono [of "expo x + 1" ?ey] lt(1) by auto
  have up: "pow2 ?ey = of_int (2 ^ nat (?ey - ?ex)) * ulp x"
    using pow2_nat_add [of ?ex "nat (?ey - ?ex)"] lt by (simp add: ulp_def max_def split: if_splits)
  have "rne (x / ulp x) \<le> rne (of_int (2 ^ nat (?ey - ?ex)))"
    using xlt by (intro rne_mono) (simp add: up divide_le_eq)
  then have "rat_of_int (rne (x / ulp x)) \<le> rat_of_int (2 ^ nat (?ey - ?ex))"
    unfolding rne_of_int by (simp only: of_int_le_iff)
  then have A: "fl_pos x \<le> pow2 ?ey" unfolding fl_pos_def up by (rule mult_right_mono) (simp add: less_imp_le)
  have uy: "ulp y = pow2 (?ey - 52)" using lt(2) by (simp add: ulp_def max_def)
  have dn: "pow2 ?ey = of_int (2 ^ 52) * ulp y" using pow2_nat_add [of "?ey - 52" 52] uy by simp
  have "rne (of_int (2 ^ 52)) \<le> rne (y / ulp y)"
    using expo_bounds [OF y] by (intro rne_mono) (simp only: dn le_divide_eq ulp_pos if_True)
  then have "rat_of_int (2 ^ 52) \<le> rat_of_int (rne (y / ulp y))"
    unfolding rne_of_int by (simp only: of_int_le_iff)
  then have B: "pow2 ?ey \<le> fl_pos y" unfolding fl_pos_def dn by (rule mult_right_mono) (simp add: less_imp_le)
  from A B show ?thesis by simp
qed

lemma fl_0 [simp]: "fl 0 = 0"
  by (simp add: fl_def)

lemma fl_minus: "fl (- x) = - fl x"
  by (auto simp: fl_def)

lemma fl_mono: "x \<le> y \<Longrightarrow> fl x \<le> fl y"
  using fl_pos_mono [of x y] fl_pos_mono [of "- y" "- x"] fl_pos_nonneg [of y] fl_pos_nonneg [of "- x"]
  by (auto simp: fl_def)

lemma fl_nonneg: "0 \<le> x \<Longrightarrow> 0 \<le> fl x"
  using fl_mono [of 0 x] by simp

lemma fl_exact:
  assumes "0 < x" and "x = of_int n * ulp x"
  shows "fl x = x"
proof -
  have "x / ulp x = of_int n" using assms(2) by (metis nonzero_mult_div_cancel_right ulp_neq_0)
  then have "fl_pos x = of_int n * ulp x" by (simp add: fl_pos_def)
  then show ?thesis using assms by (simp add: fl_def)
qed

lemma fl_fixed_pos: "0 < x \<Longrightarrow> fl x = x \<Longrightarrow> \<exists>n. x = of_int n * ulp x"
  by (auto simp: fl_def fl_pos_def intro!: exI [of _ "rne (x / ulp x)"])

lemma fl_double_pos:
  assumes "0 < x" and "fl x = x"
  shows "fl (2 * x) = 2 * x"
proof -
  obtain n where n: "x = of_int n * ulp x" using fl_fixed_pos [OF assms] by auto
  let ?e = "expo x"
  have e: "expo (2 * x) = ?e + 1" using assms(1) by (rule expo_double)
  show ?thesis
  proof (cases "- 1074 \<le> ?e - 52")
    case True
    then have "ulp (2 * x) = 2 * ulp x" using pow2_Suc [of "?e - 52"] e by (simp add: ulp_def max_def algebra_simps)
    then have m: "2 * x = of_int n * ulp (2 * x)" using n by simp
    show ?thesis by (rule fl_exact [OF _ m]) (use assms(1) in simp)
  next
    case False
    then have "ulp (2 * x) = ulp x" using e by (simp add: ulp_def max_def)
    then have m: "2 * x = of_int (2 * n) * ulp (2 * x)" by (subst n) simp
    show ?thesis by (rule fl_exact [OF _ m]) (use assms(1) in simp)
  qed
qed

lemma fl_double: "fl x = x \<Longrightarrow> fl (2 * x) = 2 * x"
proof (cases x "0 :: rat" rule: linorder_cases)
  case less
  assume f: "fl x = x"
  have "fl (- x) = - x" using f by (simp add: fl_minus)
  then have "fl (2 * - x) = 2 * - x" using less by (intro fl_double_pos) auto
  then show ?thesis using fl_minus [of "2 * x"] by simp
next
  case greater
  assume "fl x = x"
  with greater show ?thesis by (rule fl_double_pos)
qed simp

text \<open>Integers up to \<open>2 ^ 53\<close> are exact.\<close>

lemma fl_int_pos:
  assumes "0 < n" and "n < 2 ^ 53"
  shows "fl (of_int n) = of_int n"
proof -
  let ?x = "rat_of_int n"
  have x: "0 < ?x" using assms by simp
  have "pow2 (expo ?x) < pow2 53" using expo_bounds [OF x] assms(2) by (simp add: pow2_def order_le_less_trans)
  then have e: "expo ?x \<le> 52" by (auto dest: pow2_less_cancel)
  have "pow2 0 < pow2 (expo ?x + 1)" using expo_bounds [OF x] assms(1) by simp
  then have "0 < expo ?x + 1" by (rule pow2_less_cancel)
  then have e0: "0 \<le> expo ?x" by simp
  have u: "1 = of_int (2 ^ nat (52 - expo ?x)) * ulp ?x"
    using pow2_nat_add [of "expo ?x - 52" "nat (52 - expo ?x)"] e e0 by (simp add: ulp_def max_def)
  have m: "?x = of_int (n * 2 ^ nat (52 - expo ?x)) * ulp ?x" using u by simp
  show ?thesis by (rule fl_exact [OF x m])
qed

lemma fl_int: "\<bar>n\<bar> < 2 ^ 53 \<Longrightarrow> fl (of_int n) = of_int n"
  using fl_int_pos [of n] fl_int_pos [of "- n"] fl_minus [of "of_int n"]
  by (cases n "0 :: int" rule: linorder_cases) auto

lemma fl_int_pos_iff: "0 < fl (of_int n) \<longleftrightarrow> 0 < n"
proof
  assume "0 < n"
  then have "fl 1 \<le> fl (of_int n)" by (intro fl_mono) simp
  then show "0 < fl (of_int n)" using fl_int [of 1] by simp
next
  assume "0 < fl (of_int n)"
  then show "0 < n" using fl_mono [of "of_int n" 0] by (auto simp: not_less simp flip: not_le)
qed

lemma fl_int_neg_iff: "fl (of_int n) < 0 \<longleftrightarrow> n < 0"
  using fl_int_pos_iff [of "- n"] fl_minus [of "of_int n"] by auto

lemma fl_int_zero_iff: "fl (of_int n) = 0 \<longleftrightarrow> n = 0"
  using fl_int_pos_iff [of n] fl_int_neg_iff [of n] by (cases n "0 :: int" rule: linorder_cases) auto

subsection \<open>Numbers and their operations\<close>

datatype number = Fin rat | PInf | NInf | NaN

text \<open>Rounding overflows to an infinity when the rounded value reaches \<open>2 ^ 1024\<close>.\<close>

definition in_range :: "rat \<Rightarrow> bool" where
  "in_range y \<longleftrightarrow> y = 0 \<or> expo \<bar>y\<bar> < 1024"

definition to_number :: "rat \<Rightarrow> number" where
  "to_number x = (let y = fl x in if in_range y then Fin y else if 0 < y then PInf else NInf)"

fun js_neg :: "number \<Rightarrow> number" where
  "js_neg (Fin a) = Fin (- a)"
| "js_neg PInf = NInf"
| "js_neg NInf = PInf"
| "js_neg NaN = NaN"

fun js_add :: "number \<Rightarrow> number \<Rightarrow> number" where
  "js_add (Fin a) (Fin b) = to_number (a + b)"
| "js_add NaN _ = NaN"
| "js_add _ NaN = NaN"
| "js_add PInf NInf = NaN"
| "js_add NInf PInf = NaN"
| "js_add PInf _ = PInf"
| "js_add NInf _ = NInf"
| "js_add _ PInf = PInf"
| "js_add _ NInf = NInf"

definition js_sub :: "number \<Rightarrow> number \<Rightarrow> number" where
  "js_sub x y = js_add x (js_neg y)"

definition js_inf :: "bool \<Rightarrow> number" where
  "js_inf pos = (if pos then PInf else NInf)"

fun js_mul :: "number \<Rightarrow> number \<Rightarrow> number" where
  "js_mul (Fin a) (Fin b) = to_number (a * b)"
| "js_mul NaN _ = NaN"
| "js_mul _ NaN = NaN"
| "js_mul (Fin a) PInf = (if a = 0 then NaN else js_inf (0 < a))"
| "js_mul (Fin a) NInf = (if a = 0 then NaN else js_inf (a < 0))"
| "js_mul PInf (Fin a) = (if a = 0 then NaN else js_inf (0 < a))"
| "js_mul NInf (Fin a) = (if a = 0 then NaN else js_inf (a < 0))"
| "js_mul PInf PInf = PInf"
| "js_mul NInf NInf = PInf"
| "js_mul PInf NInf = NInf"
| "js_mul NInf PInf = NInf"

text \<open>Division; a zero divisor is the positive zero.\<close>

fun js_div :: "number \<Rightarrow> number \<Rightarrow> number" where
  "js_div (Fin a) (Fin b) =
     (if b = 0 then (if a = 0 then NaN else js_inf (0 < a)) else to_number (a / b))"
| "js_div NaN _ = NaN"
| "js_div _ NaN = NaN"
| "js_div (Fin a) PInf = Fin 0"
| "js_div (Fin a) NInf = Fin 0"
| "js_div PInf (Fin b) = js_inf (0 \<le> b)"
| "js_div NInf (Fin b) = js_inf (b < 0)"
| "js_div PInf PInf = NaN"
| "js_div PInf NInf = NaN"
| "js_div NInf PInf = NaN"
| "js_div NInf NInf = NaN"

fun js_lt :: "number \<Rightarrow> number \<Rightarrow> bool" where
  "js_lt (Fin a) (Fin b) = (a < b)"
| "js_lt NaN _ = False"
| "js_lt _ NaN = False"
| "js_lt (Fin _) PInf = True"
| "js_lt (Fin _) NInf = False"
| "js_lt PInf _ = False"
| "js_lt NInf NInf = False"
| "js_lt NInf _ = True"

fun js_le :: "number \<Rightarrow> number \<Rightarrow> bool" where
  "js_le (Fin a) (Fin b) = (a \<le> b)"
| "js_le NaN _ = False"
| "js_le _ NaN = False"
| "js_le (Fin _) PInf = True"
| "js_le (Fin _) NInf = False"
| "js_le PInf y = (y = PInf)"
| "js_le NInf _ = True"

fun is_finite :: "number \<Rightarrow> bool" where
  "is_finite (Fin _) = True"
| "is_finite _ = False"

text \<open>A Number in a boolean context (\<open>||\<close>, \<open>!\<close>): zero and \<open>NaN\<close> are false.\<close>

fun js_truthy :: "number \<Rightarrow> bool" where
  "js_truthy (Fin a) = (a \<noteq> 0)"
| "js_truthy NaN = False"
| "js_truthy _ = True"

text \<open>\<open>Number(b)\<close> of a BigInt, \<open>Math.round\<close>, \<open>Math.floor\<close>, and \<open>BigInt(x)\<close> (\<open>None\<close>: RangeError).\<close>

definition number_of_bigint :: "int \<Rightarrow> number" where
  "number_of_bigint n = to_number (of_int n)"

fun math_round :: "number \<Rightarrow> number" where
  "math_round (Fin a) = Fin (of_int \<lfloor>a + 1 / 2\<rfloor>)"
| "math_round x = x"

fun math_floor :: "number \<Rightarrow> number" where
  "math_floor (Fin a) = Fin (of_int \<lfloor>a\<rfloor>)"
| "math_floor x = x"

fun bigint_of_number :: "number \<Rightarrow> int option" where
  "bigint_of_number (Fin a) = (if of_int \<lfloor>a\<rfloor> = a then Some \<lfloor>a\<rfloor> else None)"
| "bigint_of_number _ = None"

text \<open>A comparator result, as \<open>Array.prototype.sort\<close> reads it: only its sign matters.\<close>

fun js_sign :: "number \<Rightarrow> int" where
  "js_sign (Fin a) = (if a < 0 then - 1 else if 0 < a then 1 else 0)"
| "js_sign PInf = 1"
| "js_sign NInf = - 1"
| "js_sign NaN = 0"

lemma js_sign_number_of_bigint [simp]: "js_sign (number_of_bigint n) = sgn n"
  using fl_int_pos_iff [of n] fl_int_neg_iff [of n]
  by (auto simp: number_of_bigint_def to_number_def Let_def in_range_def sgn_if)

lemma js_truthy_number_of_bigint [simp]: "js_truthy (number_of_bigint n) \<longleftrightarrow> n \<noteq> 0"
  using fl_int_zero_iff [of n]
  by (auto simp: number_of_bigint_def to_number_def Let_def in_range_def)

text \<open>A value that is itself a Number stays as it is.\<close>

definition is_double :: "rat \<Rightarrow> bool" where
  "is_double x \<longleftrightarrow> fl x = x \<and> in_range x"

lemma to_number_double: "is_double x \<Longrightarrow> to_number x = Fin x"
  by (auto simp: is_double_def to_number_def Let_def)

lemma in_range_mono:
  assumes "\<bar>x\<bar> \<le> \<bar>y\<bar>" and "in_range y"
  shows "in_range x"
proof (cases "x = 0")
  case False
  then have "expo \<bar>x\<bar> \<le> expo \<bar>y\<bar>" using assms(1) by (intro expo_mono) auto
  then show ?thesis using assms False by (auto simp: in_range_def)
qed (simp add: in_range_def)

text \<open>
  The computed midpoint \<open>(a + b) / 2\<close> of two Numbers lies between them: neither rounding step can
  leave the interval.
\<close>

lemma fl_midpoint:
  assumes "fl a = a" and "fl b = b" and "a \<le> b"
  shows "a \<le> fl (fl (a + b) / 2) \<and> fl (fl (a + b) / 2) \<le> b"
proof -
  have "2 * a \<le> fl (a + b)"
    using fl_mono [of "2 * a" "a + b"] fl_double [OF assms(1)] assms(3) by simp
  then have "fl a \<le> fl (fl (a + b) / 2)" by (intro fl_mono) simp
  moreover have "fl (a + b) \<le> 2 * b"
    using fl_mono [of "a + b" "2 * b"] fl_double [OF assms(2)] assms(3) by simp
  then have "fl (fl (a + b) / 2) \<le> fl b" by (intro fl_mono) simp
  ultimately show ?thesis using assms(1,2) by simp
qed

end
