(* ===== verification/Js_Runtime.thy ===== *)
theory Js_Runtime
  imports Js_Number
begin

text \<open>
  The parts of the JavaScript library the services rely on besides numbers:
  \<^item> decimal printing and parsing of BigInts, \<open>trim\<close>, the test \<open>/^-?\d+$/\<close>, \<open>join\<close>, \<open>split\<close>
    (strings are lists of code units; the modelled strings are Latin-1);
  \<^item> \<open>Map\<close> as an association list in insertion order, which is the order \<open>entries\<close> iterates in;
  \<^item> \<open>Array.prototype.sort\<close>, stable, with a comparator of which only the sign matters.
  The map and the sort are interfaces of the components that use them: two locales state what
  they promise, and both are interpreted on the functions of this theory.
\<close>

subsection \<open>Decimal digits\<close>

definition digit_char :: "nat \<Rightarrow> char" where
  "digit_char d = char_of (48 + d)"

definition is_digit :: "char \<Rightarrow> bool" where
  "is_digit c \<longleftrightarrow> 48 \<le> (of_char c :: nat) \<and> (of_char c :: nat) \<le> 57"

definition digit_val :: "char \<Rightarrow> nat" where
  "digit_val c = of_char c - 48"

function show_nat :: "nat \<Rightarrow> string" where
  "show_nat n = (if n < 10 then [digit_char n] else show_nat (n div 10) @ [digit_char (n mod 10)])"
  by pat_completeness auto
termination
  by (relation "measure (\<lambda>n. n)") auto

declare show_nat.simps [simp del]

definition show_int :: "int \<Rightarrow> string" where
  "show_int z = (if z < 0 then CHR ''-'' # show_nat (nat (- z)) else show_nat (nat z))"

definition read_nat :: "string \<Rightarrow> nat" where
  "read_nat s = foldl (\<lambda>acc c. 10 * acc + digit_val c) 0 s"

text \<open>The regular expression \<open>/^\d+$/\<close> and \<open>/^-?\d+$/\<close>.\<close>

definition all_digits :: "string \<Rightarrow> bool" where
  "all_digits s \<longleftrightarrow> s \<noteq> [] \<and> list_all is_digit s"

fun signed_digits :: "string \<Rightarrow> bool" where
  "signed_digits [] = False"
| "signed_digits (c # s) = (if c = CHR ''-'' then all_digits s else all_digits (c # s))"

text \<open>\<open>BigInt(s)\<close> of a string that passed \<open>signed_digits\<close>.\<close>

fun read_int :: "string \<Rightarrow> int" where
  "read_int [] = 0"
| "read_int (c # s) = (if c = CHR ''-'' then - int (read_nat s) else int (read_nat (c # s)))"

lemma is_digit_digit_char [simp]: "d < 10 \<Longrightarrow> is_digit (digit_char d)"
  by (simp add: is_digit_def digit_char_def)

lemma digit_val_digit_char [simp]: "d < 10 \<Longrightarrow> digit_val (digit_char d) = d"
  by (simp add: digit_val_def digit_char_def)

lemma digit_char_not_minus: "d < 10 \<Longrightarrow> digit_char d \<noteq> CHR ''-''"
  using is_digit_digit_char [of d] by (auto simp: is_digit_def)

lemma not_is_digit_minus [simp]: "\<not> is_digit CHR ''-''"
  by (simp add: is_digit_def)

lemma read_nat_snoc [simp]: "read_nat (s @ [c]) = 10 * read_nat s + digit_val c"
  by (simp add: read_nat_def)

lemma show_nat_nonempty [simp]: "show_nat n \<noteq> []"
  by (subst show_nat.simps) simp

lemma show_nat_digits: "list_all is_digit (show_nat n)"
proof (induction n rule: show_nat.induct)
  case (1 n)
  then show ?case by (cases "n < 10") (simp_all add: show_nat.simps [of n])
qed

lemma read_show_nat [simp]: "read_nat (show_nat n) = n"
proof (induction n rule: show_nat.induct)
  case (1 n)
  show ?case
  proof (cases "n < 10")
    case True
    then show ?thesis by (subst show_nat.simps) (simp add: read_nat_def)
  next
    case False
    with 1 show ?thesis by (subst show_nat.simps) (simp del: read_nat_def)
  qed
qed

lemma show_nat_no_minus: "show_nat n = c # s \<Longrightarrow> c \<noteq> CHR ''-''"
  using show_nat_digits [of n] by auto

lemma signed_digits_show_int: "signed_digits (show_int z)"
proof (cases "show_int z")
  case Nil
  then show ?thesis by (auto simp: show_int_def split: if_splits)
next
  case (Cons c s)
  then show ?thesis
    using show_nat_no_minus [of "nat z" c s] show_nat_digits [of "nat (- z)"] show_nat_digits [of "nat z"]
    by (auto simp: show_int_def all_digits_def split: if_splits)
qed

lemma read_show_int [simp]: "read_int (show_int z) = z"
proof (cases "z < 0")
  case True
  then show ?thesis by (simp add: show_int_def)
next
  case False
  obtain c s where cs: "show_nat (nat z) = c # s" using show_nat_nonempty by (cases "show_nat (nat z)") auto
  with show_nat_no_minus [OF cs] have "read_int (show_int z) = int (read_nat (show_nat (nat z)))"
    using False by (simp add: show_int_def)
  with False show ?thesis by simp
qed

lemma show_int_inject: "show_int a = show_int b \<Longrightarrow> a = b"
  by (metis read_show_int)

lemma show_int_chars: "c \<in> set (show_int z) \<Longrightarrow> is_digit c \<or> c = CHR ''-''"
  using show_nat_digits [of "nat z"] show_nat_digits [of "nat (- z)"]
  by (auto simp: show_int_def list_all_iff split: if_splits)

subsection \<open>Strings\<close>

definition is_space :: "char \<Rightarrow> bool" where
  "is_space c \<longleftrightarrow> (of_char c :: nat) \<in> {9, 10, 11, 12, 13, 32, 160}"

definition js_trim :: "string \<Rightarrow> string" where
  "js_trim s = rev (dropWhile is_space (rev (dropWhile is_space s)))"

fun js_join :: "string \<Rightarrow> string list \<Rightarrow> string" where
  "js_join sep [] = []"
| "js_join sep [x] = x"
| "js_join sep (x # y # r) = x @ sep @ js_join sep (y # r)"

text \<open>\<open>s.split(c)\<close> with a one-character separator.\<close>

fun js_split :: "char \<Rightarrow> string \<Rightarrow> string list" where
  "js_split c [] = [[]]"
| "js_split c (x # s) = (if x = c then [] # js_split c s
     else (case js_split c s of [] \<Rightarrow> [[x]] | p # ps \<Rightarrow> (x # p) # ps))"

lemma js_split_nonempty [simp]: "js_split c s \<noteq> []"
  by (induction s) (auto split: list.splits)

lemma js_split_plain: "c \<notin> set s \<Longrightarrow> js_split c s = [s]"
  by (induction s) auto

lemma js_split_append: "c \<notin> set p \<Longrightarrow> js_split c (p @ c # s) = p # js_split c s"
  by (induction p) auto

text \<open>Joining pieces free of the separator and splitting again gives the pieces.\<close>

lemma js_split_join:
  assumes "ps \<noteq> []" and "\<forall>p \<in> set ps. c \<notin> set p"
  shows "js_split c (js_join [c] ps) = ps"
  using assms by (induction "[c]" ps rule: js_join.induct) (auto simp: js_split_plain js_split_append)

lemma js_join_inject:
  assumes "js_join [c] ps = js_join [c] qs" and "ps \<noteq> []" and "qs \<noteq> []"
    and "\<forall>p \<in> set ps. c \<notin> set p" and "\<forall>q \<in> set qs. c \<notin> set q"
  shows "ps = qs"
  using assms js_split_join by metis

lemma js_trim_id: "(\<forall>c \<in> set s. \<not> is_space c) \<Longrightarrow> js_trim s = s"
proof -
  assume "\<forall>c \<in> set s. \<not> is_space c"
  then have "dropWhile is_space s = s" "dropWhile is_space (rev s) = rev s"
    by (auto simp: dropWhile_eq_self_iff hd_rev)
  then show ?thesis by (simp add: js_trim_def)
qed

lemma js_trim_show_int [simp]: "js_trim (show_int z) = show_int z"
proof (rule js_trim_id, rule ballI)
  fix c assume "c \<in> set (show_int z)"
  then show "\<not> is_space c" by (auto dest!: show_int_chars simp: is_digit_def is_space_def)
qed

subsection \<open>Map\<close>

text \<open>
  A \<open>Map\<close> in insertion order. \<open>set\<close> on a present key keeps its place, on a new key appends it.
\<close>

type_synonym ('k, 'v) js_map = "('k \<times> 'v) list"

definition map_get :: "('k, 'v) js_map \<Rightarrow> 'k \<Rightarrow> 'v option" where
  "map_get m k = map_of m k"

definition map_has :: "('k, 'v) js_map \<Rightarrow> 'k \<Rightarrow> bool" where
  "map_has m k \<longleftrightarrow> map_get m k \<noteq> None"

fun map_set :: "('k, 'v) js_map \<Rightarrow> 'k \<Rightarrow> 'v \<Rightarrow> ('k, 'v) js_map" where
  "map_set [] k v = [(k, v)]"
| "map_set ((k', v') # m) k v = (if k' = k then (k, v) # m else (k', v') # map_set m k v)"

definition map_delete :: "('k, 'v) js_map \<Rightarrow> 'k \<Rightarrow> ('k, 'v) js_map" where
  "map_delete m k = filter (\<lambda>e. fst e \<noteq> k) m"

definition map_inv :: "('k, 'v) js_map \<Rightarrow> bool" where
  "map_inv m \<longleftrightarrow> distinct (map fst m)"

lemma map_get_set: "map_get (map_set m k v) k' = (if k' = k then Some v else map_get m k')"
  by (induction m k v rule: map_set.induct) (auto simp: map_get_def)

lemma map_get_delete: "map_get (map_delete m k) k' = (if k' = k then None else map_get m k')"
  by (induction m) (auto simp: map_get_def map_delete_def)

lemma fst_map_set: "fst ` set (map_set m k v) = insert k (fst ` set m)"
  by (induction m k v rule: map_set.induct) auto

lemma map_inv_set: "map_inv m \<Longrightarrow> map_inv (map_set m k v)"
proof (induction m k v rule: map_set.induct)
  case (2 k' v' m k v)
  then show ?case using fst_map_set [of m k v] by (auto simp: map_inv_def image_iff)
qed (simp add: map_inv_def)

lemma map_inv_delete: "map_inv m \<Longrightarrow> map_inv (map_delete m k)"
  by (simp add: map_inv_def map_delete_def distinct_map_filter)

lemma map_inv_Nil [simp]: "map_inv []"
  by (simp add: map_inv_def)

lemma map_get_Nil [simp]: "map_get [] k = None"
  by (simp add: map_get_def)

text \<open>What the clients of a \<open>Map\<close> rely on.\<close>

locale js_map_laws =
  fixes empty :: 'm
    and get :: "'m \<Rightarrow> 'k \<Rightarrow> 'v option"
    and put :: "'m \<Rightarrow> 'k \<Rightarrow> 'v \<Rightarrow> 'm"
    and remove :: "'m \<Rightarrow> 'k \<Rightarrow> 'm"
    and inv :: "'m \<Rightarrow> bool"
  assumes get_empty: "get empty k = None"
    and get_put: "get (put m k v) k' = (if k' = k then Some v else get m k')"
    and get_remove: "get (remove m k) k' = (if k' = k then None else get m k')"
    and inv_empty: "inv empty"
    and inv_put: "inv m \<Longrightarrow> inv (put m k v)"
    and inv_remove: "inv m \<Longrightarrow> inv (remove m k)"
begin

lemma put_put_same: "get (put (put m k v) k w) = get (put m k w)"
  by (rule ext) (simp add: get_put)

lemma get_foldl_put:
  "get (foldl (\<lambda>m k. put m k (f k)) m ks) k = (if k \<in> set ks then Some (f k) else get m k)"
  by (induction ks arbitrary: m) (auto simp: get_put)

end

interpretation js_map: js_map_laws "[]" map_get map_set map_delete map_inv
  by unfold_locales (simp_all add: map_get_set map_get_delete map_inv_set map_inv_delete)

text \<open>
  A counter kept in a \<open>Map\<close> with a default of zero: \<open>m.set(k, (m.get(k) ?? 0) + d)\<close>. The matcher
  counts pending fills so, the order book the size of a price level.
\<close>

locale js_counter = js_map_laws empty get put remove inv
  for empty :: 'm
    and get :: "'m \<Rightarrow> 'k \<Rightarrow> 'v::comm_monoid_add option"
    and put :: "'m \<Rightarrow> 'k \<Rightarrow> 'v \<Rightarrow> 'm"
    and remove :: "'m \<Rightarrow> 'k \<Rightarrow> 'm"
    and inv :: "'m \<Rightarrow> bool" +
  fixes count :: "'m \<Rightarrow> 'k \<Rightarrow> 'v"
    and bump :: "'m \<Rightarrow> 'k \<Rightarrow> 'v \<Rightarrow> 'm"
  assumes count_get: "count m k = (case get m k of None \<Rightarrow> 0 | Some v \<Rightarrow> v)"
    and bump_put: "bump m k d = put m k (count m k + d)"
begin

lemma count_bump: "count (bump m k d) k' = (if k' = k then count m k + d else count m k')"
  by (simp add: count_get bump_put get_put)

lemma count_empty: "count empty k = 0"
  by (simp add: count_get get_empty)

lemma inv_bump: "inv m \<Longrightarrow> inv (bump m k d)"
  by (simp add: bump_put inv_put)

text \<open>After a list of increments a counter holds what it had plus all increments of its key.\<close>

lemma count_bumps:
  "count (foldl (\<lambda>m (k, d). bump m k d) m es) k
     = count m k + sum_list (map snd (filter (\<lambda>e. fst e = k) es))"
  by (induction es arbitrary: m) (auto simp: count_bump add.assoc)

end

subsection \<open>Array.prototype.sort\<close>

fun sort_insert :: "('a \<Rightarrow> 'a \<Rightarrow> int) \<Rightarrow> 'a \<Rightarrow> 'a list \<Rightarrow> 'a list" where
  "sort_insert cmp x [] = [x]"
| "sort_insert cmp x (y # ys) = (if cmp x y \<le> 0 then x # y # ys else y # sort_insert cmp x ys)"

fun js_sort :: "('a \<Rightarrow> 'a \<Rightarrow> int) \<Rightarrow> 'a list \<Rightarrow> 'a list" where
  "js_sort cmp [] = []"
| "js_sort cmp (x # xs) = sort_insert cmp x (js_sort cmp xs)"

text \<open>A consistent comparator: a total preorder, read from the sign of the result.\<close>

definition cmp_ok :: "('a \<Rightarrow> 'a \<Rightarrow> int) \<Rightarrow> bool" where
  "cmp_ok cmp \<longleftrightarrow> (\<forall>a b. cmp a b \<le> 0 \<or> cmp b a \<le> 0) \<and>
     (\<forall>a b c. cmp a b \<le> 0 \<longrightarrow> cmp b c \<le> 0 \<longrightarrow> cmp a c \<le> 0)"

lemma mset_sort_insert: "mset (sort_insert cmp x xs) = add_mset x (mset xs)"
  by (induction xs) auto

lemma mset_js_sort: "mset (js_sort cmp xs) = mset xs"
  by (induction xs) (auto simp: mset_sort_insert)

lemma set_js_sort [simp]: "set (js_sort cmp xs) = set xs"
  by (metis mset_js_sort set_mset_mset)

lemma length_js_sort [simp]: "length (js_sort cmp xs) = length xs"
  by (metis mset_js_sort size_mset)

lemma set_sort_insert [simp]: "set (sort_insert cmp x xs) = insert x (set xs)"
  by (metis mset_sort_insert set_mset_add_mset_insert set_mset_mset)

lemma sorted_sort_insert:
  assumes "cmp_ok cmp" and "sorted_wrt (\<lambda>a b. cmp a b \<le> 0) xs"
  shows "sorted_wrt (\<lambda>a b. cmp a b \<le> 0) (sort_insert cmp x xs)"
  using assms(2)
proof (induction xs)
  case (Cons y ys)
  have "cmp y x \<le> 0" if "\<not> cmp x y \<le> 0" using assms(1) that by (auto simp: cmp_ok_def)
  moreover have "cmp x z \<le> 0" if "cmp x y \<le> 0" "z \<in> set ys" for z
    using assms(1) that Cons.prems unfolding cmp_ok_def by auto
  ultimately show ?case using Cons by auto
qed simp

lemma sorted_js_sort: "cmp_ok cmp \<Longrightarrow> sorted_wrt (\<lambda>a b. cmp a b \<le> 0) (js_sort cmp xs)"
  by (induction xs) (auto intro: sorted_sort_insert)

text \<open>Stability: elements that compare equal keep their order.\<close>

lemma filter_sort_insert:
  assumes "\<And>y. P y \<Longrightarrow> P x \<Longrightarrow> cmp x y \<le> 0"
  shows "filter P (sort_insert cmp x xs) = (if P x then x # filter P xs else filter P xs)"
  using assms by (induction xs) auto

lemma stable_js_sort:
  assumes "\<And>x y. P x \<Longrightarrow> P y \<Longrightarrow> cmp x y \<le> 0"
  shows "filter P (js_sort cmp xs) = filter P xs"
  using assms by (induction xs) (auto simp: filter_sort_insert)

locale stable_sorting =
  fixes srt :: "('a \<Rightarrow> 'a \<Rightarrow> int) \<Rightarrow> 'a list \<Rightarrow> 'a list"
    and ok :: "('a \<Rightarrow> 'a \<Rightarrow> int) \<Rightarrow> bool"
  assumes perm: "mset (srt cmp xs) = mset xs"
    and ordered: "ok cmp \<Longrightarrow> sorted_wrt (\<lambda>a b. cmp a b \<le> 0) (srt cmp xs)"
    and stable: "(\<And>x y. P x \<Longrightarrow> P y \<Longrightarrow> cmp x y \<le> 0) \<Longrightarrow> filter P (srt cmp xs) = filter P xs"
begin

lemma in_set: "set (srt cmp xs) = set xs"
  by (metis perm set_mset_mset)

lemma same_length: "length (srt cmp xs) = length xs"
  by (metis perm size_mset)

text \<open>The first element of the result is a least one.\<close>

lemma head_least: "ok cmp \<Longrightarrow> srt cmp xs = y # ys \<Longrightarrow> x \<in> set xs \<Longrightarrow> x = y \<or> cmp y x \<le> 0"
  using ordered [of cmp xs] in_set [of cmp xs] by auto

text \<open>Of two positions, the earlier holds an element that compares at most equal.\<close>

lemma nth_le: "ok cmp \<Longrightarrow> i < j \<Longrightarrow> j < length xs \<Longrightarrow> cmp (srt cmp xs ! i) (srt cmp xs ! j) \<le> 0"
  using ordered [of cmp xs] same_length [of cmp xs] by (simp add: sorted_wrt_iff_nth_less)

lemma distinct_iff: "distinct (srt cmp xs) = distinct xs"
  by (metis perm mset_eq_imp_distinct_iff)

end

interpretation js_sorting: stable_sorting js_sort cmp_ok
  by unfold_locales (simp_all add: mset_js_sort sorted_js_sort stable_js_sort)

end
