(* ===== verification/Kryon_Config.thy ===== *)
theory Kryon_Config
  imports Js_Runtime
begin

text \<open>
  \<open>client/config/index.ts\<close>: network, contract addresses, market table and precision constants, as a
  function of the environment (\<open>process.env\<close>). Loading the module throws when a mainnet variable is
  missing or when \<open>NEXT_PUBLIC_ACTIVE_MARKETS\<close> names no market or an unknown one; the error is the
  \<open>Inl\<close> of \<open>load_config\<close>. Strings are ASCII here, so \<open>toUpperCase\<close> maps \<open>a\<close>..\<open>z\<close> only.
\<close>

type_synonym env = "string \<Rightarrow> string option"

subsection \<open>Precision constants\<close>

definition PRICE_PRECISION :: int where "PRICE_PRECISION = 1000000000000000000"
definition AMOUNT_PRECISION :: int where "AMOUNT_PRECISION = 10000000"
definition BPS_PRECISION :: int where "BPS_PRECISION = 10000"

lemma precision_pos [simp]: "0 < PRICE_PRECISION" "0 < AMOUNT_PRECISION" "0 < BPS_PRECISION"
  "PRICE_PRECISION \<noteq> 0" "AMOUNT_PRECISION \<noteq> 0" "BPS_PRECISION \<noteq> 0"
  by (simp_all add: PRICE_PRECISION_def AMOUNT_PRECISION_def BPS_PRECISION_def)

subsection \<open>Environment lookups\<close>

text \<open>\<open>!value\<close>: an unset variable or an empty one.\<close>

fun falsy_str :: "string option \<Rightarrow> bool" where
  "falsy_str None = True"
| "falsy_str (Some s) = (s = [])"

text \<open>\<open>process.env.X ?? d\<close>.\<close>

definition env_or :: "env \<Rightarrow> string \<Rightarrow> string \<Rightarrow> string" where
  "env_or env key d = (case env key of None \<Rightarrow> d | Some v \<Rightarrow> v)"

definition STELLAR_NETWORK :: "env \<Rightarrow> string" where
  "STELLAR_NETWORK env = env_or env ''NEXT_PUBLIC_STELLAR_NETWORK'' ''testnet''"

definition IS_MAINNET :: "env \<Rightarrow> bool" where
  "IS_MAINNET env \<longleftrightarrow> STELLAR_NETWORK env = ''mainnet''"

definition assertPresentOnMainnet :: "env \<Rightarrow> string \<Rightarrow> string + unit" where
  "assertPresentOnMainnet env key =
     (if IS_MAINNET env \<and> falsy_str (env key)
      then Inl (''Missing '' @ key @ '' for mainnet deployment'') else Inr ())"

definition mainnet_keys :: "string list" where
  "mainnet_keys =
    [''NEXT_PUBLIC_STELLAR_RPC_URL'', ''NEXT_PUBLIC_STELLAR_PASSPHRASE'',
     ''NEXT_PUBLIC_STELLAR_HORIZON_URL'', ''NEXT_PUBLIC_CONTRACT_GOVERNANCE'',
     ''NEXT_PUBLIC_CONTRACT_ORACLE_ADAPTER'', ''NEXT_PUBLIC_CONTRACT_VAULT'',
     ''NEXT_PUBLIC_CONTRACT_ENGINE'', ''NEXT_PUBLIC_CONTRACT_ORDER_GATEWAY'',
     ''NEXT_PUBLIC_CONTRACT_INSURANCE'', ''NEXT_PUBLIC_CONTRACT_LIQUIDATION'',
     ''NEXT_PUBLIC_CONTRACT_RISK'', ''NEXT_PUBLIC_ASSET_NATIVE_XLM'',
     ''NEXT_PUBLIC_ASSET_USDC'', ''NEXT_PUBLIC_USDC_ISSUER'']"

fun assert_all :: "env \<Rightarrow> string list \<Rightarrow> string + unit" where
  "assert_all env [] = Inr ()"
| "assert_all env (k # ks) =
     (case assertPresentOnMainnet env k of Inl e \<Rightarrow> Inl e | Inr _ \<Rightarrow> assert_all env ks)"

subsection \<open>Network, contracts, assets\<close>

record network =
  net_name :: string
  rpcUrl :: string
  passphrase :: string
  horizonUrl :: string

record contracts =
  governance :: string
  oracleAdapter :: string
  vault :: string
  engine :: string
  orderGateway :: string
  insurance :: string
  liquidation :: string
  risk :: string

record assets =
  nativeXlm :: string
  usdc :: string
  usdcIssuer :: string

definition NETWORK :: "env \<Rightarrow> network" where
  "NETWORK env = \<lparr>
     net_name = STELLAR_NETWORK env,
     rpcUrl = env_or env ''NEXT_PUBLIC_STELLAR_RPC_URL''
       (if IS_MAINNET env then ''https://mainnet.sorobanrpc.com'' else ''https://soroban-testnet.stellar.org''),
     passphrase = env_or env ''NEXT_PUBLIC_STELLAR_PASSPHRASE''
       (if IS_MAINNET env then ''Public Global Stellar Network ; September 2015''
        else ''Test SDF Network ; September 2015''),
     horizonUrl = env_or env ''NEXT_PUBLIC_STELLAR_HORIZON_URL''
       (if IS_MAINNET env then ''https://horizon.stellar.org'' else ''https://horizon-testnet.stellar.org'') \<rparr>"

definition CONTRACTS :: "env \<Rightarrow> contracts" where
  "CONTRACTS env = \<lparr>
     governance = env_or env ''NEXT_PUBLIC_CONTRACT_GOVERNANCE'' ''CBZT5HUXI42TD55GGB5Y7OZZ72IT5SN64ONOGDYS2PFQCOWIT4XOA6MU'',
     oracleAdapter = env_or env ''NEXT_PUBLIC_CONTRACT_ORACLE_ADAPTER'' ''CARSV4BT3II5QONUAOP4D363OUNTTSSZCXSKNNXKZCBJM7Z6UXSNZ3LP'',
     vault = env_or env ''NEXT_PUBLIC_CONTRACT_VAULT'' ''CBQ6634Z3UPXFVVHHV2JNSGXHQOZZK62Z65HCAQTINBGXS3IDXKRTRYK'',
     engine = env_or env ''NEXT_PUBLIC_CONTRACT_ENGINE'' ''CBSUYAO2EYAQVFISJQKG4TNMJPCDCPPFGI25Q3SW2BJPFSKQ45GRGTXN'',
     orderGateway = env_or env ''NEXT_PUBLIC_CONTRACT_ORDER_GATEWAY'' ''CAJGC2SIV6DFJETJ6ATG5MR6RPNX5HQ26LYA4RGSHF2QPTBS6OJWONL3'',
     insurance = env_or env ''NEXT_PUBLIC_CONTRACT_INSURANCE'' ''CA3VD55APWCYLVN7PYGJ7NPKSQBE3VU4MWVCSKLOYAZI5RFWWR76G2CL'',
     liquidation = env_or env ''NEXT_PUBLIC_CONTRACT_LIQUIDATION'' ''CDCRNKXTTTOO7IRVC66KZR5QMVGGZIOF2QPJSVELLD7G7F4IVLM2DCMG'',
     risk = env_or env ''NEXT_PUBLIC_CONTRACT_RISK'' ''CAVCW7XCQRA6VYWBKFDABYZGDNUJYHEYKHR4TT6BQBHS6QPDGFJVYBDS'' \<rparr>"

definition ASSETS :: "env \<Rightarrow> assets" where
  "ASSETS env = \<lparr>
     nativeXlm = env_or env ''NEXT_PUBLIC_ASSET_NATIVE_XLM'' ''CDLZFC3SYJYDZT7K67VZ75HPJVIEUVNIXF47ZG2FB2RMQQVU2HHGCYSC'',
     usdc = env_or env ''NEXT_PUBLIC_ASSET_USDC'' ''CBIELTK6YBZJU5UP2WWQEUCYKLPU6AUNZ2BQ4WWFEIE3USCIHMXQDAMA'',
     usdcIssuer = env_or env ''NEXT_PUBLIC_USDC_ISSUER'' ''GBBD47IF6LWK7P7MDEVSCWR7DPUWV3NY3DTQEVFL4NAT4AQH3ZLLFLA5'' \<rparr>"

subsection \<open>Markets\<close>

record market_config =
  mc_marketId :: int
  symbol :: string
  displayName :: string
  baseAsset :: string
  quoteAsset :: string
  oracleSymbol :: string
  priceSourceSymbol :: string
  settlementAsset :: string
  tvSymbol :: string
  maxLeverageBps :: int
  initialMarginBps :: int
  maintenanceMarginBps :: int
  liquidationFeeBps :: int

definition MARKETS :: "env \<Rightarrow> (string, market_config) js_map" where
  "MARKETS env =
    [(''XLM-PERP'', \<lparr> mc_marketId = 1, symbol = ''XLM-PERP'', displayName = ''XLM-PERP'',
        baseAsset = ''XLM'', quoteAsset = ''USDC'', oracleSymbol = ''XLM'',
        priceSourceSymbol = ''XLMUSDT'', settlementAsset = usdc (ASSETS env),
        tvSymbol = ''COINBASE:XLMUSD'', maxLeverageBps = 100000, initialMarginBps = 1000,
        maintenanceMarginBps = 500, liquidationFeeBps = 50 \<rparr>),
     (''BTC-PERP'', \<lparr> mc_marketId = 2, symbol = ''BTC-PERP'', displayName = ''BTC-PERP'',
        baseAsset = ''BTC'', quoteAsset = ''USDC'', oracleSymbol = ''BTC'',
        priceSourceSymbol = ''BTCUSDT'', settlementAsset = usdc (ASSETS env),
        tvSymbol = ''COINBASE:BTCUSD'', maxLeverageBps = 500000, initialMarginBps = 200,
        maintenanceMarginBps = 100, liquidationFeeBps = 25 \<rparr>),
     (''ETH-PERP'', \<lparr> mc_marketId = 3, symbol = ''ETH-PERP'', displayName = ''ETH-PERP'',
        baseAsset = ''ETH'', quoteAsset = ''USDC'', oracleSymbol = ''ETH'',
        priceSourceSymbol = ''ETHUSDT'', settlementAsset = usdc (ASSETS env),
        tvSymbol = ''COINBASE:ETHUSD'', maxLeverageBps = 200000, initialMarginBps = 500,
        maintenanceMarginBps = 250, liquidationFeeBps = 35 \<rparr>)]"

definition upper_char :: "char \<Rightarrow> char" where
  "upper_char c = (let n = of_char c :: nat in if 97 \<le> n \<and> n \<le> 122 then char_of (n - 32) else c)"

definition toUpperCase :: "string \<Rightarrow> string" where
  "toUpperCase s = map upper_char s"

text \<open>\<open>Array.from(new Set(xs))\<close>: the first occurrence of each element, in order.\<close>

definition uniq :: "'a list \<Rightarrow> 'a list" where
  "uniq xs = rev (remdups (rev xs))"

lemma set_uniq [simp]: "set (uniq xs) = set xs"
  by (simp add: uniq_def)

lemma distinct_uniq [simp]: "distinct (uniq xs)"
  by (simp add: uniq_def)

lemma uniq_Nil_iff [simp]: "uniq xs = [] \<longleftrightarrow> xs = []"
  by (simp add: uniq_def)

definition parseActiveMarketSymbols :: "env \<Rightarrow> string option \<Rightarrow> string + string list" where
  "parseActiveMarketSymbols env raw =
    (let symbols = filter (\<lambda>s. s \<noteq> [])
           (map (\<lambda>s. toUpperCase (js_trim s))
             (js_split (CHR '','') (case raw of None \<Rightarrow> ''XLM-PERP'' | Some r \<Rightarrow> r)));
         unique = uniq symbols;
         unknown = filter (\<lambda>s. \<not> map_has (MARKETS env) s) unique
     in if unknown \<noteq> [] then Inl (''Unknown active market(s): '' @ js_join '', '' unknown)
        else if unique = [] then Inl ''NEXT_PUBLIC_ACTIVE_MARKETS must include at least one market''
        else Inr unique)"

definition active_markets :: "env \<Rightarrow> string list \<Rightarrow> (string, market_config) js_map" where
  "active_markets env syms =
     foldl (\<lambda>m s. case map_get (MARKETS env) s of None \<Rightarrow> m | Some c \<Rightarrow> map_set m s c) [] syms"

record config =
  NETWORK_cfg :: network
  CONTRACTS_cfg :: contracts
  ASSETS_cfg :: assets
  ACTIVE_MARKET_SYMBOLS :: "string list"
  ACTIVE_MARKETS :: "(string, market_config) js_map"
  DEFAULT_MARKET_SYMBOL :: string
  WS_URL :: string
  MATCHER_URL :: string
  INDEXER_URL :: string

text \<open>The exports of the module, in its order: assertions, constants, active markets.\<close>

definition load_config :: "env \<Rightarrow> string + config" where
  "load_config env =
    (case assert_all env mainnet_keys of Inl e \<Rightarrow> Inl e | Inr _ \<Rightarrow>
     (case parseActiveMarketSymbols env (env ''NEXT_PUBLIC_ACTIVE_MARKETS'') of Inl e \<Rightarrow> Inl e
      | Inr syms \<Rightarrow> Inr \<lparr>
          NETWORK_cfg = NETWORK env, CONTRACTS_cfg = CONTRACTS env, ASSETS_cfg = ASSETS env,
          ACTIVE_MARKET_SYMBOLS = syms, ACTIVE_MARKETS = active_markets env syms,
          DEFAULT_MARKET_SYMBOL = hd syms,
          WS_URL = env_or env ''NEXT_PUBLIC_WS_URL'' [],
          MATCHER_URL = env_or env ''NEXT_PUBLIC_MATCHER_URL'' [],
          INDEXER_URL = env_or env ''NEXT_PUBLIC_INDEXER_URL'' [] \<rparr>))"

subsection \<open>Facts the services rely on\<close>

lemma assert_all_ok:
  "assert_all env ks = Inr u \<Longrightarrow> IS_MAINNET env \<Longrightarrow> k \<in> set ks \<Longrightarrow> \<exists>v. env k = Some v \<and> v \<noteq> []"
proof (induction ks)
  case (Cons k' ks)
  then show ?case
    by (cases "env k'") (auto simp: assertPresentOnMainnet_def split: if_splits)
qed simp

lemma parseActive_ok:
  assumes "parseActiveMarketSymbols env raw = Inr syms"
  shows "syms \<noteq> [] \<and> distinct syms \<and> (\<forall>s \<in> set syms. map_has (MARKETS env) s)"
  using assms by (auto simp: parseActiveMarketSymbols_def Let_def filter_empty_conv split: if_splits)

lemma get_active_markets:
  assumes "\<forall>s \<in> set syms. map_has (MARKETS env) s"
  shows "map_get (active_markets env syms) s = (if s \<in> set syms then map_get (MARKETS env) s else None)"
proof -
  have "map_get (foldl (\<lambda>m s. case map_get (MARKETS env) s of None \<Rightarrow> m | Some c \<Rightarrow> map_set m s c) m syms) s
      = (if s \<in> set syms then map_get (MARKETS env) s else map_get m s)" for m
    using assms by (induction syms arbitrary: m) (auto simp: map_has_def map_get_set split: option.splits)
  then show ?thesis by (simp add: active_markets_def)
qed

text \<open>Ids of the active markets, as \<open>Object.values(ACTIVE_MARKETS).map((m) => m.marketId)\<close>.\<close>

definition market_ids :: "(string, market_config) js_map \<Rightarrow> int list" where
  "market_ids m = map (\<lambda>e. mc_marketId (snd e)) m"

text \<open>The configuration an empty environment gives: testnet, with XLM-PERP as the one market.\<close>

definition default_env :: env where "default_env = (\<lambda>_. None)"

definition default_config :: config where
  "default_config = \<lparr>
     NETWORK_cfg = NETWORK default_env, CONTRACTS_cfg = CONTRACTS default_env, ASSETS_cfg = ASSETS default_env,
     ACTIVE_MARKET_SYMBOLS = [''XLM-PERP''], ACTIVE_MARKETS = active_markets default_env [''XLM-PERP''],
     DEFAULT_MARKET_SYMBOL = ''XLM-PERP'', WS_URL = [], MATCHER_URL = [], INDEXER_URL = [] \<rparr>"

lemma load_default: "load_config default_env = Inr default_config"
  by (simp add: load_config_def default_env_def mainnet_keys_def assertPresentOnMainnet_def IS_MAINNET_def
      STELLAR_NETWORK_def env_or_def parseActiveMarketSymbols_def Let_def js_trim_def is_space_def uniq_def
      toUpperCase_def upper_char_def map_has_def map_get_def MARKETS_def default_config_def)

lemma default_market_ids: "set (market_ids (ACTIVE_MARKETS default_config)) = {1}"
  by (simp add: default_config_def active_markets_def map_get_def MARKETS_def market_ids_def)

lemma default_market_list: "market_ids (ACTIVE_MARKETS default_config) = [1]"
  by (simp add: default_config_def active_markets_def map_get_def MARKETS_def market_ids_def)

end
