(* ===== verification/Js_Json.thy ===== *)
theory Js_Json
  imports Js_Runtime
begin

text \<open>
  Values that come out of \<open>JSON.parse\<close>, and the coercions the request handlers apply to them:
  property access on an unknown value, \<open>typeof\<close>, \<open>String(v)\<close>, \<open>Number(v)\<close>. A missing property is
  \<open>undefined\<close>, the \<open>None\<close> of an option. Objects have no own \<open>toString\<close> or \<open>valueOf\<close>.
\<close>

datatype json =
    JNull
  | JBool bool
  | JNum number
  | JStr string
  | JArr "json list"
  | JObj "(string \<times> json) list"

fun js_field :: "json \<Rightarrow> string \<Rightarrow> json option" where
  "js_field (JObj kvs) k = map_get kvs k"
| "js_field _ k = None"

text \<open>A value in a boolean context.\<close>

fun json_truthy :: "json option \<Rightarrow> bool" where
  "json_truthy None = False"
| "json_truthy (Some JNull) = False"
| "json_truthy (Some (JBool b)) = b"
| "json_truthy (Some (JNum x)) = js_truthy x"
| "json_truthy (Some (JStr s)) = (s \<noteq> [])"
| "json_truthy (Some (JArr _)) = True"
| "json_truthy (Some (JObj _)) = True"

subsection \<open>\<open>String(x)\<close> of a Number\<close>

definition pow10 :: "int \<Rightarrow> rat" where
  "pow10 k = (if 0 \<le> k then 10 ^ nat k else 1 / 10 ^ nat (- k))"

text \<open>The \<open>n\<close> with \<open>10 ^ (n - 1) \<le> x < 10 ^ n\<close>, for a positive \<open>x\<close>.\<close>

definition dec_expo :: "rat \<Rightarrow> int" where
  "dec_expo x = (if 1 \<le> x then int (length (show_nat (nat \<lfloor>x\<rfloor>)))
     else 1 - int (length (show_nat (nat (\<lceil>1 / x\<rceil> - 1)))))"

text \<open>
  The shortest decimal significand that rounds to \<open>x\<close>: the first \<open>k\<close> digits for which one of the two
  neighbours of the exact value does, the nearer one first. Seventeen digits always suffice.
\<close>

fun shortest_from :: "nat \<Rightarrow> nat \<Rightarrow> rat \<Rightarrow> int \<Rightarrow> int \<times> int" where
  "shortest_from 0 k x n = (\<lfloor>x / pow10 (n - int k)\<rfloor>, int k)"
| "shortest_from (Suc f) k x n =
     (let q = x / pow10 (n - int k); lo = \<lfloor>q\<rfloor>; hi = lo + 1;
          near = (if q - of_int lo \<le> of_int hi - q then lo else hi);
          far = (if near = lo then hi else lo)
      in if 0 < near \<and> fl (of_int near * pow10 (n - int k)) = x then (near, int k)
         else if 0 < far \<and> fl (of_int far * pow10 (n - int k)) = x then (far, int k)
         else shortest_from f (Suc k) x n)"

definition format_number :: "int \<Rightarrow> int \<Rightarrow> int \<Rightarrow> string" where
  "format_number s k n =
    (let ds = show_int s in
     if k \<le> n \<and> n \<le> 21 then ds @ replicate (nat (n - k)) (CHR ''0'')
     else if 0 < n \<and> n \<le> 21 then take (nat n) ds @ ''.'' @ drop (nat n) ds
     else if - 6 < n \<and> n \<le> 0 then ''0.'' @ replicate (nat (- n)) (CHR ''0'') @ ds
     else (let e = n - 1; es = (if e < 0 then ''-'' else ''+'') @ show_int \<bar>e\<bar> in
       if k = 1 then ds @ ''e'' @ es else take 1 ds @ ''.'' @ drop 1 ds @ ''e'' @ es))"

definition show_pos_number :: "rat \<Rightarrow> string" where
  "show_pos_number x =
    (let n = dec_expo x; (s, k) = shortest_from 17 1 x n
     in if s = 10 ^ nat k then format_number 1 1 (n + 1) else format_number s k n)"

fun js_number_to_string :: "number \<Rightarrow> string" where
  "js_number_to_string NaN = ''NaN''"
| "js_number_to_string PInf = ''Infinity''"
| "js_number_to_string NInf = ''-Infinity''"
| "js_number_to_string (Fin x) =
     (if x = 0 then ''0'' else if x < 0 then ''-'' @ show_pos_number (- x) else show_pos_number x)"

subsection \<open>\<open>String(v)\<close>\<close>

fun json_to_string :: "json \<Rightarrow> string" where
  "json_to_string JNull = ''null''"
| "json_to_string (JBool b) = (if b then ''true'' else ''false'')"
| "json_to_string (JNum x) = js_number_to_string x"
| "json_to_string (JStr s) = s"
| "json_to_string (JArr xs) = js_join '','' (map (\<lambda>x. if x = JNull then [] else json_to_string x) xs)"
| "json_to_string (JObj _) = ''[object Object]''"

text \<open>\<open>String(v ?? d)\<close> of a property.\<close>

fun nullish :: "json option \<Rightarrow> bool" where
  "nullish None = True"
| "nullish (Some j) = (j = JNull)"

definition json_or :: "json option \<Rightarrow> json \<Rightarrow> json" where
  "json_or v d = (if nullish v then d else the v)"

subsection \<open>\<open>Number(v)\<close>\<close>

definition radix_digit :: "char \<Rightarrow> int option" where
  "radix_digit c = (let n = of_char c :: int in
     if 48 \<le> n \<and> n \<le> 57 then Some (n - 48)
     else if 97 \<le> n \<and> n \<le> 102 then Some (n - 87)
     else if 65 \<le> n \<and> n \<le> 70 then Some (n - 55) else None)"

fun read_radix :: "int \<Rightarrow> string \<Rightarrow> int option" where
  "read_radix b [] = Some 0"
| "read_radix b (c # s) = (case (radix_digit c, read_radix b s) of
     (Some d, Some v) \<Rightarrow> if d < b then Some (d * b ^ length s + v) else None
   | _ \<Rightarrow> None)"

definition radix_literal :: "int \<Rightarrow> string \<Rightarrow> number" where
  "radix_literal b s = (if s = [] then NaN else
     (case read_radix b s of None \<Rightarrow> NaN | Some v \<Rightarrow> to_number (of_int v)))"

text \<open>An exponent part: nothing, or \<open>e\<close> with an optionally signed digit sequence.\<close>

definition read_exponent :: "string \<Rightarrow> int option" where
  "read_exponent s =
    (case s of [] \<Rightarrow> Some 0
     | c # r \<Rightarrow> if c = CHR ''e'' \<or> c = CHR ''E'' then
         (let (neg, ds) = (case r of [] \<Rightarrow> (False, []) | d # t \<Rightarrow>
            if d = CHR ''-'' then (True, t) else if d = CHR ''+'' then (False, t) else (False, r))
          in if all_digits ds then Some (if neg then - int (read_nat ds) else int (read_nat ds)) else None)
       else None)"

definition unsigned_decimal :: "string \<Rightarrow> rat option" where
  "unsigned_decimal s =
    (let ip = takeWhile is_digit s; r = dropWhile is_digit s;
         (fp, r') = (case r of [] \<Rightarrow> ([], []) | c # t \<Rightarrow>
            if c = CHR ''.'' then (takeWhile is_digit t, dropWhile is_digit t) else ([], r))
     in if ip = [] \<and> fp = [] then None
        else map_option (\<lambda>e. of_nat (read_nat (ip @ fp)) * pow10 (e - int (length fp))) (read_exponent r'))"

definition string_to_number :: "string \<Rightarrow> number" where
  "string_to_number s0 =
    (let s = js_trim s0 in
     if s = [] then Fin 0
     else if take 2 s \<in> {''0x'', ''0X''} then radix_literal 16 (drop 2 s)
     else if take 2 s \<in> {''0o'', ''0O''} then radix_literal 8 (drop 2 s)
     else if take 2 s \<in> {''0b'', ''0B''} then radix_literal 2 (drop 2 s)
     else (let neg = (hd s = CHR ''-''); u = (if hd s \<in> {CHR ''-'', CHR ''+''} then tl s else s) in
       if u = ''Infinity'' then js_inf (\<not> neg)
       else (case unsigned_decimal u of None \<Rightarrow> NaN
         | Some v \<Rightarrow> to_number (if neg then - v else v))))"

fun json_to_number :: "json option \<Rightarrow> number" where
  "json_to_number None = NaN"
| "json_to_number (Some JNull) = Fin 0"
| "json_to_number (Some (JBool b)) = Fin (if b then 1 else 0)"
| "json_to_number (Some (JNum x)) = x"
| "json_to_number (Some (JStr s)) = string_to_number s"
| "json_to_number (Some (JArr xs)) = string_to_number (json_to_string (JArr xs))"
| "json_to_number (Some (JObj _)) = NaN"

text \<open>\<open>Number.isInteger(x)\<close>, and the integer it then denotes.\<close>

definition number_int :: "number \<Rightarrow> int option" where
  "number_int x = bigint_of_number x"

lemma number_int_Fin: "number_int (Fin (of_int n)) = Some n"
  by (simp add: number_int_def)

lemma number_int_Some: "number_int x = Some n \<longleftrightarrow> x = Fin (of_int n)"
  by (cases x) (auto simp: number_int_def)

end
