(* ===== verification/Order_Messages.thy ===== *)
theory Order_Messages
  imports Kryon_Config Js_Json
begin

text \<open>
  Order intents and the texts that wallets sign: \<open>client/lib/market/order-intent.ts\<close>,
  \<open>signing-message.ts\<close> and \<open>signed-intent.ts\<close>. The Stellar SDK (address codec, ed25519) and the
  SHA-256 and base64 routines are not part of the repository: they are the fields of \<open>crypto\<close>, an
  argument of the definitions that use them. A \<open>None\<close> is an exception of the SDK.
\<close>

type_synonym bytes = "int list"

record crypto =
  isValidEd25519PublicKey :: "string \<Rightarrow> bool"
  decodeEd25519PublicKey :: "string \<Rightarrow> bytes option"
  keypairVerify :: "string \<Rightarrow> bytes \<Rightarrow> bytes \<Rightarrow> bool option"
  sha256 :: "bytes \<Rightarrow> bytes"
  base64_bytes :: "string \<Rightarrow> bytes"

subsection \<open>Order intents\<close>

record order_intent =
  owner :: string
  marketId :: int
  isLong :: bool
  size :: int
  limitPrice :: int
  reduceOnly :: bool
  nonce :: int
  expiryTs :: int

text \<open>\<open>buildOrderIntent\<close>; \<open>now\<close> is \<open>Date.now()\<close> in milliseconds.\<close>

definition buildOrderIntent ::
    "int \<Rightarrow> string \<Rightarrow> int \<Rightarrow> bool \<Rightarrow> int \<Rightarrow> int \<Rightarrow> bool option \<Rightarrow> int option \<Rightarrow> order_intent" where
  "buildOrderIntent now own mkt long sz limit reduce ttl = \<lparr>
     owner = own, marketId = mkt, isLong = long, size = sz, limitPrice = limit,
     reduceOnly = (case reduce of None \<Rightarrow> False | Some b \<Rightarrow> b),
     nonce = now,
     expiryTs = now div 1000 + (case ttl of None \<Rightarrow> 300 | Some t \<Rightarrow> t) \<rparr>"

text \<open>\<open>SignedOrderPayload\<close> without its signature: the wire form, BigInts in decimal.\<close>

record order_payload =
  p_owner :: string
  p_market_id :: int
  p_is_long :: bool
  p_size :: string
  p_limit_price :: string
  p_reduce_only :: bool
  p_nonce :: string
  p_expiry_ts :: string

definition orderIntentToJson :: "order_intent \<Rightarrow> order_payload" where
  "orderIntentToJson o' = \<lparr>
     p_owner = owner o', p_market_id = marketId o', p_is_long = isLong o',
     p_size = show_int (size o'), p_limit_price = show_int (limitPrice o'),
     p_reduce_only = reduceOnly o', p_nonce = show_int (nonce o'),
     p_expiry_ts = show_int (expiryTs o') \<rparr>"

subsection \<open>Signing messages\<close>

definition APP_DOMAIN :: string where "APP_DOMAIN = ''kryon.perps''"
definition MAX_U64 :: int where "MAX_U64 = 2 ^ 64 - 1"

definition assertU64 :: "int \<Rightarrow> bool" where
  "assertU64 n \<longleftrightarrow> 0 \<le> n \<and> n \<le> MAX_U64"

definition show_bool :: "bool \<Rightarrow> string" where
  "show_bool b = (if b then ''true'' else ''false'')"

definition NL :: char where "NL = CHR 0x0A"

definition canonicalPairs :: "(string \<times> string) list \<Rightarrow> string" where
  "canonicalPairs pairs = js_join [NL] (map (\<lambda>(k, v). k @ ''='' @ v) pairs)"

text \<open>\<open>orderSigningMessage\<close> reads either form of an order.\<close>

definition orderSigningMessage :: "string \<Rightarrow> order_intent + order_payload \<Rightarrow> string" where
  "orderSigningMessage pass o' =
    (let p = (case o' of Inl i \<Rightarrow> orderIntentToJson i | Inr p \<Rightarrow> p) in
     canonicalPairs
      [(''domain'', APP_DOMAIN), (''action'', ''place_order''), (''network'', pass),
       (''owner'', p_owner p), (''market_id'', show_int (p_market_id p)),
       (''is_long'', show_bool (p_is_long p)), (''size'', p_size p),
       (''limit_price'', p_limit_price p), (''reduce_only'', show_bool (p_reduce_only p)),
       (''nonce'', p_nonce p), (''expiry_ts'', p_expiry_ts p)])"

definition hex_digit :: "int \<Rightarrow> char" where
  "hex_digit d = (if d < 10 then char_of (48 + d) else char_of (87 + d))"

definition toHex :: "bytes \<Rightarrow> string" where
  "toHex bs = concat (map (\<lambda>b. [hex_digit (b div 16), hex_digit (b mod 16)]) bs)"

definition pubkeyHexFromAddress :: "crypto \<Rightarrow> string \<Rightarrow> string option" where
  "pubkeyHexFromAddress c a = map_option toHex (decodeEd25519PublicKey c a)"

text \<open>The text a wallet signs for settlement, fields separated by a bar.\<close>

definition order_settlement_fields :: "string \<Rightarrow> string \<Rightarrow> order_payload \<Rightarrow> string list" where
  "order_settlement_fields domain pubkeyHex p =
    [domain, ''place_order'', pubkeyHex, show_int (p_market_id p),
     (if p_is_long p then ''1'' else ''0''), p_size p, p_limit_price p,
     (if p_reduce_only p then ''1'' else ''0''), p_nonce p, p_expiry_ts p]"

definition orderSettlementMessage :: "string \<Rightarrow> string \<Rightarrow> order_payload \<Rightarrow> string" where
  "orderSettlementMessage domain pubkeyHex p = js_join ''|'' (order_settlement_fields domain pubkeyHex p)"

definition cancelSigningMessage :: "string \<Rightarrow> string \<Rightarrow> string \<Rightarrow> string" where
  "cancelSigningMessage pass own nonceStr =
     canonicalPairs [(''domain'', APP_DOMAIN), (''action'', ''cancel_order''), (''network'', pass),
       (''owner'', own), (''nonce'', nonceStr)]"

subsection \<open>Signature verification\<close>

definition SEP53_PREFIX :: string where
  "SEP53_PREFIX = ''Stellar Signed Message:'' @ [NL]"

text \<open>UTF-8 of a code unit below 256, and of a string of them.\<close>

definition utf8_char :: "char \<Rightarrow> bytes" where
  "utf8_char c = (let n = of_char c :: int in if n < 128 then [n] else [192 + n div 64, 128 + n mod 64])"

definition utf8 :: "string \<Rightarrow> bytes" where
  "utf8 s = concat (map utf8_char s)"

definition is_hex :: "char \<Rightarrow> bool" where
  "is_hex c \<longleftrightarrow> radix_digit c \<noteq> None"

fun hex_bytes :: "string \<Rightarrow> bytes" where
  "hex_bytes (a # b # s) =
     (case (radix_digit a, radix_digit b) of (Some x, Some y) \<Rightarrow> (16 * x + y) # hex_bytes s | _ \<Rightarrow> [])"
| "hex_bytes _ = []"

definition decodeSignature :: "crypto \<Rightarrow> string \<Rightarrow> bytes" where
  "decodeSignature c sig = (let s = js_trim sig in
     if length s = 128 \<and> list_all is_hex s then hex_bytes s else base64_bytes c s)"

definition verifySignedMessage :: "crypto \<Rightarrow> string \<Rightarrow> string \<Rightarrow> string \<Rightarrow> bool" where
  "verifySignedMessage c own message signature =
    (let sig = decodeSignature c signature in
     if length sig \<noteq> 64 then False
     else (case keypairVerify c own (sha256 c (utf8 SEP53_PREFIX @ utf8 message)) sig of
       None \<Rightarrow> False | Some ok \<Rightarrow> ok))"

subsection \<open>The signed texts determine what is signed\<close>

text \<open>Characters that cannot occur in the printed fields.\<close>

lemma show_int_no_bar [simp]: "CHR ''|'' \<notin> set (show_int z)"
  by (auto dest!: show_int_chars simp: is_digit_def)

lemma show_int_no_NL [simp]: "NL \<notin> set (show_int z)"
  by (auto dest!: show_int_chars simp: is_digit_def NL_def)

definition byte_list :: "bytes \<Rightarrow> bool" where
  "byte_list bs \<longleftrightarrow> list_all (\<lambda>b. 0 \<le> b \<and> b < 256) bs"

lemma of_char_hex_digit: "0 \<le> d \<Longrightarrow> d < 16 \<Longrightarrow> of_char (hex_digit d) = (if d < 10 then 48 + d else 87 + d)"
  by (simp add: hex_digit_def)

lemma hex_digit_inject:
  assumes "0 \<le> a" "a < 16" "0 \<le> b" "b < 16" and "hex_digit a = hex_digit b"
  shows "a = b"
proof -
  have "(of_char (hex_digit a) :: int) = of_char (hex_digit b)" using assms(5) by simp
  then show ?thesis
    unfolding of_char_hex_digit [OF assms(1,2)] of_char_hex_digit [OF assms(3,4)]
    using assms(1-4) by (simp split: if_splits)
qed

lemma toHex_inject:
  assumes "byte_list as" and "byte_list bs" and "toHex as = toHex bs"
  shows "as = bs"
  using assms
proof (induction as arbitrary: bs)
  case Nil
  then show ?case by (cases bs) (auto simp: toHex_def)
next
  case (Cons a as)
  then obtain b bs' where bs: "bs = b # bs'" by (cases bs) (auto simp: toHex_def)
  have "a div 16 = b div 16" "a mod 16 = b mod 16"
    using Cons.prems by (auto simp: bs toHex_def byte_list_def intro!: hex_digit_inject)
  then have "a = b" by (metis mult_div_mod_eq)
  moreover have "as = bs'" using Cons by (auto simp: bs toHex_def byte_list_def)
  ultimately show ?case by (simp add: bs)
qed

lemma toHex_chars:
  assumes "byte_list bs" and "c \<in> set (toHex bs)"
  shows "c \<noteq> CHR ''|'' \<and> c \<noteq> NL"
proof -
  obtain b where b: "b \<in> set bs" "c = hex_digit (b div 16) \<or> c = hex_digit (b mod 16)"
    using assms(2) by (auto simp: toHex_def)
  have r: "0 \<le> b" "b < 256" using assms(1) b(1) by (auto simp: byte_list_def list_all_iff)
  have "\<exists>d \<in> {b div 16, b mod 16}. c = hex_digit d" using b(2) by blast
  moreover have "\<forall>d \<in> {b div 16, b mod 16}. 0 \<le> d \<and> d < 16" using r by auto
  ultimately obtain d where d: "0 \<le> d" "d < 16" "c = hex_digit d" by blast
  then show ?thesis using of_char_hex_digit [OF d(1,2)] by (auto simp: NL_def split: if_splits)
qed

lemma settlement_fields_no_bar:
  assumes "CHR ''|'' \<notin> set domain" and "byte_list key"
  shows "\<forall>f \<in> set (order_settlement_fields domain (toHex key) (orderIntentToJson o')). CHR ''|'' \<notin> set f"
  using assms toHex_chars [OF assms(2)] by (auto simp: order_settlement_fields_def orderIntentToJson_def)

lemma js_join_chars: "c \<in> set (js_join sep ps) \<Longrightarrow> c \<in> set sep \<or> (\<exists>p \<in> set ps. c \<in> set p)"
  by (induction sep ps rule: js_join.induct) auto

lemma settlement_fields_no_NL:
  assumes "NL \<notin> set domain" and "byte_list key"
  shows "\<forall>f \<in> set (order_settlement_fields domain (toHex key) (orderIntentToJson o')). NL \<notin> set f"
proof -
  have "NL \<notin> set ''place_order''" "NL \<notin> set ''1''" "NL \<notin> set ''0''" by (simp_all add: NL_def)
  moreover have "NL \<notin> set (toHex key)" using toHex_chars [OF assms(2)] by blast
  ultimately show ?thesis using assms(1) by (simp add: order_settlement_fields_def orderIntentToJson_def)
qed

lemma settlement_message_no_NL:
  assumes "NL \<notin> set domain" and "byte_list key"
  shows "NL \<notin> set (orderSettlementMessage domain (toHex key) (orderIntentToJson o'))"
proof
  assume "NL \<in> set (orderSettlementMessage domain (toHex key) (orderIntentToJson o'))"
  then have "NL \<in> set ''|'' \<or>
      (\<exists>f \<in> set (order_settlement_fields domain (toHex key) (orderIntentToJson o')). NL \<in> set f)"
    unfolding orderSettlementMessage_def by (rule js_join_chars)
  moreover have "NL \<notin> set ''|''" by (simp add: NL_def)
  ultimately show False using settlement_fields_no_NL [OF assms] by blast
qed

lemma cancel_message_NL: "NL \<in> set (cancelSigningMessage pass own n)"
  by (simp add: cancelSigningMessage_def canonicalPairs_def)

text \<open>
  C38. The settlement text determines the order: when two intents, signed under domains without a bar
  and by keys given as byte lists, yield the same text, then the domain, the key and every order
  field but the address (which the key stands for) are the same. A signature over one order can
  therefore not be replayed for an order with another size, price, side, nonce or expiry.
\<close>

theorem settlement_message_binds_order:
  assumes "CHR ''|'' \<notin> set d" and "CHR ''|'' \<notin> set d'" and "byte_list k" and "byte_list k'"
    and "orderSettlementMessage d (toHex k) (orderIntentToJson a)
       = orderSettlementMessage d' (toHex k') (orderIntentToJson b)"
  shows "d = d' \<and> k = k' \<and> a\<lparr>owner := owner b\<rparr> = b"
proof -
  have "order_settlement_fields d (toHex k) (orderIntentToJson a)
      = order_settlement_fields d' (toHex k') (orderIntentToJson b)"
    using assms(5) settlement_fields_no_bar assms(1-4) unfolding orderSettlementMessage_def
    by (intro js_join_inject [of "CHR ''|''"]) (auto simp: order_settlement_fields_def)
  then have eqs: "d = d'" "toHex k = toHex k'" "marketId a = marketId b" "isLong a = isLong b"
      "size a = size b" "limitPrice a = limitPrice b" "reduceOnly a = reduceOnly b"
      "nonce a = nonce b" "expiryTs a = expiryTs b"
    by (auto simp: order_settlement_fields_def orderIntentToJson_def dest: show_int_inject split: if_splits)
  then show ?thesis using toHex_inject [OF assms(3,4)] by simp
qed

theorem settlement_message_binds_order_witness:
  "\<exists>a b. orderSettlementMessage ''Test'' (toHex [1, 255]) (orderIntentToJson a)
        = orderSettlementMessage ''Test'' (toHex [1, 255]) (orderIntentToJson b)
     \<and> a \<noteq> b \<and> ''Test'' = ''Test'' \<and> a\<lparr>owner := owner b\<rparr> = b"
proof -
  let ?a = "\<lparr> owner = ''GA'', marketId = 1, isLong = True, size = 10, limitPrice = 5,
      reduceOnly = False, nonce = 7, expiryTs = 9 \<rparr> :: order_intent"
  let ?b = "?a\<lparr> owner := ''GB'' \<rparr>"
  have m: "orderSettlementMessage ''Test'' (toHex [1, 255]) (orderIntentToJson ?a)
         = orderSettlementMessage ''Test'' (toHex [1, 255]) (orderIntentToJson ?b)"
    by (simp add: orderSettlementMessage_def order_settlement_fields_def orderIntentToJson_def)
  have "?a\<lparr>owner := owner ?b\<rparr> = ?b"
    using settlement_message_binds_order [OF _ _ _ _ m] by (simp add: byte_list_def)
  moreover have "?a \<noteq> ?b" by simp
  ultimately show ?thesis using m by blast
qed

text \<open>
  The two kinds of signed text never coincide: an order's settlement text has no line break (when
  the network passphrase has none), a cancel text always has one. A signature given for an order is
  never a signature for a cancellation, and conversely.
\<close>

theorem order_and_cancel_texts_differ:
  assumes "NL \<notin> set domain" and "byte_list key"
  shows "orderSettlementMessage domain (toHex key) (orderIntentToJson o')
       \<noteq> cancelSigningMessage pass own nonceStr"
  using settlement_message_no_NL [OF assms, of o'] cancel_message_NL [of pass own nonceStr] by metis

theorem order_and_cancel_texts_differ_witness:
  "orderSettlementMessage ''Test'' (toHex [7])
     (orderIntentToJson \<lparr> owner = ''GA'', marketId = 1, isLong = True, size = 10, limitPrice = 5,
        reduceOnly = False, nonce = 7, expiryTs = 9 \<rparr>)
   \<noteq> cancelSigningMessage ''Test'' ''GA'' ''7''"
  by (rule order_and_cancel_texts_differ) (simp_all add: NL_def byte_list_def)

text \<open>
  A cancel text determines the owner and the nonce it cancels, for owners without line breaks.
\<close>

theorem cancel_message_binds_nonce:
  assumes "NL \<notin> set pass" and "NL \<notin> set own" and "NL \<notin> set own'"
    and "cancelSigningMessage pass own (show_int n) = cancelSigningMessage pass own' (show_int n')"
  shows "own = own' \<and> n = n'"
proof -
  let ?f = "\<lambda>w k. map (\<lambda>(k, v). k @ ''='' @ v)
      [(''domain'', APP_DOMAIN), (''action'', ''cancel_order''), (''network'', pass), (''owner'', w), (''nonce'', show_int k)]"
  have "?f own n = ?f own' n'"
    using assms unfolding cancelSigningMessage_def canonicalPairs_def
    by (intro js_join_inject [of NL]) (auto simp: NL_def APP_DOMAIN_def show_int_no_NL [unfolded NL_def])
  then show ?thesis by (auto dest: show_int_inject)
qed

theorem cancel_message_binds_nonce_witness:
  "cancelSigningMessage ''Test'' ''GA'' (show_int 7) = cancelSigningMessage ''Test'' ''GA'' (show_int (3 + 4))
     \<and> (''GA'' = ''GA'' \<and> (7::int) = 3 + 4)"
proof
  show m: "cancelSigningMessage ''Test'' ''GA'' (show_int 7) = cancelSigningMessage ''Test'' ''GA'' (show_int (3 + 4))"
    by simp
  show "''GA'' = ''GA'' \<and> (7::int) = 3 + 4"
    by (rule cancel_message_binds_nonce [OF _ _ _ m]) (simp_all add: NL_def)
qed

end
