(* ===== verification/Matching_Engine.thy ===== *)
theory Matching_Engine
  imports Order_Messages
begin

text \<open>
  The matching pass of \<open>client/scripts/matcher-service.ts\<close> (\<open>matchAll\<close>): market orders against the
  resting limit book, then limit orders against each other in price-time priority, with one map of
  pending fills shared by both passes. A match is between two orders of the lists given; the fill
  price is the maker's limit price.
\<close>

record resting_order = order_intent +
  oid :: string
  filledSize :: int
  createdAt :: int
  signature :: "string option"

record match_result =
  maker :: resting_order
  taker :: resting_order
  fillSize :: int
  fillPrice :: int

subsection \<open>Pending fills\<close>

type_synonym pending = "(string, int) js_map"

definition pending_count :: "pending \<Rightarrow> string \<Rightarrow> int" where
  "pending_count m k = (case map_get m k of None \<Rightarrow> 0 | Some v \<Rightarrow> v)"

definition pending_add :: "pending \<Rightarrow> string \<Rightarrow> int \<Rightarrow> pending" where
  "pending_add m k d = map_set m k (pending_count m k + d)"

interpretation pend: js_counter "[]" map_get map_set map_delete map_inv pending_count pending_add
  by unfold_locales (simp_all add: pending_count_def pending_add_def)

definition remaining :: "pending \<Rightarrow> resting_order \<Rightarrow> int" where
  "remaining pf o' = size o' - filledSize o' - pending_count pf (oid o')"

subsection \<open>The two passes\<close>

type_synonym match_state = "pending \<times> match_result list"

text \<open>\<open>add(a.id, n); add(b.id, n); results.push(m)\<close>\<close>

definition push_match :: "resting_order \<Rightarrow> resting_order \<Rightarrow> match_result \<Rightarrow> match_state \<Rightarrow> match_state" where
  "push_match a b m st =
     (pending_add (pending_add (fst st) (oid a) (fillSize m)) (oid b) (fillSize m), snd st @ [m])"

text \<open>One market order \<open>mo\<close> against a side of the book, best price first.\<close>

fun market_inner :: "resting_order \<Rightarrow> resting_order list \<Rightarrow> match_state \<Rightarrow> match_state" where
  "market_inner mo [] st = st"
| "market_inner mo (r # rs) st =
    (if owner r = owner mo then market_inner mo rs st
     else let rRem = remaining (fst st) r; moRem = remaining (fst st) mo in
       if rRem \<le> 0 \<or> moRem \<le> 0 then market_inner mo rs st
       else let n = (if rRem < moRem then rRem else moRem);
                st' = push_match r mo \<lparr> maker = r, taker = mo, fillSize = n, fillPrice = limitPrice r \<rparr> st
            in if remaining (fst st') mo \<le> 0 then st' else market_inner mo rs st')"

definition market_pass :: "resting_order list \<Rightarrow> resting_order list \<Rightarrow> match_state \<Rightarrow> match_state" where
  "market_pass mos side st = foldl (\<lambda>s mo. market_inner mo side s) st mos"

text \<open>One limit bid against the asks, lowest price first; the older order is the maker.\<close>

definition limit_match :: "resting_order \<Rightarrow> resting_order \<Rightarrow> int \<Rightarrow> match_result" where
  "limit_match bid ask n =
    (let makerFirst = createdAt bid \<le> createdAt ask;
         mk = (if makerFirst then bid else ask); tk = (if makerFirst then ask else bid)
     in \<lparr> maker = mk, taker = tk, fillSize = n, fillPrice = limitPrice mk \<rparr>)"

fun limit_inner :: "resting_order \<Rightarrow> resting_order list \<Rightarrow> match_state \<Rightarrow> match_state" where
  "limit_inner bid [] st = st"
| "limit_inner bid (ask # asks) st =
    (if owner bid = owner ask then limit_inner bid asks st
     else if limitPrice bid < limitPrice ask then st
     else let bidRem = remaining (fst st) bid; askRem = remaining (fst st) ask in
       if bidRem \<le> 0 \<or> askRem \<le> 0 then limit_inner bid asks st
       else let n = (if bidRem < askRem then bidRem else askRem);
                st' = push_match bid ask (limit_match bid ask n) st
            in if remaining (fst st') bid \<le> 0 then st' else limit_inner bid asks st')"

definition limit_pass :: "resting_order list \<Rightarrow> resting_order list \<Rightarrow> match_state \<Rightarrow> match_state" where
  "limit_pass bids asks st = foldl (\<lambda>s bid. limit_inner bid asks s) st bids"

text \<open>The comparators: a difference of prices as a Number, and where it is zero the time difference.\<close>

definition cmp_bids :: "resting_order \<Rightarrow> resting_order \<Rightarrow> int" where
  "cmp_bids a b = (let d = number_of_bigint (limitPrice b - limitPrice a) in
     if js_truthy d then js_sign d else sgn (createdAt a - createdAt b))"

definition cmp_asks :: "resting_order \<Rightarrow> resting_order \<Rightarrow> int" where
  "cmp_asks a b = (let d = number_of_bigint (limitPrice a - limitPrice b) in
     if js_truthy d then js_sign d else sgn (createdAt a - createdAt b))"

definition limitBids :: "resting_order list \<Rightarrow> resting_order list" where
  "limitBids ls = js_sort cmp_bids (filter isLong ls)"

definition limitAsks :: "resting_order list \<Rightarrow> resting_order list" where
  "limitAsks ls = js_sort cmp_asks (filter (\<lambda>o'. \<not> isLong o') ls)"

definition match_state_of :: "resting_order list \<Rightarrow> resting_order list \<Rightarrow> match_state" where
  "match_state_of limitOrders marketOrders =
    (let bids = limitBids limitOrders; asks = limitAsks limitOrders;
         s1 = market_pass (filter (\<lambda>o'. \<not> isLong o') marketOrders) bids ([], []);
         s2 = market_pass (filter isLong marketOrders) asks s1
     in limit_pass bids asks s2)"

definition matchAll :: "resting_order list \<Rightarrow> resting_order list \<Rightarrow> match_result list" where
  "matchAll limitOrders marketOrders = snd (match_state_of limitOrders marketOrders)"

subsection \<open>Order of the book\<close>

definition better_bid :: "resting_order \<Rightarrow> resting_order \<Rightarrow> bool" where
  "better_bid a b \<longleftrightarrow> limitPrice b < limitPrice a \<or> (limitPrice a = limitPrice b \<and> createdAt a < createdAt b)"

definition better_ask :: "resting_order \<Rightarrow> resting_order \<Rightarrow> bool" where
  "better_ask a b \<longleftrightarrow> limitPrice a < limitPrice b \<or> (limitPrice a = limitPrice b \<and> createdAt a < createdAt b)"

lemma cmp_bids_le: "cmp_bids a b \<le> 0 \<longleftrightarrow> \<not> better_bid b a"
  by (auto simp: cmp_bids_def better_bid_def Let_def sgn_if)

lemma cmp_asks_le: "cmp_asks a b \<le> 0 \<longleftrightarrow> \<not> better_ask b a"
  by (auto simp: cmp_asks_def better_ask_def Let_def sgn_if)

lemma cmp_ok_bids: "cmp_ok cmp_bids"
  unfolding cmp_ok_def cmp_bids_le by (auto simp: better_bid_def)

lemma cmp_ok_asks: "cmp_ok cmp_asks"
  unfolding cmp_ok_def cmp_asks_le by (auto simp: better_ask_def)

lemma set_limitBids [simp]: "set (limitBids ls) = {o' \<in> set ls. isLong o'}"
  by (auto simp: limitBids_def js_sorting.in_set)

lemma set_limitAsks [simp]: "set (limitAsks ls) = {o' \<in> set ls. \<not> isLong o'}"
  by (auto simp: limitAsks_def js_sorting.in_set)

lemma sorted_limitBids: "sorted_wrt (\<lambda>a b. \<not> better_bid b a) (limitBids ls)"
  using js_sorting.ordered [OF cmp_ok_bids] by (simp add: limitBids_def cmp_bids_le)

lemma sorted_limitAsks: "sorted_wrt (\<lambda>a b. \<not> better_ask b a) (limitAsks ls)"
  using js_sorting.ordered [OF cmp_ok_asks] by (simp add: limitAsks_def cmp_asks_le)

end
