(* ===== verification/Exchange_Db.thy ===== *)
theory Exchange_Db
  imports Matching_Engine
begin

text \<open>
  The rows the services keep in PostgreSQL (\<open>kryon-protocol/prisma/schema.prisma\<close>), as far as the
  modelled statements read or write them. A numeric text column, always written as the decimal text
  of a BigInt, is the integer it denotes; \<open>unsignedXdr\<close> holds JSON text and is its value (\<open>None\<close>: text
  that does not parse). Timestamps are milliseconds.
\<close>

record order_row = resting_order +
  cancelled :: bool

record fill_row =
  f_network :: string
  f_marketId :: int
  f_maker :: string
  f_makerNonce :: int
  f_taker :: string
  f_takerNonce :: int
  f_size :: int
  f_price :: int
  f_txHash :: string
  f_ledger :: int
  f_createdAt :: int

record market_row =
  m_id :: int
  m_lastPrice :: int
  m_volume :: int
  m_lastOraclePrice :: int

datatype tx_status = QUEUED | SUBMITTED | CONFIRMED | FAILED

record tx_job =
  j_id :: int
  j_network :: string
  j_kind :: string
  j_payloadHash :: string
  j_unsignedXdr :: "json option"
  j_status :: tx_status
  j_submittedHash :: "string option"
  j_lastError :: "string option"
  j_createdAt :: int
  j_updatedAt :: int

record account_row =
  a_address :: string
  a_createdAt :: int

record database =
  db_orders :: "order_row list"
  db_fills :: "fill_row list"
  db_markets :: "market_row list"
  db_jobs :: "tx_job list"
  db_accounts :: "account_row list"

subsection \<open>Integrity of the order table\<close>

text \<open>
  What the services rely on: the identifier of an order is \<open>owner:nonce\<close> and is a key, and no order
  is filled beyond its size.
\<close>

definition order_id :: "string \<Rightarrow> int \<Rightarrow> string" where
  "order_id own n = own @ '':'' @ show_int n"

definition order_fill_ok :: "'a resting_order_scheme \<Rightarrow> bool" where
  "order_fill_ok r \<longleftrightarrow> 0 \<le> filledSize r \<and> filledSize r \<le> size r"

definition orders_ok :: "order_row list \<Rightarrow> bool" where
  "orders_ok t \<longleftrightarrow> distinct (map oid t) \<and> (\<forall>r \<in> set t. order_fill_ok r)"

lemma orders_ok_update:
  assumes "orders_ok t" and "\<And>r. P r \<Longrightarrow> oid (f r) = oid r"
    and "\<And>r. r \<in> set t \<Longrightarrow> P r \<Longrightarrow> order_fill_ok r \<Longrightarrow> order_fill_ok (f r)"
  shows "orders_ok (update_where P f t)"
  using assms unfolding orders_ok_def
  by (auto simp: map_update_where set_update_where)

lemma orders_ok_Nil [simp]: "orders_ok []"
  by (simp add: orders_ok_def)

text \<open>The updates of \<open>filledSize\<close> that every fill writer issues.\<close>

definition add_filled :: "int \<Rightarrow> order_row \<Rightarrow> order_row" where
  "add_filled n r = r\<lparr> filledSize := filledSize r + n \<rparr>"

definition sub_filled :: "int \<Rightarrow> order_row \<Rightarrow> order_row" where
  "sub_filled n r = r\<lparr> filledSize := max 0 (filledSize r - n) \<rparr>"

lemma add_filled_sel [simp]:
  "oid (add_filled n r) = oid r" "owner (add_filled n r) = owner r" "nonce (add_filled n r) = nonce r"
  "size (add_filled n r) = size r" "filledSize (add_filled n r) = filledSize r + n"
  "cancelled (add_filled n r) = cancelled r"
  by (simp_all add: add_filled_def)

lemma sub_filled_sel [simp]:
  "oid (sub_filled n r) = oid r" "owner (sub_filled n r) = owner r" "nonce (sub_filled n r) = nonce r"
  "size (sub_filled n r) = size r" "filledSize (sub_filled n r) = max 0 (filledSize r - n)"
  "cancelled (sub_filled n r) = cancelled r"
  by (simp_all add: sub_filled_def)

lemma order_fill_ok_add: "order_fill_ok r \<Longrightarrow> 0 \<le> n \<Longrightarrow> filledSize r + n \<le> size r \<Longrightarrow> order_fill_ok (add_filled n r)"
  by (simp add: order_fill_ok_def)

lemma order_fill_ok_sub: "order_fill_ok r \<Longrightarrow> 0 \<le> n \<Longrightarrow> order_fill_ok (sub_filled n r)"
  by (auto simp: order_fill_ok_def)

lemma sub_add_filled: "0 \<le> filledSize r \<Longrightarrow> sub_filled n (add_filled n r) = r"
  by (simp add: sub_filled_def add_filled_def)

lemma update_where_comp:
  assumes "\<And>r. P r \<Longrightarrow> Q (f r)" and "\<And>r. \<not> P r \<Longrightarrow> r \<in> set t \<Longrightarrow> \<not> Q r"
    and "\<And>r. r \<in> set t \<Longrightarrow> P r \<Longrightarrow> g (f r) = r"
  shows "update_where Q g (update_where P f t) = t"
  using assms by (induction t) auto

lemma order_id_inject:
  "CHR '':'' \<notin> set a \<Longrightarrow> CHR '':'' \<notin> set b \<Longrightarrow> order_id a n = order_id b m \<Longrightarrow> a = b \<and> n = m"
proof -
  assume ab: "CHR '':'' \<notin> set a" "CHR '':'' \<notin> set b" and eq: "order_id a n = order_id b m"
  have no: "CHR '':'' \<notin> set (show_int k)" for k
    using show_int_chars [of "CHR '':''" k] by (auto simp: is_digit_def)
  have "js_split CHR '':'' (order_id a n) = [a, show_int n]" "js_split CHR '':'' (order_id b m) = [b, show_int m]"
    using ab no by (simp_all add: order_id_def js_split_append js_split_plain)
  then show "a = b \<and> n = m" using eq show_int_inject by simp
qed

end
