(* ===== verification/Order_Validation.thy ===== *)
theory Order_Validation
  imports Order_Messages
begin

text \<open>
  \<open>client/lib/validation.ts\<close>: the checks an order body passes before it reaches the database, in the
  order of the code, as a function of the configuration, the signature library and the clock
  (\<open>now\<close>, in milliseconds). The outcome is the accepted order, a rejection with its message, or an
  exception of the address decoder.
\<close>

definition MAX_SIZE :: int where "MAX_SIZE = 1000000000 * AMOUNT_PRECISION"
definition MAX_PRICE :: int where "MAX_PRICE = 10000000 * PRICE_PRECISION"
definition MAX_TTL_SECONDS :: int where "MAX_TTL_SECONDS = 7 * 24 * 3600"
definition MIN_TTL_SECONDS :: int where "MIN_TTL_SECONDS = 5"

datatype validation = Accepted order_intent | Rejected string | Thrown

definition parseBigInt :: "json option \<Rightarrow> int option" where
  "parseBigInt v =
    (let parse = (\<lambda>t. let s = js_trim t in if signed_digits s then Some (read_int s) else None) in
     case v of
       Some (JStr t) \<Rightarrow> parse t
     | Some (JNum x) \<Rightarrow> parse (js_number_to_string x)
     | _ \<Rightarrow> None)"

definition valid_market_ids :: "config \<Rightarrow> int set" where
  "valid_market_ids cfg = set (market_ids (ACTIVE_MARKETS cfg))"

fun is_object :: "json \<Rightarrow> bool" where
  "is_object (JObj _) = True"
| "is_object (JArr _) = True"
| "is_object _ = False"

text \<open>The last checks: signature present, and valid for the text of the parsed order.\<close>

definition check_signature :: "crypto \<Rightarrow> config \<Rightarrow> json option \<Rightarrow> order_intent \<Rightarrow> validation" where
  "check_signature c cfg sigv o' =
    (case sigv of
       Some (JStr sig) \<Rightarrow>
         if 256 < length sig then Rejected ''Missing order signature''
         else (case pubkeyHexFromAddress c (owner o') of
             None \<Rightarrow> Thrown
           | Some hex \<Rightarrow>
               if verifySignedMessage c (owner o')
                    (orderSettlementMessage (passphrase (NETWORK_cfg cfg)) hex (orderIntentToJson o')) sig
               then Accepted o' else Rejected ''Invalid order signature'')
     | _ \<Rightarrow> Rejected ''Missing order signature'')"

definition check_expiry :: "int \<Rightarrow> json option \<Rightarrow> string + int" where
  "check_expiry now v =
    (case parseBigInt v of
       None \<Rightarrow> Inl ''expiry_ts must be a uint64 integer''
     | Some e \<Rightarrow>
         if \<not> assertU64 e then Inl ''expiry_ts must be a uint64 integer''
         else if e \<le> now div 1000 + MIN_TTL_SECONDS then Inl ''expiry_ts is too soon''
         else if now div 1000 + MAX_TTL_SECONDS < e then Inl ''expiry_ts too far in the future''
         else Inr e)"

definition check_amounts :: "json \<Rightarrow> string + (int \<times> int \<times> int)" where
  "check_amounts b =
    (case parseBigInt (js_field b ''size'') of
       None \<Rightarrow> Inl ''size must be a positive integer''
     | Some sz \<Rightarrow> if sz \<le> 0 then Inl ''size must be a positive integer''
       else if MAX_SIZE < sz then Inl ''size exceeds maximum''
       else (case parseBigInt (js_field b ''limit_price'') of
           None \<Rightarrow> Inl ''limit_price must be non-negative''
         | Some lp \<Rightarrow> if lp < 0 then Inl ''limit_price must be non-negative''
           else if MAX_PRICE < lp then Inl ''limit_price exceeds maximum''
           else (case parseBigInt (js_field b ''nonce'') of
               None \<Rightarrow> Inl ''nonce must be a uint64 integer''
             | Some n \<Rightarrow> if \<not> assertU64 n then Inl ''nonce must be a uint64 integer''
               else Inr (sz, lp, n))))"

definition validateOrderIntent :: "crypto \<Rightarrow> config \<Rightarrow> int \<Rightarrow> json \<Rightarrow> validation" where
  "validateOrderIntent c cfg now b =
    (if \<not> is_object b then Rejected ''Body must be an object''
     else case js_field b ''owner'' of Some (JStr own) \<Rightarrow>
       if \<not> isValidEd25519PublicKey c own then Rejected ''Invalid owner address''
       else (case number_int (json_to_number (js_field b ''market_id'')) of
           None \<Rightarrow> Rejected ''Unknown market_id''
         | Some mkt \<Rightarrow> if mkt \<notin> valid_market_ids cfg then Rejected ''Unknown market_id''
           else (case js_field b ''is_long'' of Some (JBool long) \<Rightarrow>
             (case js_field b ''reduce_only'' of Some (JBool reduce) \<Rightarrow>
               (case check_amounts b of Inl e \<Rightarrow> Rejected e | Inr (sz, lp, n) \<Rightarrow>
                 (case check_expiry now (js_field b ''expiry_ts'') of Inl e \<Rightarrow> Rejected e | Inr ex \<Rightarrow>
                   check_signature c cfg (js_field b ''signature'')
                     \<lparr> owner = own, marketId = mkt, isLong = long, size = sz, limitPrice = lp,
                       reduceOnly = reduce, nonce = n, expiryTs = ex \<rparr>))
              | _ \<Rightarrow> Rejected ''reduce_only must be boolean'')
            | _ \<Rightarrow> Rejected ''is_long must be boolean''))
     | _ \<Rightarrow> Rejected ''Invalid owner address'')"

subsection \<open>What an accepted order satisfies\<close>

definition order_in_bounds :: "config \<Rightarrow> int \<Rightarrow> order_intent \<Rightarrow> bool" where
  "order_in_bounds cfg now o' \<longleftrightarrow>
     marketId o' \<in> valid_market_ids cfg \<and>
     0 < size o' \<and> size o' \<le> MAX_SIZE \<and> 0 \<le> limitPrice o' \<and> limitPrice o' \<le> MAX_PRICE \<and>
     assertU64 (nonce o') \<and> assertU64 (expiryTs o') \<and>
     now div 1000 + MIN_TTL_SECONDS < expiryTs o' \<and> expiryTs o' \<le> now div 1000 + MAX_TTL_SECONDS"

definition settlement_signed :: "crypto \<Rightarrow> config \<Rightarrow> order_intent \<Rightarrow> string \<Rightarrow> bool" where
  "settlement_signed c cfg o' sig \<longleftrightarrow>
     (\<exists>hex. pubkeyHexFromAddress c (owner o') = Some hex \<and>
        verifySignedMessage c (owner o')
          (orderSettlementMessage (passphrase (NETWORK_cfg cfg)) hex (orderIntentToJson o')) sig)"

lemma check_amounts_Inr:
  "check_amounts b = Inr (sz, lp, n) \<Longrightarrow>
     0 < sz \<and> sz \<le> MAX_SIZE \<and> 0 \<le> lp \<and> lp \<le> MAX_PRICE \<and> assertU64 n"
  by (auto simp: check_amounts_def split: option.splits if_splits)

lemma check_expiry_Inr:
  "check_expiry now v = Inr e \<Longrightarrow>
     assertU64 e \<and> now div 1000 + MIN_TTL_SECONDS < e \<and> e \<le> now div 1000 + MAX_TTL_SECONDS"
  by (auto simp: check_expiry_def split: option.splits if_splits)

lemma check_signature_Accepted:
  "check_signature c cfg sigv o' = Accepted o'' \<Longrightarrow>
     o'' = o' \<and> (\<exists>sig. sigv = Some (JStr sig) \<and> length sig \<le> 256 \<and> settlement_signed c cfg o' sig)"
  by (auto simp: check_signature_def settlement_signed_def split: option.splits json.splits if_splits)

lemma validate_Accepted:
  assumes "validateOrderIntent c cfg now b = Accepted o'"
  shows "isValidEd25519PublicKey c (owner o') \<and> order_in_bounds cfg now o' \<and>
     (\<exists>sig. js_field b ''signature'' = Some (JStr sig) \<and> length sig \<le> 256 \<and> settlement_signed c cfg o' sig)"
proof -
  obtain own mkt long reduce sz lp n ex where o: "isValidEd25519PublicKey c own" "mkt \<in> valid_market_ids cfg"
      "check_amounts b = Inr (sz, lp, n)" "check_expiry now (js_field b ''expiry_ts'') = Inr ex"
      "check_signature c cfg (js_field b ''signature'')
         \<lparr> owner = own, marketId = mkt, isLong = long, size = sz, limitPrice = lp,
           reduceOnly = reduce, nonce = n, expiryTs = ex \<rparr> = Accepted o'"
    using assms unfolding validateOrderIntent_def
    by (auto split: if_splits option.splits json.splits sum.splits)
  from check_amounts_Inr [OF o(3)] check_expiry_Inr [OF o(4)] check_signature_Accepted [OF o(5)] o(1,2)
  show ?thesis by (auto simp: order_in_bounds_def)
qed

subsection \<open>The wire form of an order\<close>

text \<open>The body the client posts (\<open>submitOrder\<close>): the JSON payload with its signature.\<close>

definition order_body :: "order_intent \<Rightarrow> string \<Rightarrow> json" where
  "order_body o' sig = (let p = orderIntentToJson o' in JObj
     [(''owner'', JStr (p_owner p)), (''market_id'', JNum (Fin (of_int (p_market_id p)))),
      (''is_long'', JBool (p_is_long p)), (''size'', JStr (p_size p)),
      (''limit_price'', JStr (p_limit_price p)), (''reduce_only'', JBool (p_reduce_only p)),
      (''nonce'', JStr (p_nonce p)), (''expiry_ts'', JStr (p_expiry_ts p)), (''signature'', JStr sig)])"

lemma parseBigInt_show_int [simp]: "parseBigInt (Some (JStr (show_int z))) = Some z"
  by (simp add: parseBigInt_def Let_def signed_digits_show_int)

lemma field_order_body [simp]:
  "js_field (order_body o' sig) ''owner'' = Some (JStr (owner o'))"
  "js_field (order_body o' sig) ''market_id'' = Some (JNum (Fin (of_int (marketId o'))))"
  "js_field (order_body o' sig) ''is_long'' = Some (JBool (isLong o'))"
  "js_field (order_body o' sig) ''size'' = Some (JStr (show_int (size o')))"
  "js_field (order_body o' sig) ''limit_price'' = Some (JStr (show_int (limitPrice o')))"
  "js_field (order_body o' sig) ''reduce_only'' = Some (JBool (reduceOnly o'))"
  "js_field (order_body o' sig) ''nonce'' = Some (JStr (show_int (nonce o')))"
  "js_field (order_body o' sig) ''expiry_ts'' = Some (JStr (show_int (expiryTs o')))"
  "js_field (order_body o' sig) ''signature'' = Some (JStr sig)"
  by (simp_all add: order_body_def orderIntentToJson_def map_get_def Let_def)

lemma is_object_order_body [simp]: "is_object (order_body o' sig)"
  by (simp add: order_body_def Let_def)

lemma check_amounts_body:
  "order_in_bounds cfg now o' \<Longrightarrow> check_amounts (order_body o' sig) = Inr (size o', limitPrice o', nonce o')"
  by (simp add: check_amounts_def order_in_bounds_def)

lemma check_expiry_body:
  "order_in_bounds cfg now o' \<Longrightarrow> check_expiry now (Some (JStr (show_int (expiryTs o')))) = Inr (expiryTs o')"
  by (simp add: check_expiry_def order_in_bounds_def)

lemma check_signature_signed:
  assumes "settlement_signed c cfg o' sig" and "length sig \<le> 256"
  shows "check_signature c cfg (Some (JStr sig)) o' = Accepted o'"
  using assms by (auto simp: check_signature_def settlement_signed_def)

lemma order_intent_eta:
  "\<lparr> owner = owner o', marketId = marketId o', isLong = isLong o', size = size o',
     limitPrice = limitPrice o', reduceOnly = reduceOnly o', nonce = nonce o', expiryTs = expiryTs o' \<rparr>
   = (o' :: order_intent)"
  by simp

lemma validate_body:
  assumes "isValidEd25519PublicKey c (owner o')" and "order_in_bounds cfg now o'"
    and "settlement_signed c cfg o' sig" and "length sig \<le> 256"
  shows "validateOrderIntent c cfg now (order_body o' sig) = Accepted o'"
proof -
  have m: "number_int (json_to_number (js_field (order_body o' sig) ''market_id'')) = Some (marketId o')"
    by (simp add: number_int_Fin)
  show ?thesis
    using assms(1,2) check_amounts_body [OF assms(2), of sig] check_expiry_body [OF assms(2)]
      check_signature_signed [OF assms(3,4)] m
    by (simp add: validateOrderIntent_def order_in_bounds_def order_intent_eta)
qed

text \<open>
  A concrete signature library for the witnesses: one valid address, every 64-byte signature that
  decodes to zeros verifies.
\<close>

definition sample_crypto :: crypto where
  "sample_crypto = \<lparr> isValidEd25519PublicKey = (\<lambda>a. a = ''GA''),
     decodeEd25519PublicKey = (\<lambda>a. if a = ''GA'' then Some [1, 2] else None),
     keypairVerify = (\<lambda>a d s. if a = ''GA'' then Some (s = replicate 64 0) else None),
     sha256 = (\<lambda>b. b), base64_bytes = (\<lambda>s. if s = ''sig'' then replicate 64 0 else []) \<rparr>"

definition sample_order :: order_intent where
  "sample_order = \<lparr> owner = ''GA'', marketId = 1, isLong = True, size = 10, limitPrice = 5,
     reduceOnly = False, nonce = 7, expiryTs = 1100 \<rparr>"

lemma sample_order_ok: "order_in_bounds default_config 1000000 sample_order"
  by (simp add: order_in_bounds_def sample_order_def valid_market_ids_def default_market_ids MAX_SIZE_def MAX_PRICE_def
      MIN_TTL_SECONDS_def MAX_TTL_SECONDS_def assertU64_def MAX_U64_def AMOUNT_PRECISION_def PRICE_PRECISION_def)

lemma sample_order_signed: "settlement_signed sample_crypto default_config sample_order ''sig''"
  by (simp add: settlement_signed_def verifySignedMessage_def decodeSignature_def js_trim_def is_space_def
      sample_crypto_def sample_order_def pubkeyHexFromAddress_def)

text \<open>
  Soundness of order validation: an order that is accepted has a valid owner, a known market, a
  size, price, nonce and expiry within the bounds of the protocol, and carries a signature of its
  owner over exactly the settlement text of the order that is returned.
\<close>

theorem accepted_order_is_sound:
  assumes "validateOrderIntent c cfg now b = Accepted o'"
  shows "isValidEd25519PublicKey c (owner o') \<and> order_in_bounds cfg now o' \<and>
     (\<exists>sig. js_field b ''signature'' = Some (JStr sig) \<and> settlement_signed c cfg o' sig)"
  using validate_Accepted [OF assms] by blast

theorem accepted_order_is_sound_witness:
  "validateOrderIntent sample_crypto default_config 1000000 (order_body sample_order ''sig'') = Accepted sample_order
   \<and> order_in_bounds default_config 1000000 sample_order"
proof -
  have v: "validateOrderIntent sample_crypto default_config 1000000 (order_body sample_order ''sig'') = Accepted sample_order"
    using sample_order_ok sample_order_signed
    by (intro validate_body) (simp_all add: sample_crypto_def sample_order_def)
  show ?thesis using accepted_order_is_sound [OF v] v by blast
qed

text \<open>
  C35. Round trip from client to server: an order within the bounds, with a signature of at most 256
  characters that verifies, is accepted when it arrives in the client's own wire form, and is parsed
  back unchanged.
\<close>

theorem wire_order_roundtrip:
  assumes "isValidEd25519PublicKey c (owner o')" and "order_in_bounds cfg now o'"
    and "settlement_signed c cfg o' sig" and "length sig \<le> 256"
  shows "validateOrderIntent c cfg now (order_body o' sig) = Accepted o'"
  by (rule validate_body [OF assms])

theorem wire_order_roundtrip_witness:
  "validateOrderIntent sample_crypto default_config 1000000 (order_body sample_order ''sig'') = Accepted sample_order"
  using sample_order_ok sample_order_signed
  by (intro wire_order_roundtrip) (simp_all add: sample_crypto_def sample_order_def)

end
