(* ===== verification/Http_Common.thy ===== *)
theory Http_Common
  imports Exchange_Db Order_Validation "HOL-Library.Sublist"
begin

text \<open>
  What the request handlers share: requests and responses, \<open>client/lib/rate-limit.ts\<close> (body limit,
  limiter key, distributed and local limiter) and \<open>withRetry\<close> of \<open>client/lib/db.ts\<close>. The Redis
  service and the database connection are arguments; an attempt that throws carries its message.
\<close>

subsection \<open>Requests and responses\<close>

record request =
  req_header :: "string \<Rightarrow> string option"
  req_body :: "json option"

datatype response = Resp (resp_status: int) (resp_body: json)

definition fail_resp :: "int \<Rightarrow> string \<Rightarrow> response" where
  "fail_resp st e = Resp st (JObj [(''ok'', JBool False), (''error'', JStr e)])"

definition ok_resp :: response where
  "ok_resp = Resp 200 (JObj [(''ok'', JBool True)])"

lemma fail_resp_status [simp]: "resp_status (fail_resp st e) = st"
  by (simp add: fail_resp_def)

lemma ok_resp_status [simp]: "resp_status ok_resp = 200"
  by (simp add: ok_resp_def)

lemma fail_resp_ok_resp [simp]: "st \<noteq> 200 \<Longrightarrow> fail_resp st e \<noteq> ok_resp" "st \<noteq> 200 \<Longrightarrow> ok_resp \<noteq> fail_resp st e"
  by (metis fail_resp_status ok_resp_status)+

definition js_or_str :: "string option \<Rightarrow> string \<Rightarrow> string" where
  "js_or_str v d = (if falsy_str v then d else the v)"

definition requestKey :: "request \<Rightarrow> string \<Rightarrow> string" where
  "requestKey req own =
    (let cfIp = map_option js_trim (req_header req ''cf-connecting-ip'');
         forwarded = map_option (\<lambda>h. js_trim (hd (js_split CHR '','' h))) (req_header req ''x-forwarded-for'');
         ip = js_or_str cfIp (js_or_str forwarded (js_or_str (req_header req ''x-real-ip'') ''unknown''))
     in own @ '':'' @ ip)"

definition bodyTooLarge :: "request \<Rightarrow> int \<Rightarrow> bool" where
  "bodyTooLarge req maxBytes =
    (let len = (case req_header req ''content-length'' of None \<Rightarrow> Fin 0 | Some h \<Rightarrow> string_to_number h)
     in is_finite len \<and> js_lt (Fin (of_int maxBytes)) len)"

subsection \<open>Rate limiting\<close>

definition WINDOW_MS :: int where "WINDOW_MS = 60000"
definition MAX_KEYS :: nat where "MAX_KEYS = 10000"

record bucket =
  b_count :: int
  b_resetAt :: int

type_synonym buckets = "(string, bucket) js_map"

definition purge_expired :: "int \<Rightarrow> buckets \<Rightarrow> buckets" where
  "purge_expired now bs = (if MAX_KEYS < length bs then filter (\<lambda>(k, v). \<not> b_resetAt v \<le> now) bs else bs)"

definition localRateLimit :: "int \<Rightarrow> string \<Rightarrow> int \<Rightarrow> buckets \<Rightarrow> bool \<times> buckets" where
  "localRateLimit now k limit bs0 =
    (let bs = purge_expired now bs0; fresh = map_set bs k \<lparr> b_count = 1, b_resetAt = now + WINDOW_MS \<rparr> in
     case map_get bs k of
       None \<Rightarrow> (True, fresh)
     | Some b \<Rightarrow> if b_resetAt b \<le> now then (True, fresh)
         else (b_count b + 1 \<le> limit, map_set bs k (b\<lparr> b_count := b_count b + 1 \<rparr>)))"

text \<open>
  The distributed limiter: \<open>None\<close> when it is not configured. \<open>incr\<close> is the reply of the Redis
  pipeline for a key: \<open>None\<close> when the call throws or is not ok, else the \<open>result\<close> of its first reply.
\<close>

record limiter_env =
  le_env :: env
  le_incr :: "string \<Rightarrow> json option option"

definition distributedRateLimit :: "limiter_env \<Rightarrow> int \<Rightarrow> string \<Rightarrow> int \<Rightarrow> string + bool option" where
  "distributedRateLimit L now k limit =
    (if falsy_str (le_env L ''UPSTASH_REDIS_REST_URL'') \<or> falsy_str (le_env L ''UPSTASH_REDIS_REST_TOKEN'') then Inr None
     else case le_incr L (''rl:'' @ k @ '':'' @ show_int (now div WINDOW_MS)) of
         None \<Rightarrow> Inl ''distributed rate limit unavailable''
       | Some v \<Rightarrow> (let count = json_to_number (Some (json_or v (JNum (Fin 0)))) in
           Inr (Some (is_finite count \<and> js_le count (Fin (of_int limit))))))"

definition rateLimit :: "limiter_env \<Rightarrow> int \<Rightarrow> string \<Rightarrow> int \<Rightarrow> buckets \<Rightarrow> bool \<times> buckets" where
  "rateLimit L now k limit bs = (case distributedRateLimit L now k limit of
     Inl e \<Rightarrow> (False, bs)
   | Inr (Some b) \<Rightarrow> (b, bs)
   | Inr None \<Rightarrow> if le_env L ''NODE_ENV'' = Some ''production'' then (False, bs) else localRateLimit now k limit bs)"

subsection \<open>Retrying\<close>

datatype 'a attempt = Returned 'a | Failed string

definition lower_char :: "char \<Rightarrow> char" where
  "lower_char c = (let n = of_char c :: nat in if 65 \<le> n \<and> n \<le> 90 then char_of (n + 32) else c)"

definition contains_ci :: "string \<Rightarrow> string \<Rightarrow> bool" where
  "contains_ci s p = list_ex (prefix (map lower_char p)) (suffixes (map lower_char s))"

definition transient_error :: "string \<Rightarrow> bool" where
  "transient_error msg = list_ex (contains_ci msg)
     [''fetch failed'', ''ECONNRESET'', ''ETIMEDOUT'', ''connect'', ''terminat'', ''timeout'']"

text \<open>Attempt \<open>i\<close> with \<open>k\<close> attempts left; each attempt acts on the state the previous one left.\<close>

fun retry_from :: "(nat \<Rightarrow> 's \<Rightarrow> 'a attempt \<times> 's) \<Rightarrow> nat \<Rightarrow> nat \<Rightarrow> 's \<Rightarrow> 'a attempt \<times> 's" where
  "retry_from fn i 0 s = (Failed ''undefined'', s)"
| "retry_from fn i (Suc k) s = (case fn i s of
     (Returned v, s1) \<Rightarrow> (Returned v, s1)
   | (Failed msg, s1) \<Rightarrow> if \<not> transient_error msg \<or> k = 0 then (Failed msg, s1) else retry_from fn (Suc i) k s1)"

definition withRetry :: "(nat \<Rightarrow> 's \<Rightarrow> 'a attempt \<times> 's) \<Rightarrow> 's \<Rightarrow> 'a attempt \<times> 's" where
  "withRetry fn s = retry_from fn 0 3 s"

text \<open>What every attempt keeps, the whole operation keeps.\<close>

lemma retry_invariant:
  assumes "\<And>i s. I s \<Longrightarrow> I (snd (fn i s))" and "I s"
  shows "I (snd (retry_from fn i k s))"
  using assms(2)
proof (induction k arbitrary: i s)
  case 0
  then show ?case by simp
next
  case (Suc k)
  then show ?case using assms(1) [of s i] by (auto split: prod.splits attempt.splits)
qed

lemma retry_returned:
  "retry_from fn i k s = (Returned v, s') \<Longrightarrow> \<exists>j s0. fn j s0 = (Returned v, s')"
proof (induction k arbitrary: i s)
  case 0
  then show ?case by simp
next
  case (Suc k)
  then show ?case by (auto split: prod.splits attempt.splits if_splits)
qed

subsection \<open>Properties\<close>

text \<open>A series of limiter calls, each with its time and key, and the verdicts for one key.\<close>

fun limiter_run :: "int \<Rightarrow> (int \<times> string) list \<Rightarrow> buckets \<Rightarrow> bool list \<times> buckets" where
  "limiter_run limit [] bs = ([], bs)"
| "limiter_run limit ((t, k) # cs) bs =
     (let (v, bs1) = localRateLimit t k limit bs; (vs, bs2) = limiter_run limit cs bs1 in (v # vs, bs2))"

definition verdicts_for :: "string \<Rightarrow> (int \<times> string) list \<Rightarrow> bool list \<Rightarrow> bool list" where
  "verdicts_for k cs vs = map snd (filter (\<lambda>(c, v). snd c = k) (zip cs vs))"

definition live_bucket :: "int \<Rightarrow> string \<Rightarrow> buckets \<Rightarrow> bucket \<Rightarrow> bool" where
  "live_bucket t k bs b \<longleftrightarrow> map_get bs k = Some b \<and> t < b_resetAt b"

lemma filter_live_get:
  "map_get bs k = Some b \<Longrightarrow> t < b_resetAt b \<Longrightarrow> map_get (filter (\<lambda>(k, v). \<not> b_resetAt v \<le> t) bs) k = Some b"
  unfolding map_get_def by (induction bs) (auto split: if_splits)

lemma purge_get: "map_get bs k = Some b \<Longrightarrow> t < b_resetAt b \<Longrightarrow> map_get (purge_expired t bs) k = Some b"
  unfolding purge_expired_def by (simp add: filter_live_get)

lemma limiter_live:
  assumes "live_bucket t k bs b"
  shows "localRateLimit t k limit bs = (b_count b + 1 \<le> limit, map_set (purge_expired t bs) k (b\<lparr> b_count := b_count b + 1 \<rparr>))"
  using assms purge_get by (auto simp: live_bucket_def localRateLimit_def Let_def)

lemma limiter_other:
  assumes "map_get bs k = Some b" and "t < b_resetAt b" and "k' \<noteq> k"
  shows "map_get (snd (localRateLimit t k' limit bs)) k = Some b"
  using assms purge_get [OF assms(1,2)]
  by (auto simp: localRateLimit_def Let_def map_get_set split: option.splits)

lemma limiter_window:
  assumes "map_get bs k = Some b" and "\<forall>(t, k') \<in> set cs. t < b_resetAt b"
  shows "verdicts_for k cs (fst (limiter_run limit cs bs)) =
     map (\<lambda>i. b_count b + int i + 1 \<le> limit) [0..<length (filter (\<lambda>c. snd c = k) cs)]"
  using assms
proof (induction cs arbitrary: bs b)
  case Nil
  then show ?case by (simp add: verdicts_for_def)
next
  case (Cons c cs)
  obtain t k' where c: "c = (t, k')" by force
  have t: "t < b_resetAt b" using Cons.prems(2) c by auto
  show ?case
  proof (cases "k' = k")
    case True
    define b' where "b' = b\<lparr> b_count := b_count b + 1 \<rparr>"
    define bs' where "bs' = map_set (purge_expired t bs) k b'"
    have run: "localRateLimit t k limit bs = (b_count b + 1 \<le> limit, bs')"
      using limiter_live [of t k bs b limit] Cons.prems(1) t by (simp add: live_bucket_def bs'_def b'_def)
    have "verdicts_for k cs (fst (limiter_run limit cs bs')) =
        map (\<lambda>i. b_count b' + int i + 1 \<le> limit) [0..<length (filter (\<lambda>c. snd c = k) cs)]"
      by (rule Cons.IH) (use Cons.prems in \<open>auto simp: bs'_def b'_def map_get_set\<close>)
    moreover have "map (\<lambda>i. b_count b + int i + 1 \<le> limit) [0..<Suc n] =
        (b_count b + 1 \<le> limit) # map (\<lambda>i. b_count b' + int i + 1 \<le> limit) [0..<n]" for n
      by (simp add: upt_conv_Cons map_Suc_upt [symmetric] b'_def algebra_simps del: upt_Suc)
    ultimately show ?thesis using True c run by (simp add: verdicts_for_def case_prod_beta del: upt_Suc)
  next
    case False
    have "map_get (snd (localRateLimit t k' limit bs)) k = Some b"
      by (rule limiter_other) (use Cons.prems t False in auto)
    then have "verdicts_for k cs (fst (limiter_run limit cs (snd (localRateLimit t k' limit bs)))) =
        map (\<lambda>i. b_count b + int i + 1 \<le> limit) [0..<length (filter (\<lambda>c. snd c = k) cs)]"
      using Cons.prems(2) by (intro Cons.IH) auto
    then show ?thesis using False c by (simp add: verdicts_for_def case_prod_beta)
  qed
qed

lemma limiter_opens:
  assumes "map_inv bs" and "\<nexists>b. live_bucket t0 k bs b"
  shows "localRateLimit t0 k limit bs = (True, map_set (purge_expired t0 bs) k \<lparr> b_count = 1, b_resetAt = t0 + WINDOW_MS \<rparr>)"
proof -
  have "b_resetAt b' \<le> t0" if "map_get (purge_expired t0 bs) k = Some b'" for b'
  proof -
    have "(k, b') \<in> set bs" using map_of_SomeD [OF that [unfolded map_get_def]] by (auto simp: purge_expired_def split: if_splits)
    then have "map_get bs k = Some b'" using assms(1) by (simp add: map_inv_def map_get_def)
    then show ?thesis using assms(2) by (auto simp: live_bucket_def)
  qed
  then show ?thesis by (auto simp: localRateLimit_def Let_def split: option.splits)
qed

text \<open>
  C34. The local limiter is an exact fixed-window counter: from the call that opens a key's window at
  \<open>t0\<close>, the calls for that key within the next minute are admitted up to the limit and refused after
  it, however calls for other keys (which may purge expired buckets) are interleaved.
\<close>

theorem local_limiter_exact:
  assumes "map_inv bs" and "\<nexists>b. live_bucket t0 k bs b" and "\<forall>(t, k') \<in> set cs. t < t0 + WINDOW_MS"
  shows "verdicts_for k ((t0, k) # cs) (fst (limiter_run limit ((t0, k) # cs) bs)) =
     map (\<lambda>i. i = 0 \<or> int i < limit) [0..<Suc (length (filter (\<lambda>c. snd c = k) cs))]"
proof -
  define b where "b = \<lparr> b_count = 1, b_resetAt = t0 + WINDOW_MS \<rparr>"
  define bs1 where "bs1 = map_set (purge_expired t0 bs) k b"
  have run: "localRateLimit t0 k limit bs = (True, bs1)" using limiter_opens [OF assms(1,2)] by (simp add: bs1_def b_def)
  have "verdicts_for k cs (fst (limiter_run limit cs bs1)) =
      map (\<lambda>i. b_count b + int i + 1 \<le> limit) [0..<length (filter (\<lambda>c. snd c = k) cs)]"
    by (rule limiter_window) (use assms(3) in \<open>auto simp: bs1_def b_def map_get_set\<close>)
  moreover have "map (\<lambda>i. i = 0 \<or> int i < limit) [0..<Suc n] = True # map (\<lambda>i. b_count b + int i + 1 \<le> limit) [0..<n]" for n
    by (simp add: upt_conv_Cons map_Suc_upt [symmetric] b_def del: upt_Suc) auto
  ultimately show ?thesis using run by (simp add: verdicts_for_def case_prod_beta del: upt_Suc)
qed

theorem local_limiter_exact_witness:
  "verdicts_for ''a'' [(0, ''a''), (5, ''b''), (10, ''a''), (20, ''a'')]
     (fst (limiter_run 2 [(0, ''a''), (5, ''b''), (10, ''a''), (20, ''a'')] [])) = [True, True, False]"
  using local_limiter_exact [of "[]" 0 "''a''" "[(5, ''b''), (10, ''a''), (20, ''a'')]" 2]
  by (simp add: live_bucket_def WINDOW_MS_def upt_conv_Cons)

end
