(* ===== verification/Settlement_Client.thy ===== *)
theory Settlement_Client
  imports Matching_Engine "HOL-Library.Monad_Syntax"
begin

text \<open>
  \<open>client/lib/stellar/settlement.ts\<close>: the contract arguments of a matched fill, the simulation that
  yields the two authorization entries to sign, and the submission of a fill whose two signatures
  are stored. The Soroban RPC server and the XDR codec are not part of the repository; they are the
  fields of \<open>rpc\<close>, where \<open>None\<close> is an exception. Both functions catch every exception and then
  return \<open>null\<close>, so exceptions and \<open>null\<close> are the same \<open>None\<close>.
\<close>

datatype scval =
    ScSymbol string
  | ScI128 int
  | ScU64 int
  | ScU32 int
  | ScBool bool
  | ScAddress string
  | ScBytes bytes
  | ScVoid
  | ScVec "scval list"
  | ScMap "(scval \<times> scval) list"

definition mapEntry :: "string \<Rightarrow> scval \<Rightarrow> scval \<times> scval" where
  "mapEntry k v = (ScSymbol k, v)"

definition orderToScVal :: "'a order_intent_scheme \<Rightarrow> scval" where
  "orderToScVal o' = ScMap
    [mapEntry ''expiry_ts'' (ScU64 (expiryTs o')), mapEntry ''is_long'' (ScBool (isLong o')),
     mapEntry ''limit_price'' (ScI128 (limitPrice o')), mapEntry ''market_id'' (ScU32 (marketId o')),
     mapEntry ''nonce'' (ScU64 (nonce o')), mapEntry ''owner'' (ScAddress (owner o')),
     mapEntry ''reduce_only'' (ScBool (reduceOnly o')), mapEntry ''size'' (ScI128 (size o'))]"

definition matchedFillToScVal :: "match_result \<Rightarrow> scval" where
  "matchedFillToScVal f = ScMap
    [mapEntry ''fill_price'' (ScI128 (fillPrice f)), mapEntry ''fill_size'' (ScI128 (fillSize f)),
     mapEntry ''maker'' (orderToScVal (maker f)), mapEntry ''taker'' (orderToScVal (taker f))]"

text \<open>A transaction: one call of the order gateway from an account, with fee and timeout.\<close>

record gateway_tx =
  tx_source :: string
  tx_sequence :: int
  tx_fee :: string
  tx_contract :: string
  tx_method :: string
  tx_args :: "scval list"
  tx_timeout :: int
  tx_signed_by :: "string option"

text \<open>
  An authorization entry: the account of address-type credentials (\<open>None\<close> for other credentials),
  whether that address decodes, the expiration ledger, and the rest of its content.
\<close>

record auth_entry =
  ae_address :: "string option"
  ae_decodes :: bool
  ae_expiration :: int
  ae_body :: string

datatype sim_result = SimError | SimOk string
datatype send_result = SendError string | SendOk string
datatype poll_status = PollSuccess int | PollFailed | PollPending

record rpc =
  fromSecret :: "string \<Rightarrow> string option"
  getAccount :: "string \<Rightarrow> int option"
  encodable :: "scval \<Rightarrow> bool"
  simulateTransaction :: "gateway_tx \<Rightarrow> sim_result option"
  getLatestLedger :: "int option"
  assembleTransaction :: "gateway_tx \<Rightarrow> string \<Rightarrow> (gateway_tx \<times> auth_entry list) option"
  entryToXDR :: "auth_entry \<Rightarrow> string"
  envelopeToXDR :: "gateway_tx \<Rightarrow> auth_entry list \<Rightarrow> string"
  sendTransaction :: "gateway_tx \<Rightarrow> send_result option"
  getTransaction :: "string \<Rightarrow> nat \<Rightarrow> poll_status option"

definition FEE :: string where "FEE = ''500000''"

definition require :: "bool \<Rightarrow> unit option" where
  "require b = (if b then Some () else None)"

lemma require_simps [simp]: "require True = Some ()" "require False = None"
  by (simp_all add: require_def)

lemma require_Some [simp]: "require b = Some u \<longleftrightarrow> b"
  by (simp add: require_def)

text \<open>The fee payer's account, and a call of the gateway built on it.\<close>

definition build_call :: "rpc \<Rightarrow> config \<Rightarrow> string \<Rightarrow> string \<Rightarrow> scval list \<Rightarrow> gateway_tx option" where
  "build_call R cfg secret method args = do {
     pk \<leftarrow> fromSecret R secret;
     seq \<leftarrow> getAccount R pk;
     require (list_all (encodable R) args);
     Some \<lparr> tx_source = pk, tx_sequence = seq, tx_fee = FEE, tx_contract = orderGateway (CONTRACTS_cfg cfg),
        tx_method = method, tx_args = args, tx_timeout = 60, tx_signed_by = None \<rparr> }"

subsection \<open>\<open>simulateSettleFill\<close>\<close>

record pending_settlement =
  ps_fillHash :: string
  ps_makerAddress :: string
  ps_takerAddress :: string
  ps_makerAuthXdr :: string
  ps_takerAuthXdr :: string
  ps_assembledTxXdr :: string
  ps_fillPrice :: string
  ps_fillSize :: string
  ps_marketId :: int

definition set_expiration :: "int \<Rightarrow> auth_entry \<Rightarrow> auth_entry" where
  "set_expiration l e = (if ae_address e = None then e else e\<lparr> ae_expiration := l \<rparr>)"

text \<open>One step of the search for the entries of maker and taker: the last entry of an address wins.\<close>

definition identify_step ::
    "string \<Rightarrow> string \<Rightarrow> auth_entry \<Rightarrow> auth_entry option \<times> auth_entry option \<Rightarrow> auth_entry option \<times> auth_entry option" where
  "identify_step mk tk e p =
    (if ae_address e = None \<or> \<not> ae_decodes e then p
     else if ae_address e = Some mk then (Some e, snd p)
     else if ae_address e = Some tk then (fst p, Some e) else p)"

definition identify_entries :: "string \<Rightarrow> string \<Rightarrow> auth_entry list \<Rightarrow> auth_entry \<times> auth_entry" where
  "identify_entries mk tk es =
    (let (m, t) = fold (identify_step mk tk) es (None, None)
     in (case m of None \<Rightarrow> es ! 0 | Some e \<Rightarrow> e, case t of None \<Rightarrow> es ! 1 | Some e \<Rightarrow> e))"

definition simulateSettleFill :: "rpc \<Rightarrow> config \<Rightarrow> match_result \<Rightarrow> string \<Rightarrow> string \<Rightarrow> pending_settlement option" where
  "simulateSettleFill R cfg f fillHash secret = do {
     tx \<leftarrow> build_call R cfg secret ''settle_fill'' [matchedFillToScVal f];
     sim \<leftarrow> simulateTransaction R tx;
     (case sim of SimError \<Rightarrow> None | SimOk d \<Rightarrow> do {
       latest \<leftarrow> getLatestLedger R;
       (atx, entries) \<leftarrow> assembleTransaction R tx d;
       require (2 \<le> length entries);
       (let es = map (set_expiration (latest + 100)) entries;
            found = identify_entries (owner (maker f)) (owner (taker f)) es
        in Some \<lparr> ps_fillHash = fillHash, ps_makerAddress = owner (maker f), ps_takerAddress = owner (taker f),
             ps_makerAuthXdr = entryToXDR R (fst found), ps_takerAuthXdr = entryToXDR R (snd found),
             ps_assembledTxXdr = envelopeToXDR R atx entries,
             ps_fillPrice = show_int (fillPrice f), ps_fillSize = show_int (fillSize f),
             ps_marketId = marketId (maker f) \<rparr>) }) }"

subsection \<open>\<open>submitSettleFillSigned\<close>\<close>

definition decodeSig :: "crypto \<Rightarrow> string \<Rightarrow> bytes" where
  "decodeSig c sig = (let s = js_trim sig in
     if length s = 128 \<and> list_all is_hex s then hex_bytes s else base64_bytes c s)"

definition bytesN64Val :: "crypto \<Rightarrow> string \<Rightarrow> scval option" where
  "bytesN64Val c sig = (let b = decodeSig c sig in if length b \<noteq> 64 then None else Some (ScBytes b))"

text \<open>The confirmation loop, from poll \<open>i\<close> with \<open>k\<close> polls left.\<close>

fun poll_confirm :: "rpc \<Rightarrow> string \<Rightarrow> nat \<Rightarrow> nat \<Rightarrow> string option" where
  "poll_confirm R h i 0 = None"
| "poll_confirm R h i (Suc k) = (case getTransaction R h i of
     None \<Rightarrow> None
   | Some (PollSuccess l) \<Rightarrow> Some h
   | Some PollFailed \<Rightarrow> None
   | Some PollPending \<Rightarrow> poll_confirm R h (Suc i) k)"

text \<open>The transaction that is signed and sent, when the simulation passes.\<close>

definition prepare_signed :: "rpc \<Rightarrow> crypto \<Rightarrow> config \<Rightarrow> match_result \<Rightarrow> string \<Rightarrow> string \<Rightarrow> string \<Rightarrow> gateway_tx option" where
  "prepare_signed R c cfg f secret makerSig takerSig = do {
     ms \<leftarrow> bytesN64Val c makerSig;
     ts \<leftarrow> bytesN64Val c takerSig;
     tx \<leftarrow> build_call R cfg secret ''settle_fill_signed'' [matchedFillToScVal f, ms, ts];
     sim \<leftarrow> simulateTransaction R tx;
     (case sim of SimError \<Rightarrow> None | SimOk d \<Rightarrow> do {
       (prepared, entries) \<leftarrow> assembleTransaction R tx d;
       Some (prepared\<lparr> tx_signed_by := Some (tx_source tx) \<rparr>) }) }"

definition submitSettleFillSigned :: "rpc \<Rightarrow> crypto \<Rightarrow> config \<Rightarrow> match_result \<Rightarrow> string \<Rightarrow> string \<Rightarrow> string \<Rightarrow> string option" where
  "submitSettleFillSigned R c cfg f secret makerSig takerSig = do {
     tx \<leftarrow> prepare_signed R c cfg f secret makerSig takerSig;
     send \<leftarrow> sendTransaction R tx;
     (case send of SendError e \<Rightarrow> None | SendOk h \<Rightarrow> poll_confirm R h 0 30) }"

subsection \<open>Lemmas\<close>

lemma orderToScVal_inject:
  "orderToScVal a = orderToScVal b \<longleftrightarrow> order_intent.truncate a = order_intent.truncate b"
  by (auto simp: orderToScVal_def mapEntry_def order_intent.defs)

lemma decodeSig_decodeSignature: "decodeSig c s = decodeSignature c s"
  by (simp add: decodeSig_def decodeSignature_def)

lemma poll_confirm_Some:
  "poll_confirm R h i k = Some x \<longleftrightarrow> x = h \<and> (\<exists>j<k. (\<exists>l. getTransaction R h (i + j) = Some (PollSuccess l)) \<and>
     (\<forall>j'<j. getTransaction R h (i + j') = Some PollPending))"
proof (induction k arbitrary: i)
  case 0
  then show ?case by simp
next
  case (Suc k)
  show ?case
  proof (cases "getTransaction R h i = Some PollPending")
    case True
    have split: "(\<exists>j<Suc k. Q j) \<longleftrightarrow> Q 0 \<or> (\<exists>j<k. Q (Suc j))" for Q :: "nat \<Rightarrow> bool"
      by (metis Suc_less_eq less_Suc_eq_0_disj zero_less_Suc)
    have all: "(\<forall>j'<Suc j. Q j') \<longleftrightarrow> Q 0 \<and> (\<forall>j'<j. Q (Suc j'))" for Q :: "nat \<Rightarrow> bool" and j
      by (metis Suc_less_eq less_Suc_eq_0_disj zero_less_Suc)
    show ?thesis using True by (simp add: Suc.IH split all)
  next
    case False
    have zero: "(\<exists>j<Suc k. Q j \<and> (\<forall>j'<j. getTransaction R h (i + j') = Some PollPending)) \<longleftrightarrow> Q 0" for Q :: "nat \<Rightarrow> bool"
      using False by (metis add_0_right less_nat_zero_code neq0_conv zero_less_Suc)
    show ?thesis unfolding zero using False by (auto split: option.splits poll_status.splits)
  qed
qed

lemma identify_fold:
  assumes "mk \<noteq> tk"
  shows "fold (identify_step mk tk) es (m, t) =
    (case filter (\<lambda>e. ae_address e = Some mk \<and> ae_decodes e) es of [] \<Rightarrow> m | x # xs \<Rightarrow> Some (last (x # xs)),
     case filter (\<lambda>e. ae_address e = Some tk \<and> ae_decodes e) es of [] \<Rightarrow> t | x # xs \<Rightarrow> Some (last (x # xs)))"
  using assms
proof (induction es arbitrary: m t)
  case Nil
  then show ?case by simp
next
  case (Cons e es)
  then show ?case by (auto simp: identify_step_def split: list.splits)
qed

lemma build_call_Some:
  "build_call R cfg secret meth args = Some tx \<Longrightarrow> tx_args tx = args \<and> tx_method tx = meth \<and> list_all (encodable R) args \<and>
     fromSecret R secret = Some (tx_source tx)"
  by (auto simp: build_call_def bind_eq_Some_conv)

text \<open>
  The two entries handed out for signing are the parties' own: when the assembled transaction has
  exactly one readable authorization entry of the maker and one of the taker, in whatever order and
  among whatever others, the settlement offers each party its entry, with the expiration ledger set
  one hundred ledgers ahead.
\<close>

theorem simulate_offers_own_entries:
  assumes "simulateSettleFill R cfg f h secret = Some ps"
    and "owner (maker f) \<noteq> owner (taker f)" and "getLatestLedger R = Some l"
    and "\<forall>tx d atx es. assembleTransaction R tx d = Some (atx, es) \<longrightarrow>
        filter (\<lambda>e. ae_address e = Some (owner (maker f)) \<and> ae_decodes e) es = [em] \<and>
        filter (\<lambda>e. ae_address e = Some (owner (taker f)) \<and> ae_decodes e) es = [et]"
  shows "ps_makerAuthXdr ps = entryToXDR R (em\<lparr> ae_expiration := l + 100 \<rparr>) \<and>
     ps_takerAuthXdr ps = entryToXDR R (et\<lparr> ae_expiration := l + 100 \<rparr>) \<and>
     ps_makerAddress ps = owner (maker f) \<and> ps_takerAddress ps = owner (taker f)"
proof -
  have keep: "filter (\<lambda>e. ae_address e = Some a \<and> ae_decodes e) (map (set_expiration k) es) =
      map (set_expiration k) (filter (\<lambda>e. ae_address e = Some a \<and> ae_decodes e) es)" for a k es
    by (induction es) (auto simp: set_expiration_def)
  obtain tx sim where sim: "build_call R cfg secret ''settle_fill'' [matchedFillToScVal f] = Some tx"
      "simulateTransaction R tx = Some sim"
    using assms(1) unfolding simulateSettleFill_def bind_eq_Some_conv by blast
  then obtain d where d: "sim = SimOk d"
    using assms(1) by (cases sim) (auto simp: simulateSettleFill_def)
  obtain atx es where asm: "assembleTransaction R tx d = Some (atx, es)"
    and ps: "ps_makerAuthXdr ps = entryToXDR R (fst (identify_entries (owner (maker f)) (owner (taker f)) (map (set_expiration (l + 100)) es)))"
      "ps_takerAuthXdr ps = entryToXDR R (snd (identify_entries (owner (maker f)) (owner (taker f)) (map (set_expiration (l + 100)) es)))"
      "ps_makerAddress ps = owner (maker f)" "ps_takerAddress ps = owner (taker f)"
    using assms(1,3) sim d by (auto simp: simulateSettleFill_def bind_eq_Some_conv Let_def)
  have own: "filter (\<lambda>e. ae_address e = Some (owner (maker f)) \<and> ae_decodes e) es = [em]"
      "filter (\<lambda>e. ae_address e = Some (owner (taker f)) \<and> ae_decodes e) es = [et]"
    using assms(4) asm by blast+
  then have "ae_address em = Some (owner (maker f))" "ae_address et = Some (owner (taker f))"
    by (metis (mono_tags, lifting) filter_id_conv filter_filter list.set_intros(1) mem_Collect_eq set_filter)+
  then show ?thesis
    using ps by (simp add: identify_entries_def identify_fold [OF assms(2)] keep own set_expiration_def)
qed

text \<open>
  A submission reports a hash only for a transaction that carries both stored signatures for
  exactly the matched fill, was accepted by the network, and was seen successful by one of the thirty
  polls with no failure before it; and every such submission is reported.
\<close>

theorem submit_reports_confirmed:
  "submitSettleFillSigned R c cfg f secret makerSig takerSig = Some h \<longleftrightarrow>
    (\<exists>tx. prepare_signed R c cfg f secret makerSig takerSig = Some tx \<and> sendTransaction R tx = Some (SendOk h) \<and>
      length (decodeSignature c makerSig) = 64 \<and> length (decodeSignature c takerSig) = 64 \<and>
      (\<exists>j < 30. (\<exists>l. getTransaction R h j = Some (PollSuccess l)) \<and>
         (\<forall>j' < j. getTransaction R h j' = Some PollPending)))"
proof -
  have sigs: "length (decodeSignature c makerSig) = 64 \<and> length (decodeSignature c takerSig) = 64"
    if "prepare_signed R c cfg f secret makerSig takerSig = Some tx" for tx
    using that by (auto simp: prepare_signed_def bytesN64Val_def bind_eq_Some_conv decodeSig_decodeSignature
        Let_def split: if_splits)
  have step: "(case y of SendError e \<Rightarrow> None | SendOk h' \<Rightarrow> poll_confirm R h' 0 30) = Some h \<longleftrightarrow>
      y = SendOk h \<and> (\<exists>j < 30. (\<exists>l. getTransaction R h j = Some (PollSuccess l)) \<and>
         (\<forall>j' < j. getTransaction R h j' = Some PollPending))" for y
    by (cases y) (auto simp: poll_confirm_Some)
  show ?thesis
    unfolding submitSettleFillSigned_def bind_eq_Some_conv step using sigs by blast
qed

text \<open>A server for the witnesses: it accepts every call and confirms on the third poll.\<close>

definition sample_match :: match_result where
  "sample_match = \<lparr>
     maker = \<lparr> owner = ''GM'', marketId = 1, isLong = True, size = 5, limitPrice = 100, reduceOnly = False,
       nonce = 1, expiryTs = 0, oid = ''GM:1'', filledSize = 0, createdAt = 1, signature = Some ''ms'' \<rparr>,
     taker = \<lparr> owner = ''GT'', marketId = 1, isLong = False, size = 5, limitPrice = 90, reduceOnly = False,
       nonce = 2, expiryTs = 0, oid = ''GT:2'', filledSize = 0, createdAt = 2, signature = Some ''ts'' \<rparr>,
     fillSize = 5, fillPrice = 100 \<rparr>"

definition sample_entry :: "string \<Rightarrow> auth_entry" where
  "sample_entry a = \<lparr> ae_address = Some a, ae_decodes = True, ae_expiration = 0, ae_body = a \<rparr>"

definition sample_rpc :: rpc where
  "sample_rpc = \<lparr>
     fromSecret = (\<lambda>s. Some ''GOP''), getAccount = (\<lambda>_. Some 7), encodable = (\<lambda>_. True),
     simulateTransaction = (\<lambda>_. Some (SimOk [])), getLatestLedger = Some 1000,
     assembleTransaction = (\<lambda>tx _. Some (tx, [sample_entry ''GT'', sample_entry ''GM''])),
     entryToXDR = (\<lambda>e. ae_body e @ ''@'' @ show_int (ae_expiration e)), envelopeToXDR = (\<lambda>_ _. ''envelope''),
     sendTransaction = (\<lambda>_. Some (SendOk ''hash'')),
     getTransaction = (\<lambda>_ i. Some (if i = 2 then PollSuccess 1003 else PollPending)) \<rparr>"

definition sample_sig_crypto :: crypto where
  "sample_sig_crypto = \<lparr> isValidEd25519PublicKey = (\<lambda>_. True), decodeEd25519PublicKey = (\<lambda>_. Some []),
     keypairVerify = (\<lambda>_ _ _. Some True), sha256 = id, base64_bytes = (\<lambda>_. replicate 64 0) \<rparr>"

lemma sample_simulation:
  "\<exists>ps. simulateSettleFill sample_rpc default_config sample_match ''h'' ''s'' = Some ps"
  by (simp add: simulateSettleFill_def build_call_def sample_rpc_def list_all_def Let_def)

theorem simulate_offers_own_entries_witness:
  "\<exists>ps. simulateSettleFill sample_rpc default_config sample_match ''h'' ''s'' = Some ps \<and>
     ps_makerAuthXdr ps = ''GM@1100'' \<and> ps_takerAuthXdr ps = ''GT@1100''"
proof -
  obtain ps where ps: "simulateSettleFill sample_rpc default_config sample_match ''h'' ''s'' = Some ps"
    using sample_simulation by blast
  have "show_int 1100 = ''1100''" by code_simp
  then show ?thesis
    using simulate_offers_own_entries [OF ps, of 1000 "sample_entry ''GM''" "sample_entry ''GT''"] ps
    by (simp add: sample_rpc_def sample_match_def sample_entry_def)
qed

lemma sample_decode: "length (decodeSignature sample_sig_crypto ''ms'') = 64" "length (decodeSignature sample_sig_crypto ''ts'') = 64"
  by (simp_all add: decodeSignature_def sample_sig_crypto_def js_trim_def is_space_def Let_def)

theorem submit_reports_confirmed_witness:
  "submitSettleFillSigned sample_rpc sample_sig_crypto default_config sample_match ''s'' ''ms'' ''ts'' = Some ''hash''"
proof -
  have "\<exists>tx. prepare_signed sample_rpc sample_sig_crypto default_config sample_match ''s'' ''ms'' ''ts'' = Some tx"
    using sample_decode
    by (simp add: prepare_signed_def bytesN64Val_def decodeSig_decodeSignature build_call_def Let_def)
       (simp add: sample_rpc_def list_all_def)
  then show ?thesis
    unfolding submit_reports_confirmed using sample_decode
    by (auto simp: sample_rpc_def intro!: exI [of _ 2])
qed

end
