(* ===== verification/Matcher_Service.thy ===== *)
theory Matcher_Service
  imports Exchange_Db Settlement_Client "HOL-Library.Word"
begin

text \<open>
  \<open>client/scripts/matcher-service.ts\<close> around the matching pass: loading the book from the database,
  recording a fill, undoing it, submitting or queueing its settlement, the oracle band, the
  quarantine of orders whose signature cannot verify, and the tick that composes them.

  Every SQL statement may throw. The environment's \<open>me_fail op m i\<close> says whether statement \<open>i\<close> of
  the operation \<open>op\<close> throws while match \<open>m\<close> is processed, so a theorem over all environments covers
  every partial execution. Rows that a query does not order completely come in storage order.
\<close>

record matcher_env =
  me_now :: int
  me_cfg :: config
  me_crypto :: crypto
  me_rpc :: rpc
  me_secret :: "string option"
  me_maxDeviation :: int
  me_fail :: "string \<Rightarrow> match_result \<Rightarrow> nat \<Rightarrow> bool"
  me_loadFails :: "int \<Rightarrow> bool"

abbreviation me_network :: "matcher_env \<Rightarrow> string" where
  "me_network E \<equiv> net_name (NETWORK_cfg (me_cfg E))"

subsection \<open>Loading the book\<close>

definition mapOrderRow :: "order_row \<Rightarrow> resting_order" where
  "mapOrderRow r = \<lparr> owner = owner r, marketId = marketId r, isLong = isLong r, size = size r,
     limitPrice = limitPrice r, reduceOnly = reduceOnly r, nonce = nonce r, expiryTs = expiryTs r,
     oid = oid r, filledSize = filledSize r, createdAt = createdAt r, signature = signature r \<rparr>"

definition open_row :: "int \<Rightarrow> int \<Rightarrow> order_row \<Rightarrow> bool" where
  "open_row nowSec mkt r \<longleftrightarrow> marketId r = mkt \<and> \<not> cancelled r \<and> filledSize r < size r \<and>
     (expiryTs r = 0 \<or> nowSec < expiryTs r)"

definition by_price_time :: "order_row \<Rightarrow> order_row \<Rightarrow> int" where
  "by_price_time a b = (if limitPrice a = limitPrice b then sgn (createdAt a - createdAt b)
     else sgn (limitPrice a - limitPrice b))"

definition by_time :: "order_row \<Rightarrow> order_row \<Rightarrow> int" where
  "by_time a b = sgn (createdAt a - createdAt b)"

definition loadRestingOrders :: "int \<Rightarrow> int \<Rightarrow> database \<Rightarrow> resting_order list" where
  "loadRestingOrders now mkt d = map mapOrderRow (js_sort by_price_time
     (filter (\<lambda>r. open_row (now div 1000) mkt r \<and> limitPrice r \<noteq> 0) (db_orders d)))"

definition loadMarketOrders :: "int \<Rightarrow> int \<Rightarrow> database \<Rightarrow> resting_order list" where
  "loadMarketOrders now mkt d = map mapOrderRow (js_sort by_time
     (filter (\<lambda>r. open_row (now div 1000) mkt r \<and> limitPrice r = 0) (db_orders d)))"

subsection \<open>Recording and undoing a fill\<close>

text \<open>The deterministic stand-in for a transaction hash: a 32-bit string hash, in hexadecimal.\<close>

definition imul_hash :: "string \<Rightarrow> 32 word" where
  "imul_hash raw = foldl (\<lambda>h c. 31 * h + of_int (of_char c)) 0 raw"

fun show_hex :: "nat \<Rightarrow> string" where
  "show_hex n = (if n < 16 then [hex_digit (int n)] else show_hex (n div 16) @ [hex_digit (int (n mod 16))])"

declare show_hex.simps [simp del]

definition pad_start :: "nat \<Rightarrow> string \<Rightarrow> string" where
  "pad_start k s = replicate (k - length s) (CHR ''0'') @ s"

definition fill_text :: "resting_order \<Rightarrow> resting_order \<Rightarrow> int \<Rightarrow> string" where
  "fill_text mk tk n = ''db:'' @ owner mk @ '':'' @ show_int (nonce mk) @ '':'' @ owner tk @ '':'' @
     show_int (nonce tk) @ '':'' @ show_int n"

definition pseudoTxHash :: "resting_order \<Rightarrow> resting_order \<Rightarrow> int \<Rightarrow> string" where
  "pseudoTxHash mk tk n = ''dbfill'' @ pad_start 58 (show_hex (nat \<bar>sint (imul_hash (fill_text mk tk n))\<bar>))"

abbreviation match_hash :: "match_result \<Rightarrow> string" where
  "match_hash m \<equiv> pseudoTxHash (maker m) (taker m) (fillSize m)"

definition fill_of :: "string \<Rightarrow> int \<Rightarrow> match_result \<Rightarrow> fill_row" where
  "fill_of net now m = \<lparr> f_network = net, f_marketId = marketId (maker m),
     f_maker = owner (maker m), f_makerNonce = nonce (maker m),
     f_taker = owner (taker m), f_takerNonce = nonce (taker m),
     f_size = fillSize m, f_price = fillPrice m, f_txHash = match_hash m, f_ledger = 0, f_createdAt = now \<rparr>"

definition same_fill :: "fill_row \<Rightarrow> fill_row \<Rightarrow> bool" where
  "same_fill a b \<longleftrightarrow> f_network b = f_network a \<and> f_txHash b = f_txHash a \<and> f_maker b = f_maker a \<and>
     f_makerNonce b = f_makerNonce a \<and> f_taker b = f_taker a \<and> f_takerNonce b = f_takerNonce a"

text \<open>The guarded increment of \<open>filledSize\<close>; its flag says whether a row was updated.\<close>

definition room_for :: "string \<Rightarrow> int \<Rightarrow> order_row \<Rightarrow> bool" where
  "room_for k n r \<longleftrightarrow> oid r = k \<and> filledSize r + n \<le> size r"

definition increment_filled :: "string \<Rightarrow> int \<Rightarrow> database \<Rightarrow> bool \<times> database" where
  "increment_filled k n d = (returning (room_for k n) (db_orders d) \<noteq> [],
     d\<lparr> db_orders := update_where (room_for k n) (add_filled n) (db_orders d) \<rparr>)"

definition update_market :: "match_result \<Rightarrow> database \<Rightarrow> database" where
  "update_market m d = d\<lparr> db_markets := update_where (\<lambda>r. m_id r = marketId (maker m))
     (\<lambda>r. r\<lparr> m_lastPrice := fillPrice m,
             m_volume := m_volume r + (fillSize m * fillPrice m) sdiv PRICE_PRECISION \<rparr>) (db_markets d) \<rparr>"

definition persistFill :: "matcher_env \<Rightarrow> match_result \<Rightarrow> database \<Rightarrow> bool \<times> database" where
  "persistFill E m d =
    (let fails = me_fail E ''persist'' m; row = fill_of (me_network E) (me_now E) m in
     if fails 0 then (False, d)
     else let (inserted, fills) = insert_unless (same_fill row) row (db_fills d);
              d1 = d\<lparr> db_fills := fills \<rparr> in
       if \<not> inserted \<or> fails 1 then (False, d1)
       else let (makerUpdated, d2) = increment_filled (oid (maker m)) (fillSize m) d1 in
         if \<not> makerUpdated \<or> fails 2 then (False, d2)
         else let (takerUpdated, d3) = increment_filled (oid (taker m)) (fillSize m) d2 in
           if \<not> takerUpdated \<or> fails 3 then (False, d3)
           else (True, update_market m d3))"

definition decrement_filled :: "string \<Rightarrow> int \<Rightarrow> database \<Rightarrow> database" where
  "decrement_filled k n d = d\<lparr> db_orders := update_where (\<lambda>r. oid r = k) (sub_filled n) (db_orders d) \<rparr>"

definition delete_fills :: "string \<Rightarrow> string \<Rightarrow> database \<Rightarrow> database" where
  "delete_fills net h d = d\<lparr> db_fills := delete_where (\<lambda>f. f_network f = net \<and> f_txHash f = h) (db_fills d) \<rparr>"

definition rollbackFill :: "matcher_env \<Rightarrow> match_result \<Rightarrow> database \<Rightarrow> database" where
  "rollbackFill E m d =
    (let fails = me_fail E ''rollback'' m in
     if fails 0 then d
     else let d1 = delete_fills (me_network E) (match_hash m) d in
       if fails 1 then d1
       else let d2 = decrement_filled (oid (maker m)) (fillSize m) d1 in
         if fails 2 then d2
         else decrement_filled (oid (taker m)) (fillSize m) d2)"

subsection \<open>Settlement\<close>

text \<open>\<open>INSERT ... ON CONFLICT (network, kind, "payloadHash") DO UPDATE\<close> on the job table.\<close>

definition same_job :: "string \<Rightarrow> string \<Rightarrow> string \<Rightarrow> tx_job \<Rightarrow> bool" where
  "same_job net kind h j \<longleftrightarrow> j_network j = net \<and> j_kind j = kind \<and> j_payloadHash j = h"

definition next_job_id :: "tx_job list \<Rightarrow> int" where
  "next_job_id js = foldl (\<lambda>a j. max a (j_id j)) 0 js + 1"

definition upsert_job :: "tx_job \<Rightarrow> (tx_job \<Rightarrow> tx_job) \<Rightarrow> database \<Rightarrow> database" where
  "upsert_job j upd d =
    (let key = same_job (j_network j) (j_kind j) (j_payloadHash j) in
     d\<lparr> db_jobs := (if \<exists>x \<in> set (db_jobs d). key x then update_where key upd (db_jobs d)
                     else db_jobs d @ [j\<lparr> j_id := next_job_id (db_jobs d) \<rparr>]) \<rparr>)"

definition settle_kind :: string where "settle_kind = ''settle_fill''"

definition new_job :: "string \<Rightarrow> int \<Rightarrow> string \<Rightarrow> json \<Rightarrow> tx_status \<Rightarrow> string option \<Rightarrow> tx_job" where
  "new_job net now h payload st hash = \<lparr> j_id = 0, j_network = net, j_kind = settle_kind, j_payloadHash = h,
     j_unsignedXdr = Some payload, j_status = st, j_submittedHash = hash, j_lastError = None,
     j_createdAt = now, j_updatedAt = now \<rparr>"

definition job_payload :: "pending_settlement \<Rightarrow> match_result \<Rightarrow> json" where
  "job_payload ps m = JObj
    [(''fillHash'', JStr (ps_fillHash ps)), (''makerAddress'', JStr (ps_makerAddress ps)),
     (''takerAddress'', JStr (ps_takerAddress ps)), (''makerAuthXdr'', JStr (ps_makerAuthXdr ps)),
     (''takerAuthXdr'', JStr (ps_takerAuthXdr ps)), (''assembledTxXdr'', JStr (ps_assembledTxXdr ps)),
     (''fillPrice'', JStr (ps_fillPrice ps)), (''fillSize'', JStr (ps_fillSize ps)),
     (''marketId'', JNum (to_number (of_int (ps_marketId ps)))), (''pendingTxHash'', JStr (match_hash m)),
     (''makerNonce'', JStr (show_int (nonce (maker m)))), (''takerNonce'', JStr (show_int (nonce (taker m))))]"

text \<open>A settlement reports success or not, or throws (\<open>None\<close>).\<close>

definition executeSettlement :: "matcher_env \<Rightarrow> match_result \<Rightarrow> database \<Rightarrow> bool option \<times> database" where
  "executeSettlement E m d =
    (if falsy_str (me_secret E) then (Some False, d)
     else let secret = the (me_secret E); h = match_hash m; fails = me_fail E ''settle'' m in
       if \<not> falsy_str (signature (maker m)) \<and> \<not> falsy_str (signature (taker m)) then
         (case submitSettleFillSigned (me_rpc E) (me_crypto E) (me_cfg E) m secret
             (the (signature (maker m))) (the (signature (taker m))) of
           None \<Rightarrow> (Some False, d)
         | Some txHash \<Rightarrow> if fails 0 then (None, d)
             else (Some True, upsert_job (new_job (me_network E) (me_now E) h (JObj []) CONFIRMED (Some txHash))
               (\<lambda>j. j\<lparr> j_status := CONFIRMED, j_submittedHash := Some txHash, j_updatedAt := me_now E \<rparr>) d))
       else (case simulateSettleFill (me_rpc E) (me_cfg E) m h secret of
           None \<Rightarrow> (Some False, d)
         | Some ps \<Rightarrow> if fails 0 then (None, d)
             else (Some True, upsert_job (new_job (me_network E) (me_now E) h (job_payload ps m) QUEUED None)
               (\<lambda>j. j\<lparr> j_unsignedXdr := Some (job_payload ps m), j_updatedAt := me_now E \<rparr>) d)))"

subsection \<open>The oracle band and the quarantine\<close>

definition loadOraclePrice :: "int \<Rightarrow> database \<Rightarrow> int option" where
  "loadOraclePrice mkt d = (case find_row (\<lambda>r. m_id r = mkt) (db_markets d) of
     None \<Rightarrow> None | Some r \<Rightarrow> if 0 < m_lastOraclePrice r then Some (m_lastOraclePrice r) else None)"

definition withinOracleBand :: "int \<Rightarrow> int \<Rightarrow> int \<Rightarrow> bool" where
  "withinOracleBand maxDev price oracle =
    (let delta = (oracle * maxDev) sdiv 10000 in oracle - delta \<le> price \<and> price \<le> oracle + delta)"

definition settlementSigValid :: "crypto \<Rightarrow> config \<Rightarrow> 'a resting_order_scheme \<Rightarrow> bool option" where
  "settlementSigValid c cfg o' =
    (if falsy_str (signature o') then Some True
     else case pubkeyHexFromAddress c (owner o') of None \<Rightarrow> None
       | Some hex \<Rightarrow> Some (verifySignedMessage c (owner o')
           (orderSettlementMessage (passphrase (NETWORK_cfg cfg)) hex (orderIntentToJson (order_intent.truncate o')))
           (the (signature o'))))"

definition cancelPoisonOrder :: "string \<Rightarrow> database \<Rightarrow> database" where
  "cancelPoisonOrder k d = d\<lparr> db_orders := update_where (\<lambda>r. oid r = k) (\<lambda>r. r\<lparr> cancelled := True \<rparr>) (db_orders d) \<rparr>"

subsection \<open>The tick\<close>

text \<open>
  The outcome of a step that may throw: the value (\<open>None\<close> when it threw) and the database it leaves.
  The quarantine of one side of a match: whether the match is poisoned.
\<close>

definition check_side :: "matcher_env \<Rightarrow> match_result \<Rightarrow> nat \<Rightarrow> resting_order \<Rightarrow> database \<Rightarrow> bool option \<times> database" where
  "check_side E m i side d = (case settlementSigValid (me_crypto E) (me_cfg E) side of
     None \<Rightarrow> (None, d)
   | Some True \<Rightarrow> (Some False, d)
   | Some False \<Rightarrow> if me_fail E ''cancel'' m i then (None, d) else (Some True, cancelPoisonOrder (oid side) d))"

definition check_sides :: "matcher_env \<Rightarrow> match_result \<Rightarrow> database \<Rightarrow> bool option \<times> database" where
  "check_sides E m d = (case check_side E m 0 (maker m) d of
     (None, d1) \<Rightarrow> (None, d1)
   | (Some p, d1) \<Rightarrow> (case check_side E m 1 (taker m) d1 of
       (None, d2) \<Rightarrow> (None, d2) | (Some q, d2) \<Rightarrow> (Some (p \<or> q), d2)))"

text \<open>Record the fill and settle it, undoing it when the settlement fails; the flag counts a recorded fill.\<close>

definition fill_and_settle :: "matcher_env \<Rightarrow> match_result \<Rightarrow> database \<Rightarrow> bool \<times> database" where
  "fill_and_settle E m d =
    (let (ok, d1) = persistFill E m d in
     if \<not> ok then (False, d1)
     else (case executeSettlement E m d1 of
         (Some True, d2) \<Rightarrow> (True, d2)
       | (_, d2) \<Rightarrow> (True, rollbackFill E m d2)))"

definition process_match :: "matcher_env \<Rightarrow> int option \<Rightarrow> match_result \<Rightarrow> database \<Rightarrow> bool option \<times> database" where
  "process_match E oracle m d =
    (if oracle = None \<or> \<not> withinOracleBand (me_maxDeviation E) (fillPrice m) (the oracle) then (Some False, d)
     else (case check_sides E m d of
         (None, d1) \<Rightarrow> (None, d1)
       | (Some True, d1) \<Rightarrow> (Some False, d1)
       | (Some False, d1) \<Rightarrow> (case fill_and_settle E m d1 of (filled, d2) \<Rightarrow> (Some filled, d2))))"

fun process_matches :: "matcher_env \<Rightarrow> int option \<Rightarrow> match_result list \<Rightarrow> nat \<Rightarrow> database \<Rightarrow> nat option \<times> database" where
  "process_matches E oracle [] n d = (Some n, d)"
| "process_matches E oracle (m # ms) n d = (case process_match E oracle m d of
     (None, d1) \<Rightarrow> (None, d1)
   | (Some filled, d1) \<Rightarrow> process_matches E oracle ms (if filled then n + 1 else n) d1)"

definition inBandLimits :: "matcher_env \<Rightarrow> int option \<Rightarrow> resting_order list \<Rightarrow> resting_order list" where
  "inBandLimits E oracle ls = (case oracle of None \<Rightarrow> []
     | Some p \<Rightarrow> filter (\<lambda>o'. withinOracleBand (me_maxDeviation E) (limitPrice o') p) ls)"

definition market_matches :: "matcher_env \<Rightarrow> int \<Rightarrow> database \<Rightarrow> match_result list" where
  "market_matches E mkt d = matchAll (inBandLimits E (loadOraclePrice mkt d) (loadRestingOrders (me_now E) mkt d))
     (loadMarketOrders (me_now E) mkt d)"

definition tick_market :: "matcher_env \<Rightarrow> int \<Rightarrow> nat \<Rightarrow> database \<Rightarrow> nat option \<times> database" where
  "tick_market E mkt n d =
    (if me_loadFails E mkt then (None, d)
     else if loadRestingOrders (me_now E) mkt d = [] \<and> loadMarketOrders (me_now E) mkt d = [] then (Some n, d)
     else process_matches E (loadOraclePrice mkt d) (market_matches E mkt d) n d)"

fun tick_markets :: "matcher_env \<Rightarrow> int list \<Rightarrow> nat \<Rightarrow> database \<Rightarrow> nat option \<times> database" where
  "tick_markets E [] n d = (Some n, d)"
| "tick_markets E (k # ks) n d = (case tick_market E k n d of
     (None, d1) \<Rightarrow> (None, d1) | (Some n1, d1) \<Rightarrow> tick_markets E ks n1 d1)"

definition MATCHER_MARKETS :: "config \<Rightarrow> int list" where
  "MATCHER_MARKETS cfg = market_ids (ACTIVE_MARKETS cfg)"

definition tick :: "matcher_env \<Rightarrow> database \<Rightarrow> nat option \<times> database" where
  "tick E d = tick_markets E (MATCHER_MARKETS (me_cfg E)) 0 d"

text \<open>
  The service loop over a sequence of environments, one per tick: the database, and the count of
  consecutive errors, which recreates the client and restarts at three.
\<close>

definition count_errors :: "bool \<Rightarrow> nat \<Rightarrow> nat" where
  "count_errors threw n = (if threw then (if 3 \<le> n + 1 then 0 else n + 1) else 0)"

fun run_ticks :: "matcher_env list \<Rightarrow> nat \<times> database \<Rightarrow> nat \<times> database" where
  "run_ticks [] s = s"
| "run_ticks (E # Es) (errs, d) =
     (case tick E d of (r, d1) \<Rightarrow> run_ticks Es (count_errors (r = None) errs, d1))"

end
