(* ===== verification/Matching_Correct.thy ===== *)
theory Matching_Correct
  imports Matching_Engine
begin

text \<open>
  Correctness of the matching pass. Both inner loops are one pattern, a sweep of an order along the
  opposite side of the book in priority order; the locale \<open>book_sweep\<close> states what a sweep needs of
  the way it records a match, proves the effect of the loop once, and is interpreted for market
  orders and for limit bids. The properties then follow for \<open>matchAll\<close>: quantities are never
  overdrawn, prices respect both limits, price-time priority holds, no crossed book is left.
\<close>

subsection \<open>Accounting\<close>

definition involves :: "match_result \<Rightarrow> string \<Rightarrow> bool" where
  "involves m k \<longleftrightarrow> oid (maker m) = k \<or> oid (taker m) = k"

definition filled_in :: "match_result list \<Rightarrow> string \<Rightarrow> int" where
  "filled_in res k = sum_list (map fillSize (filter (\<lambda>m. involves m k) res))"

definition remaining_after :: "match_result list \<Rightarrow> resting_order \<Rightarrow> int" where
  "remaining_after res o' = size o' - filledSize o' - filled_in res (oid o')"

text \<open>The pending map agrees with the matches made, and no order of \<open>S\<close> is overdrawn.\<close>

definition good :: "resting_order set \<Rightarrow> match_state \<Rightarrow> bool" where
  "good S st \<longleftrightarrow> (\<forall>o'. remaining (fst st) o' = remaining_after (snd st) o') \<and>
     (\<forall>o' \<in> S. 0 \<le> remaining (fst st) o')"

lemma remaining_after_snoc:
  "remaining_after (res @ [m]) o' = remaining_after res o' - (if involves m (oid o') then fillSize m else 0)"
  by (simp add: remaining_after_def filled_in_def)

lemma remaining_push_match:
  assumes "oid a \<noteq> oid b"
  shows "remaining (fst (push_match a b m st)) o'
       = remaining (fst st) o' - (if oid o' = oid a \<or> oid o' = oid b then fillSize m else 0)"
  using assms by (simp add: remaining_def push_match_def pend.count_bump)

lemma snd_push_match [simp]: "snd (push_match a b m st) = snd st @ [m]"
  by (simp add: push_match_def)

subsection \<open>A sweep along one side of the book\<close>

fun sweep :: "(resting_order \<Rightarrow> resting_order \<Rightarrow> int \<Rightarrow> match_state \<Rightarrow> match_state) \<Rightarrow>
    (resting_order \<Rightarrow> resting_order \<Rightarrow> bool) \<Rightarrow> resting_order \<Rightarrow> resting_order list \<Rightarrow> match_state \<Rightarrow> match_state" where
  "sweep push stop x [] st = st"
| "sweep push stop x (r # rs) st =
    (if owner x = owner r then sweep push stop x rs st
     else if stop x r then st
     else if remaining (fst st) r \<le> 0 \<or> remaining (fst st) x \<le> 0 then sweep push stop x rs st
     else let st' = push x r (min (remaining (fst st) r) (remaining (fst st) x)) st
          in if remaining (fst st') x \<le> 0 then st' else sweep push stop x rs st')"

locale book_sweep =
  fixes mk :: "resting_order \<Rightarrow> resting_order \<Rightarrow> int \<Rightarrow> match_result"
    and push :: "resting_order \<Rightarrow> resting_order \<Rightarrow> int \<Rightarrow> match_state \<Rightarrow> match_state"
    and stop :: "resting_order \<Rightarrow> resting_order \<Rightarrow> bool"
    and better :: "resting_order \<Rightarrow> resting_order \<Rightarrow> bool"
  assumes push_results: "snd (push x r n st) = snd st @ [mk x r n]"
    and push_remaining: "oid x \<noteq> oid r \<Longrightarrow> remaining (fst (push x r n st)) o' =
          remaining (fst st) o' - (if oid o' = oid x \<or> oid o' = oid r then n else 0)"
    and mk_size: "fillSize (mk x r n) = n"
    and mk_involves: "involves (mk x r n) k \<longleftrightarrow> oid x = k \<or> oid r = k"
    and better_irrefl: "\<not> better r r"
    and stop_later: "stop x r \<Longrightarrow> \<not> better r' r \<Longrightarrow> stop x r'"
begin

definition made :: "resting_order \<Rightarrow> resting_order list \<Rightarrow> match_state \<Rightarrow> match_state \<Rightarrow> match_result \<Rightarrow> bool" where
  "made x rs st st' m \<longleftrightarrow> (\<exists>r \<in> set rs. \<exists>n > 0. m = mk x r n \<and> owner r \<noteq> owner x \<and> \<not> stop x r \<and>
     0 < remaining (fst st) r \<and>
     (\<forall>z \<in> set rs. better z r \<and> owner z \<noteq> owner x \<longrightarrow> remaining (fst st') z \<le> 0))"

definition post :: "resting_order set \<Rightarrow> resting_order \<Rightarrow> resting_order list \<Rightarrow> match_state \<Rightarrow> match_state \<Rightarrow> bool" where
  "post S x rs st st' \<longleftrightarrow> good S st' \<and> (\<forall>o'. remaining (fst st') o' \<le> remaining (fst st) o') \<and>
     (remaining (fst st') x \<le> 0 \<or>
        (\<forall>r \<in> set rs. owner r \<noteq> owner x \<and> \<not> stop x r \<longrightarrow> remaining (fst st') r \<le> 0)) \<and>
     (\<exists>new. snd st' = snd st @ new \<and> (new \<noteq> [] \<longrightarrow> 0 < remaining (fst st) x) \<and>
        (\<forall>m \<in> set new. made x rs st st' m))"

lemma good_push:
  assumes "good S st" and "oid x \<noteq> oid r" and "inj_on oid S" and "x \<in> S" and "r \<in> S"
    and "n \<le> remaining (fst st) x" and "n \<le> remaining (fst st) r"
  shows "good S (push x r n st)"
proof -
  have "0 \<le> remaining (fst (push x r n st)) o'" if "o' \<in> S" for o'
    using assms that inj_onD [OF assms(3), of o' x] inj_onD [OF assms(3), of o' r]
    by (auto simp: push_remaining good_def)
  then show ?thesis
    using assms(1,2)
    by (auto simp: good_def push_remaining push_results remaining_after_snoc mk_size mk_involves)
qed

lemma post_refl: "good S st \<Longrightarrow> (remaining (fst st) x \<le> 0 \<or>
     (\<forall>r \<in> set rs. owner r \<noteq> owner x \<and> \<not> stop x r \<longrightarrow> remaining (fst st) r \<le> 0)) \<Longrightarrow> post S x rs st st"
  by (simp add: post_def)

text \<open>Skipping an order that is the sweeper's own, or where nothing is left to trade.\<close>

lemma post_skip:
  assumes p: "post S x rs st st'" and s: "sorted_wrt (\<lambda>a b. \<not> better b a) (r # rs)"
    and skip: "owner r = owner x \<or> remaining (fst st) r \<le> 0 \<or> remaining (fst st) x \<le> 0"
  shows "post S x (r # rs) st st'"
proof -
  have mono: "remaining (fst st') o' \<le> remaining (fst st) o'" for o' using p by (simp add: post_def)
  obtain new where new: "snd st' = snd st @ new" "new \<noteq> [] \<longrightarrow> 0 < remaining (fst st) x"
      "\<forall>m \<in> set new. made x rs st st' m" using p by (auto simp: post_def)
  have "made x (r # rs) st st' m" if m: "m \<in> set new" for m
  proof -
    have "0 < remaining (fst st) x" using new(2) m by auto
    then have "owner r = owner x \<or> remaining (fst st') r \<le> 0" using skip mono [of r] by auto
    then show ?thesis using new(3) m by (fastforce simp: made_def)
  qed
  moreover have "remaining (fst st') x \<le> 0 \<or> (owner r \<noteq> owner x \<longrightarrow> remaining (fst st') r \<le> 0)"
    using skip mono [of r] mono [of x] by auto
  ultimately show ?thesis using p new by (auto simp: post_def)
qed

text \<open>One match, then the rest of the sweep from the state it leaves.\<close>

lemma post_match:
  assumes s: "sorted_wrt (\<lambda>a b. \<not> better b a) (r # rs)" and own: "owner r \<noteq> owner x"
    and go: "\<not> stop x r" and rr: "0 < remaining (fst st) r" and rx: "0 < remaining (fst st) x"
    and ne: "oid x \<noteq> oid r"
    and sm: "sm = push x r (min (remaining (fst st) r) (remaining (fst st) x)) st"
    and p: "post S x rs sm st' \<or> (st' = sm \<and> remaining (fst sm) x \<le> 0 \<and> good S sm)"
    and cont: "remaining (fst sm) x \<le> 0 \<or> post S x rs sm st'"
  shows "post S x (r # rs) st st'"
proof -
  let ?n = "min (remaining (fst st) r) (remaining (fst st) x)"
  have rem1: "remaining (fst sm) o' = remaining (fst st) o' - (if oid o' = oid x \<or> oid o' = oid r then ?n else 0)" for o'
    unfolding sm by (rule push_remaining [OF ne])
  have n: "0 < ?n" using rr rx by simp
  have mono1: "remaining (fst sm) o' \<le> remaining (fst st) o'" for o' using rem1 [of o'] n by auto
  have mono: "remaining (fst st') o' \<le> remaining (fst sm) o'" for o' using p by (auto simp: post_def)
  have "remaining (fst sm) x = remaining (fst st) x - ?n" "remaining (fst sm) r = remaining (fst st) r - ?n"
    by (simp_all add: rem1)
  then have r0: "remaining (fst sm) x \<le> 0 \<or> remaining (fst sm) r \<le> 0" by linarith
  obtain new where new: "snd st' = snd sm @ new" "new \<noteq> [] \<longrightarrow> 0 < remaining (fst sm) x"
      "\<forall>m \<in> set new. made x rs sm st' m" using p by (auto simp: post_def)
  have "\<forall>z \<in> set (r # rs). \<not> better z r" using s better_irrefl by auto
  then have first: "made x (r # rs) st st' (mk x r ?n)"
    unfolding made_def using own go rr n by (intro bexI [of _ r] exI [of _ ?n]) auto
  have later: "made x (r # rs) st st' m" if m: "m \<in> set new" for m
  proof -
    have "remaining (fst st') r \<le> 0" using new(2) m r0 mono [of r] by fastforce
    moreover obtain r' k where "r' \<in> set rs" "0 < k" "m = mk x r' k" "owner r' \<noteq> owner x" "\<not> stop x r'"
        "0 < remaining (fst sm) r'"
        "\<forall>z \<in> set rs. better z r' \<and> owner z \<noteq> owner x \<longrightarrow> remaining (fst st') z \<le> 0"
      using new(3) m by (auto simp: made_def)
    moreover have "0 < remaining (fst st) r'" using calculation mono1 [of r'] by linarith
    ultimately show ?thesis by (auto simp: made_def)
  qed
  have fin: "remaining (fst st') x \<le> 0 \<or> (\<forall>q \<in> set (r # rs). owner q \<noteq> owner x \<and> \<not> stop x q \<longrightarrow> remaining (fst st') q \<le> 0)"
    using p r0 mono [of r] mono [of x] by (auto simp: post_def)
  have "snd st' = snd st @ (mk x r ?n # new)" using new(1) by (simp add: sm push_results)
  moreover have "\<forall>m \<in> set (mk x r ?n # new). made x (r # rs) st st' m" using first later by simp
  moreover have "good S st'" using p by (auto simp: post_def)
  ultimately show ?thesis using fin rx mono mono1 unfolding post_def by (meson order_trans)
qed

lemma sweep_post:
  assumes "good S st" and "inj_on oid S" and "x \<in> S" and "set rs \<subseteq> S" and "\<forall>r \<in> set rs. r \<noteq> x"
    and "sorted_wrt (\<lambda>a b. \<not> better b a) rs"
  shows "post S x rs st (sweep push stop x rs st)"
  using assms
proof (induction rs arbitrary: st)
  case Nil
  then show ?case by (simp add: post_def)
next
  case (Cons r rs)
  have ne: "oid x \<noteq> oid r" using Cons.prems by (auto dest: inj_onD)
  have IH: "post S x rs s (sweep push stop x rs s)" if "good S s" for s
    using Cons that by simp
  let ?n = "min (remaining (fst st) r) (remaining (fst st) x)"
  let ?s1 = "push x r ?n st"
  show ?case
  proof (cases "owner x = owner r \<or> (\<not> stop x r \<and> (remaining (fst st) r \<le> 0 \<or> remaining (fst st) x \<le> 0))")
    case True
    then have "sweep push stop x (r # rs) st = sweep push stop x rs st" by auto
    then show ?thesis using True post_skip [OF IH [OF Cons.prems(1)] Cons.prems(6)] by auto
  next
    case False
    show ?thesis
    proof (cases "stop x r")
      case True
      then have "\<forall>q \<in> set (r # rs). stop x q" using Cons.prems(6) stop_later by auto
      then show ?thesis using True False Cons.prems(1) by (auto intro!: post_refl)
    next
      case go: False
      have g1: "good S ?s1" using Cons.prems ne by (intro good_push) auto
      have "post S x (r # rs) st (if remaining (fst ?s1) x \<le> 0 then ?s1 else sweep push stop x rs ?s1)"
        by (rule post_match [where sm = ?s1]) (use False go ne g1 IH [OF g1] Cons.prems(6) in auto)
      then show ?thesis using False go by (simp add: Let_def)
    qed
  qed
qed

end

subsection \<open>A pass: several sweeps in a row\<close>

definition run_pass :: "(resting_order \<Rightarrow> resting_order \<Rightarrow> int \<Rightarrow> match_state \<Rightarrow> match_state) \<Rightarrow>
    (resting_order \<Rightarrow> resting_order \<Rightarrow> bool) \<Rightarrow> resting_order list \<Rightarrow> resting_order list \<Rightarrow> match_state \<Rightarrow> match_state" where
  "run_pass push stop xs rs st = foldl (\<lambda>s x. sweep push stop x rs s) st xs"

locale book_pass = book_sweep mk push stop better
  for mk :: "resting_order \<Rightarrow> resting_order \<Rightarrow> int \<Rightarrow> match_result"
    and push :: "resting_order \<Rightarrow> resting_order \<Rightarrow> int \<Rightarrow> match_state \<Rightarrow> match_state"
    and stop :: "resting_order \<Rightarrow> resting_order \<Rightarrow> bool"
    and better :: "resting_order \<Rightarrow> resting_order \<Rightarrow> bool" +
  fixes prior :: "resting_order \<Rightarrow> resting_order \<Rightarrow> bool"
  assumes prior_irrefl: "\<not> prior x x"
    and prior_cross: "prior z x \<Longrightarrow> \<not> stop x r \<Longrightarrow> \<not> stop z r"
begin

definition passed_match ::
    "resting_order list \<Rightarrow> resting_order list \<Rightarrow> match_state \<Rightarrow> match_state \<Rightarrow> match_result \<Rightarrow> bool" where
  "passed_match xs rs st st' m \<longleftrightarrow> (\<exists>x \<in> set xs. \<exists>r \<in> set rs. \<exists>n > 0. m = mk x r n \<and> owner r \<noteq> owner x \<and>
     \<not> stop x r \<and> 0 < remaining (fst st) r \<and>
     (\<forall>z \<in> set rs. better z r \<and> owner z \<noteq> owner x \<longrightarrow> remaining (fst st') z \<le> 0) \<and>
     (\<forall>z \<in> set xs. prior z x \<and> owner z \<noteq> owner r \<longrightarrow> remaining (fst st') z \<le> 0))"

definition passed :: "resting_order set \<Rightarrow> resting_order list \<Rightarrow> resting_order list \<Rightarrow> match_state \<Rightarrow> match_state \<Rightarrow> bool" where
  "passed S xs rs st st' \<longleftrightarrow> good S st' \<and> (\<forall>o'. remaining (fst st') o' \<le> remaining (fst st) o') \<and>
     (\<forall>x \<in> set xs. remaining (fst st') x \<le> 0 \<or>
        (\<forall>r \<in> set rs. owner r \<noteq> owner x \<and> \<not> stop x r \<longrightarrow> remaining (fst st') r \<le> 0)) \<and>
     (\<exists>new. snd st' = snd st @ new \<and> (\<forall>m \<in> set new. passed_match xs rs st st' m))"

lemma passed_Cons:
  assumes s: "sorted_wrt (\<lambda>a b. \<not> prior b a) (x # xs)"
    and f: "post S x rs st s1" and p: "passed S xs rs s1 st'"
  shows "passed S (x # xs) rs st st'"
proof -
  have mono1: "remaining (fst s1) o' \<le> remaining (fst st) o'" for o' using f by (simp add: post_def)
  have mono: "remaining (fst st') o' \<le> remaining (fst s1) o'" for o' using p by (simp add: passed_def)
  obtain n1 where n1: "snd s1 = snd st @ n1" "\<forall>m \<in> set n1. made x rs st s1 m"
    using f by (auto simp: post_def)
  obtain n2 where n2: "snd st' = snd s1 @ n2" "\<forall>m \<in> set n2. passed_match xs rs s1 st' m"
    using p by (auto simp: passed_def)
  have first: "passed_match (x # xs) rs st st' m" if m: "m \<in> set n1" for m
  proof -
    obtain r n where "r \<in> set rs" "0 < n" "m = mk x r n" "owner r \<noteq> owner x" "\<not> stop x r"
        "0 < remaining (fst st) r"
        "\<forall>z \<in> set rs. better z r \<and> owner z \<noteq> owner x \<longrightarrow> remaining (fst s1) z \<le> 0"
      using n1(2) m by (auto simp: made_def)
    moreover have "\<forall>z \<in> set (x # xs). \<not> prior z x" using s prior_irrefl by auto
    ultimately show ?thesis using mono unfolding passed_match_def
      by (intro bexI [of _ x] bexI [of _ r] exI [of _ n]) (auto intro: order_trans)
  qed
  have later: "passed_match (x # xs) rs st st' m" if m: "m \<in> set n2" for m
  proof -
    obtain y r n where y: "y \<in> set xs" "r \<in> set rs" "0 < n" "m = mk y r n" "owner r \<noteq> owner y" "\<not> stop y r"
        "0 < remaining (fst s1) r"
        "\<forall>z \<in> set rs. better z r \<and> owner z \<noteq> owner y \<longrightarrow> remaining (fst st') z \<le> 0"
        "\<forall>z \<in> set xs. prior z y \<and> owner z \<noteq> owner r \<longrightarrow> remaining (fst st') z \<le> 0"
      using n2(2) m by (auto simp: passed_match_def)
    have "remaining (fst st') x \<le> 0" if "prior x y" "owner x \<noteq> owner r"
    proof -
      have "\<not> stop x r" using prior_cross that y by blast
      then have "remaining (fst s1) x \<le> 0" using f y that by (auto simp: post_def)
      then show ?thesis using mono [of x] by simp
    qed
    moreover have "0 < remaining (fst st) r" using y(7) mono1 [of r] by simp
    ultimately show ?thesis using y unfolding passed_match_def
      by (intro bexI [of _ y] bexI [of _ r] exI [of _ n]) auto
  qed
  have fin: "remaining (fst st') x \<le> 0 \<or> (\<forall>r \<in> set rs. owner r \<noteq> owner x \<and> \<not> stop x r \<longrightarrow> remaining (fst st') r \<le> 0)"
    using f mono unfolding post_def by (meson order_trans)
  have "snd st' = snd st @ (n1 @ n2)" using n1(1) n2(1) by simp
  moreover have "\<forall>m \<in> set (n1 @ n2). passed_match (x # xs) rs st st' m" using first later by auto
  ultimately show ?thesis using p fin mono mono1 unfolding passed_def
    by (auto intro: order_trans)
qed

lemma run_pass_passed:
  assumes "good S st" and "inj_on oid S" and "set xs \<subseteq> S" and "set rs \<subseteq> S" and "set xs \<inter> set rs = {}"
    and "sorted_wrt (\<lambda>a b. \<not> better b a) rs" and "sorted_wrt (\<lambda>a b. \<not> prior b a) xs"
  shows "passed S xs rs st (run_pass push stop xs rs st)"
  using assms
proof (induction xs arbitrary: st)
  case Nil
  then show ?case by (simp add: passed_def run_pass_def)
next
  case (Cons x xs)
  let ?s1 = "sweep push stop x rs st"
  have f: "post S x rs st ?s1" using Cons.prems by (intro sweep_post) auto
  then have "passed S xs rs ?s1 (run_pass push stop xs rs ?s1)"
    using Cons.prems by (intro Cons.IH) (auto simp: post_def)
  with Cons.prems(7) f have "passed S (x # xs) rs st (run_pass push stop xs rs ?s1)" by (rule passed_Cons)
  then show ?case by (simp add: run_pass_def)
qed

end

subsection \<open>The loops of the code are sweeps\<close>

definition market_mk :: "resting_order \<Rightarrow> resting_order \<Rightarrow> int \<Rightarrow> match_result" where
  "market_mk mo r n = \<lparr> maker = r, taker = mo, fillSize = n, fillPrice = limitPrice r \<rparr>"

definition market_push :: "resting_order \<Rightarrow> resting_order \<Rightarrow> int \<Rightarrow> match_state \<Rightarrow> match_state" where
  "market_push mo r n st = push_match r mo (market_mk mo r n) st"

definition no_stop :: "resting_order \<Rightarrow> resting_order \<Rightarrow> bool" where
  "no_stop x r \<longleftrightarrow> False"

definition limit_push :: "resting_order \<Rightarrow> resting_order \<Rightarrow> int \<Rightarrow> match_state \<Rightarrow> match_state" where
  "limit_push bid ask n st = push_match bid ask (limit_match bid ask n) st"

definition limit_stop :: "resting_order \<Rightarrow> resting_order \<Rightarrow> bool" where
  "limit_stop bid ask \<longleftrightarrow> limitPrice bid < limitPrice ask"

lemma limit_match_sel:
  "fillSize (limit_match b a n) = n"
  "fillPrice (limit_match b a n) = limitPrice (maker (limit_match b a n))"
  "(maker (limit_match b a n) = b \<and> taker (limit_match b a n) = a) \<or>
   (maker (limit_match b a n) = a \<and> taker (limit_match b a n) = b)"
  by (auto simp: limit_match_def Let_def)

lemma involves_limit_match: "involves (limit_match b a n) k \<longleftrightarrow> oid b = k \<or> oid a = k"
  by (auto simp: involves_def limit_match_def Let_def)

interpretation sell_pass: book_pass market_mk market_push no_stop better_bid "\<lambda>_ _. False"
  by unfold_locales
     (auto simp: market_push_def market_mk_def involves_def no_stop_def better_bid_def remaining_push_match)

interpretation buy_pass: book_pass market_mk market_push no_stop better_ask "\<lambda>_ _. False"
  by unfold_locales
     (auto simp: market_push_def market_mk_def involves_def no_stop_def better_ask_def remaining_push_match)

interpretation lim_pass: book_pass limit_match limit_push limit_stop better_ask better_bid
  by unfold_locales
     (auto simp: limit_push_def limit_stop_def involves_limit_match limit_match_sel better_bid_def
        better_ask_def remaining_push_match)

lemma market_inner_sweep: "market_inner mo rs st = sweep market_push no_stop mo rs st"
  by (induction mo rs st rule: market_inner.induct)
     (auto simp: Let_def market_push_def market_mk_def no_stop_def min_def)

lemma limit_inner_sweep: "limit_inner bid rs st = sweep limit_push limit_stop bid rs st"
  by (induction bid rs st rule: limit_inner.induct)
     (auto simp: Let_def limit_push_def limit_stop_def min_def)

lemma market_pass_run: "market_pass mos rs st = run_pass market_push no_stop mos rs st"
  by (simp add: market_pass_def run_pass_def market_inner_sweep)

lemma limit_pass_run: "limit_pass bids rs st = run_pass limit_push limit_stop bids rs st"
  by (simp add: limit_pass_def run_pass_def limit_inner_sweep)

subsection \<open>The whole pass\<close>

text \<open>
  What the loaders guarantee of the two lists: order ids are unique, nothing is overfilled to begin
  with, and market orders have no limit price.
\<close>

definition book_ok :: "resting_order list \<Rightarrow> resting_order list \<Rightarrow> bool" where
  "book_ok L M \<longleftrightarrow> distinct (map oid (L @ M)) \<and> (\<forall>o' \<in> set (L @ M). filledSize o' \<le> size o') \<and>
     (\<forall>o' \<in> set M. limitPrice o' = 0)"

definition after_sells :: "resting_order list \<Rightarrow> resting_order list \<Rightarrow> match_state" where
  "after_sells L M = market_pass (filter (\<lambda>o'. \<not> isLong o') M) (limitBids L) ([], [])"

definition after_buys :: "resting_order list \<Rightarrow> resting_order list \<Rightarrow> match_state" where
  "after_buys L M = market_pass (filter isLong M) (limitAsks L) (after_sells L M)"

lemma match_state_steps: "match_state_of L M = limit_pass (limitBids L) (limitAsks L) (after_buys L M)"
  by (simp add: match_state_of_def after_buys_def after_sells_def Let_def)

lemma inj_on_book: "book_ok L M \<Longrightarrow> inj_on oid (set L \<union> set M)"
  by (auto simp: book_ok_def distinct_map inj_on_Un)

lemma book_disjoint: "book_ok L M \<Longrightarrow> o' \<in> set L \<Longrightarrow> o' \<notin> set M"
  by (auto simp: book_ok_def)

lemma good_start: "book_ok L M \<Longrightarrow> good (set L \<union> set M) ([], [])"
  by (auto simp: good_def book_ok_def remaining_def remaining_after_def filled_in_def pending_count_def)

lemma sorted_trivial [simp]: "sorted_wrt (\<lambda>_ _. True) xs"
  by (induction xs) auto

lemma sells_passed:
  assumes "book_ok L M"
  shows "sell_pass.passed (set L \<union> set M) (filter (\<lambda>o'. \<not> isLong o') M) (limitBids L) ([], []) (after_sells L M)"
  unfolding after_sells_def market_pass_run
  by (rule sell_pass.run_pass_passed)
     (use assms good_start inj_on_book book_disjoint sorted_limitBids in auto)

lemma buys_passed:
  assumes "book_ok L M"
  shows "buy_pass.passed (set L \<union> set M) (filter isLong M) (limitAsks L) (after_sells L M) (after_buys L M)"
  unfolding after_buys_def market_pass_run
  by (rule buy_pass.run_pass_passed)
     (use assms sells_passed [OF assms] inj_on_book book_disjoint sorted_limitAsks
        in \<open>auto simp: sell_pass.passed_def\<close>)

lemma limits_passed:
  assumes "book_ok L M"
  shows "lim_pass.passed (set L \<union> set M) (limitBids L) (limitAsks L) (after_buys L M) (match_state_of L M)"
  unfolding match_state_steps limit_pass_run
  by (rule lim_pass.run_pass_passed)
     (use assms buys_passed [OF assms] inj_on_book sorted_limitAsks sorted_limitBids
        in \<open>auto simp: buy_pass.passed_def\<close>)

lemma good_final: "book_ok L M \<Longrightarrow> good (set L \<union> set M) (match_state_of L M)"
  using limits_passed by (simp add: lim_pass.passed_def)

lemma remaining_final: "book_ok L M \<Longrightarrow> remaining (fst (match_state_of L M)) o' = remaining_after (matchAll L M) o'"
  using good_final by (auto simp: good_def matchAll_def)

lemma remaining_decreases:
  assumes "book_ok L M"
  shows "remaining (fst (match_state_of L M)) o' \<le> remaining (fst (after_buys L M)) o'"
    and "remaining (fst (after_buys L M)) o' \<le> remaining (fst (after_sells L M)) o'"
  using limits_passed [OF assms] buys_passed [OF assms]
  by (simp_all add: lim_pass.passed_def buy_pass.passed_def)

text \<open>The three kinds of match, with what each says about the orders that had to go first.\<close>

definition exhausted :: "resting_order list \<Rightarrow> resting_order list \<Rightarrow> resting_order \<Rightarrow> bool" where
  "exhausted L M z \<longleftrightarrow> remaining_after (matchAll L M) z \<le> 0"

lemma matchAll_cases:
  assumes "book_ok L M" and "m \<in> set (matchAll L M)"
  obtains (sell) x r n where "x \<in> set M" "\<not> isLong x" "r \<in> set L" "isLong r" "0 < n" "m = market_mk x r n"
      "owner r \<noteq> owner x" "\<forall>z \<in> set L. isLong z \<and> better_bid z r \<and> owner z \<noteq> owner x \<longrightarrow> exhausted L M z"
  | (buy) x r n where "x \<in> set M" "isLong x" "r \<in> set L" "\<not> isLong r" "0 < n" "m = market_mk x r n"
      "owner r \<noteq> owner x" "\<forall>z \<in> set L. \<not> isLong z \<and> better_ask z r \<and> owner z \<noteq> owner x \<longrightarrow> exhausted L M z"
  | (limit) x r n where "x \<in> set L" "isLong x" "r \<in> set L" "\<not> isLong r" "0 < n" "m = limit_match x r n"
      "owner r \<noteq> owner x" "limitPrice r \<le> limitPrice x"
      "\<forall>z \<in> set L. \<not> isLong z \<and> better_ask z r \<and> owner z \<noteq> owner x \<longrightarrow> exhausted L M z"
      "\<forall>z \<in> set L. isLong z \<and> better_bid z x \<and> owner z \<noteq> owner r \<longrightarrow> exhausted L M z"
proof -
  note P = sells_passed [OF assms(1)] buys_passed [OF assms(1)] limits_passed [OF assms(1)]
  have ex: "exhausted L M z" if "remaining (fst s) z \<le> 0" and "s = after_sells L M \<or> s = after_buys L M \<or> s = match_state_of L M" for s z
    using that remaining_decreases [OF assms(1), of z] remaining_final [OF assms(1), of z]
    by (auto simp: exhausted_def)
  obtain n1 n2 n3 where
      "snd (after_sells L M) = n1" and
      n1: "\<forall>m \<in> set n1. sell_pass.passed_match (filter (\<lambda>o'. \<not> isLong o') M) (limitBids L) ([], []) (after_sells L M) m" and
      "snd (after_buys L M) = snd (after_sells L M) @ n2" and
      n2: "\<forall>m \<in> set n2. buy_pass.passed_match (filter isLong M) (limitAsks L) (after_sells L M) (after_buys L M) m" and
      "snd (match_state_of L M) = snd (after_buys L M) @ n3" and
      n3: "\<forall>m \<in> set n3. lim_pass.passed_match (limitBids L) (limitAsks L) (after_buys L M) (match_state_of L M) m"
    using P unfolding sell_pass.passed_def buy_pass.passed_def lim_pass.passed_def by auto
  then have "m \<in> set n1 \<or> m \<in> set n2 \<or> m \<in> set n3" using assms(2) by (auto simp: matchAll_def)
  then show ?thesis
  proof (elim disjE)
    assume "m \<in> set n1"
    then have "sell_pass.passed_match (filter (\<lambda>o'. \<not> isLong o') M) (limitBids L) ([], []) (after_sells L M) m"
      using n1 by blast
    then obtain x r n where "x \<in> set M" "\<not> isLong x" "r \<in> set L" "isLong r" "0 < n" "m = market_mk x r n"
        "owner r \<noteq> owner x"
        and best: "\<forall>z \<in> set L. isLong z \<longrightarrow> better_bid z r \<and> owner z \<noteq> owner x \<longrightarrow> remaining (fst (after_sells L M)) z \<le> 0"
      unfolding sell_pass.passed_match_def by auto
    then show ?thesis by (intro sell) (auto intro: ex)
  next
    assume "m \<in> set n2"
    then have "buy_pass.passed_match (filter isLong M) (limitAsks L) (after_sells L M) (after_buys L M) m"
      using n2 by blast
    then obtain x r n where "x \<in> set M" "isLong x" "r \<in> set L" "\<not> isLong r" "0 < n" "m = market_mk x r n"
        "owner r \<noteq> owner x"
        and best: "\<forall>z \<in> set L. \<not> isLong z \<longrightarrow> better_ask z r \<and> owner z \<noteq> owner x \<longrightarrow> remaining (fst (after_buys L M)) z \<le> 0"
      unfolding buy_pass.passed_match_def by auto
    then show ?thesis by (intro buy) (auto intro: ex)
  next
    assume "m \<in> set n3"
    then have "lim_pass.passed_match (limitBids L) (limitAsks L) (after_buys L M) (match_state_of L M) m"
      using n3 by blast
    then obtain x r n where "x \<in> set L" "isLong x" "r \<in> set L" "\<not> isLong r" "0 < n" "m = limit_match x r n"
        "owner r \<noteq> owner x" "limitPrice r \<le> limitPrice x"
        and best: "\<forall>z \<in> set L. \<not> isLong z \<longrightarrow> better_ask z r \<and> owner z \<noteq> owner x \<longrightarrow> remaining (fst (match_state_of L M)) z \<le> 0"
          "\<forall>z \<in> set L. isLong z \<longrightarrow> better_bid z x \<and> owner z \<noteq> owner r \<longrightarrow> remaining (fst (match_state_of L M)) z \<le> 0"
      unfolding lim_pass.passed_match_def limit_stop_def by auto
    then show ?thesis by (intro limit) (auto intro: ex)
  qed
qed

lemma remaining_after_nonneg:
  assumes "book_ok L M" and "o' \<in> set L \<union> set M"
  shows "0 \<le> remaining_after (matchAll L M) o'"
  using good_final [OF assms(1)] assms(2) unfolding remaining_final [OF assms(1), symmetric] good_def by blast

lemma exhausted_zero:
  assumes "book_ok L M" and "o' \<in> set L \<union> set M"
  shows "exhausted L M o' \<longleftrightarrow> remaining_after (matchAll L M) o' = 0"
  using remaining_after_nonneg [OF assms] unfolding exhausted_def by linarith

text \<open>A small book for the witnesses: an ask, a worse ask, a bid that crosses the first, a market buy.\<close>

definition sample_resting :: "string \<Rightarrow> string \<Rightarrow> bool \<Rightarrow> int \<Rightarrow> int \<Rightarrow> int \<Rightarrow> resting_order" where
  "sample_resting k who long sz px t =
     \<lparr> owner = who, marketId = 1, isLong = long, size = sz, limitPrice = px, reduceOnly = False, nonce = t,
       expiryTs = 0, oid = k, filledSize = 0, createdAt = t, signature = None \<rparr>"

definition sample_limits :: "resting_order list" where
  "sample_limits = [sample_resting ''a'' ''A'' False 5 100 1, sample_resting ''b'' ''B'' True 3 105 2,
     sample_resting ''c'' ''A'' False 4 103 3]"

definition sample_markets :: "resting_order list" where
  "sample_markets = [sample_resting ''d'' ''C'' True 4 0 4]"

lemma sample_book_ok: "book_ok sample_limits sample_markets"
  by (simp add: book_ok_def sample_limits_def sample_markets_def sample_resting_def)

lemma sample_matches:
  "matchAll sample_limits sample_markets =
    [\<lparr> maker = sample_limits ! 0, taker = sample_markets ! 0, fillSize = 4, fillPrice = 100 \<rparr>,
     \<lparr> maker = sample_limits ! 0, taker = sample_limits ! 1, fillSize = 1, fillPrice = 100 \<rparr>,
     \<lparr> maker = sample_limits ! 1, taker = sample_limits ! 2, fillSize = 2, fillPrice = 105 \<rparr>]"
  by code_simp

text \<open>
  C30. No order is overfilled: over one matching pass the fills that involve an order add up to at
  most its unfilled size, whatever mix of market and limit matches they come from.
\<close>

theorem matchAll_never_overfills:
  assumes "book_ok L M" and "o' \<in> set L \<union> set M"
  shows "filledSize o' + filled_in (matchAll L M) (oid o') \<le> size o'"
  using remaining_after_nonneg [OF assms] unfolding remaining_after_def by linarith

text \<open>
  C31. Every match is between two different owners on opposite sides, for a positive size, at the
  maker's limit price; the maker is a resting limit order, and a taker that is itself a limit order
  gets its limit or better.
\<close>

theorem matchAll_respects_prices:
  assumes "book_ok L M" and "m \<in> set (matchAll L M)"
  shows "maker m \<in> set L \<and> taker m \<in> set L \<union> set M \<and> owner (maker m) \<noteq> owner (taker m) \<and>
     isLong (maker m) \<noteq> isLong (taker m) \<and> 0 < fillSize m \<and> fillPrice m = limitPrice (maker m) \<and>
     (taker m \<in> set L \<longrightarrow> (if isLong (taker m) then fillPrice m \<le> limitPrice (taker m)
                        else limitPrice (taker m) \<le> fillPrice m))"
  using assms
proof (cases rule: matchAll_cases)
  case (sell x r n)
  then show ?thesis using book_disjoint [OF assms(1)] by (auto simp: market_mk_def)
next
  case (buy x r n)
  then show ?thesis using book_disjoint [OF assms(1)] by (auto simp: market_mk_def)
next
  case (limit x r n)
  then show ?thesis by (auto simp: limit_match_def Let_def)
qed

text \<open>
  C32. The pass leaves no crossed book: a resting limit order and an order of the other side and of
  another owner that may trade with it - a limit order whose price crosses, or any market order, buy or
  sell - are not both open afterwards: one of the two is completely filled. (Market orders are never
  matched with each other.)
\<close>

theorem matchAll_leaves_no_cross:
  assumes "book_ok L M" and "r \<in> set L" and "x \<in> set L \<union> set M" and "owner x \<noteq> owner r" and "isLong x \<noteq> isLong r"
    and "x \<in> set M \<or> (if isLong x then limitPrice r \<le> limitPrice x else limitPrice x \<le> limitPrice r)"
  shows "remaining_after (matchAll L M) x = 0 \<or> remaining_after (matchAll L M) r = 0"
proof -
  have lim: "exhausted L M bid \<or> exhausted L M ask"
    if "bid \<in> set L" "ask \<in> set L" "isLong bid" "\<not> isLong ask" "owner bid \<noteq> owner ask" "limitPrice ask \<le> limitPrice bid" for bid ask
    using limits_passed [OF assms(1)] that remaining_final [OF assms(1)]
    by (force simp: lim_pass.passed_def limit_stop_def exhausted_def)
  have buy: "exhausted L M x \<or> exhausted L M r" if "x \<in> set M" "isLong x"
  proof -
    have "remaining (fst (after_buys L M)) x \<le> 0 \<or> remaining (fst (after_buys L M)) r \<le> 0"
      using buys_passed [OF assms(1)] that assms(2,4,5) by (force simp: buy_pass.passed_def no_stop_def)
    then show ?thesis
      using remaining_decreases(1) [OF assms(1)] remaining_final [OF assms(1)]
      unfolding exhausted_def by (metis order_trans)
  qed
  have sell: "exhausted L M x \<or> exhausted L M r" if "x \<in> set M" "\<not> isLong x"
  proof -
    have "remaining (fst (after_sells L M)) x \<le> 0 \<or> remaining (fst (after_sells L M)) r \<le> 0"
      using sells_passed [OF assms(1)] that assms(2,4,5) by (force simp: sell_pass.passed_def no_stop_def)
    then show ?thesis
      using remaining_decreases [OF assms(1)] remaining_final [OF assms(1)]
      unfolding exhausted_def by (metis order_trans)
  qed
  have "exhausted L M x \<or> exhausted L M r"
    using lim [of x r] lim [of r x] buy sell assms by (auto split: if_splits)
  then show ?thesis using exhausted_zero [OF assms(1)] assms(2,3) by blast
qed

text \<open>
  C33. Price-time priority: when a resting order takes part in a match, every resting order of its
  side with a strictly better price, or the same price and an earlier time, that the counterparty
  may trade with (it has another owner) ends the pass completely filled.
\<close>

theorem matchAll_price_time_priority:
  assumes "book_ok L M" and "m \<in> set (matchAll L M)" and "{x, y} = {maker m, taker m}" and "x \<in> set L"
    and "z \<in> set L" and "isLong z = isLong x" and "owner z \<noteq> owner y"
    and "if isLong x then better_bid z x else better_ask z x"
  shows "remaining_after (matchAll L M) z = 0"
proof -
  have "exhausted L M z"
    using assms(1,2)
  proof (cases rule: matchAll_cases)
    case (sell a r n)
    then have "x = r" "y = a" using assms(3,4) book_disjoint [OF assms(1)] by (auto simp: market_mk_def doubleton_eq_iff)
    then show ?thesis using sell assms(5-8) by auto
  next
    case (buy a r n)
    then have "x = r" "y = a" using assms(3,4) book_disjoint [OF assms(1)] by (auto simp: market_mk_def doubleton_eq_iff)
    then show ?thesis using buy assms(5-8) by auto
  next
    case (limit b a n)
    then have "(x = a \<and> y = b) \<or> (x = b \<and> y = a)"
      using assms(3) limit_match_sel(3) [of b a n] by (auto simp: doubleton_eq_iff)
    then show ?thesis using limit assms(5-8) by auto
  qed
  then show ?thesis using exhausted_zero [OF assms(1)] assms(5) by blast
qed

lemma matchAll_never_overfills_witness:
  "filledSize (sample_limits ! 0) + filled_in (matchAll sample_limits sample_markets) ''a'' \<le> size (sample_limits ! 0) \<and>
   filled_in (matchAll sample_limits sample_markets) ''a'' = 5"
  using matchAll_never_overfills [OF sample_book_ok, of "sample_limits ! 0"]
  by (simp add: sample_matches filled_in_def involves_def) 
     (simp add: sample_limits_def sample_markets_def sample_resting_def)

lemma matchAll_respects_prices_witness:
  "fillPrice (matchAll sample_limits sample_markets ! 1) \<le> limitPrice (sample_limits ! 1)"
  using matchAll_respects_prices [OF sample_book_ok, of "matchAll sample_limits sample_markets ! 1"]
  by (simp add: sample_matches) (simp add: sample_limits_def sample_markets_def sample_resting_def)

definition sample_sells :: "resting_order list" where
  "sample_sells = [sample_resting ''e'' ''C'' False 2 0 5]"

lemma matchAll_leaves_no_cross_witness:
  "(remaining_after (matchAll sample_limits sample_markets) (sample_markets ! 0) = 0 \<or>
    remaining_after (matchAll sample_limits sample_markets) (sample_limits ! 0) = 0) \<and>
   (remaining_after (matchAll sample_limits sample_sells) (sample_sells ! 0) = 0 \<or>
    remaining_after (matchAll sample_limits sample_sells) (sample_limits ! 1) = 0)"
proof -
  have ok: "book_ok sample_limits sample_sells" by (simp add: book_ok_def sample_limits_def sample_sells_def sample_resting_def)
  show ?thesis
    using matchAll_leaves_no_cross [OF sample_book_ok, of "sample_limits ! 0" "sample_markets ! 0"]
      matchAll_leaves_no_cross [OF ok, of "sample_limits ! 1" "sample_sells ! 0"]
    by (simp add: sample_limits_def sample_markets_def sample_sells_def sample_resting_def)
qed

lemma matchAll_price_time_priority_witness:
  "remaining_after (matchAll sample_limits sample_markets) (sample_limits ! 0) = 0"
  by (rule matchAll_price_time_priority [OF sample_book_ok,
        of "matchAll sample_limits sample_markets ! 2" "sample_limits ! 2" "sample_limits ! 1"])
     (simp_all add: sample_matches insert_commute, simp_all add: sample_limits_def sample_resting_def better_ask_def)

end
