(* ===== verification/Matcher_Correct.thy ===== *)
theory Matcher_Correct
  imports Matcher_Service Matching_Correct Order_Validation
begin

text \<open>
  Correctness of the matcher service. The locale \<open>tick_invariant\<close> is the contract between the tick
  and the statements it issues: a property of the database that every statement keeps, for the
  matches the tick reaches, is kept by the whole service, whichever statements throw. It is
  interpreted on the integrity of the order table, and on the statement that every recorded fill is
  priced within the oracle band.
\<close>

subsection \<open>What a loaded book satisfies\<close>

lemma mapOrderRow_sel [simp]:
  "oid (mapOrderRow r) = oid r" "owner (mapOrderRow r) = owner r" "marketId (mapOrderRow r) = marketId r"
  "filledSize (mapOrderRow r) = filledSize r" "size (mapOrderRow r) = size r"
  "limitPrice (mapOrderRow r) = limitPrice r" "isLong (mapOrderRow r) = isLong r"
  "signature (mapOrderRow r) = signature r" "nonce (mapOrderRow r) = nonce r" "createdAt (mapOrderRow r) = createdAt r"
  "expiryTs (mapOrderRow r) = expiryTs r" "reduceOnly (mapOrderRow r) = reduceOnly r"
  by (simp_all add: mapOrderRow_def)

lemma set_loadRestingOrders:
  "set (loadRestingOrders now mkt d) = mapOrderRow ` {r \<in> set (db_orders d). open_row (now div 1000) mkt r \<and> limitPrice r \<noteq> 0}"
  by (simp add: loadRestingOrders_def)

lemma set_loadMarketOrders:
  "set (loadMarketOrders now mkt d) = mapOrderRow ` {r \<in> set (db_orders d). open_row (now div 1000) mkt r \<and> limitPrice r = 0}"
  by (simp add: loadMarketOrders_def)

lemma map_oid_mapOrderRow: "map oid (map mapOrderRow rs) = map oid rs"
  by simp

lemma distinct_load:
  "distinct (map oid t) \<Longrightarrow> distinct (map oid (map mapOrderRow (js_sort c (filter P t))))"
proof -
  assume "distinct (map oid t)"
  then have "distinct (map oid (filter P t))" by (rule distinct_map_filter)
  moreover have "mset (map oid (js_sort c (filter P t))) = mset (map oid (filter P t))"
    by (simp add: mset_js_sort)
  ultimately show ?thesis unfolding map_oid_mapOrderRow by (metis mset_eq_imp_distinct_iff)
qed

lemma loaded_book_ok:
  assumes "orders_ok (db_orders d)"
  shows "book_ok (loadRestingOrders now mkt d) (loadMarketOrders now mkt d)"
proof -
  have inj: "inj_on oid (set (db_orders d))" and dist: "distinct (map oid (db_orders d))"
    using assms by (auto simp: orders_ok_def distinct_map)
  have "distinct (map oid (loadRestingOrders now mkt d))" "distinct (map oid (loadMarketOrders now mkt d))"
    unfolding loadRestingOrders_def loadMarketOrders_def using dist by (simp_all only: distinct_load)
  moreover have "oid ` set (loadRestingOrders now mkt d) \<inter> oid ` set (loadMarketOrders now mkt d) = {}"
  proof (rule equals0I)
    fix k assume "k \<in> oid ` set (loadRestingOrders now mkt d) \<inter> oid ` set (loadMarketOrders now mkt d)"
    then obtain a b where "a \<in> set (db_orders d)" "b \<in> set (db_orders d)" "oid a = oid b"
        "limitPrice a \<noteq> 0" "limitPrice b = 0"
      by (auto simp: set_loadRestingOrders set_loadMarketOrders)
    then show False using inj_onD [OF inj, of a b] by simp
  qed
  ultimately show ?thesis
    using assms
    by (auto simp: book_ok_def set_loadRestingOrders set_loadMarketOrders open_row_def)
qed

lemma inBandLimits_filter: "\<exists>P. inBandLimits E p ls = filter P ls"
  by (cases p) (auto simp: inBandLimits_def filter_False intro: exI [of _ "\<lambda>_. False"])

lemma book_ok_filter: "book_ok L M \<Longrightarrow> book_ok (filter P L) M"
  by (auto simp: book_ok_def distinct_map_filter)

lemma market_matches_book:
  "orders_ok (db_orders d) \<Longrightarrow>
     book_ok (inBandLimits E (loadOraclePrice mkt d) (loadRestingOrders (me_now E) mkt d)) (loadMarketOrders (me_now E) mkt d)"
  using inBandLimits_filter [of E "loadOraclePrice mkt d" "loadRestingOrders (me_now E) mkt d"]
    book_ok_filter [OF loaded_book_ok] by metis

text \<open>What the tick knows of a match it is about to record.\<close>

definition sound_match :: "matcher_env \<Rightarrow> int \<Rightarrow> int \<Rightarrow> match_result \<Rightarrow> bool" where
  "sound_match E mkt oracle m \<longleftrightarrow> 0 < fillSize m \<and> owner (maker m) \<noteq> owner (taker m) \<and>
     oid (maker m) \<noteq> oid (taker m) \<and>
     marketId (maker m) = mkt \<and> marketId (taker m) = mkt \<and> withinOracleBand (me_maxDeviation E) (fillPrice m) oracle"

lemma matchAll_basic:
  assumes "book_ok L M" and "m \<in> set (matchAll L M)"
  shows "maker m \<in> set L \<and> taker m \<in> set L \<union> set M \<and> owner (maker m) \<noteq> owner (taker m) \<and> 0 < fillSize m \<and>
     fillPrice m = limitPrice (maker m) \<and> oid (maker m) \<noteq> oid (taker m)"
proof -
  have "inj_on oid (set L \<union> set M)" by (rule inj_on_book [OF assms(1)])
  then have ids: "oid a \<noteq> oid b" if "a \<in> set L \<union> set M" "b \<in> set L \<union> set M" "owner a \<noteq> owner b" for a b
    using that by (metis inj_onD)
  show ?thesis
    using assms
  proof (cases rule: matchAll_cases)
    case (sell x r n)
    then show ?thesis using ids [of r x] by (auto simp: market_mk_def)
  next
    case (buy x r n)
    then show ?thesis using ids [of r x] by (auto simp: market_mk_def)
  next
    case (limit x r n)
    then show ?thesis using ids [of r x] by (auto simp: limit_match_def Let_def)
  qed
qed

lemma market_matches_sound:
  assumes "orders_ok (db_orders d)" and "m \<in> set (market_matches E mkt d)"
    and "loadOraclePrice mkt d = Some p" and "withinOracleBand (me_maxDeviation E) (fillPrice m) p"
  shows "sound_match E mkt p m"
proof -
  have sub: "set (inBandLimits E (loadOraclePrice mkt d) ls) \<subseteq> set ls" for ls
    using inBandLimits_filter [of E "loadOraclePrice mkt d" ls] by auto
  have mkt: "marketId o' = mkt" if "o' \<in> set (loadRestingOrders (me_now E) mkt d) \<union> set (loadMarketOrders (me_now E) mkt d)" for o'
    using that by (auto simp: set_loadRestingOrders set_loadMarketOrders open_row_def)
  show ?thesis
    using matchAll_basic [OF market_matches_book [OF assms(1)] assms(2) [unfolded market_matches_def]] assms(4)
      subsetD [OF sub] mkt
    unfolding sound_match_def by blast
qed

subsection \<open>The contract of the tick\<close>

locale tick_invariant =
  fixes E :: matcher_env and I :: "database \<Rightarrow> bool" and ok_match :: "match_result \<Rightarrow> bool"
  assumes reached: "I d \<Longrightarrow> m \<in> set (market_matches E mkt d) \<Longrightarrow> loadOraclePrice mkt d = Some p \<Longrightarrow>
        withinOracleBand (me_maxDeviation E) (fillPrice m) p \<Longrightarrow> ok_match m"
    and insert_fill: "I d \<Longrightarrow> ok_match m \<Longrightarrow> I (d\<lparr> db_fills := db_fills d @ [fill_of (me_network E) (me_now E) m] \<rparr>)"
    and delete_fill: "I d \<Longrightarrow> I (delete_fills net h d)"
    and increment: "I d \<Longrightarrow> ok_match m \<Longrightarrow> I (snd (increment_filled k (fillSize m) d))"
    and decrement: "I d \<Longrightarrow> ok_match m \<Longrightarrow> I (decrement_filled k (fillSize m) d)"
    and market: "I d \<Longrightarrow> ok_match m \<Longrightarrow> I (update_market m d)"
    and settle: "I d \<Longrightarrow> ok_match m \<Longrightarrow> I (snd (executeSettlement E m d))"
    and cancel: "I d \<Longrightarrow> ok_match m \<Longrightarrow> sd = maker m \<or> sd = taker m \<Longrightarrow>
        settlementSigValid (me_crypto E) (me_cfg E) sd = Some False \<Longrightarrow> I (cancelPoisonOrder (oid sd) d)"
begin

lemma persist: "I d \<Longrightarrow> ok_match m \<Longrightarrow> I (snd (persistFill E m d))"
proof -
  assume d: "I d" and m: "ok_match m"
  have ins: "I (d\<lparr> db_fills := snd (insert_unless (same_fill (fill_of (me_network E) (me_now E) m)) (fill_of (me_network E) (me_now E) m) (db_fills d)) \<rparr>)"
    using d insert_fill [OF d m] by (simp add: insert_unless_def)
  show ?thesis
    unfolding persistFill_def Let_def case_prod_beta
    by (auto intro!: market increment ins d m)
qed

lemma rollback: "I d \<Longrightarrow> ok_match m \<Longrightarrow> I (rollbackFill E m d)"
  unfolding rollbackFill_def Let_def by (auto intro!: decrement delete_fill)

lemma fill_settle: "I d \<Longrightarrow> ok_match m \<Longrightarrow> I (snd (fill_and_settle E m d))"
proof -
  assume d: "I d" and m: "ok_match m"
  have p: "I (snd (persistFill E m d))" by (rule persist [OF d m])
  have s: "I (snd (executeSettlement E m (snd (persistFill E m d))))" by (rule settle [OF p m])
  show ?thesis
    unfolding fill_and_settle_def Let_def case_prod_beta
    using p s rollback [OF s m] by (auto split: option.splits bool.splits)
qed

lemma side: "I d \<Longrightarrow> ok_match m \<Longrightarrow> sd = maker m \<or> sd = taker m \<Longrightarrow> I (snd (check_side E m i sd d))"
  unfolding check_side_def by (auto intro: cancel split: option.splits bool.splits)

lemma sides: "I d \<Longrightarrow> ok_match m \<Longrightarrow> I (snd (check_sides E m d))"
proof -
  assume d: "I d" and m: "ok_match m"
  have 1: "I (snd (check_side E m 0 (maker m) d))" by (rule side [OF d m]) simp
  have 2: "I (snd (check_side E m 1 (taker m) (snd (check_side E m 0 (maker m) d))))" by (rule side [OF 1 m]) simp
  show ?thesis
    unfolding check_sides_def case_prod_beta
    using 1 2 by (auto split: option.splits)
qed

lemma process_one:
  "I d \<Longrightarrow> (\<And>p. oracle = Some p \<Longrightarrow> withinOracleBand (me_maxDeviation E) (fillPrice m) p \<Longrightarrow> ok_match m) \<Longrightarrow>
     I (snd (process_match E oracle m d))"
proof -
  assume d: "I d" and ok: "\<And>p. oracle = Some p \<Longrightarrow> withinOracleBand (me_maxDeviation E) (fillPrice m) p \<Longrightarrow> ok_match m"
  show ?thesis
  proof (cases "oracle = None \<or> \<not> withinOracleBand (me_maxDeviation E) (fillPrice m) (the oracle)")
    case True
    then show ?thesis using d by (auto simp: process_match_def)
  next
    case False
    then have m: "ok_match m" using ok by auto
    have s: "I (snd (check_sides E m d))" by (rule sides [OF d m])
    have "I (snd (fill_and_settle E m (snd (check_sides E m d))))" by (rule fill_settle [OF s m])
    then show ?thesis
      unfolding process_match_def case_prod_beta
      using d s by (auto split: option.splits bool.splits)
  qed
qed

lemma process_all:
  "I d \<Longrightarrow> (\<And>m p. m \<in> set ms \<Longrightarrow> oracle = Some p \<Longrightarrow> withinOracleBand (me_maxDeviation E) (fillPrice m) p \<Longrightarrow> ok_match m) \<Longrightarrow>
     I (snd (process_matches E oracle ms n d))"
proof (induction ms arbitrary: n d)
  case Nil
  then show ?case by simp
next
  case (Cons m ms)
  have "I (snd (process_match E oracle m d))" using Cons.prems by (intro process_one) auto
  then have "I (snd (process_matches E oracle ms k (snd (process_match E oracle m d))))" for k
    using Cons.prems by (intro Cons.IH) auto
  with \<open>I (snd (process_match E oracle m d))\<close> show ?case
    by (cases "process_match E oracle m d") (auto split: option.splits)
qed

lemma one_market: "I d \<Longrightarrow> I (snd (tick_market E k n d))"
  unfolding tick_market_def by (auto intro!: process_all intro: reached)

lemma all_markets: "I d \<Longrightarrow> I (snd (tick_markets E ks n d))"
proof (induction ks arbitrary: n d)
  case Nil
  then show ?case by simp
next
  case (Cons k ks)
  have "I (snd (tick_market E k n d))" by (rule one_market [OF Cons.prems])
  then show ?case using Cons.IH by (cases "tick_market E k n d") (auto split: option.splits)
qed

lemma whole_tick: "I d \<Longrightarrow> I (snd (tick E d))"
  unfolding tick_def by (rule all_markets)

end

subsection \<open>The order table stays sound\<close>

lemma executeSettlement_tables:
  "db_orders (snd (executeSettlement E m d)) = db_orders d \<and> db_fills (snd (executeSettlement E m d)) = db_fills d"
  "db_markets (snd (executeSettlement E m d)) = db_markets d"
  unfolding executeSettlement_def Let_def upsert_job_def by (auto split: option.splits)

lemma orders_increment:
  assumes "orders_ok (db_orders d)" and "0 < n"
  shows "orders_ok (db_orders (snd (increment_filled k n d)))"
proof -
  have "orders_ok (update_where (room_for k n) (add_filled n) (db_orders d))"
    by (rule orders_ok_update [OF assms(1)]) (use assms(2) in \<open>auto simp: room_for_def intro: order_fill_ok_add\<close>)
  then show ?thesis by (simp add: increment_filled_def)
qed

lemma orders_decrement:
  assumes "orders_ok (db_orders d)" and "0 < n"
  shows "orders_ok (db_orders (decrement_filled k n d))"
proof -
  have "orders_ok (update_where (\<lambda>r. oid r = k) (sub_filled n) (db_orders d))"
    by (rule orders_ok_update [OF assms(1)]) (use assms(2) in \<open>auto intro: order_fill_ok_sub\<close>)
  then show ?thesis by (simp add: decrement_filled_def)
qed

lemma orders_cancel: "orders_ok (db_orders d) \<Longrightarrow> orders_ok (db_orders (cancelPoisonOrder k d))"
proof -
  assume "orders_ok (db_orders d)"
  then have "orders_ok (update_where (\<lambda>r. oid r = k) (\<lambda>r. r\<lparr> cancelled := True \<rparr>) (db_orders d))"
    by (rule orders_ok_update) (simp_all add: order_fill_ok_def)
  then show ?thesis by (simp add: cancelPoisonOrder_def)
qed

lemma only_orders [simp]:
  "db_markets (snd (increment_filled k n d)) = db_markets d" "db_fills (snd (increment_filled k n d)) = db_fills d"
  "db_markets (decrement_filled k n d) = db_markets d" "db_fills (decrement_filled k n d) = db_fills d"
  "db_markets (cancelPoisonOrder k d) = db_markets d" "db_fills (cancelPoisonOrder k d) = db_fills d"
  "db_orders (delete_fills net h d) = db_orders d" "db_markets (delete_fills net h d) = db_markets d"
  "db_orders (update_market m d) = db_orders d" "db_fills (update_market m d) = db_fills d"
  by (simp_all add: increment_filled_def decrement_filled_def cancelPoisonOrder_def delete_fills_def update_market_def)

interpretation book: tick_invariant E "\<lambda>d. orders_ok (db_orders d)" "\<lambda>m. 0 < fillSize m" for E
proof unfold_locales
  fix d m mkt p
  assume "orders_ok (db_orders d)" "m \<in> set (market_matches E mkt d)" "loadOraclePrice mkt d = Some p"
    "withinOracleBand (me_maxDeviation E) (fillPrice m) p"
  then show "0 < fillSize m" using market_matches_sound by (auto simp: sound_match_def)
qed (simp_all add: orders_increment orders_decrement orders_cancel executeSettlement_tables)

subsection \<open>Fills stay within the band\<close>

definition fill_sound :: "matcher_env \<Rightarrow> database \<Rightarrow> fill_row \<Rightarrow> bool" where
  "fill_sound E d f \<longleftrightarrow> 0 < f_size f \<and> f_maker f \<noteq> f_taker f \<and>
     (\<exists>p. loadOraclePrice (f_marketId f) d = Some p \<and> withinOracleBand (me_maxDeviation E) (f_price f) p)"

definition band_inv :: "matcher_env \<Rightarrow> database \<Rightarrow> database \<Rightarrow> bool" where
  "band_inv E d0 d \<longleftrightarrow> orders_ok (db_orders d) \<and> (\<forall>k. loadOraclePrice k d = loadOraclePrice k d0) \<and>
     (\<forall>f \<in> set (db_fills d). f \<in> set (db_fills d0) \<or> fill_sound E d0 f)"

lemma loadOraclePrice_markets: "db_markets d = db_markets d' \<Longrightarrow> loadOraclePrice k d = loadOraclePrice k d'"
  by (simp add: loadOraclePrice_def)

lemma find_row_update_where:
  "(\<And>r. key (g r) = key r) \<Longrightarrow> find_row (\<lambda>r. key r = k) (update_where P g t) =
     map_option (\<lambda>r. if P r then g r else r) (find_row (\<lambda>r. key r = k) t)"
  by (induction t) auto

lemma loadOraclePrice_update_market [simp]: "loadOraclePrice k (update_market m d) = loadOraclePrice k d"
  unfolding loadOraclePrice_def update_market_def
  by (simp add: find_row_update_where) (simp split: option.split)

lemma loadOraclePrice_unchanged [simp]:
  "loadOraclePrice j (snd (increment_filled k n d)) = loadOraclePrice j d"
  "loadOraclePrice j (decrement_filled k n d) = loadOraclePrice j d"
  "loadOraclePrice j (cancelPoisonOrder k d) = loadOraclePrice j d"
  "loadOraclePrice j (delete_fills net h d) = loadOraclePrice j d"
  "loadOraclePrice j (db_fills_update f d) = loadOraclePrice j d"
  "loadOraclePrice j (snd (executeSettlement E m d)) = loadOraclePrice j d"
  by (auto intro: loadOraclePrice_markets simp: executeSettlement_tables)

interpretation band: tick_invariant E "band_inv E d0" "\<lambda>m. 0 < fillSize m \<and> fill_sound E d0 (fill_of (me_network E) (me_now E) m)"
  for E d0
proof unfold_locales
  fix d m mkt p
  assume "band_inv E d0 d" and m: "m \<in> set (market_matches E mkt d)" "loadOraclePrice mkt d = Some p"
    "withinOracleBand (me_maxDeviation E) (fillPrice m) p"
  then have "orders_ok (db_orders d)" "loadOraclePrice mkt d0 = Some p" by (auto simp: band_inv_def)
  then show "0 < fillSize m \<and> fill_sound E d0 (fill_of (me_network E) (me_now E) m)"
    using market_matches_sound [OF _ m] by (auto simp: sound_match_def fill_sound_def fill_of_def)
qed (auto simp: band_inv_def orders_increment orders_decrement orders_cancel delete_fills_def executeSettlement_tables)

subsection \<open>Recording a match\<close>

text \<open>The row of an order has room for a further fill.\<close>

definition has_room :: "string \<Rightarrow> int \<Rightarrow> order_row list \<Rightarrow> bool" where
  "has_room k n t \<longleftrightarrow> k \<in> oid ` set t \<and> (\<forall>r \<in> set t. oid r = k \<longrightarrow> filledSize r + n \<le> size r)"

definition no_faults :: "matcher_env \<Rightarrow> bool" where
  "no_faults E \<longleftrightarrow> (\<forall>op m i. \<not> me_fail E op m i)"

definition fresh_hash :: "matcher_env \<Rightarrow> string \<Rightarrow> database \<Rightarrow> bool" where
  "fresh_hash E h d \<longleftrightarrow> (\<forall>f \<in> set (db_fills d). \<not> (f_network f = me_network E \<and> f_txHash f = h))"

definition fill_row_orders :: "match_result \<Rightarrow> order_row list \<Rightarrow> order_row list" where
  "fill_row_orders m t = update_where (\<lambda>r. oid r = oid (taker m)) (add_filled (fillSize m))
     (update_where (\<lambda>r. oid r = oid (maker m)) (add_filled (fillSize m)) t)"

lemma update_where_cong: "(\<And>r. r \<in> set t \<Longrightarrow> P r = Q r) \<Longrightarrow> update_where P f t = update_where Q f t"
  by (simp add: update_where_def)

lemma increment_room:
  assumes "has_room k n (db_orders d)"
  shows "increment_filled k n d = (True, d\<lparr> db_orders := update_where (\<lambda>r. oid r = k) (add_filled n) (db_orders d) \<rparr>)"
proof -
  have "update_where (room_for k n) (add_filled n) (db_orders d) = update_where (\<lambda>r. oid r = k) (add_filled n) (db_orders d)"
    using assms by (intro update_where_cong) (auto simp: has_room_def room_for_def)
  moreover have "returning (room_for k n) (db_orders d) \<noteq> []"
    using assms by (auto simp: has_room_def room_for_def returning_empty_iff)
  ultimately show ?thesis by (simp add: increment_filled_def)
qed

lemma oid_update_filled [simp]: "oid ` set (update_where P (add_filled n) t) = oid ` set t"
  by (induction t) auto

lemma has_room_other: "has_room k n t \<Longrightarrow> k \<noteq> k' \<Longrightarrow> has_room k n (update_where (\<lambda>r. oid r = k') (add_filled n') t)"
  unfolding has_room_def by (auto simp: set_update_where)

lemma persist_records:
  assumes "no_faults E" and "fresh_hash E (match_hash m) d" and "oid (maker m) \<noteq> oid (taker m)"
    and "has_room (oid (maker m)) (fillSize m) (db_orders d)" and "has_room (oid (taker m)) (fillSize m) (db_orders d)"
  shows "persistFill E m d = (True, update_market m (d\<lparr> db_fills := db_fills d @ [fill_of (me_network E) (me_now E) m],
     db_orders := fill_row_orders m (db_orders d) \<rparr>))"
proof -
  have "insert_unless (same_fill (fill_of (me_network E) (me_now E) m)) (fill_of (me_network E) (me_now E) m) (db_fills d) =
      (True, db_fills d @ [fill_of (me_network E) (me_now E) m])"
    using assms(2) by (auto simp: insert_unless_def same_fill_def fill_of_def fresh_hash_def)
  then show ?thesis
    using assms(1,3,4,5)
    by (simp add: persistFill_def no_faults_def increment_room has_room_other fill_row_orders_def)
qed

lemma rollback_undoes:
  assumes "no_faults E" and "fresh_hash E (match_hash m) d" and "orders_ok (db_orders d)"
    and "db_fills d' = db_fills d @ [fill_of (me_network E) (me_now E) m]" and "db_orders d' = fill_row_orders m (db_orders d)"
    and "oid (maker m) \<noteq> oid (taker m)"
  shows "db_fills (rollbackFill E m d') = db_fills d \<and> db_orders (rollbackFill E m d') = db_orders d"
proof
  show "db_fills (rollbackFill E m d') = db_fills d"
    using assms(1,2,4) by (auto simp: rollbackFill_def no_faults_def delete_fills_def decrement_filled_def fill_of_def
        fresh_hash_def intro!: delete_where_idle)
  have pos: "\<forall>r \<in> set (db_orders d). 0 \<le> filledSize r" using assms(3) by (auto simp: orders_ok_def order_fill_ok_def)
  have swap: "update_where (\<lambda>r. oid r = oid (maker m)) (sub_filled n) (update_where (\<lambda>r. oid r = oid (taker m)) (add_filled n) t) =
      update_where (\<lambda>r. oid r = oid (taker m)) (add_filled n) (update_where (\<lambda>r. oid r = oid (maker m)) (sub_filled n) t)"
    for n t
    using assms(6) by (induction t) auto
  have undo: "update_where (\<lambda>r. oid r = k) (sub_filled n) (update_where (\<lambda>r. oid r = k) (add_filled n) t) = t"
    if "\<forall>r \<in> set t. 0 \<le> filledSize r" for k n t
    using that by (intro update_where_comp) (auto simp: sub_add_filled)
  show "db_orders (rollbackFill E m d') = db_orders d"
    using assms(1,5,6) pos
    by (simp add: rollbackFill_def no_faults_def delete_fills_def decrement_filled_def fill_row_orders_def swap undo
        del: update_where_append update_where_Cons)
qed

text \<open>A run of matches that all settle: the rows end with what the matching pass allotted.\<close>

definition settles :: "matcher_env \<Rightarrow> match_result \<Rightarrow> bool" where
  "settles E m \<longleftrightarrow> no_faults E \<and>
     settlementSigValid (me_crypto E) (me_cfg E) (maker m) = Some True \<and>
     settlementSigValid (me_crypto E) (me_cfg E) (taker m) = Some True \<and>
     (\<forall>d. fst (executeSettlement E m d) = Some True)"

lemma process_settled:
  assumes "settles E m" and "fresh_hash E (match_hash m) d" and "oid (maker m) \<noteq> oid (taker m)"
    and "has_room (oid (maker m)) (fillSize m) (db_orders d)" and "has_room (oid (taker m)) (fillSize m) (db_orders d)"
    and "withinOracleBand (me_maxDeviation E) (fillPrice m) p"
  shows "\<exists>d'. process_match E (Some p) m d = (Some True, d') \<and> db_orders d' = fill_row_orders m (db_orders d) \<and>
     db_fills d' = db_fills d @ [fill_of (me_network E) (me_now E) m]"
proof -
  have nf: "no_faults E" using assms(1) by (simp add: settles_def)
  have sides: "check_sides E m d = (Some False, d)"
    using assms(1) by (simp add: settles_def check_sides_def check_side_def)
  obtain d1 where d1: "persistFill E m d = (True, d1)" "db_orders d1 = fill_row_orders m (db_orders d)"
      "db_fills d1 = db_fills d @ [fill_of (me_network E) (me_now E) m]"
    using persist_records [OF nf assms(2-5)] by simp
  have "fst (executeSettlement E m d1) = Some True" using assms(1) by (simp add: settles_def)
  then have "fill_and_settle E m d = (True, snd (executeSettlement E m d1))"
    by (simp add: fill_and_settle_def d1 case_prod_beta)
  then show ?thesis
    using assms(6) sides executeSettlement_tables(1) [of E m d1] d1 by (simp add: process_match_def)
qed

text \<open>The rows of an order have room for everything a list of matches allots to it.\<close>

definition room_for_all :: "match_result list \<Rightarrow> order_row list \<Rightarrow> bool" where
  "room_for_all ms t \<longleftrightarrow> (\<forall>r \<in> set t. filledSize r + filled_in ms (oid r) \<le> size r) \<and>
     (\<forall>m \<in> set ms. oid (maker m) \<in> oid ` set t \<and> oid (taker m) \<in> oid ` set t \<and> oid (maker m) \<noteq> oid (taker m) \<and> 0 < fillSize m)"

definition apply_fills :: "match_result list \<Rightarrow> order_row list \<Rightarrow> order_row list" where
  "apply_fills ms t = map (\<lambda>r. add_filled (filled_in ms (oid r)) r) t"

lemma filled_in_Cons: "filled_in (m # ms) k = (if involves m k then fillSize m else 0) + filled_in ms k"
  by (simp add: filled_in_def)

lemma filled_in_nonneg: "\<forall>m \<in> set ms. 0 < fillSize m \<Longrightarrow> 0 \<le> filled_in ms k"
  unfolding filled_in_def by (intro sum_list_nonneg_int) force

lemma add_filled_add_filled: "add_filled a (add_filled b r) = add_filled (b + a) r"
  by (simp add: add_filled_def add.assoc)

lemma fill_row_orders_map:
  "oid (maker m) \<noteq> oid (taker m) \<Longrightarrow>
     fill_row_orders m t = map (\<lambda>r. add_filled (if involves m (oid r) then fillSize m else 0) r) t"
  by (induction t) (auto simp: fill_row_orders_def involves_def add_filled_def)

lemma apply_fills_Cons:
  "oid (maker m) \<noteq> oid (taker m) \<Longrightarrow> apply_fills (m # ms) t = apply_fills ms (fill_row_orders m t)"
  by (simp add: apply_fills_def fill_row_orders_map filled_in_Cons add_filled_add_filled)

lemma room_for_all_Cons:
  assumes "room_for_all (m # ms) t"
  shows "has_room (oid (maker m)) (fillSize m) t \<and> has_room (oid (taker m)) (fillSize m) t \<and> room_for_all ms (fill_row_orders m t)"
proof -
  have ne: "oid (maker m) \<noteq> oid (taker m)" using assms by (simp add: room_for_all_def)
  have nn: "0 \<le> filled_in ms k" for k using assms by (intro filled_in_nonneg) (simp add: room_for_all_def)
  have le: "filledSize r + (if involves m (oid r) then fillSize m else 0) + filled_in ms (oid r) \<le> size r" if "r \<in> set t" for r
    using assms that by (auto simp: room_for_all_def filled_in_Cons algebra_simps)
  have "has_room k (fillSize m) t" if "k = oid (maker m) \<or> k = oid (taker m)" for k
  proof -
    have "filledSize r + fillSize m \<le> size r" if "r \<in> set t" "oid r = k" for r
      using le [OF that(1)] nn [of k] that \<open>k = _ \<or> _\<close> by (auto simp: involves_def)
    then show ?thesis using assms that by (auto simp: has_room_def room_for_all_def)
  qed
  moreover have "room_for_all ms (fill_row_orders m t)"
    using assms le by (auto simp: room_for_all_def fill_row_orders_map [OF ne] image_image)
  ultimately show ?thesis by blast
qed

lemma process_all_settled:
  assumes "room_for_all ms (db_orders d)" and "\<forall>m \<in> set ms. settles E m \<and> withinOracleBand (me_maxDeviation E) (fillPrice m) p"
    and "distinct (map match_hash ms)" and "\<forall>m \<in> set ms. fresh_hash E (match_hash m) d"
  shows "\<exists>d'. process_matches E (Some p) ms n d = (Some (n + length ms), d') \<and> db_orders d' = apply_fills ms (db_orders d) \<and>
     db_fills d' = db_fills d @ map (fill_of (me_network E) (me_now E)) ms"
  using assms
proof (induction ms arbitrary: n d)
  case Nil
  then show ?case by (simp add: apply_fills_def filled_in_def add_filled_def)
next
  case (Cons m ms)
  note room = room_for_all_Cons [OF Cons.prems(1)]
  have ne: "oid (maker m) \<noteq> oid (taker m)" using Cons.prems(1) by (simp add: room_for_all_def)
  obtain d1 where d1: "process_match E (Some p) m d = (Some True, d1)" "db_orders d1 = fill_row_orders m (db_orders d)"
      "db_fills d1 = db_fills d @ [fill_of (me_network E) (me_now E) m]"
    using process_settled [of E m d p] Cons.prems room ne by auto
  have "fresh_hash E (match_hash m') d1" if "m' \<in> set ms" for m'
  proof -
    have "match_hash m' \<in> match_hash ` set ms" using that by blast
    then have "match_hash m' \<noteq> match_hash m" using Cons.prems(3) by auto
    then show ?thesis using Cons.prems(4) that d1(3) by (auto simp: fresh_hash_def fill_of_def)
  qed
  then obtain d' where "process_matches E (Some p) ms (n + 1) d1 = (Some (n + 1 + length ms), d')"
      "db_orders d' = apply_fills ms (db_orders d1)" "db_fills d' = db_fills d1 @ map (fill_of (me_network E) (me_now E)) ms"
    using Cons.IH [of d1 "n + 1"] Cons.prems room d1 by auto
  then show ?case using d1 apply_fills_Cons [OF ne] by auto
qed

lemma market_matches_room:
  assumes "orders_ok (db_orders d)"
  shows "room_for_all (market_matches E mkt d) (db_orders d)"
proof -
  define L where "L = inBandLimits E (loadOraclePrice mkt d) (loadRestingOrders (me_now E) mkt d)"
  define M where "M = loadMarketOrders (me_now E) mkt d"
  have ms: "market_matches E mkt d = matchAll L M" by (simp add: market_matches_def L_def M_def)
  have ok: "book_ok L M" using market_matches_book [OF assms] by (simp add: L_def M_def)
  have rows: "set L \<union> set M \<subseteq> mapOrderRow ` set (db_orders d)"
    using inBandLimits_filter [of E "loadOraclePrice mkt d" "loadRestingOrders (me_now E) mkt d"]
    by (auto simp: L_def M_def set_loadRestingOrders set_loadMarketOrders)
  have inj: "inj_on oid (set (db_orders d))" using assms by (simp add: orders_ok_def distinct_map)
  have basic: "maker m \<in> set L \<union> set M \<and> taker m \<in> set L \<union> set M \<and> oid (maker m) \<noteq> oid (taker m) \<and> 0 < fillSize m"
    if "m \<in> set (matchAll L M)" for m
    using matchAll_basic [OF ok that] by auto
  have le: "filledSize r + filled_in (matchAll L M) (oid r) \<le> size r" if r: "r \<in> set (db_orders d)" for r
  proof (cases "mapOrderRow r \<in> set L \<union> set M")
    case True
    then show ?thesis using remaining_after_nonneg [OF ok True] by (simp add: remaining_after_def)
  next
    case False
    have "\<not> involves m (oid r)" if m: "m \<in> set (matchAll L M)" for m
    proof
      assume "involves m (oid r)"
      then obtain o' where o': "o' \<in> set L \<union> set M" "oid o' = oid r" using basic [OF m] by (auto simp: involves_def)
      then obtain r' where "r' \<in> set (db_orders d)" "o' = mapOrderRow r'" using rows by blast
      then show False using o' False inj_onD [OF inj, of r' r] r by auto
    qed
    then have "filter (\<lambda>m. involves m (oid r)) (matchAll L M) = []" by (simp add: filter_empty_conv)
    then show ?thesis using assms r by (simp add: filled_in_def orders_ok_def order_fill_ok_def)
  qed
  have "oid o' \<in> oid ` set (db_orders d)" if "o' \<in> set L \<union> set M" for o'
    using rows that by (auto simp: image_iff) force+
  then show ?thesis unfolding room_for_all_def ms using le basic by blast
qed

lemma market_matches_band:
  assumes "orders_ok (db_orders d)" and "loadOraclePrice mkt d = Some p" and "m \<in> set (market_matches E mkt d)"
  shows "withinOracleBand (me_maxDeviation E) (fillPrice m) p"
  using matchAll_basic [OF market_matches_book [OF assms(1)] assms(3) [unfolded market_matches_def]] assms(2)
  by (auto simp: inBandLimits_def)

subsection \<open>Properties of the service\<close>

lemma run_ticks_orders: "orders_ok (db_orders (snd s)) \<Longrightarrow> orders_ok (db_orders (snd (run_ticks Es s)))"
proof (induction Es arbitrary: s)
  case Nil
  then show ?case by simp
next
  case (Cons E Es)
  obtain errs d where s: "s = (errs, d)" by force
  have "orders_ok (db_orders (snd (tick E d)))" using book.whole_tick [of d E] Cons.prems s by simp
  then show ?case using Cons.IH by (simp add: s case_prod_beta)
qed

text \<open>
  The service never corrupts the order table: through any number of ticks, with any statements
  failing at any point, identifiers stay unique and every order keeps \<open>0 \<le> filledSize \<le> size\<close>.
\<close>

theorem service_keeps_orders_sound:
  assumes "orders_ok (db_orders d)"
  shows "orders_ok (db_orders (snd (run_ticks Es (errs, d))))"
  using run_ticks_orders [of "(errs, d)" Es] assms by simp

text \<open>
  C6. Whatever fails, a fill that a tick records has a positive size, two different owners, and a
  price within the band around the oracle price of its market; without an oracle price nothing is
  recorded there.
\<close>

theorem tick_fills_in_band:
  assumes "orders_ok (db_orders d)" and "f \<in> set (db_fills (snd (tick E d)))"
  shows "f \<in> set (db_fills d) \<or> fill_sound E d f"
  using band.whole_tick [of E d d] assms by (auto simp: band_inv_def)

text \<open>The rollback leaves the jobs and the market row alone.\<close>

lemma rollback_tables: "db_jobs (rollbackFill E m d) = db_jobs d \<and> db_markets (rollbackFill E m d) = db_markets d \<and> db_accounts (rollbackFill E m d) = db_accounts d"
  by (simp add: rollbackFill_def delete_fills_def decrement_filled_def Let_def)

lemma executeSettlement_idle: "fst (executeSettlement E m d) \<noteq> Some True \<Longrightarrow> snd (executeSettlement E m d) = d"
  by (auto simp: executeSettlement_def Let_def split: option.splits if_splits)

lemma unsettled_match:
  assumes "no_faults E" and "orders_ok (db_orders d)" and "fresh_hash E (match_hash m) d"
    and "oid (maker m) \<noteq> oid (taker m)"
    and "has_room (oid (maker m)) (fillSize m) (db_orders d)" and "has_room (oid (taker m)) (fillSize m) (db_orders d)"
    and "fst (executeSettlement E m (snd (persistFill E m d))) \<noteq> Some True"
  shows "fill_and_settle E m d = (True, update_market m d)"
proof -
  define d1 where "d1 = update_market m (d\<lparr> db_fills := db_fills d @ [fill_of (me_network E) (me_now E) m],
     db_orders := fill_row_orders m (db_orders d) \<rparr>)"
  have d1: "persistFill E m d = (True, d1)" "db_orders d1 = fill_row_orders m (db_orders d)"
      "db_fills d1 = db_fills d @ [fill_of (me_network E) (me_now E) m]" "db_jobs d1 = db_jobs d" "db_accounts d1 = db_accounts d"
      "db_markets d1 = db_markets (update_market m d)"
    using persist_records [OF assms(1,3,4,5,6)] by (simp_all add: d1_def update_market_def)
  have "snd (executeSettlement E m d1) = d1" using assms(7) d1(1) by (simp add: executeSettlement_idle)
  then have "fill_and_settle E m d = (True, rollbackFill E m d1)"
    using assms(7) d1(1) by (cases "executeSettlement E m d1") (auto simp: fill_and_settle_def split: option.splits bool.splits)
  moreover have "rollbackFill E m d1 = update_market m d"
    using rollback_undoes [OF assms(1,3,2) d1(3,2) assms(4)] rollback_tables [of E m d1] d1(4-6)
    by (cases "rollbackFill E m d1") (simp add: update_market_def)
  ultimately show ?thesis by simp
qed

text \<open>
  C17. A match whose settlement does not succeed leaves its trace in one place only: when the statements
  run, the fill is removed again, both orders return to their previous state, no job is left and no
  account changes; but the market row keeps the last price and the volume of the match that was undone.
\<close>

theorem unsettled_match_restores_book:
  assumes "no_faults E" and "orders_ok (db_orders d)" and "fresh_hash E (match_hash m) d"
    and "oid (maker m) \<noteq> oid (taker m)"
    and "has_room (oid (maker m)) (fillSize m) (db_orders d)" and "has_room (oid (taker m)) (fillSize m) (db_orders d)"
    and "fst (executeSettlement E m (snd (persistFill E m d))) \<noteq> Some True"
    and "fill_and_settle E m d = (ok, d')"
  shows "ok \<and> db_orders d' = db_orders d \<and> db_fills d' = db_fills d \<and> db_jobs d' = db_jobs d \<and> db_accounts d' = db_accounts d \<and>
    db_markets d' = map (\<lambda>r. if m_id r = marketId (maker m) then r\<lparr> m_lastPrice := fillPrice m,
      m_volume := m_volume r + (fillSize m * fillPrice m) sdiv PRICE_PRECISION \<rparr> else r) (db_markets d)"
  using unsettled_match [OF assms(1-7)] assms(8) by (auto simp: update_market_def update_where_def)

text \<open>The network confirms the direct settlement of a match under the hash \<open>h\<close>: the prepared transaction is accepted, and one of the thirty polls sees it successful before any fails.\<close>

definition confirmed_on_chain :: "matcher_env \<Rightarrow> match_result \<Rightarrow> string \<Rightarrow> string \<Rightarrow> string \<Rightarrow> string \<Rightarrow> bool" where
  "confirmed_on_chain E m secret ms ts h \<longleftrightarrow>
     (\<exists>tx. prepare_signed (me_rpc E) (me_crypto E) (me_cfg E) m secret ms ts = Some tx \<and>
        sendTransaction (me_rpc E) tx = Some (SendOk h) \<and>
        (\<exists>j < 30. (\<exists>l. getTransaction (me_rpc E) h j = Some (PollSuccess l)) \<and>
           (\<forall>i < j. getTransaction (me_rpc E) h i = Some PollPending)))"

lemma confirmed_submission:
  "confirmed_on_chain E m secret ms ts h \<longleftrightarrow> submitSettleFillSigned (me_rpc E) (me_crypto E) (me_cfg E) m secret ms ts = Some h"
proof -
  have poll: "(case y of SendError e \<Rightarrow> None | SendOk h' \<Rightarrow> poll_confirm (me_rpc E) h' 0 30) = Some h \<longleftrightarrow>
      y = SendOk h \<and> (\<exists>j < 30. (\<exists>l. getTransaction (me_rpc E) h j = Some (PollSuccess l)) \<and>
         (\<forall>j' < j. getTransaction (me_rpc E) h j' = Some PollPending))" for y
    by (cases y) (auto simp: poll_confirm_Some)
  show ?thesis unfolding confirmed_on_chain_def submitSettleFillSigned_def bind_eq_Some_conv poll by blast
qed

text \<open>
  C5. The book follows the chain for a match of two signed orders: when statements run, the match is
  booked - both orders filled by its size, its fill recorded, and one new job that is confirmed and
  carries the hash - exactly when the transaction with both signatures is accepted and seen
  successful within thirty polls; in every other case (the simulation or the sending fails, the
  transaction fails, or no poll sees it in time) orders, fills and jobs are as before.
\<close>

theorem signed_match_settles:
  assumes "no_faults E" and "orders_ok (db_orders d)" and "fresh_hash E (match_hash m) d"
    and "oid (maker m) \<noteq> oid (taker m)"
    and "has_room (oid (maker m)) (fillSize m) (db_orders d)" and "has_room (oid (taker m)) (fillSize m) (db_orders d)"
    and "me_secret E = Some secret" "secret \<noteq> []" and "signature (maker m) = Some ms" "ms \<noteq> []" and "signature (taker m) = Some ts" "ts \<noteq> []"
    and "\<forall>j \<in> set (db_jobs d). \<not> same_job (me_network E) settle_kind (match_hash m) j"
    and "fill_and_settle E m d = (ok, d')"
  shows "(\<exists>h j. confirmed_on_chain E m secret ms ts h \<and> db_orders d' = fill_row_orders m (db_orders d) \<and>
       db_fills d' = db_fills d @ [fill_of (me_network E) (me_now E) m] \<and> db_jobs d' = db_jobs d @ [j] \<and>
       j_status j = CONFIRMED \<and> j_submittedHash j = Some h \<and> j_payloadHash j = match_hash m) \<or>
     ((\<nexists>h. confirmed_on_chain E m secret ms ts h) \<and>
       db_orders d' = db_orders d \<and> db_fills d' = db_fills d \<and> db_jobs d' = db_jobs d)"
proof -
  have s: "executeSettlement E m d0 = (case submitSettleFillSigned (me_rpc E) (me_crypto E) (me_cfg E) m secret ms ts of
      None \<Rightarrow> (Some False, d0)
    | Some h \<Rightarrow> (Some True, upsert_job (new_job (me_network E) (me_now E) (match_hash m) (JObj []) CONFIRMED (Some h))
        (\<lambda>j. j\<lparr> j_status := CONFIRMED, j_submittedHash := Some h, j_updatedAt := me_now E \<rparr>) d0))" for d0
    using assms(1,7-12) by (simp add: executeSettlement_def Let_def no_faults_def split: option.split)
  show ?thesis
  proof (cases "submitSettleFillSigned (me_rpc E) (me_crypto E) (me_cfg E) m secret ms ts")
    case None
    then show ?thesis using unsettled_match [OF assms(1-6)] assms(14) by (simp add: s confirmed_submission update_market_def)
  next
    case (Some h)
    obtain d1 where d1: "persistFill E m d = (True, d1)" "db_orders d1 = fill_row_orders m (db_orders d)"
        "db_fills d1 = db_fills d @ [fill_of (me_network E) (me_now E) m]" "db_jobs d1 = db_jobs d"
      using persist_records [OF assms(1,3-6)] by (simp add: update_market_def)
    have "\<not> (\<exists>x \<in> set (db_jobs d). same_job (me_network E) settle_kind (match_hash m) x)" using assms(13) by blast
    then show ?thesis using assms(14) Some d1
      by (auto simp: fill_and_settle_def s confirmed_submission upsert_job_def new_job_def Let_def)
  qed
qed

text \<open>
  C11. The database agrees with the matching pass: when statements run, signatures verify, settlements
  succeed and fill hashes do not collide, a tick of a market records every match of the pass - no
  guard rejects one, none is outside the band - and each order's \<open>filledSize\<close> grows by exactly what
  the pass allotted to it.
\<close>

theorem tick_records_matching_pass:
  assumes "orders_ok (db_orders d)" and "\<not> me_loadFails E mkt" and "loadOraclePrice mkt d = Some p"
    and "\<forall>m \<in> set (market_matches E mkt d). settles E m \<and> fresh_hash E (match_hash m) d"
    and "distinct (map match_hash (market_matches E mkt d))"
  shows "\<exists>d'. tick_market E mkt n d = (Some (n + length (market_matches E mkt d)), d') \<and>
     db_orders d' = apply_fills (market_matches E mkt d) (db_orders d) \<and>
     db_fills d' = db_fills d @ map (fill_of (me_network E) (me_now E)) (market_matches E mkt d)"
proof -
  obtain d' where d': "process_matches E (Some p) (market_matches E mkt d) n d = (Some (n + length (market_matches E mkt d)), d')"
      "db_orders d' = apply_fills (market_matches E mkt d) (db_orders d)"
      "db_fills d' = db_fills d @ map (fill_of (me_network E) (me_now E)) (market_matches E mkt d)"
    using process_all_settled [OF market_matches_room [OF assms(1), of E mkt], of E p n] assms(4,5)
      market_matches_band [OF assms(1,3)] by blast
  have "market_matches E mkt d = []" if "loadRestingOrders (me_now E) mkt d = []" "loadMarketOrders (me_now E) mkt d = []"
    using that inBandLimits_filter [of E "Some p" "[]"]
    by (auto simp: market_matches_def assms(3) matchAll_def match_state_of_def limitBids_def limitAsks_def market_pass_def limit_pass_def)
  then show ?thesis using d' assms(2,3) by (auto simp: tick_market_def)
qed

subsection \<open>Concrete runs\<close>

definition sample_row :: "string \<Rightarrow> string \<Rightarrow> bool \<Rightarrow> int \<Rightarrow> int \<Rightarrow> int \<Rightarrow> order_row" where
  "sample_row k who long sz px t =
     \<lparr> owner = who, marketId = 1, isLong = long, size = sz, limitPrice = px, reduceOnly = False, nonce = t,
       expiryTs = 0, oid = k, filledSize = 0, createdAt = t, signature = None, cancelled = False \<rparr>"

definition sample_db :: database where
  "sample_db = \<lparr> db_orders = [sample_row ''GM:1'' ''GM'' True 5 100 1, sample_row ''GT:2'' ''GT'' False 3 95 2],
     db_fills = [], db_markets = [\<lparr> m_id = 1, m_lastPrice = 0, m_volume = 0, m_lastOraclePrice = 100 \<rparr>],
     db_jobs = [], db_accounts = [] \<rparr>"

definition sample_env :: "string option \<Rightarrow> matcher_env" where
  "sample_env secret = \<lparr> me_now = 1000, me_cfg = default_config, me_crypto = sample_sig_crypto, me_rpc = sample_rpc,
     me_secret = secret, me_maxDeviation = 1000, me_fail = (\<lambda>_ _ _. False), me_loadFails = (\<lambda>_. False) \<rparr>"

lemma sample_env_sel [simp]:
  "me_now (sample_env s) = 1000" "me_cfg (sample_env s) = default_config" "me_crypto (sample_env s) = sample_sig_crypto"
  "me_rpc (sample_env s) = sample_rpc" "me_secret (sample_env s) = s" "me_maxDeviation (sample_env s) = 1000"
  "me_fail (sample_env s) = (\<lambda>_ _ _. False)" "me_loadFails (sample_env s) = (\<lambda>_. False)"
  by (simp_all add: sample_env_def)

definition sample_fill :: match_result where
  "sample_fill = \<lparr> maker = mapOrderRow (db_orders sample_db ! 0), taker = mapOrderRow (db_orders sample_db ! 1),
     fillSize = 3, fillPrice = 100 \<rparr>"

lemma sample_db_ok: "orders_ok (db_orders sample_db)"
  by (simp add: sample_db_def sample_row_def orders_ok_def order_fill_ok_def)

lemma sample_oracle: "loadOraclePrice 1 sample_db = Some 100"
  by (simp add: loadOraclePrice_def sample_db_def)

lemma sample_market_matches: "market_matches (sample_env s) 1 sample_db = [sample_fill]"
proof -
  have L: "loadRestingOrders 1000 1 sample_db = [mapOrderRow (db_orders sample_db ! 1), mapOrderRow (db_orders sample_db ! 0)]"
      "loadMarketOrders 1000 1 sample_db = []"
    by (simp_all add: loadRestingOrders_def loadMarketOrders_def sample_db_def sample_row_def open_row_def by_price_time_def)
  have "matchAll [mapOrderRow (db_orders sample_db ! 1), mapOrderRow (db_orders sample_db ! 0)] [] = [sample_fill]"
    by code_simp
  then show ?thesis
    by (simp add: market_matches_def L sample_oracle inBandLimits_def withinOracleBand_def)
       (simp add: sample_db_def sample_row_def sdiv_nonneg)
qed

lemma sample_settles: "settles (sample_env (Some ''s'')) sample_fill"
proof -
  have "\<exists>ps. simulateSettleFill sample_rpc default_config sample_fill h ''s'' = Some ps" for h
    by (simp add: simulateSettleFill_def build_call_def sample_rpc_def list_all_def Let_def)
  then have "fst (executeSettlement (sample_env (Some ''s'')) sample_fill d) = Some True" for d
    by (auto simp: executeSettlement_def sample_fill_def sample_db_def sample_row_def Let_def split: option.split)
  then show ?thesis
    by (simp add: settles_def no_faults_def settlementSigValid_def)
       (simp add: sample_fill_def sample_db_def sample_row_def)
qed

lemma sample_fresh: "fresh_hash E h sample_db"
  by (simp add: fresh_hash_def sample_db_def)

theorem service_keeps_orders_sound_witness:
  "orders_ok (db_orders (snd (run_ticks [sample_env None, sample_env (Some ''s'')] (0, sample_db))))"
  by (rule service_keeps_orders_sound [OF sample_db_ok])

theorem tick_records_matching_pass_witness:
  "\<exists>d'. tick_market (sample_env (Some ''s'')) 1 0 sample_db = (Some 1, d') \<and> map filledSize (db_orders d') = [3, 3]"
proof -
  have "map filledSize (apply_fills [sample_fill] (db_orders sample_db)) = [3, 3]"
    by (simp add: apply_fills_def filled_in_def involves_def sample_fill_def sample_db_def sample_row_def)
  then show ?thesis
    using tick_records_matching_pass [OF sample_db_ok, of "sample_env (Some ''s'')" 1 100 0] sample_settles sample_fresh
    by (auto simp: sample_market_matches sample_oracle)
qed

theorem unsettled_match_restores_book_witness:
  "db_orders (snd (fill_and_settle (sample_env None) sample_fill sample_db)) = db_orders sample_db \<and>
   map m_lastPrice (db_markets (snd (fill_and_settle (sample_env None) sample_fill sample_db))) = [100]"
proof -
  obtain ok d' where r: "fill_and_settle (sample_env None) sample_fill sample_db = (ok, d')" by force
  have h: "no_faults (sample_env None)" "oid (maker sample_fill) \<noteq> oid (taker sample_fill)"
      "has_room (oid (maker sample_fill)) (fillSize sample_fill) (db_orders sample_db)"
      "has_room (oid (taker sample_fill)) (fillSize sample_fill) (db_orders sample_db)"
      "fst (executeSettlement (sample_env None) sample_fill (snd (persistFill (sample_env None) sample_fill sample_db))) \<noteq> Some True"
    by (auto simp: no_faults_def executeSettlement_def has_room_def sample_fill_def sample_db_def sample_row_def)
  from unsettled_match_restores_book [OF h(1) sample_db_ok sample_fresh h(2-5) r]
  show ?thesis by (simp add: r) (simp add: sample_db_def sample_fill_def sample_row_def)
qed

text \<open>Two signed orders, once with the server that confirms on the third poll, once with one that never does.\<close>

definition signed_db :: database where
  "signed_db = sample_db\<lparr> db_orders := [(sample_row ''GM:1'' ''GM'' True 5 100 1)\<lparr> signature := Some ''ms'' \<rparr>,
     (sample_row ''GT:2'' ''GT'' False 5 90 2)\<lparr> signature := Some ''ts'' \<rparr>] \<rparr>"

definition late_env :: matcher_env where
  "late_env = (sample_env (Some ''s''))\<lparr> me_rpc := sample_rpc\<lparr> getTransaction := (\<lambda>_ i. Some (if i = 30 then PollSuccess 1003 else PollPending)) \<rparr> \<rparr>"

lemma sample_late: "confirmed_on_chain (sample_env (Some ''s'')) sample_match ''s'' ''ms'' ''ts'' ''hash''"
    "\<not> confirmed_on_chain late_env sample_match ''s'' ''ms'' ''ts'' h"
  using submit_reports_confirmed_witness by (simp_all add: confirmed_submission [symmetric, of "sample_env (Some ''s'')", simplified])
    (auto simp: confirmed_on_chain_def late_env_def)

theorem signed_match_settles_witness:
  "map j_submittedHash (db_jobs (snd (fill_and_settle (sample_env (Some ''s'')) sample_match signed_db))) = [Some ''hash''] \<and>
   map filledSize (db_orders (snd (fill_and_settle late_env sample_match signed_db))) = [0, 0]"
proof -
  have ok: "orders_ok (db_orders signed_db)" by (simp add: signed_db_def sample_row_def orders_ok_def order_fill_ok_def)
  have room: "has_room ''GM:1'' 5 (db_orders signed_db)" "has_room ''GT:2'' 5 (db_orders signed_db)"
    by (simp_all add: has_room_def signed_db_def sample_row_def)
  have fresh: "fresh_hash E h signed_db" "db_jobs signed_db = []" for E h by (simp_all add: fresh_hash_def signed_db_def sample_db_def)
  have m: "oid (maker sample_match) = ''GM:1''" "oid (taker sample_match) = ''GT:2''" "fillSize sample_match = 5"
      "signature (maker sample_match) = Some ''ms''" "signature (taker sample_match) = Some ''ts''"
    by (simp_all add: sample_match_def signed_db_def sample_row_def mapOrderRow_def)
  obtain a d1 where r1: "fill_and_settle (sample_env (Some ''s'')) sample_match signed_db = (a, d1)" by force
  obtain b d2 where r2: "fill_and_settle late_env sample_match signed_db = (b, d2)" by force
  have e: "no_faults (sample_env (Some ''s''))" "no_faults late_env" "me_secret late_env = Some ''s''"
    by (simp_all add: no_faults_def late_env_def)
  have p: "oid (maker sample_match) \<noteq> oid (taker sample_match)" "has_room (oid (maker sample_match)) (fillSize sample_match) (db_orders signed_db)"
      "has_room (oid (taker sample_match)) (fillSize sample_match) (db_orders signed_db)" "''s'' \<noteq> []" "''ms'' \<noteq> []" "''ts'' \<noteq> []"
      "\<forall>j \<in> set (db_jobs signed_db). \<not> same_job net k h j" for net k h
    using room by (simp_all add: m fresh(2))
  have 1: "map j_submittedHash (db_jobs d1) = [Some ''hash'']"
    using signed_match_settles [OF e(1) ok fresh(1) p(1-3) _ p(4) m(4) p(5) m(5) p(6,7) r1] sample_late(1) fresh(2)
    by (auto simp: confirmed_submission)
  have "db_orders d2 = db_orders signed_db"
    using signed_match_settles [OF e(2) ok fresh(1) p(1-3) e(3) p(4) m(4) p(5) m(5) p(6,7) r2] sample_late(2)
    by auto
  then show ?thesis using 1 by (simp add: r1 r2) (simp add: signed_db_def sample_row_def)
qed

lemma sample_tick_fills:
  "db_fills (snd (tick (sample_env (Some ''s'')) sample_db)) = [fill_of (me_network (sample_env (Some ''s''))) 1000 sample_fill]"
proof -
  let ?E = "sample_env (Some ''s'')"
  have band: "withinOracleBand (me_maxDeviation ?E) (fillPrice sample_fill) 100"
    by (simp add: withinOracleBand_def sample_fill_def sdiv_nonneg)
  have room: "room_for_all [sample_fill] (db_orders sample_db)"
    using market_matches_room [OF sample_db_ok, of ?E 1] by (simp add: sample_market_matches)
  obtain d' where d': "process_matches ?E (Some 100) [sample_fill] 0 sample_db = (Some 1, d')"
      "db_fills d' = db_fills sample_db @ [fill_of (me_network ?E) (me_now ?E) sample_fill]"
    using process_all_settled [OF room, of ?E 100 0] band sample_settles sample_fresh by auto
  have "loadRestingOrders 1000 1 sample_db \<noteq> []"
    by (simp add: loadRestingOrders_def sample_db_def sample_row_def open_row_def by_price_time_def)
  then have "tick_market ?E 1 0 sample_db = (Some 1, d')"
    using d'(1) by (simp add: tick_market_def sample_oracle sample_market_matches)
  then have "tick ?E sample_db = (Some 1, d')"
    by (simp add: tick_def MATCHER_MARKETS_def default_market_list)
  then show ?thesis using d'(2) by (simp add: sample_db_def)
qed

theorem tick_fills_in_band_witness:
  "fill_sound (sample_env (Some ''s'')) sample_db (fill_of (me_network (sample_env (Some ''s''))) 1000 sample_fill)"
  using tick_fills_in_band [OF sample_db_ok, of "fill_of (me_network (sample_env (Some ''s''))) 1000 sample_fill" "sample_env (Some ''s'')"]
    sample_tick_fills by (auto simp: sample_db_def)

subsection \<open>Two observations\<close>

text \<open>
  \<open>persistFill\<close> is not atomic: when the guard of the taker's update refuses, it reports no fill, but
  the fill row and the maker's increment stay.
\<close>

lemma persist_not_atomic:
  assumes "no_faults E" and "fresh_hash E (match_hash m) d" and "has_room (oid (maker m)) (fillSize m) (db_orders d)"
    and "oid (maker m) \<noteq> oid (taker m)" and "\<forall>r \<in> set (db_orders d). oid r = oid (taker m) \<longrightarrow> size r < filledSize r + fillSize m"
  shows "persistFill E m d = (False, d\<lparr> db_fills := db_fills d @ [fill_of (me_network E) (me_now E) m],
     db_orders := update_where (\<lambda>r. oid r = oid (maker m)) (add_filled (fillSize m)) (db_orders d) \<rparr>)"
proof -
  have ins: "insert_unless (same_fill (fill_of (me_network E) (me_now E) m)) (fill_of (me_network E) (me_now E) m) (db_fills d) =
      (True, db_fills d @ [fill_of (me_network E) (me_now E) m])"
    using assms(2) by (auto simp: insert_unless_def same_fill_def fill_of_def fresh_hash_def)
  have none: "\<forall>r \<in> set (update_where (\<lambda>r. oid r = oid (maker m)) (add_filled (fillSize m)) (db_orders d)).
      \<not> room_for (oid (taker m)) (fillSize m) r"
    using assms(4,5) by (auto simp: set_update_where room_for_def)
  show ?thesis
    using assms(1,3) ins none
    by (simp add: persistFill_def no_faults_def increment_room)
       (simp add: increment_filled_def returning_empty_iff update_where_idle)
qed

text \<open>
  The stand-in hash has 32 bits and collides: two matches of different makers get the same hash, so
  undoing one of them (which deletes by hash alone) removes the fill of the other.
\<close>

lemma pseudo_hash_collides:
  "owner a = ''GAQ'' \<Longrightarrow> owner b = ''GB2'' \<Longrightarrow> nonce a = nonce b \<Longrightarrow> pseudoTxHash a t n = pseudoTxHash b t n"
proof -
  assume ab: "owner a = ''GAQ''" "owner b = ''GB2''" "nonce a = nonce b"
  have "imul_hash (''db:GAQ'' @ s) = imul_hash (''db:GB2'' @ s)" for s
  proof -
    have eq: "imul_hash ''db:GAQ'' = imul_hash ''db:GB2''" by (simp add: imul_hash_def)
    show ?thesis unfolding imul_hash_def foldl_append using eq unfolding imul_hash_def by simp
  qed
  then show ?thesis using ab by (simp add: pseudoTxHash_def fill_text_def)
qed

end
