(* ===== verification/Order_Intake.thy ===== *)
theory Order_Intake
  imports Http_Common Matcher_Correct
begin

text \<open>
  The two handlers that change the order table: \<open>client/app/api/orders/route.ts\<close> (place) and
  \<open>client/app/api/orders/cancel/route.ts\<close>. Each is a function of the request, the clock, the limiter
  state and the database; \<open>in_fail i j\<close> is the message with which statement \<open>j\<close> of retry attempt
  \<open>i\<close> fails, if it does. \<open>None\<close> in place of a response is an unhandled exception.
\<close>

record intake_env =
  in_now :: int
  in_cfg :: config
  in_crypto :: crypto
  in_limiter :: limiter_env
  in_dbUrl :: "string option"
  in_fail :: "nat \<Rightarrow> nat \<Rightarrow> string option"

definition MAX_BIGINT :: int where "MAX_BIGINT = 2 ^ 63 - 1"

definition insert_account :: "int \<Rightarrow> string \<Rightarrow> database \<Rightarrow> database" where
  "insert_account now own d = d\<lparr> db_accounts := snd (insert_unless (\<lambda>a. a_address a = own)
     \<lparr> a_address = own, a_createdAt = now \<rparr> (db_accounts d)) \<rparr>"

text \<open>
  The inserted row. Its \<open>createdAt\<close> is the database's \<open>NOW()\<close>; a request has one clock here, so the row carries the
  time at which the order was validated.
\<close>

definition row_of :: "int \<Rightarrow> order_intent \<Rightarrow> string option \<Rightarrow> order_row" where
  "row_of now o' sig = \<lparr> owner = owner o', marketId = marketId o', isLong = isLong o', size = size o',
     limitPrice = limitPrice o', reduceOnly = reduceOnly o', nonce = nonce o', expiryTs = expiryTs o',
     oid = order_id (owner o') (nonce o'), filledSize = 0, createdAt = now, signature = sig, cancelled = False \<rparr>"

text \<open>
  The insertion: a nonce beyond the range of the \<open>BIGINT\<close> column throws, an existing identifier makes it
  do nothing, and a second row with the owner and nonce of another identifier violates the unique index.
\<close>

definition insert_order :: "order_row \<Rightarrow> database \<Rightarrow> unit attempt \<times> database" where
  "insert_order r d =
    (if MAX_BIGINT < nonce r \<or> MAX_BIGINT < expiryTs r then (Failed ''value out of range for type bigint'', d)
     else if \<exists>x \<in> set (db_orders d). oid x = oid r then (Returned (), d)
     else if \<exists>x \<in> set (db_orders d). owner x = owner r \<and> nonce x = nonce r
       then (Failed ''duplicate key value violates unique constraint'', d)
     else (Returned (), d\<lparr> db_orders := db_orders d @ [r] \<rparr>))"

definition place_attempt :: "intake_env \<Rightarrow> order_intent \<Rightarrow> string option \<Rightarrow> nat \<Rightarrow> database \<Rightarrow> unit attempt \<times> database" where
  "place_attempt V o' sig i d = (case in_fail V i 0 of Some msg \<Rightarrow> (Failed msg, d)
   | None \<Rightarrow> (let d1 = insert_account (in_now V) (owner o') d in
       case in_fail V i 1 of Some msg \<Rightarrow> (Failed msg, d1)
       | None \<Rightarrow> insert_order (row_of (in_now V) o' sig) d1))"

definition claimed_owner :: "json \<Rightarrow> string" where
  "claimed_owner b = (case js_field b ''owner'' of Some (JStr s) \<Rightarrow> take 64 s | _ \<Rightarrow> ''invalid'')"

definition body_signature :: "json \<Rightarrow> string option" where
  "body_signature b = (case js_field b ''signature'' of Some (JStr s) \<Rightarrow> Some s | _ \<Rightarrow> None)"

definition POST_order :: "intake_env \<Rightarrow> request \<Rightarrow> buckets \<times> database \<Rightarrow> response option \<times> buckets \<times> database" where
  "POST_order V req s = (let (bs, d) = s in
     if bodyTooLarge req 4096 then (Some (fail_resp 413 ''Body too large''), s)
     else case req_body req of None \<Rightarrow> (Some (fail_resp 400 ''Invalid JSON body''), s)
     | Some b \<Rightarrow> (let (admitted, bs1) = rateLimit (in_limiter V) (in_now V) (requestKey req (claimed_owner b)) 30 bs in
         if \<not> admitted then (Some (fail_resp 429 ''Too many order requests''), bs1, d)
         else case validateOrderIntent (in_crypto V) (in_cfg V) (in_now V) b of
           Thrown \<Rightarrow> (None, bs1, d)
         | Rejected e \<Rightarrow> (Some (fail_resp 400 e), bs1, d)
         | Accepted o' \<Rightarrow>
             if falsy_str (in_dbUrl V) then (Some (fail_resp 500 ''Failed to persist order''), bs1, d)
             else (case withRetry (place_attempt V o' (body_signature b)) d of
                 (Returned u, d1) \<Rightarrow> (Some ok_resp, bs1, d1)
               | (Failed e, d1) \<Rightarrow> (Some (fail_resp 500 ''Failed to persist order''), bs1, d1))))"

subsection \<open>Cancelling\<close>

definition cancel_row :: "order_row \<Rightarrow> order_row" where
  "cancel_row r = r\<lparr> cancelled := True \<rparr>"

definition cancel_orders :: "string \<Rightarrow> int \<Rightarrow> database \<Rightarrow> database" where
  "cancel_orders own n d = d\<lparr> db_orders := update_where (\<lambda>r. owner r = own \<and> nonce r = n) cancel_row (db_orders d) \<rparr>"

text \<open>A nonce beyond the range of the column makes the comparison throw.\<close>

definition cancel_attempt :: "intake_env \<Rightarrow> string \<Rightarrow> int \<Rightarrow> nat \<Rightarrow> database \<Rightarrow> unit attempt \<times> database" where
  "cancel_attempt V own n i d = (case in_fail V i 0 of Some msg \<Rightarrow> (Failed msg, d)
   | None \<Rightarrow> if MAX_BIGINT < n then (Failed ''value out of range for type bigint'', d)
       else (Returned (), cancel_orders own n d))"

definition cancel_nonce :: "json \<Rightarrow> int option" where
  "cancel_nonce b = (let s = json_to_string (json_or (js_field b ''nonce'') (JStr [])) in
     if all_digits s \<and> assertU64 (int (read_nat s)) then Some (int (read_nat s)) else None)"

definition POST_cancel :: "intake_env \<Rightarrow> request \<Rightarrow> buckets \<times> database \<Rightarrow> response option \<times> buckets \<times> database" where
  "POST_cancel V req s = (let (bs, d) = s in
     if bodyTooLarge req 4096 then (Some (fail_resp 413 ''Body too large''), s)
     else case req_body req of None \<Rightarrow> (Some (fail_resp 400 ''Invalid JSON body''), s)
     | Some b \<Rightarrow> if b = JNull then (None, s)
       else case js_field b ''owner'' of
         Some (JStr own) \<Rightarrow>
           if \<not> isValidEd25519PublicKey (in_crypto V) own then (Some (fail_resp 400 ''Invalid owner address''), s)
           else (case cancel_nonce b of None \<Rightarrow> (Some (fail_resp 400 ''Invalid nonce''), s)
             | Some n \<Rightarrow> (case js_field b ''signature'' of
                 Some (JStr sig) \<Rightarrow>
                   if 256 < length sig then (Some (fail_resp 400 ''Missing cancel signature''), s)
                   else (let (admitted, bs1) = rateLimit (in_limiter V) (in_now V) (requestKey req own) 60 bs in
                     if \<not> admitted then (Some (fail_resp 429 ''Too many cancel requests''), bs1, d)
                     else if \<not> verifySignedMessage (in_crypto V) own
                         (cancelSigningMessage (passphrase (NETWORK_cfg (in_cfg V))) own (show_int n)) sig
                       then (Some (fail_resp 401 ''Invalid cancel signature''), bs1, d)
                     else if falsy_str (in_dbUrl V) then (Some (fail_resp 500 ''Failed to cancel order''), bs1, d)
                     else (case withRetry (cancel_attempt V own n) d of
                         (Returned u, d1) \<Rightarrow> (Some ok_resp, bs1, d1)
                       | (Failed e, d1) \<Rightarrow> (Some (fail_resp 500 ''Failed to cancel order''), bs1, d1)))
               | _ \<Rightarrow> (Some (fail_resp 400 ''Missing cancel signature''), s)))
       | _ \<Rightarrow> (Some (fail_resp 400 ''Invalid owner address''), s))"

subsection \<open>What the handlers do to the order table\<close>

text \<open>The only way an order row comes into being.\<close>

definition placed :: "intake_env \<Rightarrow> order_intent \<Rightarrow> string option \<Rightarrow> database \<Rightarrow> database \<Rightarrow> bool" where
  "placed V o' sig d d1 \<longleftrightarrow> db_fills d1 = db_fills d \<and> db_markets d1 = db_markets d \<and> db_jobs d1 = db_jobs d \<and>
     (db_orders d1 = db_orders d \<or>
      (db_orders d1 = db_orders d @ [row_of (in_now V) o' sig] \<and> nonce o' \<le> MAX_BIGINT \<and>
        (\<forall>x \<in> set (db_orders d). oid x \<noteq> order_id (owner o') (nonce o') \<and> \<not> (owner x = owner o' \<and> nonce x = nonce o'))))"

lemma insert_account_tables [simp]:
  "db_orders (insert_account now own d) = db_orders d" "db_fills (insert_account now own d) = db_fills d"
  "db_markets (insert_account now own d) = db_markets d" "db_jobs (insert_account now own d) = db_jobs d"
  by (simp_all add: insert_account_def)

lemma row_of_sel [simp]:
  "oid (row_of now o' sig) = order_id (owner o') (nonce o')" "owner (row_of now o' sig) = owner o'"
  "nonce (row_of now o' sig) = nonce o'" "expiryTs (row_of now o' sig) = expiryTs o'" "size (row_of now o' sig) = size o'"
  "filledSize (row_of now o' sig) = 0" "signature (row_of now o' sig) = sig" "cancelled (row_of now o' sig) = False"
  "order_intent.truncate (row_of now o' sig) = o'"
  by (simp_all add: row_of_def order_intent.defs)

lemma place_attempt_placed:
  "placed V o' sig d d0 \<Longrightarrow> placed V o' sig d (snd (place_attempt V o' sig i d0))"
  by (auto simp: place_attempt_def insert_order_def placed_def Let_def split: option.splits)

lemma place_attempt_present:
  "place_attempt V o' sig i d0 = (Returned u, d1) \<Longrightarrow> \<exists>x \<in> set (db_orders d1). oid x = order_id (owner o') (nonce o')"
  by (auto simp: place_attempt_def insert_order_def Let_def split: option.splits if_splits)

lemma retry_placed:
  assumes "withRetry (place_attempt V o' sig) d = (res, d1)"
  shows "placed V o' sig d d1 \<and> (res = Returned () \<longrightarrow> (\<exists>x \<in> set (db_orders d1). oid x = order_id (owner o') (nonce o')))"
proof -
  have "placed V o' sig d (snd (retry_from (place_attempt V o' sig) 0 3 d))"
    by (rule retry_invariant [where I = "placed V o' sig d"]) (rule place_attempt_placed, assumption, simp add: placed_def)
  then show ?thesis
    using assms retry_returned [of "place_attempt V o' sig" 0 3 d "()" d1] place_attempt_present
    unfolding withRetry_def by fastforce
qed

lemma accepted_signature:
  assumes "validateOrderIntent c cfg now b = Accepted o'"
  shows "\<exists>sig. body_signature b = Some sig \<and> settlement_signed c cfg o' sig"
  using validate_Accepted [OF assms] by (auto simp: body_signature_def)

lemma POST_order_cases:
  assumes "POST_order V req (bs, d) = (resp, bs1, d1)"
  obtains (refused) "d1 = d" "resp \<noteq> Some ok_resp"
  | (run) b o' res where "req_body req = Some b" "validateOrderIntent (in_crypto V) (in_cfg V) (in_now V) b = Accepted o'"
      "withRetry (place_attempt V o' (body_signature b)) d = (res, d1)" "resp = Some ok_resp \<longleftrightarrow> res = Returned ()"
  using assms
  by (auto simp: POST_order_def Let_def split: if_splits option.splits validation.splits prod.splits attempt.splits)

text \<open>The signature check of the matcher, on a row that carries a settlement signature of its order.\<close>

definition row_signed :: "crypto \<Rightarrow> config \<Rightarrow> order_row \<Rightarrow> bool" where
  "row_signed c cfg r \<longleftrightarrow> (\<exists>sig. signature r = Some sig \<and> settlement_signed c cfg (order_intent.truncate r) sig)"

lemma truncate_mapOrderRow [simp]: "order_intent.truncate (mapOrderRow r) = order_intent.truncate r"
  by (simp add: mapOrderRow_def order_intent.defs)

lemma row_signed_valid: "row_signed c cfg r \<Longrightarrow> settlementSigValid c cfg (mapOrderRow r) = Some True"
  by (auto simp: row_signed_def settlement_signed_def settlementSigValid_def order_intent.defs)

lemma POST_cancel_effect:
  assumes "POST_cancel V req (bs, d) = (resp, bs1, d1)" and "d1 \<noteq> d \<or> resp = Some ok_resp"
  shows "\<exists>b own n sig. req_body req = Some b \<and> js_field b ''owner'' = Some (JStr own) \<and> cancel_nonce b = Some n \<and>
     js_field b ''signature'' = Some (JStr sig) \<and>
     verifySignedMessage (in_crypto V) own (cancelSigningMessage (passphrase (NETWORK_cfg (in_cfg V))) own (show_int n)) sig \<and>
     d1 = cancel_orders own n d"
proof -
  have retry: "d1 = cancel_orders own n d" if "withRetry (cancel_attempt V own n) d = (res, d1)" "d1 \<noteq> d \<or> res = Returned ()" for own n res
  proof -
    have step: "snd (cancel_attempt V own n i d) = d \<or> cancel_attempt V own n i d = (Returned (), cancel_orders own n d)" for i
      by (auto simp: cancel_attempt_def split: option.splits)
    have fails: "fst (cancel_attempt V own n i d) \<noteq> Returned () \<or> cancel_attempt V own n i d = (Returned (), cancel_orders own n d)" for i
      by (auto simp: cancel_attempt_def split: option.splits)
    have "d2 = cancel_orders own n d \<or> (d2 = d \<and> r \<noteq> Returned ())" if "retry_from (cancel_attempt V own n) i k d = (r, d2)" for i k r d2
      using that
    proof (induction k arbitrary: i)
      case 0
      then show ?case by auto
    next
      case (Suc k)
      then show ?case using step [of i] fails [of i]
        by (cases "cancel_attempt V own n i d") (auto split: attempt.splits if_splits)
    qed
    then show ?thesis using that unfolding withRetry_def by blast
  qed
  show ?thesis
    using assms retry
    unfolding POST_cancel_def Let_def case_prod_beta
    by (auto split: if_splits option.splits json.splits attempt.splits simp: prod_eq_iff)
qed

subsection \<open>Properties\<close>

text \<open>
  Placing an order only ever appends: a request leaves every stored order, fill, market and job as
  it is and adds at most one row, that of the validated order with its own identifier and a settlement
  signature of its owner that verifies; success is reported only when a row with that identifier is
  stored. A resubmitted nonce therefore never changes the stored order.
\<close>

theorem placing_appends_validated_order:
  assumes "POST_order V req (bs, d) = (resp, bs1, d1)"
  shows "(db_orders d1 = db_orders d \<or>
      (\<exists>b o' sig. req_body req = Some b \<and> validateOrderIntent (in_crypto V) (in_cfg V) (in_now V) b = Accepted o' \<and>
         settlement_signed (in_crypto V) (in_cfg V) o' sig \<and>
         order_id (owner o') (nonce o') \<notin> oid ` set (db_orders d) \<and>
         db_orders d1 = db_orders d @ [row_of (in_now V) o' (Some sig)])) \<and>
     db_fills d1 = db_fills d \<and> db_markets d1 = db_markets d \<and> db_jobs d1 = db_jobs d \<and>
     (resp = Some ok_resp \<longrightarrow> (\<exists>b o'. req_body req = Some b \<and>
        validateOrderIntent (in_crypto V) (in_cfg V) (in_now V) b = Accepted o' \<and>
        order_id (owner o') (nonce o') \<in> oid ` set (db_orders d1)))"
  using assms
proof (cases rule: POST_order_cases)
  case refused
  then show ?thesis by simp
next
  case (run b o' res)
  obtain sig where sig: "body_signature b = Some sig" "settlement_signed (in_crypto V) (in_cfg V) o' sig"
    using accepted_signature [OF run(2)] by blast
  have "placed V o' (Some sig) d d1" "res = Returned () \<longrightarrow> (\<exists>x \<in> set (db_orders d1). oid x = order_id (owner o') (nonce o'))"
    using retry_placed [OF run(3)] sig(1) by auto
  then show ?thesis using run sig(2) unfolding placed_def by (auto simp: image_iff) force+
qed

text \<open>
  C27. An accepted order is never quarantined: the row that placing it stores passes the matcher's own
  signature check, so the matcher never cancels it as unverifiable.
\<close>

theorem accepted_order_never_poisoned:
  assumes "validateOrderIntent c cfg now b = Accepted o'"
  shows "settlementSigValid c cfg (mapOrderRow (row_of t o' (body_signature b))) = Some True"
proof -
  obtain sig where "body_signature b = Some sig" "settlement_signed c cfg o' sig"
    using accepted_signature [OF assms] by blast
  then have "row_signed c cfg (row_of t o' (body_signature b))" by (simp add: row_signed_def)
  then show ?thesis by (rule row_signed_valid)
qed

text \<open>
  Only the owner cancels: a cancel request changes nothing but the cancelled flag of the orders
  with one owner and nonce, and only when it carries a signature that verifies under that owner's key
  for the cancel text of exactly that nonce; success is reported only then.
\<close>

theorem cancel_requires_owner_signature:
  assumes "POST_cancel V req (bs, d) = (resp, bs1, d1)" and "d1 \<noteq> d \<or> resp = Some ok_resp"
  shows "\<exists>b own n sig. req_body req = Some b \<and> js_field b ''owner'' = Some (JStr own) \<and> cancel_nonce b = Some n \<and>
     js_field b ''signature'' = Some (JStr sig) \<and>
     verifySignedMessage (in_crypto V) own (cancelSigningMessage (passphrase (NETWORK_cfg (in_cfg V))) own (show_int n)) sig \<and>
     d1 = cancel_orders own n d"
  by (rule POST_cancel_effect [OF assms])

subsection \<open>Concrete requests\<close>

definition sample_intake :: intake_env where
  "sample_intake = \<lparr> in_now = 1000000, in_cfg = default_config, in_crypto = sample_crypto,
     in_limiter = \<lparr> le_env = (\<lambda>_. None), le_incr = (\<lambda>_. None) \<rparr>, in_dbUrl = Some ''db'', in_fail = (\<lambda>_ _. None) \<rparr>"

definition empty_db :: database where
  "empty_db = \<lparr> db_orders = [], db_fills = [], db_markets = [], db_jobs = [], db_accounts = [] \<rparr>"

definition sample_request :: "json \<Rightarrow> request" where
  "sample_request b = \<lparr> req_header = (\<lambda>_. None), req_body = Some b \<rparr>"

definition sample_cancel :: json where
  "sample_cancel = JObj [(''owner'', JStr ''GA''), (''nonce'', JStr ''7''), (''signature'', JStr ''sig'')]"

lemma sample_validate: "validateOrderIntent sample_crypto default_config 1000000 (order_body sample_order ''sig'') = Accepted sample_order"
  using sample_order_ok sample_order_signed by (intro validate_body) (simp_all add: sample_crypto_def sample_order_def)

lemma sample_not_large: "\<not> bodyTooLarge (sample_request b) 4096"
  by (simp add: bodyTooLarge_def sample_request_def Let_def)

lemma sample_admitted: "fst (rateLimit (in_limiter sample_intake) t k n [])"
  by (simp add: rateLimit_def distributedRateLimit_def sample_intake_def localRateLimit_def purge_expired_def Let_def)

lemma sample_intake_sel [simp]:
  "in_now sample_intake = 1000000" "in_cfg sample_intake = default_config" "in_crypto sample_intake = sample_crypto"
  "in_dbUrl sample_intake = Some ''db''" "in_fail sample_intake = (\<lambda>_ _. None)"
  by (simp_all add: sample_intake_def)

lemma sample_request_body [simp]: "req_body (sample_request b) = Some b"
  by (simp add: sample_request_def)

lemma sample_retry: "fst (withRetry (place_attempt sample_intake sample_order sig) empty_db) = Returned ()"
  by (simp add: withRetry_def eval_nat_numeral place_attempt_def insert_order_def Let_def MAX_BIGINT_def empty_db_def
      insert_account_def sample_order_def)

lemma sample_post:
  "\<exists>bs1 d1. POST_order sample_intake (sample_request (order_body sample_order ''sig'')) ([], empty_db) = (Some ok_resp, bs1, d1)"
  using sample_not_large sample_admitted sample_retry
  by (auto simp: POST_order_def sample_validate Let_def case_prod_beta)

theorem placing_appends_validated_order_witness:
  "\<exists>bs1 d1. POST_order sample_intake (sample_request (order_body sample_order ''sig'')) ([], empty_db) = (Some ok_resp, bs1, d1) \<and>
     order_id ''GA'' 7 \<in> oid ` set (db_orders d1)"
proof -
  obtain bs1 d1 where run: "POST_order sample_intake (sample_request (order_body sample_order ''sig'')) ([], empty_db) = (Some ok_resp, bs1, d1)"
    using sample_post by blast
  from placing_appends_validated_order [OF run] have "order_id (owner sample_order) (nonce sample_order) \<in> oid ` set (db_orders d1)"
    by (auto simp: sample_validate)
  with run show ?thesis by (auto simp: sample_order_def)
qed

theorem accepted_order_never_poisoned_witness:
  "settlementSigValid sample_crypto default_config
     (mapOrderRow (row_of 0 sample_order (body_signature (order_body sample_order ''sig'')))) = Some True"
  by (rule accepted_order_never_poisoned [OF sample_validate])

lemma sample_cancel_nonce: "cancel_nonce sample_cancel = Some 7"
  by (simp add: cancel_nonce_def sample_cancel_def map_get_def json_or_def all_digits_def is_digit_def assertU64_def MAX_U64_def
      read_nat_def digit_val_def)

lemma sample_cancel_run:
  "\<exists>bs1 d1. POST_cancel sample_intake (sample_request sample_cancel) ([], empty_db) = (Some ok_resp, bs1, d1)"
proof -
  have f: "sample_cancel \<noteq> JNull" "js_field sample_cancel ''owner'' = Some (JStr ''GA'')" "js_field sample_cancel ''signature'' = Some (JStr ''sig'')"
    by (simp_all add: sample_cancel_def map_get_def)
  have v: "verifySignedMessage sample_crypto ''GA'' msg ''sig''" for msg
    by (simp add: verifySignedMessage_def decodeSignature_def js_trim_def is_space_def sample_crypto_def)
  have a: "isValidEd25519PublicKey sample_crypto ''GA''" by (simp add: sample_crypto_def)
  show ?thesis
    using sample_not_large sample_admitted f v a
    by (auto simp: POST_cancel_def sample_cancel_nonce withRetry_def eval_nat_numeral cancel_attempt_def
        Let_def case_prod_beta MAX_BIGINT_def)
qed

theorem cancel_requires_owner_signature_witness:
  "\<exists>bs1 d1 n. POST_cancel sample_intake (sample_request sample_cancel) ([], empty_db) = (Some ok_resp, bs1, d1) \<and>
     d1 = cancel_orders ''GA'' n empty_db"
proof -
  obtain bs1 d1 where run: "POST_cancel sample_intake (sample_request sample_cancel) ([], empty_db) = (Some ok_resp, bs1, d1)"
    using sample_cancel_run by blast
  from cancel_requires_owner_signature [OF run] obtain own n where
    "js_field sample_cancel ''owner'' = Some (JStr own)" "d1 = cancel_orders own n empty_db" by auto
  then have "own = ''GA''" by (simp add: sample_cancel_def map_get_def)
  with run \<open>d1 = _\<close> show ?thesis by blast
qed

end
