(* ===== verification/Settlement_Jobs.thy ===== *)
theory Settlement_Jobs
  imports Order_Intake
begin

text \<open>
  The settlement queue: \<open>client/app/api/settlements/route.ts\<close> (the jobs a wallet has to sign),
  \<open>client/app/api/settlements/[id]/sign/route.ts\<close> (one party hands in its signed entry; the second one
  triggers the broadcast), \<open>client/scripts/settlement-reconciler.ts\<close> and
  \<open>client/scripts/clear-stale-jobs.ts\<close>. The SDK and the RPC server are the fields of \<open>chain\<close>; an \<open>Inl\<close>
  is an exception with its message. The atomic database steps (\<open>merge_entry\<close>, \<open>claim_queued\<close>, ...) are
  definitions of their own, so that the handlers and the concurrent model share them.
\<close>

subsection \<open>Payloads\<close>

text \<open>
  A property used as a non-empty string. Payloads are written by \<open>job_payload\<close> and \<open>merge_entry\<close> only,
  whose values are strings where these names are used.
\<close>

definition text_field :: "json \<Rightarrow> string \<Rightarrow> string option" where
  "text_field j k = (case js_field j k of Some (JStr s) \<Rightarrow> if s = [] then None else Some s | _ \<Rightarrow> None)"

definition jsonb_concat :: "json \<Rightarrow> json \<Rightarrow> json" where
  "jsonb_concat a b =
    (let items = (\<lambda>j. case j of JArr xs \<Rightarrow> xs | _ \<Rightarrow> [j]) in
     case (a, b) of
       (JObj kvs, JObj kws) \<Rightarrow> JObj (foldl (\<lambda>m (k, v). map_set m k v) kvs kws)
     | _ \<Rightarrow> JArr (items a @ items b))"

definition entry_field :: "bool \<Rightarrow> string" where
  "entry_field isMaker = (if isMaker then ''makerSignedEntry'' else ''takerSignedEntry'')"

definition both_signed :: "json \<Rightarrow> bool" where
  "both_signed data \<longleftrightarrow> json_truthy (js_field data ''makerSignedEntry'') \<and> json_truthy (js_field data ''takerSignedEntry'')"

subsection \<open>Atomic steps on the job table\<close>

definition settle_job :: "int \<Rightarrow> tx_job \<Rightarrow> bool" where
  "settle_job i j \<longleftrightarrow> j_id j = i \<and> j_kind j = settle_kind"

definition load_job :: "int \<Rightarrow> database \<Rightarrow> tx_job option" where
  "load_job i d = find_row (settle_job i) (db_jobs d)"

definition update_jobs :: "(tx_job \<Rightarrow> bool) \<Rightarrow> (tx_job \<Rightarrow> tx_job) \<Rightarrow> database \<Rightarrow> database" where
  "update_jobs P f d = d\<lparr> db_jobs := update_where P f (db_jobs d) \<rparr>"

text \<open>
  Merging a signed entry into a queued payload: \<open>None\<close> when the column holds no JSON (the cast throws),
  \<open>Some None\<close> when no row was queued any more, else the merged payload.
\<close>

definition add_entry :: "int \<Rightarrow> bool \<Rightarrow> string \<Rightarrow> tx_job \<Rightarrow> tx_job" where
  "add_entry now isMaker entry j = j\<lparr>
     j_unsignedXdr := map_option (\<lambda>x. jsonb_concat x (JObj [(entry_field isMaker, JStr entry)])) (j_unsignedXdr j),
     j_updatedAt := now \<rparr>"

definition queued_job :: "int \<Rightarrow> tx_job \<Rightarrow> bool" where
  "queued_job i j \<longleftrightarrow> settle_job i j \<and> j_status j = QUEUED"

definition merge_entry :: "int \<Rightarrow> int \<Rightarrow> bool \<Rightarrow> string \<Rightarrow> database \<Rightarrow> json option option \<times> database" where
  "merge_entry now i isMaker entry d = (case returning (queued_job i) (db_jobs d) of
     [] \<Rightarrow> (Some None, d)
   | j # _ \<Rightarrow> (case j_unsignedXdr (add_entry now isMaker entry j) of
       None \<Rightarrow> (None, d)
     | Some x \<Rightarrow> (Some (Some x), update_jobs (queued_job i) (add_entry now isMaker entry) d)))"

definition set_status :: "tx_status \<Rightarrow> int \<Rightarrow> tx_job \<Rightarrow> tx_job" where
  "set_status st now j = j\<lparr> j_status := st, j_updatedAt := now \<rparr>"

definition claim_where :: "(tx_job \<Rightarrow> bool) \<Rightarrow> int \<Rightarrow> database \<Rightarrow> bool \<times> database" where
  "claim_where P now d = (returning P (db_jobs d) \<noteq> [], update_jobs P (set_status SUBMITTED now) d)"

definition claim_queued :: "int \<Rightarrow> int \<Rightarrow> database \<Rightarrow> bool \<times> database" where
  "claim_queued now i d = claim_where (\<lambda>j. j_id j = i \<and> j_status j = QUEUED) now d"

definition record_hash :: "int \<Rightarrow> int \<Rightarrow> string \<Rightarrow> database \<Rightarrow> database" where
  "record_hash now i h d = update_jobs (\<lambda>j. j_id j = i) (\<lambda>j. j\<lparr> j_submittedHash := Some h, j_updatedAt := now \<rparr>) d"

definition mark_failed :: "(tx_job \<Rightarrow> bool) \<Rightarrow> int \<Rightarrow> string \<Rightarrow> database \<Rightarrow> database" where
  "mark_failed P now msg d = update_jobs P (\<lambda>j. (set_status FAILED now j)\<lparr> j_lastError := Some msg \<rparr>) d"

definition mark_confirmed :: "(tx_job \<Rightarrow> bool) \<Rightarrow> int \<Rightarrow> database \<Rightarrow> database" where
  "mark_confirmed P now d = update_jobs P (set_status CONFIRMED now) d"

subsection \<open>Rebuilding and broadcasting\<close>

definition try_then :: "'e + 'a \<Rightarrow> ('a \<Rightarrow> 'e + 'b) \<Rightarrow> 'e + 'b" where
  "try_then x f = (case x of Inl e \<Rightarrow> Inl e | Inr v \<Rightarrow> f v)"

lemma try_then_Inr: "try_then x f = Inr y \<longleftrightarrow> (\<exists>v. x = Inr v \<and> f v = Inr y)"
  by (cases x) (auto simp: try_then_def)

record stored_tx =
  st_op :: string
  st_auth :: "string list"
  st_sorobanData :: string
  st_fee :: int

record rebuilt_tx =
  rt_source :: string
  rt_sequence :: int
  rt_fee :: string
  rt_passphrase :: string
  rt_op :: string
  rt_sorobanData :: string
  rt_timeout :: int
  rt_auth :: "string list"
  rt_signer :: string

record chain =
  ch_validEntry :: "string \<Rightarrow> bool"
  ch_fromSecret :: "string \<Rightarrow> string + string"
  ch_envelope :: "string \<Rightarrow> string + stored_tx"
  ch_sequence :: "string \<Rightarrow> string + int"
  ch_inject :: "stored_tx \<Rightarrow> string list \<Rightarrow> string list"
  ch_send :: "rebuilt_tx \<Rightarrow> string + send_result"
  ch_poll :: "string \<Rightarrow> nat \<Rightarrow> string + poll_status"

text \<open>
  The transaction with a fresh sequence number, the stored operation and resources; the hash when the
  network takes it. The code writes the two signed entries into \<open>rebuilt.toEnvelope()\<close> and then signs and
  sends \<open>rebuilt\<close>: which entries \<open>rebuilt\<close> has afterwards depends on the SDK (\<open>ch_inject\<close>). stellar-sdk 15
  documents \<open>toEnvelope\<close> as building a new envelope, so that \<open>rebuilt\<close> keeps the entries of the stored
  operation: that is \<open>envelope_copied\<close>.
\<close>

definition rebuild_tx :: "chain \<Rightarrow> config \<Rightarrow> string \<Rightarrow> json \<Rightarrow> string + rebuilt_tx" where
  "rebuild_tx C cfg secret data =
    try_then (ch_fromSecret C secret) (\<lambda>pk.
    try_then (case text_field data ''assembledTxXdr'' of None \<Rightarrow> Inl ''assembledTxXdr'' | Some x \<Rightarrow> ch_envelope C x) (\<lambda>st.
    try_then (ch_sequence C pk) (\<lambda>sq.
     case (text_field data ''makerSignedEntry'', text_field data ''takerSignedEntry'') of
       (Some mk, Some tk) \<Rightarrow>
         if ch_validEntry C mk \<and> ch_validEntry C tk
         then Inr \<lparr> rt_source = pk, rt_sequence = sq, rt_fee = show_int (st_fee st),
           rt_passphrase = passphrase (NETWORK_cfg cfg), rt_op = st_op st, rt_sorobanData = st_sorobanData st,
           rt_timeout = 60, rt_auth = ch_inject C st [mk, tk], rt_signer = pk \<rparr>
         else Inl ''invalid entry''
     | _ \<Rightarrow> Inl ''missing entry'')))"

definition broadcast :: "chain \<Rightarrow> config \<Rightarrow> string \<Rightarrow> json \<Rightarrow> string + string" where
  "broadcast C cfg secret data =
    try_then (rebuild_tx C cfg secret data) (\<lambda>tx.
    try_then (ch_send C tx) (\<lambda>r. case r of SendError e \<Rightarrow> Inl e | SendOk h \<Rightarrow> Inr h))"

definition envelope_copied :: "chain \<Rightarrow> bool" where
  "envelope_copied C \<longleftrightarrow> (\<forall>st es. ch_inject C st es = st_auth st)"

text \<open>With that SDK the transaction that is sent has the entries as they were simulated, unsigned; what the parties signed is lost.\<close>

lemma copied_envelope_drops_entries:
  assumes "envelope_copied C" and "rebuild_tx C cfg secret data = Inr tx"
  shows "\<exists>x st. text_field data ''assembledTxXdr'' = Some x \<and> ch_envelope C x = Inr st \<and> rt_auth tx = st_auth st"
  using assms
  by (cases "text_field data ''makerSignedEntry''"; cases "text_field data ''takerSignedEntry''";
      cases "text_field data ''assembledTxXdr''") (auto simp: rebuild_tx_def try_then_Inr envelope_copied_def split: if_splits)

subsection \<open>The sign handler\<close>

record sign_env =
  sg_now :: int
  sg_cfg :: config
  sg_crypto :: crypto
  sg_limiter :: limiter_env
  sg_chain :: chain
  sg_secret :: "string option"
  sg_fail :: "nat \<Rightarrow> bool"

definition status_resp :: "string \<Rightarrow> response" where
  "status_resp st = Resp 200 (JObj [(''ok'', JBool True), (''status'', JStr st)])"

definition submitted_resp :: "string \<Rightarrow> response" where
  "submitted_resp h = Resp 200 (JObj [(''ok'', JBool True), (''status'', JStr ''submitted''), (''hash'', JStr h)])"

text \<open>After the claim: broadcast, and record the hash or the failure. The catch block ignores a failing update.\<close>

definition submit_claimed :: "sign_env \<Rightarrow> int \<Rightarrow> json \<Rightarrow> database \<Rightarrow> response option \<times> database" where
  "submit_claimed G i data d =
    (if falsy_str (sg_secret G) then (Some (fail_resp 500 ''Missing matcher fee-payer secret''), d)
     else (case (case broadcast (sg_chain G) (sg_cfg G) (the (sg_secret G)) data of
             Inl e \<Rightarrow> Inl e
           | Inr h \<Rightarrow> if sg_fail G 3 then Inl ''statement failed'' else Inr h) of
         Inr h \<Rightarrow> (Some (submitted_resp h), record_hash (sg_now G) i h d)
       | Inl msg \<Rightarrow> (Some (fail_resp 500 (''Settlement submission failed: '' @ take 200 msg)),
           if sg_fail G 4 then d else mark_failed (\<lambda>j. j_id j = i) (sg_now G) (take 500 msg) d)))"

definition json_str :: "json option \<Rightarrow> string option" where
  "json_str v = (case v of Some (JStr s) \<Rightarrow> Some s | _ \<Rightarrow> None)"

definition party_address :: "crypto \<Rightarrow> json \<Rightarrow> string \<Rightarrow> bool" where
  "party_address c data k = (case js_field data k of Some (JStr s) \<Rightarrow> isValidEd25519PublicKey c s | _ \<Rightarrow> False)"

text \<open>After the merge: wait for the other party, or claim the job and broadcast.\<close>

definition sign_merged :: "sign_env \<Rightarrow> int \<Rightarrow> json \<Rightarrow> database \<Rightarrow> response option \<times> database" where
  "sign_merged G i merged d =
    (if \<not> both_signed merged then (Some (status_resp ''waiting_for_other_party''), d)
     else if sg_fail G 2 then (None, d)
     else (case claim_queued (sg_now G) i d of
         (False, d1) \<Rightarrow> (Some (status_resp ''submitting''), d1)
       | (True, d1) \<Rightarrow> submit_claimed G i merged d1))"

text \<open>From the loaded job on: the party check, the merge, and the claim when both entries are present.\<close>

definition sign_loaded :: "sign_env \<Rightarrow> int \<Rightarrow> tx_job \<Rightarrow> string \<Rightarrow> string \<Rightarrow> database \<Rightarrow> response option \<times> database" where
  "sign_loaded G i job addr entry d =
    (if j_status job \<noteq> QUEUED then (Some (fail_resp 409 ''Already processed''), d)
     else case j_unsignedXdr job of None \<Rightarrow> (Some (fail_resp 500 ''Malformed TxJob payload''), d)
     | Some data \<Rightarrow>
       if data = JNull then (None, d)
       else if \<not> party_address (sg_crypto G) data ''makerAddress'' \<or> \<not> party_address (sg_crypto G) data ''takerAddress''
         then (Some (fail_resp 500 ''Malformed TxJob parties''), d)
       else (let isMaker = js_field data ''makerAddress'' = Some (JStr addr);
                 isTaker = js_field data ''takerAddress'' = Some (JStr addr) in
         if \<not> isMaker \<and> \<not> isTaker then (Some (fail_resp 403 ''Address not party to this fill''), d)
         else if sg_fail G 1 then (None, d)
         else (case merge_entry (sg_now G) i isMaker entry d of
             (None, d1) \<Rightarrow> (None, d1)
           | (Some None, d1) \<Rightarrow> (Some (status_resp ''already_processing''), d1)
           | (Some (Some merged), d1) \<Rightarrow> sign_merged G i merged d1)))"

text \<open>The job id comes from the path; \<open>None\<close> is a text that is no number, which the query rejects.\<close>

definition POST_sign :: "sign_env \<Rightarrow> request \<Rightarrow> int option \<Rightarrow> buckets \<times> database \<Rightarrow> response option \<times> buckets \<times> database" where
  "POST_sign G req ident s = (let (bs, d) = s in
     if bodyTooLarge req 12288 then (Some (fail_resp 413 ''Body too large''), s)
     else (let f = (\<lambda>k. case req_body req of None \<Rightarrow> None | Some b \<Rightarrow> js_field b k) in
       if \<not> json_truthy (f ''signedAuthEntry'') \<or> \<not> json_truthy (f ''address'')
         then (Some (fail_resp 400 ''Missing signedAuthEntry or address''), s)
       else (case json_str (f ''address'') of
         None \<Rightarrow> (Some (fail_resp 400 ''Invalid address''), s)
       | Some addr \<Rightarrow> if \<not> isValidEd25519PublicKey (sg_crypto G) addr then (Some (fail_resp 400 ''Invalid address''), s)
         else (case json_str (f ''signedAuthEntry'') of
           None \<Rightarrow> (Some (fail_resp 400 ''Invalid signed auth entry''), s)
         | Some entry \<Rightarrow>
             if 8192 < length entry \<or> \<not> ch_validEntry (sg_chain G) entry
               then (Some (fail_resp 400 ''Invalid signed auth entry''), s)
             else (let (admitted, bs1) = rateLimit (sg_limiter G) (sg_now G) (requestKey req addr) 30 bs in
               if \<not> admitted then (Some (fail_resp 429 ''Too many settlement requests''), bs1, d)
               else if ident = None \<or> sg_fail G 0 then (None, bs1, d)
               else (case load_job (the ident) d of
                   None \<Rightarrow> (Some (fail_resp 404 ''TxJob not found''), bs1, d)
                 | Some job \<Rightarrow> (let (resp, d1) = sign_loaded G (the ident) job addr entry d in (resp, bs1, d1))))))))"

subsection \<open>The list of jobs to sign\<close>

record pending_item =
  pi_id :: int
  pi_fillHash :: string
  pi_isMaker :: bool
  pi_makerAddress :: "json option"
  pi_takerAddress :: "json option"
  pi_authEntryXdr :: "json option"
  pi_retryNeeded :: bool
  pi_fillPrice :: "json option"
  pi_fillSize :: "json option"
  pi_marketId :: "json option"
  pi_createdAt :: int

definition pending_of :: "string \<Rightarrow> tx_job \<Rightarrow> pending_item option" where
  "pending_of addr j = (case j_unsignedXdr j of None \<Rightarrow> None | Some data \<Rightarrow>
     if data = JNull then None
     else if js_field data ''makerAddress'' \<noteq> Some (JStr addr) \<and> js_field data ''takerAddress'' \<noteq> Some (JStr addr) then None
     else (let isMaker = js_field data ''makerAddress'' = Some (JStr addr);
               myEntrySigned = json_truthy (js_field data (entry_field isMaker)); bothSigned = both_signed data in
       if myEntrySigned \<and> \<not> bothSigned then None
       else Some \<lparr> pi_id = j_id j, pi_fillHash = j_payloadHash j, pi_isMaker = isMaker,
         pi_makerAddress = js_field data ''makerAddress'', pi_takerAddress = js_field data ''takerAddress'',
         pi_authEntryXdr = (if bothSigned then js_field data (entry_field isMaker)
            else js_field data (if isMaker then ''makerAuthXdr'' else ''takerAuthXdr'')),
         pi_retryNeeded = bothSigned, pi_fillPrice = js_field data ''fillPrice'',
         pi_fillSize = js_field data ''fillSize'', pi_marketId = js_field data ''marketId'', pi_createdAt = j_createdAt j \<rparr>))"

definition newest_first :: "tx_job \<Rightarrow> tx_job \<Rightarrow> int" where
  "newest_first a b = sgn (j_createdAt b - j_createdAt a)"

definition GET_settlements :: "crypto \<Rightarrow> limiter_env \<Rightarrow> int \<Rightarrow> bool \<Rightarrow> request \<Rightarrow> string option \<Rightarrow> buckets \<times> database \<Rightarrow>
    (int \<times> pending_item list) \<times> buckets" where
  "GET_settlements c L now fails req addr s = (let (bs, d) = s in
     if falsy_str addr \<or> \<not> isValidEd25519PublicKey c (the addr) then ((400, []), bs)
     else (let (admitted, bs1) = rateLimit L now (requestKey req (the addr)) 120 bs in
       if \<not> admitted then ((429, []), bs1)
       else if fails then ((500, []), bs1)
       else ((200, List.map_filter (pending_of (the addr)) (take 20 (js_sort newest_first
          (filter (\<lambda>j. j_kind j = settle_kind \<and> j_status j = QUEUED) (db_jobs d))))), bs1)))"

subsection \<open>The reconciler\<close>

record recon_env =
  rc_now :: int
  rc_cfg :: config
  rc_chain :: chain
  rc_secret :: "string option"
  rc_staleMinutes :: int
  rc_fail :: "string \<Rightarrow> int \<Rightarrow> nat \<Rightarrow> bool"

definition SUBMITTED_CHECK_AFTER_SECS :: int where "SUBMITTED_CHECK_AFTER_SECS = 30"

text \<open>A step of the reconciler: whether it completed (else it threw), and the database it leaves.\<close>

definition nonce_matches :: "json \<Rightarrow> string \<Rightarrow> int \<Rightarrow> bool" where
  "nonce_matches data k n \<longleftrightarrow> (case text_field data k of None \<Rightarrow> False | Some s \<Rightarrow> signed_digits s \<and> read_int s = n)"

text \<open>A nonce is compared with a BIGINT column: a text that is no number, such as the empty one of a missing nonce, makes the statement throw.\<close>

definition nonce_readable :: "json \<Rightarrow> string \<Rightarrow> bool" where
  "nonce_readable data k \<longleftrightarrow> (case text_field data k of None \<Rightarrow> False | Some s \<Rightarrow> signed_digits s)"

definition party_fill :: "tx_job \<Rightarrow> json \<Rightarrow> fill_row \<Rightarrow> bool" where
  "party_fill job data f \<longleftrightarrow> f_network f = j_network job \<and> Some (f_txHash f) = text_field data ''pendingTxHash'' \<and>
     Some (f_maker f) = text_field data ''makerAddress'' \<and> Some (f_taker f) = text_field data ''takerAddress''"

definition settle_fill_row :: "string \<Rightarrow> int \<Rightarrow> fill_row \<Rightarrow> fill_row" where
  "settle_fill_row h ledger f = f\<lparr> f_txHash := h, f_ledger := ledger \<rparr>"

definition update_fills :: "(fill_row \<Rightarrow> bool) \<Rightarrow> (fill_row \<Rightarrow> fill_row) \<Rightarrow> database \<Rightarrow> database" where
  "update_fills P f d = d\<lparr> db_fills := update_where P f (db_fills d) \<rparr>"

definition has_parties :: "json \<Rightarrow> bool" where
  "has_parties data \<longleftrightarrow> text_field data ''pendingTxHash'' \<noteq> None \<and> text_field data ''makerAddress'' \<noteq> None \<and>
     text_field data ''takerAddress'' \<noteq> None"

definition payload :: "tx_job \<Rightarrow> json" where
  "payload j = (case j_unsignedXdr j of None \<Rightarrow> JNull | Some x \<Rightarrow> x)"

text \<open>The poll loop after a resubmission: at most ten polls, then the job stays submitted.\<close>

fun resubmit_poll :: "recon_env \<Rightarrow> tx_job \<Rightarrow> string \<Rightarrow> nat \<Rightarrow> nat \<Rightarrow> database \<Rightarrow> (string + unit) \<times> database" where
  "resubmit_poll R job h i 0 d = (Inr (), d)"
| "resubmit_poll R job h i (Suc k) d = (case ch_poll (rc_chain R) h i of
     Inl msg \<Rightarrow> (Inl msg, d)
   | Inr (PollSuccess ledger) \<Rightarrow>
       if rc_fail R ''resubmit'' (j_id job) 2 then (Inl ''statement failed'', d)
       else (let d1 = mark_confirmed (\<lambda>j. j_id j = j_id job) (rc_now R) d in
         if \<not> has_parties (payload job) then (Inr (), d1)
         else if rc_fail R ''resubmit'' (j_id job) 3 then (Inl ''statement failed'', d1)
         else (Inr (), update_fills (party_fill job (payload job)) (settle_fill_row h ledger) d1))
   | Inr PollFailed \<Rightarrow>
       if rc_fail R ''resubmit'' (j_id job) 2 then (Inl ''statement failed'', d)
       else (Inr (), mark_failed (\<lambda>j. j_id j = j_id job) (rc_now R) ''resubmit tx failed'' d)
   | Inr PollPending \<Rightarrow> resubmit_poll R job h (Suc i) k d)"

definition resubmit_claim :: "int \<Rightarrow> tx_job \<Rightarrow> bool" where
  "resubmit_claim i j \<longleftrightarrow> j_id j = i \<and> j_status j \<in> {QUEUED, SUBMITTED} \<and> (j_status j = QUEUED \<or> j_submittedHash j = None)"

definition resubmitJob :: "recon_env \<Rightarrow> tx_job \<Rightarrow> database \<Rightarrow> bool \<times> database" where
  "resubmitJob R job d =
    (let data = payload job; fails = rc_fail R ''resubmit'' (j_id job) in
     if falsy_str (rc_secret R) then (True, d)
     else if text_field data ''assembledTxXdr'' = None \<or> text_field data ''makerSignedEntry'' = None \<or>
         text_field data ''takerSignedEntry'' = None then (True, d)
     else if fails 0 then (False, d)
     else (case claim_where (resubmit_claim (j_id job)) (rc_now R) d of
         (False, d1) \<Rightarrow> (True, d1)
       | (True, d1) \<Rightarrow>
           (let (r, d2) = (case broadcast (rc_chain R) (rc_cfg R) (the (rc_secret R)) data of
                  Inl msg \<Rightarrow> (Inl msg, d1)
                | Inr h \<Rightarrow> if fails 1 then (Inl ''statement failed'', d1)
                    else resubmit_poll R job h 0 10 (record_hash (rc_now R) (j_id job) h d1))
            in (case r of Inr u \<Rightarrow> (True, d2)
                | Inl msg \<Rightarrow> (True, if fails 4 then d2 else
                    mark_failed (\<lambda>j. j_id j = j_id job) (rc_now R) (take 500 msg) d2)))))"

definition reconcileSubmitted :: "recon_env \<Rightarrow> tx_job \<Rightarrow> database \<Rightarrow> bool \<times> database" where
  "reconcileSubmitted R job d =
    (if falsy_str (j_submittedHash job) then (True, d)
     else (let h = the (j_submittedHash job); data = payload job; fails = rc_fail R ''reconcile'' (j_id job);
               mine = (\<lambda>j. j_id j = j_id job \<and> j_status j = SUBMITTED) in
       case ch_poll (rc_chain R) h 0 of
         Inl msg \<Rightarrow> (True, d)
       | Inr (PollSuccess ledger) \<Rightarrow>
           if fails 0 then (False, d)
           else (let d1 = mark_confirmed mine (rc_now R) d in
             if \<not> has_parties data then (True, d1)
             else if fails 1 \<or> \<not> nonce_readable data ''makerNonce'' \<or> \<not> nonce_readable data ''takerNonce'' then (False, d1)
             else (True, update_fills (\<lambda>f. party_fill job data f \<and> nonce_matches data ''makerNonce'' (f_makerNonce f) \<and>
                 nonce_matches data ''takerNonce'' (f_takerNonce f)) (settle_fill_row h ledger) d1))
       | Inr PollFailed \<Rightarrow>
           if fails 0 then (False, d) else (True, mark_failed mine (rc_now R) ''on-chain tx failed'' d)
       | Inr PollPending \<Rightarrow> resubmitJob R job d))"

text \<open>Undoing the fill of a job: the fill row by hash, then the orders by owner and nonce.\<close>

definition release_order :: "json \<Rightarrow> string \<Rightarrow> string \<Rightarrow> int \<Rightarrow> database \<Rightarrow> database" where
  "release_order data addrKey nonceKey n d = d\<lparr> db_orders := update_where
     (\<lambda>r. Some (owner r) = text_field data addrKey \<and> nonce_matches data nonceKey (nonce r)) (sub_filled n) (db_orders d) \<rparr>"

definition job_fillSize :: "json \<Rightarrow> int option" where
  "job_fillSize data = (case text_field data ''fillSize'' of None \<Rightarrow> None | Some s \<Rightarrow> if signed_digits s then Some (read_int s) else None)"

definition undo_fill :: "(nat \<Rightarrow> bool) \<Rightarrow> tx_job \<Rightarrow> database \<Rightarrow> bool \<times> database" where
  "undo_fill fails job d = (let data = payload job in
     if \<not> has_parties data \<or> text_field data ''fillSize'' = None then (True, d)
     else if fails 0 then (False, d)
     else (let d1 = delete_fills (j_network job) (the (text_field data ''pendingTxHash'')) d in
       (case job_fillSize data of None \<Rightarrow> (text_field data ''makerNonce'' = None \<and> text_field data ''takerNonce'' = None, d1)
        | Some n \<Rightarrow>
          if text_field data ''makerNonce'' \<noteq> None \<and> (fails 1 \<or> \<not> nonce_readable data ''makerNonce'') then (False, d1)
          else (let d2 = (if text_field data ''makerNonce'' \<noteq> None
                  then release_order data ''makerAddress'' ''makerNonce'' n d1 else d1) in
            if text_field data ''takerNonce'' \<noteq> None \<and> (fails 2 \<or> \<not> nonce_readable data ''takerNonce'') then (False, d2)
            else (True, if text_field data ''takerNonce'' \<noteq> None
                  then release_order data ''takerAddress'' ''takerNonce'' n d2 else d2)))))"

definition expire_job :: "recon_env \<Rightarrow> tx_job \<Rightarrow> database \<Rightarrow> bool \<times> database" where
  "expire_job R job d =
    (let data = payload job; fails = rc_fail R ''expire'' (j_id job) in
     if text_field data ''makerSignedEntry'' \<noteq> None \<and> text_field data ''takerSignedEntry'' \<noteq> None then (True, d)
     else (case undo_fill fails job d of
         (False, d1) \<Rightarrow> (False, d1)
       | (True, d1) \<Rightarrow> if fails 3 then (False, d1)
           else (True, mark_failed (\<lambda>j. j_id j = j_id job \<and> j_status j = QUEUED) (rc_now R) ''auth collection timeout'' d1)))"

fun each_job :: "(tx_job \<Rightarrow> database \<Rightarrow> bool \<times> database) \<Rightarrow> tx_job list \<Rightarrow> database \<Rightarrow> bool \<times> database" where
  "each_job f [] d = (True, d)"
| "each_job f (j # js) d = (case f j d of (False, d1) \<Rightarrow> (False, d1) | (True, d1) \<Rightarrow> each_job f js d1)"

definition settle_rows :: "(tx_job \<Rightarrow> bool) \<Rightarrow> database \<Rightarrow> tx_job list" where
  "settle_rows P d = filter (\<lambda>j. j_kind j = settle_kind \<and> P j) (db_jobs d)"

definition stale_before :: "int \<Rightarrow> int \<Rightarrow> tx_job \<Rightarrow> bool" where
  "stale_before now minutes j \<longleftrightarrow> j_status j = QUEUED \<and> j_createdAt j < now - minutes * 60000"

text \<open>The tick reads its jobs with three queries; \<open>select_fails R k\<close> says whether the one with number \<open>k\<close> throws.\<close>

abbreviation select_fails :: "recon_env \<Rightarrow> nat \<Rightarrow> bool" where
  "select_fails R k \<equiv> rc_fail R ''select'' 0 k"

definition expireStaleQueued :: "recon_env \<Rightarrow> database \<Rightarrow> bool \<times> database" where
  "expireStaleQueued R d = (if select_fails R 2 then (False, d) else each_job (expire_job R) (settle_rows (stale_before (rc_now R) (rc_staleMinutes R)) d) d)"

definition has_entry :: "tx_job \<Rightarrow> string \<Rightarrow> bool" where
  "has_entry j k \<longleftrightarrow> js_field (payload j) k \<noteq> None"

text \<open>The second query casts the payload of the queued jobs to \<open>jsonb\<close>, which throws on one that is no JSON.\<close>

definition cast_fails :: "database \<Rightarrow> bool" where
  "cast_fails d \<longleftrightarrow> (\<exists>j \<in> set (db_jobs d). j_kind j = settle_kind \<and> j_status j = QUEUED \<and> j_unsignedXdr j = None)"

definition recon_tick :: "recon_env \<Rightarrow> database \<Rightarrow> bool \<times> database" where
  "recon_tick R d =
    (if select_fails R 0 then (False, d)
     else case each_job (reconcileSubmitted R) (take 50 (settle_rows (\<lambda>j. j_status j = SUBMITTED \<and>
         j_updatedAt j < rc_now R - SUBMITTED_CHECK_AFTER_SECS * 1000) d)) d of
       (False, d1) \<Rightarrow> (False, d1)
     | (True, d1) \<Rightarrow> if select_fails R 1 \<or> cast_fails d1 then (False, d1) else (case each_job (resubmitJob R) (take 20 (settle_rows (\<lambda>j. j_status j = QUEUED \<and>
           has_entry j ''makerSignedEntry'' \<and> has_entry j ''takerSignedEntry'' \<and> j_updatedAt j < rc_now R - 30000) d1)) d1 of
         (False, d2) \<Rightarrow> (False, d2)
       | (True, d2) \<Rightarrow> expireStaleQueued R d2))"

text \<open>The service loop exits after five consecutive failed ticks.\<close>

fun recon_run :: "recon_env list \<Rightarrow> nat \<Rightarrow> database \<Rightarrow> bool \<times> database" where
  "recon_run [] errs d = (True, d)"
| "recon_run (R # Rs) errs d = (case recon_tick R d of
     (True, d1) \<Rightarrow> recon_run Rs 0 d1
   | (False, d1) \<Rightarrow> if 5 \<le> errs + 1 then (False, d1) else recon_run Rs (errs + 1) d1)"

subsection \<open>The one-off cleaner\<close>

definition clear_job :: "recon_env \<Rightarrow> tx_job \<Rightarrow> database \<Rightarrow> bool \<times> database" where
  "clear_job R job d = (case undo_fill (rc_fail R ''clear'' (j_id job)) job d of
     (False, d1) \<Rightarrow> (False, d1)
   | (True, d1) \<Rightarrow> if rc_fail R ''clear'' (j_id job) 3 then (False, d1)
       else (True, mark_failed (\<lambda>j. j_id j = j_id job) (rc_now R) ''settlement auth expired'' d1))"

definition clear_stale_jobs :: "recon_env \<Rightarrow> database \<Rightarrow> bool \<times> database" where
  "clear_stale_jobs R d = (if select_fails R 3 then (False, d)
     else each_job (clear_job R) (settle_rows (stale_before (rc_now R) (rc_staleMinutes R)) d) d)"

end
