(* ===== verification/Settlement_Correct.thy ===== *)
theory Settlement_Correct
  imports Settlement_Jobs
begin

text \<open>
  Correctness of the settlement queue: what a sign request may change, that concurrent sign requests
  broadcast a job at most once, that finished jobs stay finished, and that an expired settlement gives
  the book back.
\<close>

subsection \<open>Payload fields\<close>

lemma js_field_merge:
  "js_field (jsonb_concat (JObj kvs) (JObj [(k, v)])) k' = (if k' = k then Some v else js_field (JObj kvs) k')"
  by (simp add: jsonb_concat_def map_get_set)

lemma js_field_some: "js_field x k = Some v \<Longrightarrow> \<exists>kvs. x = JObj kvs"
  by (cases x) auto

lemma js_field_concat_other: "\<not> (\<exists>kvs. x = JObj kvs) \<Longrightarrow> js_field (jsonb_concat x (JObj [(k, v)])) k' = None"
  by (cases x) (auto simp: jsonb_concat_def)

lemma payload_add_entry:
  "js_field (payload (add_entry now mk e j)) k =
     (if k = entry_field mk \<and> (\<exists>kvs. j_unsignedXdr j = Some (JObj kvs)) then Some (JStr e) else js_field (payload j) k)"
proof (cases "j_unsignedXdr j")
  case None
  then show ?thesis by (simp add: add_entry_def payload_def)
next
  case (Some x)
  then show ?thesis
    by (cases x) (auto simp: add_entry_def payload_def jsonb_concat_def map_get_set)
qed

lemma add_entry_sel [simp]:
  "j_id (add_entry now mk e j) = j_id j" "j_status (add_entry now mk e j) = j_status j"
  "j_kind (add_entry now mk e j) = j_kind j" "j_submittedHash (add_entry now mk e j) = j_submittedHash j"
  "j_network (add_entry now mk e j) = j_network j" "j_payloadHash (add_entry now mk e j) = j_payloadHash j"
  by (simp_all add: add_entry_def)

lemma set_status_sel [simp]:
  "j_id (set_status st now j) = j_id j" "j_status (set_status st now j) = st"
  "j_unsignedXdr (set_status st now j) = j_unsignedXdr j" "j_kind (set_status st now j) = j_kind j"
  "j_submittedHash (set_status st now j) = j_submittedHash j"
  by (simp_all add: set_status_def)

subsection \<open>Row-wise change of the job table\<close>

text \<open>\<open>rows_rel P d d'\<close>: the job tables have the same rows in the same order, each changed by \<open>P\<close>.\<close>

definition rows_rel :: "(tx_job \<Rightarrow> tx_job \<Rightarrow> bool) \<Rightarrow> database \<Rightarrow> database \<Rightarrow> bool" where
  "rows_rel P d d' \<longleftrightarrow> list_all2 P (db_jobs d) (db_jobs d')"

lemma rows_rel_refl: "(\<And>j. P j j) \<Longrightarrow> rows_rel P d d"
  by (simp add: rows_rel_def list_all2_refl)

lemma rows_rel_trans:
  "(\<And>a b c. P a b \<Longrightarrow> P b c \<Longrightarrow> P a c) \<Longrightarrow> rows_rel P d1 d2 \<Longrightarrow> rows_rel P d2 d3 \<Longrightarrow> rows_rel P d1 d3"
  unfolding rows_rel_def by (rule list_all2_trans)

lemma rows_rel_update:
  assumes "\<And>j. j \<in> set (db_jobs d) \<Longrightarrow> Q j \<Longrightarrow> P j (f j)" and "\<And>j. j \<in> set (db_jobs d) \<Longrightarrow> \<not> Q j \<Longrightarrow> P j j"
  shows "rows_rel P d (update_jobs Q f d)"
  using assms unfolding rows_rel_def update_jobs_def update_where_def
  by (auto simp: list_all2_conv_all_nth)

lemma rows_rel_jobs: "(\<And>j. P j j) \<Longrightarrow> db_jobs d' = db_jobs d \<Longrightarrow> rows_rel P d d'"
  by (simp add: rows_rel_def list_all2_refl)

definition job_ids :: "database \<Rightarrow> bool" where
  "job_ids d \<longleftrightarrow> distinct (map j_id (db_jobs d))"

lemma rows_rel_ids: "(\<And>a b. P a b \<Longrightarrow> j_id b = j_id a) \<Longrightarrow> rows_rel P d d' \<Longrightarrow> map j_id (db_jobs d') = map j_id (db_jobs d)"
  unfolding rows_rel_def by (auto simp: list_all2_conv_all_nth intro!: nth_equalityI)

lemma job_unique: "job_ids d \<Longrightarrow> a \<in> set (db_jobs d) \<Longrightarrow> b \<in> set (db_jobs d) \<Longrightarrow> j_id a = j_id b \<Longrightarrow> a = b"
  by (auto simp: job_ids_def distinct_map dest: inj_onD)

subsection \<open>A sign request changes only its own entry\<close>

text \<open>
  How a sign request that names \<open>addr\<close> may change a row. The row is queued and the one of the request;
  its identity stays; the only payload field that may change is the signed entry of the role that
  \<open>addr\<close> has in it; the job leaves the queue only with both entries in its payload, as submitted or as
  failed; a hash is recorded only on a submitted job, an error only on a failed one.
\<close>

definition same_identity :: "tx_job \<Rightarrow> tx_job \<Rightarrow> bool" where
  "same_identity j j' \<longleftrightarrow> j_id j' = j_id j \<and> j_network j' = j_network j \<and> j_kind j' = j_kind j \<and>
     j_payloadHash j' = j_payloadHash j \<and> j_createdAt j' = j_createdAt j"

definition progress :: "tx_job \<Rightarrow> tx_job \<Rightarrow> bool" where
  "progress j j' \<longleftrightarrow>
     (j_status j' \<noteq> j_status j \<longrightarrow> both_signed (payload j') \<and> j_status j' \<in> {SUBMITTED, FAILED}) \<and>
     (j_submittedHash j' \<noteq> j_submittedHash j \<longrightarrow> j_status j' = SUBMITTED) \<and>
     (j_lastError j' \<noteq> j_lastError j \<longrightarrow> j_status j' = FAILED)"

definition own_change :: "int \<Rightarrow> string \<Rightarrow> tx_job \<Rightarrow> tx_job \<Rightarrow> bool" where
  "own_change i addr j j' \<longleftrightarrow> same_identity j j' \<and> progress j j' \<and> (j' \<noteq> j \<longrightarrow> j_id j = i \<and> j_status j = QUEUED) \<and>
     (\<forall>k. js_field (payload j') k \<noteq> js_field (payload j) k \<longrightarrow>
        (\<exists>isMaker. k = entry_field isMaker \<and>
           js_field (payload j) (if isMaker then ''makerAddress'' else ''takerAddress'') = Some (JStr addr)))"

text \<open>What follows the merge: the row of the request may be claimed, and then its hash or its error recorded.\<close>

definition after_claim :: "int \<Rightarrow> tx_job \<Rightarrow> tx_job \<Rightarrow> bool" where
  "after_claim i j j' \<longleftrightarrow> j' = j \<or> (j_id j = i \<and> ((\<exists>h t. j' = j\<lparr> j_submittedHash := Some h, j_updatedAt := t \<rparr>) \<or>
     (\<exists>msg t. j' = (set_status FAILED t j)\<lparr> j_lastError := Some msg \<rparr>)))"

definition submits :: "int \<Rightarrow> json \<Rightarrow> tx_job \<Rightarrow> tx_job \<Rightarrow> bool" where
  "submits i x j j' \<longleftrightarrow> j' = j \<or> (both_signed x \<and> j_id j = i \<and> j_status j = QUEUED \<and>
     (\<exists>t. after_claim i (set_status SUBMITTED t j) j'))"

lemma update_jobs_tables [simp]:
  "db_orders (update_jobs P f d) = db_orders d" "db_fills (update_jobs P f d) = db_fills d"
  "db_markets (update_jobs P f d) = db_markets d" "db_jobs (update_jobs P f d) = update_where P f (db_jobs d)"
  by (simp_all add: update_jobs_def)

lemmas job_updates = record_hash_def mark_failed_def mark_confirmed_def claim_where_def claim_queued_def

lemma submit_claimed_tables:
  "db_orders (snd (submit_claimed G i data d)) = db_orders d" "db_fills (snd (submit_claimed G i data d)) = db_fills d"
  by (auto simp: submit_claimed_def job_updates split: sum.splits)

lemma submit_claimed_rows: "rows_rel (after_claim i) d (snd (submit_claimed G i data d))"
proof -
  have refl: "rows_rel (after_claim i) d d" by (rule rows_rel_refl) (simp add: after_claim_def)
  have h: "rows_rel (after_claim i) d (record_hash t i h d)" for t h
    unfolding record_hash_def by (rule rows_rel_update) (auto simp: after_claim_def)
  have f: "rows_rel (after_claim i) d (mark_failed (\<lambda>j. j_id j = i) t m d)" for t m
    unfolding mark_failed_def by (rule rows_rel_update) (auto simp: after_claim_def)
  show ?thesis
    unfolding submit_claimed_def by (auto simp: refl h f split: sum.splits)
qed

lemma claim_tables:
  "db_orders (snd (claim_queued t i d)) = db_orders d" "db_fills (snd (claim_queued t i d)) = db_fills d"
  by (simp_all add: job_updates)

lemma claim_rows:
  "rows_rel (\<lambda>j j'. j' = (if j_id j = i \<and> j_status j = QUEUED then set_status SUBMITTED t j else j)) d (snd (claim_queued t i d))"
  unfolding claim_queued_def claim_where_def snd_conv by (rule rows_rel_update) auto

lemma claim_won: "claim_queued t i d = (True, d1) \<Longrightarrow> \<exists>j \<in> set (db_jobs d). j_id j = i \<and> j_status j = QUEUED"
  by (auto simp: claim_queued_def claim_where_def returning_empty_iff)

lemma merge_effect:
  "merge_entry t i mk e d = (r, d1) \<Longrightarrow> d1 = d \<or> d1 = update_jobs (queued_job i) (add_entry t mk e) d"
  by (auto simp: merge_entry_def split: list.splits option.splits)

lemma merge_rows:
  assumes "merge_entry t i mk e d = (r, d1)"
  shows "rows_rel (\<lambda>j j'. j' = j \<or> (queued_job i j \<and> j' = add_entry t mk e j)) d d1 \<and> db_orders d1 = db_orders d \<and> db_fills d1 = db_fills d"
proof -
  have "d1 = d \<or> d1 = update_jobs (queued_job i) (add_entry t mk e) d"
    by (rule merge_effect [OF assms])
  moreover have "rows_rel (\<lambda>j j'. j' = j \<or> (queued_job i j \<and> j' = add_entry t mk e j)) d (update_jobs (queued_job i) (add_entry t mk e) d)"
    by (rule rows_rel_update) auto
  ultimately show ?thesis by (auto intro: rows_rel_refl)
qed

lemma sign_merged_rows:
  assumes "job_ids d"
  shows "rows_rel (submits i x) d (snd (sign_merged G i x d)) \<and> db_orders (snd (sign_merged G i x d)) = db_orders d \<and>
     db_fills (snd (sign_merged G i x d)) = db_fills d"
proof -
  obtain b d1 where cl: "claim_queued (sg_now G) i d = (b, d1)" by force
  have refl: "rows_rel (submits i x) d d" by (rule rows_rel_refl) (simp add: submits_def)
  have claim: "rows_rel (\<lambda>j j'. j' = (if j_id j = i \<and> j_status j = QUEUED then set_status SUBMITTED (sg_now G) j else j)) d d1"
    using claim_rows [of i "sg_now G" d] by (simp add: cl)
  have sub: "submits i x j j2" if b "both_signed x" "j \<in> set (db_jobs d)"
      "j1 = (if j_id j = i \<and> j_status j = QUEUED then set_status SUBMITTED (sg_now G) j else j)" "after_claim i j1 j2" for j j1 j2
  proof -
    have "\<exists>j0 \<in> set (db_jobs d). j_id j0 = i \<and> j_status j0 = QUEUED" using claim_won [of "sg_now G" i d d1] cl that(1) by simp
    then obtain j0 where "j0 \<in> set (db_jobs d)" "j_id j0 = i" "j_status j0 = QUEUED" by blast
    then have "j_id j = i \<Longrightarrow> j_status j = QUEUED" using job_unique [OF assms, of j j0] that(3) by simp
    then have "j2 = j" if "j_id j \<noteq> i" using that \<open>after_claim i j1 j2\<close> \<open>j1 = _\<close> by (simp add: after_claim_def)
    moreover have "after_claim i (set_status SUBMITTED (sg_now G) j) j2" if "j_id j = i"
      using that \<open>j_id j = i \<Longrightarrow> j_status j = QUEUED\<close> \<open>after_claim i j1 j2\<close> \<open>j1 = _\<close> by simp
    ultimately show ?thesis using \<open>both_signed x\<close> \<open>j_id j = i \<Longrightarrow> j_status j = QUEUED\<close> unfolding submits_def by blast
  qed
  have "rows_rel (submits i x) d (snd (submit_claimed G i x d1))" if b "both_signed x"
    unfolding rows_rel_def
  proof (rule list_all2_all_nthI)
    let ?d2 = "snd (submit_claimed G i x d1)"
    note 1 = claim [unfolded rows_rel_def] and 2 = submit_claimed_rows [of i d1 G x, unfolded rows_rel_def]
    show len: "length (db_jobs d) = length (db_jobs ?d2)" using list_all2_lengthD [OF 1] list_all2_lengthD [OF 2] by simp
    fix n assume n: "n < length (db_jobs d)"
    show "submits i x (db_jobs d ! n) (db_jobs ?d2 ! n)"
      by (rule sub [OF that, of _ "db_jobs d1 ! n"])
        (use n list_all2_nthD [OF 1 n] list_all2_nthD [OF 2, of n] list_all2_lengthD [OF 1] in simp_all)
  qed
  moreover have "d1 = d" if "\<not> b"
    using that cl by (auto simp: claim_queued_def claim_where_def update_jobs_def returning_empty_iff update_where_idle)
  ultimately show ?thesis
    using refl claim_tables [of "sg_now G" i d] submit_claimed_tables [of G i x d1]
    unfolding sign_merged_def cl by (cases b) auto
qed

text \<open>The whole request: what it does to the row at each position.\<close>

lemma merge_loaded_payload:
  assumes "merge_entry t i mk e d = (Some (Some x), d2)"
  shows "\<exists>j \<in> set (db_jobs d). queued_job i j \<and> payload (add_entry t mk e j) = x"
proof -
  obtain j js where "returning (queued_job i) (db_jobs d) = j # js" "j_unsignedXdr (add_entry t mk e j) = Some x"
    using assms by (auto simp: merge_entry_def split: list.splits option.splits)
  then show ?thesis by (intro bexI [of _ j]) (auto simp: returning_def payload_def filter_eq_Cons_iff dest: arg_cong [of _ _ set])
qed

lemma sign_own_row:
  assumes only: "\<And>j. j \<in> set (db_jobs d) \<Longrightarrow> j_id j = i \<Longrightarrow> j = job" and job: "payload job = data" "j_status job = QUEUED"
    and party: "js_field data (if mk then ''makerAddress'' else ''takerAddress'') = Some (JStr addr)"
    and j: "j \<in> set (db_jobs d)" "j2 = j \<or> (queued_job i j \<and> j2 = add_entry t mk e j)"
    and j': "j' = j2 \<or> (submits i x j2 j' \<and> (j_id j2 = i \<longrightarrow> payload j2 = x))"
  shows "own_change i addr j j'"
proof -
  have sub: "submits i x j2 j' \<and> (j' \<noteq> j2 \<longrightarrow> payload j2 = x)" using j' by (auto simp: submits_def)
  have id2: "same_identity j j2" "j_status j2 = j_status j" "j_submittedHash j2 = j_submittedHash j" "j_lastError j2 = j_lastError j"
    using j(2) by (auto simp: same_identity_def add_entry_def)
  have pl: "payload j' = payload j2" "same_identity j2 j'" "progress j2 j'"
    using sub by (auto simp: submits_def after_claim_def payload_def same_identity_def progress_def set_status_def)
  have ch: "j_id j = i \<and> j_status j = QUEUED" if "j' \<noteq> j"
  proof -
    have "j_id j = i" using sub j(2) that id2(1) by (auto simp: submits_def queued_job_def settle_job_def same_identity_def)
    then show ?thesis using only [OF j(1)] job(2) by simp
  qed
  have field: "k = entry_field mk \<and> j = job" if k: "js_field (payload j') k \<noteq> js_field (payload j) k" for k
  proof -
    have q: "queued_job i j" "j2 = add_entry t mk e j" using j(2) k pl(1) by metis+
    have "k = entry_field mk" using k unfolding pl(1) q(2) payload_add_entry by (simp split: if_splits)
    moreover have "j = job" using q(1) only [OF j(1)] by (simp add: queued_job_def settle_job_def)
    ultimately show ?thesis by simp
  qed
  have "\<exists>isMaker. k = entry_field isMaker \<and> js_field (payload j) (if isMaker then ''makerAddress'' else ''takerAddress'') = Some (JStr addr)"
    if "js_field (payload j') k \<noteq> js_field (payload j) k" for k
    using field [OF that] party job(1) by blast
  moreover have "same_identity j j' \<and> progress j j'"
    using id2 pl(2,3) by (simp add: same_identity_def progress_def)
  ultimately show ?thesis using ch unfolding own_change_def by blast
qed

lemma sign_loaded_rows:
  assumes "sign_loaded G i job addr e d = (resp, d1)" and "load_job i d = Some job" and "job_ids d"
  shows "rows_rel (own_change i addr) d d1 \<and> db_orders d1 = db_orders d \<and> db_fills d1 = db_fills d"
proof (cases "d1 = d")
  case True
  then show ?thesis by (simp add: rows_rel_refl own_change_def same_identity_def progress_def)
next
  case False
  obtain data where data: "j_unsignedXdr job = Some data" "j_status job = QUEUED"
    using assms(1) False unfolding sign_loaded_def by (auto split: if_splits option.splits)
  define mk where "mk \<longleftrightarrow> js_field data ''makerAddress'' = Some (JStr addr)"
  obtain r d2 where m: "merge_entry (sg_now G) i mk e d = (r, d2)" by force
  have party: "js_field data (if mk then ''makerAddress'' else ''takerAddress'') = Some (JStr addr)"
    and d1: "d1 = d2 \<or> (\<exists>x. r = Some (Some x) \<and> sign_merged G i x d2 = (resp, d1))"
    using assms(1) False m data unfolding sign_loaded_def Let_def mk_def [symmetric]
    by (auto simp: mk_def split: if_splits option.splits)
  note merge = merge_rows [OF m]
  have ids: "map j_id (db_jobs d2) = map j_id (db_jobs d)"
    by (rule rows_rel_ids [OF _ merge [THEN conjunct1]]) auto
  have job: "job \<in> set (db_jobs d)" "settle_job i job" using find_row_Some [of "settle_job i" "db_jobs d" job] assms(2) by (simp_all add: load_job_def)
  have only: "j = job" if "j \<in> set (db_jobs d)" "j_id j = i" for j
    using job_unique [OF assms(3)] job that by (auto simp: settle_job_def)
  obtain x where later: "rows_rel (submits i x) d2 d1" "db_orders d1 = db_orders d2" "db_fills d1 = db_fills d2" "d1 = d2 \<or> r = Some (Some x)"
  proof (cases "d1 = d2")
    case True
    then show ?thesis using that by (simp add: rows_rel_refl submits_def)
  next
    case False
    then obtain x where x: "r = Some (Some x)" "sign_merged G i x d2 = (resp, d1)" using d1 by blast
    have "job_ids d2" using ids assms(3) by (simp add: job_ids_def)
    from sign_merged_rows [OF this, of i x G] show ?thesis using that [of x] x by simp
  qed
  have "rows_rel (own_change i addr) d d1"
    unfolding rows_rel_def
  proof (rule list_all2_all_nthI)
    note 1 = merge [THEN conjunct1, unfolded rows_rel_def] and 2 = later(1) [unfolded rows_rel_def]
    show len: "length (db_jobs d) = length (db_jobs d1)" using list_all2_lengthD [OF 1] list_all2_lengthD [OF 2] by simp
    fix n assume n: "n < length (db_jobs d)"
    let ?j = "db_jobs d ! n" and ?j2 = "db_jobs d2 ! n" and ?j' = "db_jobs d1 ! n"
    have s: "?j \<in> set (db_jobs d)" "?j2 = ?j \<or> (queued_job i ?j \<and> ?j2 = add_entry (sg_now G) mk e ?j)" "submits i x ?j2 ?j'"
      using n list_all2_nthD [OF 1 n] list_all2_nthD [OF 2, of n] list_all2_lengthD [OF 1] by simp_all
    have pay: "payload ?j2 = x" if r: "r = Some (Some x)" and j2: "j_id ?j2 = i"
    proof -
      obtain j0 where j0: "j0 \<in> set (db_jobs d)" "queued_job i j0" "payload (add_entry (sg_now G) mk e j0) = x"
        using merge_loaded_payload m r by blast
      have "d2 = d \<or> d2 = update_jobs (queued_job i) (add_entry (sg_now G) mk e) d" by (rule merge_effect [OF m])
      moreover have "j_id ?j = i" using s(2) j2 by auto
      then have "j0 = ?j" using only [OF j0(1)] only [OF s(1)] j0(2) by (simp add: queued_job_def settle_job_def)
      ultimately have "j0 = ?j \<and> (d2 = d \<or> d2 = update_jobs (queued_job i) (add_entry (sg_now G) mk e) d)" by blast
      then show ?thesis using j0(2,3) n m r by (auto simp: merge_entry_def update_where_def split: list.splits option.splits)
    qed
    show "own_change i addr ?j ?j'"
      by (rule sign_own_row [where x = x, OF only _ data(2) party s(1,2)])
        (use data(1) s(3) later(4) pay in \<open>auto simp: payload_def\<close>)
  qed
  then show ?thesis using merge later by simp
qed

subsection \<open>Concurrent sign requests\<close>

text \<open>
  Sign requests interleave at every database statement. A worker handles one request for the job
  \<open>i\<close>: it merges its entry, claims the job, broadcasts it and records the outcome; when the hash cannot be recorded the job is
  marked failed although it was sent. The state is the
  database, the phase of each worker, and the jobs broadcast so far, in order.
\<close>

datatype phase = Ready | Merged int json | Claimed int json | Sent int string | Finished

record pipeline =
  pl_db :: database
  pl_phase :: "nat \<Rightarrow> phase"
  pl_sent :: "int list"

definition set_phase :: "nat \<Rightarrow> phase \<Rightarrow> database \<Rightarrow> pipeline \<Rightarrow> pipeline" where
  "set_phase w p d s = s\<lparr> pl_db := d, pl_phase := (pl_phase s)(w := p) \<rparr>"

inductive sign_step :: "pipeline \<Rightarrow> pipeline \<Rightarrow> bool" where
  merge: "pl_phase s w = Ready \<Longrightarrow> merge_entry t i mk e (pl_db s) = (Some (Some x), d) \<Longrightarrow> both_signed x \<Longrightarrow>
      sign_step s (set_phase w (Merged i x) d s)"
| wait: "pl_phase s w = Ready \<Longrightarrow> merge_entry t i mk e (pl_db s) = (r, d) \<Longrightarrow>
      sign_step s (set_phase w Finished d s)"
| claim: "pl_phase s w = Merged i x \<Longrightarrow> claim_queued t i (pl_db s) = (True, d) \<Longrightarrow>
      sign_step s (set_phase w (Claimed i x) d s)"
| back_off: "pl_phase s w = Merged i x \<Longrightarrow> claim_queued t i (pl_db s) = (False, d) \<Longrightarrow>
      sign_step s (set_phase w Finished d s)"
| broadcast: "pl_phase s w = Claimed i x \<Longrightarrow>
      sign_step s ((set_phase w (Sent i h) (pl_db s) s)\<lparr> pl_sent := pl_sent s @ [i] \<rparr>)"
| rejected: "pl_phase s w = Claimed i x \<Longrightarrow>
      sign_step s (set_phase w Finished (mark_failed (\<lambda>j. j_id j = i) t msg (pl_db s)) s)"
| recorded: "pl_phase s w = Sent i h \<Longrightarrow> sign_step s (set_phase w Finished (record_hash t i h (pl_db s)) s)"
| unrecorded: "pl_phase s w = Sent i h \<Longrightarrow>
      sign_step s (set_phase w Finished (mark_failed (\<lambda>j. j_id j = i) t msg (pl_db s)) s)"
| crashed: "sign_step s (set_phase w Finished (pl_db s) s)"

inductive_cases sign_stepE: "sign_step s s'"

inductive sign_reach :: "database \<Rightarrow> pipeline \<Rightarrow> bool" for d0 where
  start: "sign_reach d0 \<lparr> pl_db = d0, pl_phase = (\<lambda>_. Ready), pl_sent = [] \<rparr>"
| step: "sign_reach d0 s \<Longrightarrow> sign_step s s' \<Longrightarrow> sign_reach d0 s'"

definition is_queued :: "int \<Rightarrow> database \<Rightarrow> bool" where
  "is_queued i d \<longleftrightarrow> (\<exists>j \<in> set (db_jobs d). j_id j = i \<and> j_status j = QUEUED)"

definition holds_claim :: "phase \<Rightarrow> int \<Rightarrow> bool" where
  "holds_claim p i \<longleftrightarrow> (case p of Claimed k x \<Rightarrow> k = i | _ \<Rightarrow> False)"

definition once :: "pipeline \<Rightarrow> bool" where
  "once s \<longleftrightarrow> distinct (pl_sent s) \<and>
     (\<forall>i w. holds_claim (pl_phase s w) i \<longrightarrow> i \<notin> set (pl_sent s) \<and> \<not> is_queued i (pl_db s) \<and>
        (\<forall>w'. holds_claim (pl_phase s w') i \<longrightarrow> w' = w)) \<and>
     (\<forall>i \<in> set (pl_sent s). \<not> is_queued i (pl_db s))"

lemma holds_claim_simps [simp]:
  "\<not> holds_claim Ready i" "\<not> holds_claim (Merged k x) i" "\<not> holds_claim (Sent k h) i" "\<not> holds_claim Finished i"
  "holds_claim (Claimed k x) i \<longleftrightarrow> k = i"
  by (simp_all add: holds_claim_def)

lemma queued_update:
  assumes "is_queued i (update_jobs P f d)" and "\<And>j. j_id (f j) = j_id j" and "\<And>j. j_status (f j) = QUEUED \<Longrightarrow> j_status j = QUEUED"
  shows "is_queued i d"
proof -
  from assms(1) obtain j where "j \<in> set (db_jobs d)" "j_id (if P j then f j else j) = i" "j_status (if P j then f j else j) = QUEUED"
    unfolding is_queued_def by (auto simp only: update_jobs_tables set_update_where image_iff)
  then show ?thesis using assms(2,3) unfolding is_queued_def by (metis (full_types))
qed

lemma queued_merge:
  assumes "merge_entry t k mk e d = (r, d1)" and "is_queued i d1"
  shows "is_queued i d"
  using merge_effect [OF assms(1)]
proof
  assume "d1 = d"
  then show ?thesis using assms(2) by simp
next
  assume "d1 = update_jobs (queued_job k) (add_entry t mk e) d"
  then show ?thesis using assms(2) by (metis queued_update add_entry_sel(1,2))
qed

lemma queued_claim: "is_queued i (snd (claim_queued t k d)) \<Longrightarrow> is_queued i d"
  unfolding claim_queued_def claim_where_def snd_conv by (erule queued_update) simp_all

lemma queued_failed: "is_queued i (mark_failed P t m d) \<Longrightarrow> is_queued i d"
  unfolding mark_failed_def by (erule queued_update) simp_all

lemma queued_recorded: "is_queued i (record_hash t k h d) \<Longrightarrow> is_queued i d"
  unfolding record_hash_def by (erule queued_update) simp_all

lemma claimed_not_queued: "\<not> is_queued k (snd (claim_queued t k d))"
  unfolding is_queued_def claim_queued_def claim_where_def snd_conv update_jobs_tables
  by (auto simp only: set_update_where image_iff set_status_sel if_split_asm tx_status.distinct split: if_splits)

lemma claim_needs_queued: "claim_queued t k d = (True, d1) \<Longrightarrow> is_queued k d"
  unfolding is_queued_def claim_queued_def claim_where_def by (simp add: returning_empty_iff)

lemma set_phase_sel [simp]:
  "pl_db (set_phase w p d s) = d" "pl_phase (set_phase w p d s) = (pl_phase s)(w := p)" "pl_sent (set_phase w p d s) = pl_sent s"
  by (simp_all add: set_phase_def)

text \<open>A step that hands out no claim, broadcasts nothing and queues nothing keeps the invariant.\<close>

lemma once_quiet:
  assumes "once s" and "\<not> (\<exists>i. holds_claim p i)" and "\<And>i. is_queued i d \<Longrightarrow> is_queued i (pl_db s)"
  shows "once (set_phase w p d s)"
  using assms unfolding once_def by (simp split: if_splits) blast

lemma once_step:
  assumes "sign_step s s'" and "once s"
  shows "once s'"
  using assms
proof (induction rule: sign_step.induct)
  case (merge s w t i mk e x d)
  show ?case by (rule once_quiet [OF merge(4)]) (simp, rule queued_merge [OF merge(2)])
next
  case (wait s w t i mk e r d)
  show ?case by (rule once_quiet [OF wait(3)]) (simp, rule queued_merge [OF wait(2)])
next
  case (claim s w i x t d)
  have d: "d = snd (claim_queued t i (pl_db s))" using claim(2) by simp
  have q: "is_queued i (pl_db s)" using claim_needs_queued [OF claim(2)] .
  have nq: "\<not> is_queued i d" unfolding d by (rule claimed_not_queued)
  have mono: "is_queued k d \<Longrightarrow> is_queued k (pl_db s)" for k unfolding d by (rule queued_claim)
  show ?case using claim(3) q nq mono unfolding once_def by (simp split: if_splits) blast
next
  case (back_off s w i x t d)
  have "d = snd (claim_queued t i (pl_db s))" using back_off(2) by simp
  then have "is_queued k d \<Longrightarrow> is_queued k (pl_db s)" for k using queued_claim by metis
  then show ?case by (intro once_quiet [OF back_off(3)]) simp_all
next
  case (broadcast s w i x h)
  then have "holds_claim (pl_phase s w) i" by simp
  then show ?case using broadcast(2) unfolding once_def by (simp split: if_splits) blast
next
  case (rejected s w i x t msg)
  show ?case by (rule once_quiet [OF rejected(2)]) (simp, rule queued_failed)
next
  case (recorded s w i h t)
  show ?case by (rule once_quiet [OF recorded(2)]) (simp, rule queued_recorded)
next
  case (unrecorded s w i h t msg)
  show ?case by (rule once_quiet [OF unrecorded(2)]) (simp, rule queued_failed)
next
  case (crashed s w)
  show ?case by (rule once_quiet [OF crashed]) simp_all
qed

lemma once_reach: "sign_reach d0 s \<Longrightarrow> once s"
proof (induction rule: sign_reach.induct)
  case start
  then show ?case by (simp add: once_def)
next
  case (step s s')
  show ?case by (rule once_step [OF step(2,3)])
qed

subsection \<open>Finished jobs stay finished\<close>

definition final :: "tx_job \<Rightarrow> bool" where
  "final j \<longleftrightarrow> j_status j = CONFIRMED \<or> j_status j = FAILED"

definition final_kept :: "tx_job \<Rightarrow> tx_job \<Rightarrow> bool" where
  "final_kept j j' \<longleftrightarrow> j_id j' = j_id j \<and> (final j \<longrightarrow> j' = j)"

definition only_row :: "int \<Rightarrow> tx_job \<Rightarrow> tx_job \<Rightarrow> bool" where
  "only_row i j j' \<longleftrightarrow> j_id j' = j_id j \<and> (j' \<noteq> j \<longrightarrow> j_id j = i)"

lemma final_kept_refl: "final_kept j j"
  by (simp add: final_kept_def)

lemma final_kept_trans: "final_kept a b \<Longrightarrow> final_kept b c \<Longrightarrow> final_kept a c"
  unfolding final_kept_def by metis

lemma only_row_refl: "only_row i j j"
  by (simp add: only_row_def)

lemma only_row_trans: "only_row i a b \<Longrightarrow> only_row i b c \<Longrightarrow> only_row i a c"
  unfolding only_row_def by metis

lemma rows_rel_mono: "rows_rel P d d' \<Longrightarrow> (\<And>n. n < length (db_jobs d) \<Longrightarrow> P (db_jobs d ! n) (db_jobs d' ! n) \<Longrightarrow> Q (db_jobs d ! n) (db_jobs d' ! n)) \<Longrightarrow> rows_rel Q d d'"
  by (simp add: rows_rel_def list_all2_conv_all_nth)

lemma only_rows_trans: "rows_rel (only_row i) a b \<Longrightarrow> rows_rel (only_row i) b c \<Longrightarrow> rows_rel (only_row i) a c"
  by (rule rows_rel_trans [of "only_row i"]) (rule only_row_trans)

lemma finals_trans: "rows_rel final_kept a b \<Longrightarrow> rows_rel final_kept b c \<Longrightarrow> rows_rel final_kept a c"
  by (rule rows_rel_trans [of final_kept]) (rule final_kept_trans)

text \<open>Updates by the identifier of a job, and updates guarded by a status that is not final.\<close>

lemma only_row_update:
  assumes "\<And>j. j_id (f j) = j_id j" and "\<And>j. P j \<Longrightarrow> j_id j = i"
  shows "rows_rel (only_row i) d (update_jobs P f d)"
  by (rule rows_rel_update) (simp_all add: only_row_def assms)

lemma final_kept_update:
  assumes "\<And>j. j_id (f j) = j_id j" and "\<And>j. P j \<Longrightarrow> \<not> final j"
  shows "rows_rel final_kept d (update_jobs P f d)"
  by (rule rows_rel_update) (simp_all add: final_kept_def assms)

lemma only_row_final:
  assumes "rows_rel (only_row i) d d'" and "\<And>j. j \<in> set (db_jobs d) \<Longrightarrow> j_id j = i \<Longrightarrow> \<not> final j"
  shows "rows_rel final_kept d d'"
  by (rule rows_rel_mono [OF assms(1)]) (metis assms(2) final_kept_def nth_mem only_row_def)

lemma update_fills_jobs [simp]: "db_jobs (update_fills P f d) = db_jobs d"
  by (simp add: update_fills_def)

lemma delete_fills_jobs [simp]: "db_jobs (delete_fills net h d) = db_jobs d"
  by (simp add: delete_fills_def)

lemma release_order_jobs [simp]: "db_jobs (release_order data a k n d) = db_jobs d"
  by (simp add: release_order_def)

lemma only_row_same_jobs: "rows_rel (only_row i) d d1 \<Longrightarrow> db_jobs d2 = db_jobs d1 \<Longrightarrow> rows_rel (only_row i) d d2"
  by (simp add: rows_rel_def)

lemma poll_rows: "rows_rel (only_row (j_id job)) d (snd (resubmit_poll R job h i k d))"
proof (induction k arbitrary: i)
  case 0
  then show ?case by (simp add: rows_rel_refl only_row_refl)
next
  case (Suc k)
  have c: "rows_rel (only_row (j_id job)) d (mark_confirmed (\<lambda>j. j_id j = j_id job) t d)" for t
    unfolding mark_confirmed_def by (rule only_row_update) simp_all
  have f: "rows_rel (only_row (j_id job)) d (mark_failed (\<lambda>j. j_id j = j_id job) t m d)" for t m
    unfolding mark_failed_def by (rule only_row_update) simp_all
  have r: "rows_rel (only_row (j_id job)) d d" by (simp add: rows_rel_refl only_row_refl)
  show ?case
    using Suc c f r only_row_same_jobs [OF c]
    by (simp add: Let_def split: sum.split poll_status.split)
qed

lemma resubmit_rows:
  assumes "job_ids d"
  shows "rows_rel final_kept d (snd (resubmitJob R job d))"
proof -
  let ?i = "j_id job"
  obtain won d1 where cl: "claim_where (resubmit_claim ?i) (rc_now R) d = (won, d1)" by force
  have d1: "d1 = update_jobs (resubmit_claim ?i) (set_status SUBMITTED (rc_now R)) d"
    and won: "won \<longleftrightarrow> returning (resubmit_claim ?i) (db_jobs d) \<noteq> []" using cl by (simp_all add: claim_where_def)
  have refl: "rows_rel final_kept d d" by (simp add: rows_rel_refl final_kept_refl)
  have "rows_rel final_kept d d1" unfolding d1
    by (rule final_kept_update) (auto simp: resubmit_claim_def final_def)
  moreover have "rows_rel final_kept d (snd (resubmitJob R job d))" if won
  proof -
    from that won obtain j0 where "j0 \<in> set (db_jobs d)" "resubmit_claim ?i j0" by (auto simp: returning_empty_iff)
    then have nf: "\<not> final j" if "j \<in> set (db_jobs d)" "j_id j = ?i" for j
      using job_unique [OF assms, of j j0] that by (auto simp: resubmit_claim_def final_def)
    have o1: "rows_rel (only_row ?i) d d1" unfolding d1 by (rule only_row_update) (simp_all add: resubmit_claim_def)
    have h: "rows_rel (only_row ?i) d (record_hash t ?i x d1)" for t x
      unfolding record_hash_def by (rule only_rows_trans [OF o1 only_row_update]) simp_all
    have p: "rows_rel (only_row ?i) d (snd (resubmit_poll R job x 0 10 (record_hash t ?i x d1)))" for t x
      by (rule only_rows_trans [OF h poll_rows])
    have f: "rows_rel (only_row ?i) d (mark_failed (\<lambda>j. j_id j = ?i) t m d2)" if "rows_rel (only_row ?i) d d2" for t m d2
      unfolding mark_failed_def by (rule only_rows_trans [OF that only_row_update]) simp_all
    have r: "rows_rel (only_row ?i) d d" by (simp add: rows_rel_refl only_row_refl)
    have "rows_rel (only_row ?i) d (snd (resubmitJob R job d))"
      using r o1 p f \<open>won\<close> by (simp add: resubmitJob_def Let_def cl case_prod_beta split: sum.split)
    then show ?thesis by (rule only_row_final) (rule nf)
  qed
  ultimately show ?thesis
    using refl by (cases won) (simp_all add: resubmitJob_def Let_def cl)
qed

lemma reconcile_rows:
  assumes "job_ids d"
  shows "rows_rel final_kept d (snd (reconcileSubmitted R job d))"
proof -
  have r: "rows_rel final_kept d d" by (simp add: rows_rel_refl final_kept_refl)
  have c: "rows_rel final_kept d (mark_confirmed (\<lambda>j. j_id j = i \<and> j_status j = SUBMITTED) t d)" for t i
    unfolding mark_confirmed_def by (rule final_kept_update) (simp_all add: final_def)
  have f: "rows_rel final_kept d (mark_failed (\<lambda>j. j_id j = i \<and> j_status j = SUBMITTED) t m d)" for t m i
    unfolding mark_failed_def by (rule final_kept_update) (simp_all add: final_def)
  have u: "rows_rel final_kept d (update_fills P g (mark_confirmed (\<lambda>j. j_id j = i \<and> j_status j = SUBMITTED) t d))" for P g t i
    using c by (simp add: rows_rel_def)
  show ?thesis
    using r c f u resubmit_rows [OF assms, of R job]
    by (simp add: reconcileSubmitted_def Let_def split: sum.split poll_status.split)
qed

lemma undo_fill_jobs: "db_jobs (snd (undo_fill fails job d)) = db_jobs d"
  by (simp add: undo_fill_def Let_def split: option.split)

lemma expire_rows: "rows_rel final_kept d (snd (expire_job R job d))"
proof -
  obtain ok d1 where u: "undo_fill (rc_fail R ''expire'' (j_id job)) job d = (ok, d1)" by force
  have jobs: "db_jobs d1 = db_jobs d" using undo_fill_jobs [of "rc_fail R ''expire'' (j_id job)" job d] u by simp
  have r: "rows_rel final_kept d d" "rows_rel final_kept d d1"
    using jobs by (simp_all add: rows_rel_refl rows_rel_jobs final_kept_refl)
  have f: "rows_rel final_kept d (mark_failed (\<lambda>j. j_id j = i \<and> j_status j = QUEUED) t m d1)" for t m i
    unfolding mark_failed_def by (rule finals_trans [OF r(2) final_kept_update]) (simp_all add: final_def)
  show ?thesis using r f by (cases ok) (simp_all add: expire_job_def Let_def u)
qed

lemma rows_ids: "rows_rel final_kept d d' \<Longrightarrow> job_ids d \<Longrightarrow> job_ids d'"
  unfolding job_ids_def using rows_rel_ids [of final_kept d d'] by (simp add: final_kept_def)

lemma each_job_rows:
  assumes "\<And>j d. job_ids d \<Longrightarrow> rows_rel final_kept d (snd (f j d))" and "job_ids d"
  shows "rows_rel final_kept d (snd (each_job f js d))"
  using assms(2)
proof (induction js arbitrary: d)
  case Nil
  then show ?case by (simp add: rows_rel_refl final_kept_refl)
next
  case (Cons j js)
  obtain ok d1 where fj: "f j d = (ok, d1)" by force
  have 1: "rows_rel final_kept d d1" using assms(1) [OF Cons.prems, of j] fj by simp
  have "rows_rel final_kept d1 (snd (each_job f js d1))" by (rule Cons.IH [OF rows_ids [OF 1 Cons.prems]])
  from finals_trans [OF 1 this] 1 show ?case by (cases ok) (simp_all add: fj)
qed

lemma recon_tick_rows:
  assumes "job_ids d"
  shows "rows_rel final_kept d (snd (recon_tick R d))"
proof -
  define q1 where "q1 = each_job (reconcileSubmitted R) (take 50 (settle_rows (\<lambda>j. j_status j = SUBMITTED \<and>
         j_updatedAt j < rc_now R - SUBMITTED_CHECK_AFTER_SECS * 1000) d)) d"
  have 1: "rows_rel final_kept d (snd q1)" unfolding q1_def by (rule each_job_rows [OF reconcile_rows assms])
  have i1: "job_ids (snd q1)" by (rule rows_ids [OF 1 assms])
  define q2 where "q2 = each_job (resubmitJob R) (take 20 (settle_rows (\<lambda>j. j_status j = QUEUED \<and>
           has_entry j ''makerSignedEntry'' \<and> has_entry j ''takerSignedEntry'' \<and> j_updatedAt j < rc_now R - 30000) (snd q1))) (snd q1)"
  have 2: "rows_rel final_kept (snd q1) (snd q2)" unfolding q2_def by (rule each_job_rows [OF resubmit_rows i1])
  have i2: "job_ids (snd q2)" by (rule rows_ids [OF 2 i1])
  have 3: "rows_rel final_kept (snd q2) (snd (expireStaleQueued R (snd q2)))"
    using each_job_rows [OF expire_rows i2] by (simp add: expireStaleQueued_def rows_rel_refl final_kept_refl)
  have 12: "rows_rel final_kept d (snd q2)" by (rule finals_trans [OF 1 2])
  have 123: "rows_rel final_kept d (snd (expireStaleQueued R (snd q2)))" by (rule finals_trans [OF 12 3])
  show ?thesis
    using 1 12 123 unfolding recon_tick_def q1_def [symmetric]
    by (cases q1; cases "fst q1") (auto simp: q2_def case_prod_beta rows_rel_refl final_kept_refl split: bool.split)
qed

subsection \<open>An expired settlement gives the book back\<close>

lemma simulate_fields:
  assumes "simulateSettleFill R cfg f h secret = Some ps"
  shows "ps_makerAddress ps = owner (maker f) \<and> ps_takerAddress ps = owner (taker f) \<and> ps_fillSize ps = show_int (fillSize f)"
proof -
  obtain tx sim where sim: "build_call R cfg secret ''settle_fill'' [matchedFillToScVal f] = Some tx"
      "simulateTransaction R tx = Some sim"
    using assms unfolding simulateSettleFill_def bind_eq_Some_conv by blast
  then obtain d where "sim = SimOk d"
    using assms by (cases sim) (auto simp: simulateSettleFill_def)
  then show ?thesis
    using assms sim by (auto simp: simulateSettleFill_def bind_eq_Some_conv Let_def)
qed

lemma show_int_nonempty [simp]: "show_int n \<noteq> []"
  using signed_digits_show_int [of n] by auto

lemma match_hash_nonempty [simp]: "pseudoTxHash a b n \<noteq> []"
  by (simp add: pseudoTxHash_def)

lemma payload_fields [simp]:
  "text_field (job_payload ps m) ''pendingTxHash'' = Some (match_hash m)"
  "text_field (job_payload ps m) ''makerNonce'' = Some (show_int (nonce (maker m)))"
  "text_field (job_payload ps m) ''takerNonce'' = Some (show_int (nonce (taker m)))"
  "text_field (job_payload ps m) ''makerSignedEntry'' = None"
  "ps_makerAddress ps \<noteq> [] \<Longrightarrow> text_field (job_payload ps m) ''makerAddress'' = Some (ps_makerAddress ps)"
  "ps_takerAddress ps \<noteq> [] \<Longrightarrow> text_field (job_payload ps m) ''takerAddress'' = Some (ps_takerAddress ps)"
  "ps_fillSize ps \<noteq> [] \<Longrightarrow> text_field (job_payload ps m) ''fillSize'' = Some (ps_fillSize ps)"
  by (simp_all add: text_field_def job_payload_def map_get_def)

lemma nonce_matches_show [simp]:
  "text_field data k = Some (show_int n) \<Longrightarrow> nonce_matches data k n' \<longleftrightarrow> n' = n"
  by (auto simp: nonce_matches_def signed_digits_show_int)

text \<open>The row that owner and nonce name is the row that the identifier names.\<close>

lemma release_is_oid:
  assumes "distinct (map (\<lambda>r. (owner r, nonce r)) t)" and "r0 \<in> set t" and "distinct (map oid t)" and "r \<in> set t"
  shows "(owner r = owner r0 \<and> nonce r = nonce r0) \<longleftrightarrow> oid r = oid r0"
proof
  assume "owner r = owner r0 \<and> nonce r = nonce r0"
  then have "r = r0" using assms(1,2,4) by (auto simp: distinct_map dest: inj_onD)
  then show "oid r = oid r0" by simp
next
  assume "oid r = oid r0"
  then have "r = r0" using assms(2,3,4) by (auto simp: distinct_map dest: inj_onD)
  then show "owner r = owner r0 \<and> nonce r = nonce r0" by simp
qed

definition recon_ok :: "recon_env \<Rightarrow> bool" where
  "recon_ok R \<longleftrightarrow> (\<forall>op i k. \<not> rc_fail R op i k)"

definition job_for :: "matcher_env \<Rightarrow> pending_settlement \<Rightarrow> match_result \<Rightarrow> tx_job \<Rightarrow> bool" where
  "job_for E ps m j \<longleftrightarrow> j_unsignedXdr j = Some (job_payload ps m) \<and> j_network j = me_network E \<and> j_status j = QUEUED"

lemma expire_undoes:
  assumes R: "recon_ok R" and E: "no_faults E" and ok: "orders_ok (db_orders d)" and fresh: "fresh_hash E (match_hash m) d"
    and rows: "rm \<in> set (db_orders d)" "rt \<in> set (db_orders d)" "maker m = mapOrderRow rm" "taker m = mapOrderRow rt" "oid rm \<noteq> oid rt"
    and key: "distinct (map (\<lambda>r. (owner r, nonce r)) (db_orders d))" and ne: "owner rm \<noteq> []" "owner rt \<noteq> []"
    and job: "job_for E ps m job" and ps: "ps_makerAddress ps = owner rm" "ps_takerAddress ps = owner rt" "ps_fillSize ps = show_int (fillSize m)"
    and d1: "db_fills d1 = db_fills d @ [fill_of (me_network E) (me_now E) m]" "db_orders d1 = fill_row_orders m (db_orders d)"
  shows "\<exists>d2. expire_job R job d1 = (True, d2) \<and> db_orders d2 = db_orders d \<and> db_fills d2 = db_fills d"
proof -
  let ?data = "job_payload ps m" and ?n = "fillSize m"
  have pl: "payload job = ?data" using job by (simp add: job_for_def payload_def)
  define e1 where "e1 = delete_fills (me_network E) (match_hash m) d1"
  define e2 where "e2 = release_order ?data ''makerAddress'' ''makerNonce'' ?n e1"
  define e3 where "e3 = release_order ?data ''takerAddress'' ''takerNonce'' ?n e2"
  have fs: "job_fillSize ?data = Some ?n" using ps by (simp add: job_fillSize_def signed_digits_show_int)
  have parties: "has_parties ?data" using ps ne by (simp add: has_parties_def)
  have undo: "undo_fill (rc_fail R ''expire'' (j_id job)) job d1 = (True, e3)"
    using R parties fs ps job
    by (simp add: undo_fill_def pl Let_def recon_ok_def job_for_def nonce_readable_def signed_digits_show_int e1_def e2_def e3_def)
  have same: "(Some (owner r) = text_field ?data ''makerAddress'' \<and> nonce_matches ?data ''makerNonce'' (nonce r)) \<longleftrightarrow> oid r = oid rm"
      "(Some (owner r) = text_field ?data ''takerAddress'' \<and> nonce_matches ?data ''takerNonce'' (nonce r)) \<longleftrightarrow> oid r = oid rt"
    if r: "r \<in> set (update_where P (sub_filled k) (fill_row_orders m (db_orders d)))" for r P k
  proof -
    have dist: "distinct (map oid (db_orders d))" using ok by (simp add: orders_ok_def)
    obtain r' where r': "r' \<in> set (db_orders d)" "owner r = owner r'" "nonce r = nonce r'" "oid r = oid r'"
      using r by (auto simp: fill_row_orders_def set_update_where split: if_splits)
    show "(Some (owner r) = text_field ?data ''makerAddress'' \<and> nonce_matches ?data ''makerNonce'' (nonce r)) \<longleftrightarrow> oid r = oid rm"
      using release_is_oid [OF key rows(1) dist r'(1)] r' ps ne rows(3) by auto
    show "(Some (owner r) = text_field ?data ''takerAddress'' \<and> nonce_matches ?data ''takerNonce'' (nonce r)) \<longleftrightarrow> oid r = oid rt"
      using release_is_oid [OF key rows(2) dist r'(1)] r' ps ne rows(4) by auto
  qed
  have o0: "db_orders e1 = fill_row_orders m (db_orders d)" by (simp add: e1_def d1(2))
  have "update_where (\<lambda>r. Some (owner r) = text_field ?data ''makerAddress'' \<and> nonce_matches ?data ''makerNonce'' (nonce r))
      (sub_filled ?n) (fill_row_orders m (db_orders d)) = update_where (\<lambda>r. oid r = oid rm) (sub_filled ?n) (fill_row_orders m (db_orders d))"
    by (rule update_where_cong) (rule same(1) [of _ "\<lambda>_. False" ?n], simp add: update_where_idle)
  then have o1: "db_orders e2 = update_where (\<lambda>r. oid r = oid rm) (sub_filled ?n) (fill_row_orders m (db_orders d))"
    unfolding e2_def release_order_def by (simp add: o0)
  have "update_where (\<lambda>r. Some (owner r) = text_field ?data ''takerAddress'' \<and> nonce_matches ?data ''takerNonce'' (nonce r))
      (sub_filled ?n) (db_orders e2) = update_where (\<lambda>r. oid r = oid rt) (sub_filled ?n) (db_orders e2)"
    unfolding o1 by (rule update_where_cong) (rule same(2))
  then have o2: "db_orders e3 = update_where (\<lambda>r. oid r = oid rt) (sub_filled ?n) (db_orders e2)"
    unfolding e3_def release_order_def by simp
  have roll: "rollbackFill E m d1 = decrement_filled (oid rt) ?n (decrement_filled (oid rm) ?n e1)"
    using E rows by (simp add: rollbackFill_def no_faults_def e1_def)
  have "db_orders e3 = db_orders (rollbackFill E m d1)"
    unfolding roll o2 o1 using d1(2) by (simp add: decrement_filled_def e1_def delete_fills_def)
  moreover have "db_fills e3 = db_fills (rollbackFill E m d1)"
    by (simp add: roll e3_def e2_def release_order_def)
  ultimately have "db_orders e3 = db_orders d \<and> db_fills e3 = db_fills d"
    using rollback_undoes [OF E fresh ok d1] rows by simp
  moreover have "expire_job R job d1 = (True, mark_failed (\<lambda>j. j_id j = j_id job \<and> j_status j = QUEUED) (rc_now R) ''auth collection timeout'' e3)"
    using R undo by (simp add: expire_job_def pl Let_def recon_ok_def)
  ultimately show ?thesis by (simp add: mark_failed_def)
qed

lemma next_job_id_fresh: "j \<in> set js \<Longrightarrow> j_id j < next_job_id js"
proof -
  have "\<And>a. a \<le> foldl (\<lambda>a j. max a (j_id j)) a js \<and> (\<forall>j \<in> set js. j_id j \<le> foldl (\<lambda>a j. max a (j_id j)) a js)"
  proof (induction js)
    case Nil
    then show ?case by simp
  next
    case (Cons x xs)
    let ?r = "foldl (\<lambda>a j. max a (j_id j)) (max a (j_id x)) xs"
    have "max a (j_id x) \<le> ?r" "\<forall>j \<in> set xs. j_id j \<le> ?r" using Cons [of "max a (j_id x)"] by blast+
    then show ?case by simp
  qed
  then show "j \<in> set js \<Longrightarrow> ?thesis" unfolding next_job_id_def by fastforce
qed

text \<open>The job that an unsigned match leaves behind: a new row, last, with a fresh number.\<close>

lemma fill_and_settle_row:
  assumes "no_faults E" and "fresh_hash E (match_hash m) d" and "oid (maker m) \<noteq> oid (taker m)"
    and "has_room (oid (maker m)) (fillSize m) (db_orders d)" and "has_room (oid (taker m)) (fillSize m) (db_orders d)"
    and "\<not> falsy_str (me_secret E)" and "falsy_str (signature (maker m)) \<or> falsy_str (signature (taker m))"
    and "simulateSettleFill (me_rpc E) (me_cfg E) m (match_hash m) (the (me_secret E)) = Some ps"
    and "\<forall>j \<in> set (db_jobs d). \<not> same_job (me_network E) settle_kind (match_hash m) j"
  shows "\<exists>d1. fill_and_settle E m d = (True, d1) \<and> db_orders d1 = fill_row_orders m (db_orders d) \<and>
     db_fills d1 = db_fills d @ [fill_of (me_network E) (me_now E) m] \<and> (\<exists>job. db_jobs d1 = db_jobs d @ [job] \<and> job_for E ps m job \<and> j_id job = next_job_id (db_jobs d) \<and> j_kind job = settle_kind)"
proof -
  obtain d0 where p: "persistFill E m d = (True, d0)" "db_orders d0 = fill_row_orders m (db_orders d)"
      "db_fills d0 = db_fills d @ [fill_of (me_network E) (me_now E) m]" "db_jobs d0 = db_jobs d"
    using persist_records [OF assms(1-5)] by (simp add: update_market_def)
  define j where "j = new_job (me_network E) (me_now E) (match_hash m) (job_payload ps m) QUEUED None"
  have "executeSettlement E m d0 = (Some True, d0\<lparr> db_jobs := db_jobs d @ [j\<lparr> j_id := next_job_id (db_jobs d) \<rparr>] \<rparr>)"
    using assms(1,6-9) p(4)
    by (auto simp: executeSettlement_def no_faults_def upsert_job_def new_job_def j_def Let_def)
  then have "fill_and_settle E m d = (True, d0\<lparr> db_jobs := db_jobs d @ [j\<lparr> j_id := next_job_id (db_jobs d) \<rparr>] \<rparr>)"
    by (simp add: fill_and_settle_def p)
  moreover have "job_for E ps m (j\<lparr> j_id := next_job_id (db_jobs d) \<rparr>)" "j_kind j = settle_kind" by (simp_all add: job_for_def j_def new_job_def)
  ultimately show ?thesis using p by simp
qed

lemma fill_and_settle_queued:
  assumes "no_faults E" and "fresh_hash E (match_hash m) d" and "oid (maker m) \<noteq> oid (taker m)"
    and "has_room (oid (maker m)) (fillSize m) (db_orders d)" and "has_room (oid (taker m)) (fillSize m) (db_orders d)"
    and "\<not> falsy_str (me_secret E)" and "falsy_str (signature (maker m)) \<or> falsy_str (signature (taker m))"
    and "simulateSettleFill (me_rpc E) (me_cfg E) m (match_hash m) (the (me_secret E)) = Some ps"
    and "\<forall>j \<in> set (db_jobs d). \<not> same_job (me_network E) settle_kind (match_hash m) j"
  shows "\<exists>d1. fill_and_settle E m d = (True, d1) \<and> db_orders d1 = fill_row_orders m (db_orders d) \<and>
     db_fills d1 = db_fills d @ [fill_of (me_network E) (me_now E) m] \<and> db_jobs d1 \<noteq> [] \<and> job_for E ps m (last (db_jobs d1))"
  using fill_and_settle_row [OF assms] by fastforce

lemma POST_sign_effect:
  assumes "POST_sign G req ident (bs, d) = (resp, bs1, d1)" and "job_ids d"
  shows "db_orders d1 = db_orders d \<and> db_fills d1 = db_fills d \<and>
     (d1 = d \<or> (\<exists>b addr i. req_body req = Some b \<and> js_field b ''address'' = Some (JStr addr) \<and> ident = Some i \<and>
        list_all2 (own_change i addr) (db_jobs d) (db_jobs d1)))"
proof (cases "d1 = d")
  case True
  then show ?thesis by simp
next
  case False
  define f where "f = (\<lambda>k. case req_body req of None \<Rightarrow> None | Some b \<Rightarrow> js_field b k)"
  obtain addr i job e where a: "json_str (f ''address'') = Some addr" "ident = Some i" "load_job i d = Some job"
      "sign_loaded G i job addr e d = (resp, d1)"
    using assms(1) False unfolding POST_sign_def Let_def f_def [symmetric]
    by (auto split: if_splits option.splits prod.splits)
  from a(1) obtain b where "req_body req = Some b" "js_field b ''address'' = Some (JStr addr)"
    by (auto simp: f_def json_str_def split: option.splits json.splits)
  then show ?thesis using sign_loaded_rows [OF a(4,3) assms(2)] a(2) by (auto simp: rows_rel_def)
qed

subsection \<open>Properties\<close>

text \<open>
  C28. A sign request touches nothing but its own entry: orders and fills stay; at most the job of the
  path changes, and only while it is queued; of its payload only the signed entry of the role that the
  address named in the request has in that job may change. The job keeps its identity, leaves the queue only
  with both entries present, to submitted or failed, and gets a hash only as submitted and an error
  only as failed. Nothing in the request proves that the address is the sender's.
\<close>

theorem sign_request_changes_own_entry:
  assumes "POST_sign G req ident (bs, d) = (resp, bs1, d1)" and "job_ids d"
  shows "db_orders d1 = db_orders d \<and> db_fills d1 = db_fills d \<and>
     (d1 = d \<or> (\<exists>b addr i. req_body req = Some b \<and> js_field b ''address'' = Some (JStr addr) \<and> ident = Some i \<and>
        list_all2 (own_change i addr) (db_jobs d) (db_jobs d1)))"
  by (rule POST_sign_effect [OF assms])

text \<open>
  C29. No double submission: however many sign requests run concurrently and wherever they interleave
  or crash, no job is broadcast twice by them.
\<close>

theorem sign_broadcasts_once:
  assumes "sign_reach d0 s"
  shows "distinct (pl_sent s)"
  using once_reach [OF assms] by (simp add: once_def)

text \<open>
  C36. Confirmed and failed jobs are final for the reconciler: whatever the chain answers and whichever
  statements fail, a tick leaves their rows untouched.
\<close>

theorem reconciler_keeps_finished_jobs:
  assumes "job_ids d" and "j \<in> set (db_jobs d)" and "final j"
  shows "j \<in> set (db_jobs (snd (recon_tick R d)))"
proof -
  have "list_all2 final_kept (db_jobs d) (db_jobs (snd (recon_tick R d)))"
    using recon_tick_rows [OF assms(1)] by (simp add: rows_rel_def)
  moreover obtain n where "n < length (db_jobs d)" "j = db_jobs d ! n" using assms(2) by (auto simp: in_set_conv_nth)
  ultimately show ?thesis using assms(3) unfolding list_all2_conv_all_nth final_kept_def by (metis nth_mem)
qed

text \<open>
  C37. An expired settlement gives the book back: when a match of two stored orders is recorded and
  queued for signatures, and the reconciler expires that job because the signatures never came, the
  orders and the fills are what they were before the match.
\<close>

theorem expired_settlement_returns_book:
  assumes "no_faults E" and "recon_ok R" and "orders_ok (db_orders d)"
    and "distinct (map (\<lambda>r. (owner r, nonce r)) (db_orders d))"
    and "rm \<in> set (db_orders d)" and "rt \<in> set (db_orders d)" and "oid rm \<noteq> oid rt" and "owner rm \<noteq> []" and "owner rt \<noteq> []"
    and "maker m = mapOrderRow rm" and "taker m = mapOrderRow rt"
    and "has_room (oid rm) (fillSize m) (db_orders d)" and "has_room (oid rt) (fillSize m) (db_orders d)"
    and "fresh_hash E (match_hash m) d" and "\<forall>j \<in> set (db_jobs d). \<not> same_job (me_network E) settle_kind (match_hash m) j"
    and "\<not> falsy_str (me_secret E)" and "falsy_str (signature rm) \<or> falsy_str (signature rt)"
    and "simulateSettleFill (me_rpc E) (me_cfg E) m (match_hash m) (the (me_secret E)) = Some ps"
  shows "\<exists>d1 d2. fill_and_settle E m d = (True, d1) \<and> db_orders d1 = fill_row_orders m (db_orders d) \<and>
     expire_job R (last (db_jobs d1)) d1 = (True, d2) \<and> db_orders d2 = db_orders d \<and> db_fills d2 = db_fills d"
proof -
  obtain d1 where d1: "fill_and_settle E m d = (True, d1)" "db_orders d1 = fill_row_orders m (db_orders d)"
      "db_fills d1 = db_fills d @ [fill_of (me_network E) (me_now E) m]" "job_for E ps m (last (db_jobs d1))"
    using fill_and_settle_queued [OF assms(1,14)] assms by auto
  have ps: "ps_makerAddress ps = owner rm" "ps_takerAddress ps = owner rt" "ps_fillSize ps = show_int (fillSize m)"
    using simulate_fields [OF assms(18)] assms(10,11) by simp_all
  obtain d2 where "expire_job R (last (db_jobs d1)) d1 = (True, d2)" "db_orders d2 = db_orders d" "db_fills d2 = db_fills d"
    using expire_undoes [OF assms(2,1,3,14,5,6,10,11,7,4,8,9) d1(4) ps d1(3,2)] by blast
  then show ?thesis using d1 by blast
qed

text \<open>
  C39. A submitted transaction that fell off the network is never sent again: for a job that is
  submitted with a hash, the reconciler does nothing when the chain does not know the transaction,
  although its own comment announces a resubmission. The job stays submitted forever.
\<close>

theorem submitted_job_is_stuck:
  assumes "job_ids d" and "job \<in> set (db_jobs d)" and "j_status job = SUBMITTED" and "j_submittedHash job = Some h"
    and "ch_poll (rc_chain R) h 0 = Inr PollPending" and "\<not> rc_fail R ''resubmit'' (j_id job) 0"
  shows "reconcileSubmitted R job d = (True, d)"
proof -
  have "\<not> resubmit_claim (j_id job) j" if "j \<in> set (db_jobs d)" for j
    using job_unique [OF assms(1) that assms(2)] assms(3,4) by (auto simp: resubmit_claim_def)
  then have "claim_where (resubmit_claim (j_id job)) (rc_now R) d = (False, d)"
    by (simp add: claim_where_def returning_empty_iff update_jobs_def update_where_idle)
  then have "resubmitJob R job d = (True, d)" using assms(6) by (simp add: resubmitJob_def Let_def)
  then show ?thesis using assms(4,5) by (cases h) (simp_all add: reconcileSubmitted_def Let_def)
qed

text \<open>Which ticks of a run fail, were the service never to stop.\<close>

fun recon_fails :: "recon_env list \<Rightarrow> database \<Rightarrow> bool list" where
  "recon_fails [] d = []"
| "recon_fails (R # Rs) d = (case recon_tick R d of (ok, d1) \<Rightarrow> (\<not> ok) # recon_fails Rs d1)"

lemma five_in_a_row:
  "prefix (replicate 5 True) (b # fs) \<longleftrightarrow> b \<and> prefix (replicate 4 True) fs"
  "e < 5 \<Longrightarrow> prefix (replicate (5 - e) True) (b # fs) \<longleftrightarrow> b \<and> prefix (replicate (4 - e) True) fs"
proof -
  have "5 = Suc 4" "e < 5 \<Longrightarrow> 5 - e = Suc (4 - e)" by simp_all
  then show "prefix (replicate 5 True) (b # fs) \<longleftrightarrow> b \<and> prefix (replicate 4 True) fs"
    and "e < 5 \<Longrightarrow> prefix (replicate (5 - e) True) (b # fs) \<longleftrightarrow> b \<and> prefix (replicate (4 - e) True) fs"
    by (simp_all only: replicate_Suc Cons_prefix_Cons) blast+
qed

lemma recon_run_exits:
  "e < 5 \<Longrightarrow> fst (recon_run Rs e d) \<longleftrightarrow>
     \<not> (prefix (replicate (5 - e) True) (recon_fails Rs d) \<or> sublist (replicate 5 True) (recon_fails Rs d))"
proof (induction Rs arbitrary: e d)
  case Nil
  then have "replicate (5 - e) True \<noteq> []" "replicate 5 True \<noteq> []" by auto
  then show ?case by (simp add: sublist_Nil_right prefix_Nil)
next
  case (Cons R Rs)
  obtain ok d1 where t: "recon_tick R d = (ok, d1)" by (cases "recon_tick R d")
  have sub: "sublist (replicate 5 True) (b # fs) \<longleftrightarrow> prefix (replicate 5 True) (b # fs) \<or> sublist (replicate 5 True) fs" for b fs
    by (simp only: sublist_Cons_right)
  have mono: "prefix (replicate 4 True) fs \<Longrightarrow> prefix (replicate (4 - e) True) fs" for fs
    by (rule prefix_order.trans) (simp_all add: prefix_def, metis diff_le_self le_add_diff_inverse replicate_add)
  show ?case
  proof (cases ok)
    case True
    then show ?thesis using Cons.IH [of 0 d1] t Cons.prems by (auto simp: sub five_in_a_row dest: prefix_imp_sublist)
  next
    case False
    then show ?thesis using Cons.IH [of "Suc e" d1] t Cons.prems mono [of "recon_fails Rs d1"]
      by (cases "e = 4") (auto simp: sub five_in_a_row)
  qed
qed

text \<open>When the first query throws, the tick fails and changes nothing.\<close>

lemma unreachable_tick: "select_fails R 0 \<Longrightarrow> recon_tick R d = (False, d)"
  by (simp add: recon_tick_def)

lemma unreachable_run:
  "e < 5 \<Longrightarrow> 5 \<le> e + length Ds \<Longrightarrow> \<forall>R \<in> set Ds. select_fails R 0 \<Longrightarrow> recon_run (Ds @ Rs) e d = (False, d)"
  by (induction Ds arbitrary: e) (auto simp: unreachable_tick)

lemma recon_run_append:
  "e < 5 \<Longrightarrow> \<exists>e' < 5. \<forall>Qs. recon_run (Rs @ Qs) e d =
     (if fst (recon_run Rs e d) then recon_run Qs e' (snd (recon_run Rs e d)) else recon_run Rs e d)"
proof (induction Rs arbitrary: e d)
  case Nil
  then show ?case by auto
next
  case (Cons R Rs)
  obtain ok d1 where t: "recon_tick R d = (ok, d1)" by force
  show ?case
  proof (cases "ok \<or> e + 1 < 5")
    case True
    then have "(if ok then 0 else e + 1) < 5" by (cases ok) simp_all
    from Cons.IH [OF this, of d1] show ?thesis using True t by (auto split: if_splits)
  next
    case False
    then show ?thesis using t Cons.prems by (intro exI [of _ e]) simp
  qed
qed

lemma reachable_tick: "fst (recon_tick R d) \<Longrightarrow> \<not> select_fails R 0 \<and> \<not> select_fails R 1 \<and> \<not> select_fails R 2"
  unfolding recon_tick_def expireStaleQueued_def by (auto split: if_splits prod.splits bool.splits)

text \<open>
  C40. The reconciler gives up exactly when five ticks in a row fail: through any failures that a good
  tick interrupts in time it runs on, and the fifth one in a row ends it. A tick is good only when its
  three queries run; so a database that is unreachable for five ticks in a row, from wherever the run
  has come, ends the service without a change in those ticks.
\<close>

theorem reconciler_stops_after_five:
  "(fst (recon_run Rs 0 d) \<longleftrightarrow> \<not> sublist (replicate 5 True) (recon_fails Rs d)) \<and>
   (fst (recon_tick R d) \<longrightarrow> \<not> select_fails R 0 \<and> \<not> select_fails R 1 \<and> \<not> select_fails R 2) \<and>
   (length Ds = 5 \<and> (\<forall>D \<in> set Ds. select_fails D 0) \<longrightarrow>
      recon_run (Rs @ Ds @ Qs) 0 d = (False, snd (recon_run Rs 0 d)))"
proof -
  obtain e where e: "e < 5" "\<forall>Qs. recon_run (Rs @ Qs) 0 d =
      (if fst (recon_run Rs 0 d) then recon_run Qs e (snd (recon_run Rs 0 d)) else recon_run Rs 0 d)"
    using recon_run_append [of 0 Rs d] by auto
  have "recon_run (Rs @ Ds @ Qs) 0 d = (False, snd (recon_run Rs 0 d))"
    if "length Ds = 5" "\<forall>D \<in> set Ds. select_fails D 0"
    using e unreachable_run [OF e(1) _ that(2)] that(1) by (simp add: prod_eq_iff)
  then show ?thesis
    using recon_run_exits [of 0 Rs d] reachable_tick [of R d] by (auto dest: prefix_imp_sublist)
qed

text \<open>
  The claim of the reconciler is not exclusive: a job that is claimed but has no hash yet is claimed
  again, so that two reconcilers, or a reconciler and a sign request, both broadcast it.
\<close>

lemma resubmit_claim_repeats:
  assumes "j \<in> set (db_jobs d)" and "resubmit_claim i j" and "j_submittedHash j = None"
  shows "fst (claim_where (resubmit_claim i) t (snd (claim_where (resubmit_claim i) t d)))"
proof -
  have "resubmit_claim i (set_status SUBMITTED t j)" using assms(2,3) by (simp add: resubmit_claim_def)
  moreover have "set_status SUBMITTED t j \<in> set (update_where (resubmit_claim i) (set_status SUBMITTED t) (db_jobs d))"
    using assms(1,2) by (auto simp: set_update_where)
  ultimately show ?thesis by (auto simp: claim_where_def returning_empty_iff)
qed

text \<open>
  With no fee-payer secret the sign handler answers 500 after it has claimed the job, which stays
  submitted without a hash.
\<close>

lemma sign_strands_job:
  assumes "falsy_str (sg_secret G)" and "both_signed x" and "\<not> sg_fail G 2" and "claim_queued (sg_now G) i d = (True, d1)"
  shows "snd (sign_merged G i x d) = d1 \<and> is_queued i d \<and> \<not> is_queued i d1"
  using assms claimed_not_queued [of i "sg_now G" d] claim_needs_queued [OF assms(4)]
  by (simp add: sign_merged_def submit_claimed_def)

subsection \<open>Concrete runs\<close>

definition sample_chain :: chain where
  "sample_chain = \<lparr> ch_validEntry = (\<lambda>_. True), ch_fromSecret = (\<lambda>s. Inr ''GOP''), ch_envelope = (\<lambda>x. Inr \<lparr> st_op = x, st_auth = [''unsigned''], st_sorobanData = [], st_fee = 100 \<rparr>),
     ch_sequence = (\<lambda>_. Inr 8), ch_inject = (\<lambda>st es. st_auth st), ch_send = (\<lambda>_. Inr (SendOk ''hash'')), ch_poll = (\<lambda>_ _. Inr PollPending) \<rparr>"

definition sample_sign :: sign_env where
  "sample_sign = \<lparr> sg_now = 2000, sg_cfg = default_config, sg_crypto = sample_sig_crypto,
     sg_limiter = \<lparr> le_env = (\<lambda>_. None), le_incr = (\<lambda>_. None) \<rparr>, sg_chain = sample_chain, sg_secret = Some ''s'', sg_fail = (\<lambda>_. False) \<rparr>"

definition sample_recon :: recon_env where
  "sample_recon = \<lparr> rc_now = 9000000, rc_cfg = default_config, rc_chain = sample_chain, rc_secret = Some ''s'',
     rc_staleMinutes = 15, rc_fail = (\<lambda>_ _ _. False) \<rparr>"

definition sample_job :: "tx_status \<Rightarrow> string option \<Rightarrow> tx_job" where
  "sample_job st h = \<lparr> j_id = 1, j_network = ''testnet'', j_kind = settle_kind, j_payloadHash = ''h'',
     j_unsignedXdr = Some (JObj [(''makerAddress'', JStr ''GM''), (''takerAddress'', JStr ''GT''), (''assembledTxXdr'', JStr ''x'')]),
     j_status = st, j_submittedHash = h, j_lastError = None, j_createdAt = 0, j_updatedAt = 0 \<rparr>"

definition sample_jobs :: "tx_job \<Rightarrow> database" where
  "sample_jobs j = empty_db\<lparr> db_jobs := [j] \<rparr>"

definition sample_sign_body :: json where
  "sample_sign_body = JObj [(''signedAuthEntry'', JStr ''entry''), (''address'', JStr ''GT'')]"

lemma sample_job_ids: "job_ids (sample_jobs j)"
  by (simp add: job_ids_def sample_jobs_def)

text \<open>The taker signs a job that has the entry of the maker: it is broadcast.\<close>

definition half_signed_job :: tx_job where
  "half_signed_job = (sample_job QUEUED None)\<lparr> j_unsignedXdr := Some (JObj [(''makerAddress'', JStr ''GM''),
     (''takerAddress'', JStr ''GT''), (''assembledTxXdr'', JStr ''x''), (''makerSignedEntry'', JStr ''m'')]) \<rparr>"

definition half_signed_run :: "response option \<times> buckets \<times> database" where
  "half_signed_run = POST_sign sample_sign (sample_request sample_sign_body) (Some 1) ([], sample_jobs half_signed_job)"

lemma half_signed_jobs:
  "map (\<lambda>j. (j_status j, j_submittedHash j, js_field (payload j) ''takerSignedEntry'')) (db_jobs (snd (snd half_signed_run))) =
     [(SUBMITTED, Some ''hash'', Some (JStr ''entry''))]"
  by code_simp

theorem sign_request_changes_own_entry_witness:
  "\<exists>j. db_jobs (snd (snd half_signed_run)) = [j] \<and> j_status j = SUBMITTED \<and> j_submittedHash j = Some ''hash'' \<and>
     own_change 1 ''GT'' half_signed_job j"
proof -
  obtain resp bs1 d1 where run: "half_signed_run = (resp, bs1, d1)" using prod_cases3 by blast
  obtain j where j: "db_jobs d1 = [j]" "j_status j = SUBMITTED" "j_submittedHash j = Some ''hash''"
    using half_signed_jobs by (auto simp: run)
  have "d1 \<noteq> sample_jobs half_signed_job" using j(1,2) by (auto simp: sample_jobs_def half_signed_job_def sample_job_def)
  then have "list_all2 (own_change 1 ''GT'') (db_jobs (sample_jobs half_signed_job)) (db_jobs d1)"
    using sign_request_changes_own_entry [OF run [unfolded half_signed_run_def] sample_job_ids]
    by (auto simp: sample_request_def sample_sign_body_def map_get_def)
  then show ?thesis using j by (simp add: run sample_jobs_def)
qed

text \<open>A run with one broadcast: both entries are there, the worker merges, claims and sends.\<close>

definition signed_job :: tx_job where
  "signed_job = (sample_job QUEUED None)\<lparr> j_unsignedXdr := Some (JObj [(''makerSignedEntry'', JStr ''m'')]) \<rparr>"

lemma sample_broadcast: "\<exists>s. sign_reach (sample_jobs signed_job) s \<and> pl_sent s = [1]"
proof -
  let ?d = "sample_jobs signed_job"
  let ?s0 = "\<lparr> pl_db = ?d, pl_phase = (\<lambda>_. Ready), pl_sent = [] \<rparr>"
  define x where "x = JObj [(''makerSignedEntry'', JStr ''m''), (''takerSignedEntry'', JStr ''t'')]"
  define d1 where "d1 = update_jobs (queued_job 1) (add_entry 5 False ''t'') ?d"
  have m: "merge_entry 5 1 False ''t'' ?d = (Some (Some x), d1)"
    by (simp add: merge_entry_def sample_jobs_def signed_job_def sample_job_def queued_job_def settle_job_def add_entry_def
        jsonb_concat_def entry_field_def x_def d1_def settle_kind_def)
  have both: "both_signed x" by (simp add: x_def both_signed_def map_get_def)
  obtain d2 where c: "claim_queued 6 1 d1 = (True, d2)"
    by (simp add: d1_def claim_queued_def claim_where_def sample_jobs_def signed_job_def sample_job_def queued_job_def settle_job_def returning_empty_iff)
  have r0: "sign_reach ?d ?s0" by (rule sign_reach.start)
  have r1: "sign_reach ?d (set_phase 0 (Merged 1 x) d1 ?s0)"
    by (rule sign_reach.step [OF r0]) (rule sign_step.merge [where t = 5 and mk = False and e = "''t''"], simp_all add: m both)
  have r2: "sign_reach ?d (set_phase 0 (Claimed 1 x) d2 (set_phase 0 (Merged 1 x) d1 ?s0))"
    by (rule sign_reach.step [OF r1]) (rule sign_step.claim [where t = 6], simp_all add: c)
  have "sign_step (set_phase 0 (Claimed 1 x) d2 (set_phase 0 (Merged 1 x) d1 ?s0))
      ((set_phase 0 (Sent 1 ''hash'') d2 (set_phase 0 (Claimed 1 x) d2 (set_phase 0 (Merged 1 x) d1 ?s0)))\<lparr> pl_sent := [1] \<rparr>)"
    using sign_step.broadcast [of "set_phase 0 (Claimed 1 x) d2 (set_phase 0 (Merged 1 x) d1 ?s0)" 0 1 x "''hash''"] by simp
  from sign_reach.step [OF r2 this] show ?thesis
    by (intro exI [of _ "(set_phase 0 (Sent 1 ''hash'') d2 (set_phase 0 (Claimed 1 x) d2 (set_phase 0 (Merged 1 x) d1 ?s0)))\<lparr> pl_sent := [1] \<rparr>"]) simp
qed

theorem sign_broadcasts_once_witness:
  "\<exists>s. sign_reach (sample_jobs signed_job) s \<and> pl_sent s = [1] \<and> distinct (pl_sent s)"
proof -
  obtain s where s: "sign_reach (sample_jobs signed_job) s" "pl_sent s = [1]" using sample_broadcast by blast
  from sign_broadcasts_once [OF s(1)] s show ?thesis by blast
qed

theorem reconciler_keeps_finished_jobs_witness:
  "sample_job FAILED None \<in> set (db_jobs (snd (recon_tick sample_recon (sample_jobs (sample_job FAILED None)))))"
  by (rule reconciler_keeps_finished_jobs [OF sample_job_ids]) (simp_all add: sample_jobs_def final_def sample_job_def)

text \<open>One good tick, then a database that does not answer.\<close>

theorem reconciler_stops_after_five_witness:
  "recon_run ([sample_recon] @ replicate 5 (sample_recon\<lparr> rc_fail := \<lambda>op i k. op = ''select'' \<rparr>) @ [sample_recon]) 0
     (sample_jobs (sample_job FAILED None)) = (False, sample_jobs (sample_job FAILED None)) \<and>
   fst (recon_run [sample_recon] 0 (sample_jobs (sample_job FAILED None)))"
proof -
  have "recon_run [sample_recon] 0 (sample_jobs (sample_job FAILED None)) = (True, sample_jobs (sample_job FAILED None))"
    by (simp add: recon_tick_def expireStaleQueued_def sample_recon_def sample_jobs_def sample_job_def settle_rows_def
        stale_before_def cast_fails_def)
  then show ?thesis
    using reconciler_stops_after_five [of "[sample_recon]" "sample_jobs (sample_job FAILED None)" sample_recon
      "replicate 5 (sample_recon\<lparr> rc_fail := \<lambda>op i k. op = ''select'' \<rparr>)" "[sample_recon]"] by simp
qed

theorem submitted_job_is_stuck_witness:
  "reconcileSubmitted sample_recon (sample_job SUBMITTED (Some ''hash'')) (sample_jobs (sample_job SUBMITTED (Some ''hash''))) =
     (True, sample_jobs (sample_job SUBMITTED (Some ''hash'')))"
  by (rule submitted_job_is_stuck [OF sample_job_ids, of _ _ "''hash''"])
     (simp_all add: sample_jobs_def sample_job_def sample_recon_def sample_chain_def)

theorem expired_settlement_returns_book_witness:
  "\<exists>d1 d2. fill_and_settle (sample_env (Some ''s'')) sample_fill sample_db = (True, d1) \<and>
     expire_job sample_recon (last (db_jobs d1)) d1 = (True, d2) \<and> db_orders d2 = db_orders sample_db"
proof -
  let ?E = "sample_env (Some ''s'')"
  obtain ps where ps: "simulateSettleFill sample_rpc default_config sample_fill (match_hash sample_fill) ''s'' = Some ps"
    by (simp add: simulateSettleFill_def build_call_def sample_rpc_def list_all_def Let_def)
  have rows: "has_room ''GM:1'' 3 (db_orders sample_db)" "has_room ''GT:2'' 3 (db_orders sample_db)"
    by (simp_all add: has_room_def sample_db_def sample_row_def)
  have "\<exists>d1 d2. fill_and_settle ?E sample_fill sample_db = (True, d1) \<and> db_orders d1 = fill_row_orders sample_fill (db_orders sample_db) \<and>
     expire_job sample_recon (last (db_jobs d1)) d1 = (True, d2) \<and> db_orders d2 = db_orders sample_db \<and> db_fills d2 = db_fills sample_db"
    by (rule expired_settlement_returns_book [where rm = "db_orders sample_db ! 0" and rt = "db_orders sample_db ! 1" and ps = ps])
       (use ps rows sample_db_ok sample_fresh in \<open>simp_all add: no_faults_def recon_ok_def sample_recon_def sample_fill_def,
         simp_all add: sample_db_def sample_row_def\<close>)
  then show ?thesis by blast
qed

end
