(* ===== verification/Exchange_System.thy ===== *)
theory Exchange_System
  imports Settlement_Correct
begin

text \<open>
  The services together, over one database: clients place and cancel orders, the matcher ticks, wallets
  sign, the reconciler ticks, the indexer rewrites the market rows. A step is one request or one tick,
  with arbitrary clocks, limiter states, chain answers and failing statements; all services share the
  signature library \<open>c\<close> and the configuration \<open>cfg\<close>.
\<close>

datatype action =
    Place intake_env request
  | Cancel intake_env request
  | Match matcher_env
  | Sign sign_env request "int option"
  | Reconcile recon_env
  | Index "market_row list"

fun act :: "action \<Rightarrow> buckets \<times> database \<Rightarrow> buckets \<times> database" where
  "act (Place V req) s = snd (POST_order V req s)"
| "act (Cancel V req) s = snd (POST_cancel V req s)"
| "act (Match E) s = (fst s, snd (tick E (snd s)))"
| "act (Sign G req i) s = snd (POST_sign G req i s)"
| "act (Reconcile R) s = (fst s, snd (recon_tick R (snd s)))"
| "act (Index ms) s = (fst s, (snd s)\<lparr> db_markets := ms \<rparr>)"

fun shares :: "crypto \<Rightarrow> config \<Rightarrow> action \<Rightarrow> bool" where
  "shares c cfg (Place V req) \<longleftrightarrow> in_crypto V = c \<and> in_cfg V = cfg"
| "shares c cfg (Cancel V req) \<longleftrightarrow> in_crypto V = c \<and> in_cfg V = cfg"
| "shares c cfg (Match E) \<longleftrightarrow> me_crypto E = c \<and> me_cfg E = cfg"
| "shares c cfg _ \<longleftrightarrow> True"

inductive exchange_reach :: "crypto \<Rightarrow> config \<Rightarrow> buckets \<times> database \<Rightarrow> bool" for c cfg where
  start: "exchange_reach c cfg ([], empty_db)"
| step: "exchange_reach c cfg s \<Longrightarrow> shares c cfg a \<Longrightarrow> exchange_reach c cfg (act a s)"

subsection \<open>The invariant\<close>

definition jobs_ok :: "database \<Rightarrow> bool" where
  "jobs_ok d \<longleftrightarrow> job_ids d \<and> (\<forall>j \<in> set (db_jobs d). \<forall>n. job_fillSize (payload j) = Some n \<longrightarrow> 0 < n)"

definition signed_rows :: "crypto \<Rightarrow> config \<Rightarrow> database \<Rightarrow> bool" where
  "signed_rows c cfg d \<longleftrightarrow> (\<forall>r \<in> set (db_orders d). row_signed c cfg r)"

definition exchange_ok :: "crypto \<Rightarrow> config \<Rightarrow> database \<Rightarrow> bool" where
  "exchange_ok c cfg d \<longleftrightarrow> orders_ok (db_orders d) \<and> signed_rows c cfg d \<and> jobs_ok d"

text \<open>What every writer keeps of an order row: everything but the filled size and the cancelled flag.\<close>

definition signed_part :: "order_row \<Rightarrow> order_intent \<times> string option" where
  "signed_part r = (order_intent.truncate r, signature r)"

lemma signed_part_updates [simp]:
  "signed_part (add_filled n r) = signed_part r" "signed_part (sub_filled n r) = signed_part r"
  "signed_part (cancel_row r) = signed_part r" "signed_part (r\<lparr> cancelled := b \<rparr>) = signed_part r"
  by (simp_all add: signed_part_def add_filled_def sub_filled_def cancel_row_def order_intent.defs)

lemma row_signed_part: "signed_part r = signed_part r' \<Longrightarrow> row_signed c cfg r = row_signed c cfg r'"
  by (simp add: row_signed_def signed_part_def)

lemma all_signed_update:
  assumes "\<forall>r \<in> set t. row_signed c cfg r" and "\<And>r. signed_part (f r) = signed_part r"
  shows "\<forall>r \<in> set (update_where P f t). row_signed c cfg r"
  by (rule update_where_all [OF assms(1)]) (use row_signed_part [OF assms(2)] in blast)

subsection \<open>The matcher\<close>

text \<open>Under a book of signed orders the matcher keeps the table sound and cancels nothing.\<close>

definition honest :: "matcher_env \<Rightarrow> (string \<times> bool) list \<Rightarrow> database \<Rightarrow> bool" where
  "honest E flags d \<longleftrightarrow> exchange_ok (me_crypto E) (me_cfg E) d \<and> map (\<lambda>r. (oid r, cancelled r)) (db_orders d) = flags"

definition honest_match :: "matcher_env \<Rightarrow> match_result \<Rightarrow> bool" where
  "honest_match E m \<longleftrightarrow> 0 < fillSize m \<and> settlementSigValid (me_crypto E) (me_cfg E) (maker m) = Some True \<and>
     settlementSigValid (me_crypto E) (me_cfg E) (taker m) = Some True"

lemma upsert_jobs_ok:
  assumes "jobs_ok d" and "\<And>j. j_id (upd j) = j_id j"
    and "\<And>j n. j \<in> set (db_jobs d) \<Longrightarrow> job_fillSize (payload (upd j)) = Some n \<Longrightarrow> 0 < n"
    and "\<And>n. job_fillSize (payload new) = Some n \<Longrightarrow> 0 < n"
  shows "jobs_ok (upsert_job new upd d)"
proof -
  have "job_ids d" and pos: "\<forall>j \<in> set (db_jobs d). \<forall>n. job_fillSize (payload j) = Some n \<longrightarrow> 0 < n"
    using assms(1) by (auto simp: jobs_ok_def)
  have pay: "payload (new\<lparr> j_id := i \<rparr>) = payload new" for i by (simp add: payload_def)
  have "next_job_id (db_jobs d) \<notin> j_id ` set (db_jobs d)" using next_job_id_fresh by fastforce
  then have "job_ids (upsert_job new upd d)"
    using \<open>job_ids d\<close> assms(2) by (simp add: job_ids_def upsert_job_def Let_def map_update_where)
  moreover have "\<forall>j \<in> set (db_jobs (upsert_job new upd d)). \<forall>n. job_fillSize (payload j) = Some n \<longrightarrow> 0 < n"
    using pos assms(3,4) pay by (simp add: upsert_job_def Let_def set_update_where) blast
  ultimately show ?thesis by (simp add: jobs_ok_def)
qed

lemma settle_jobs_ok:
  assumes "jobs_ok d" and "0 < fillSize m"
  shows "jobs_ok (snd (executeSettlement E m d))"
proof -
  have size: "job_fillSize (job_payload ps m) = Some n \<Longrightarrow> 0 < n"
    if "simulateSettleFill R cfg m h sec = Some ps" for ps R cfg h sec n
    using simulate_fields [OF that] assms(2) by (simp add: job_fillSize_def signed_digits_show_int)
  have empty: "job_fillSize (JObj []) = None" by (simp add: job_fillSize_def text_field_def map_get_def)
  have old: "\<forall>j \<in> set (db_jobs d). \<forall>n. job_fillSize (payload j) = Some n \<longrightarrow> 0 < n" using assms(1) by (simp add: jobs_ok_def)
  have conf: "jobs_ok (upsert_job (new_job net now h (JObj []) CONFIRMED hash)
      (\<lambda>j. j\<lparr> j_status := CONFIRMED, j_submittedHash := Some tx, j_updatedAt := t \<rparr>) d)" for net now h hash tx t
  proof (rule upsert_jobs_ok [OF assms(1)])
    fix j n assume "j \<in> set (db_jobs d)" and "job_fillSize (payload (j\<lparr> j_status := CONFIRMED, j_submittedHash := Some tx, j_updatedAt := t \<rparr>)) = Some n"
    then show "0 < n" using old by (simp add: payload_def)
  qed (simp_all add: payload_def new_job_def empty)
  have queued: "jobs_ok (upsert_job (new_job net now h (job_payload ps m) QUEUED None)
      (\<lambda>j. j\<lparr> j_unsignedXdr := Some (job_payload ps m), j_updatedAt := t \<rparr>) d)"
    if "simulateSettleFill R cfg m h' sec = Some ps" for net now h ps t R cfg h' sec
    by (rule upsert_jobs_ok [OF assms(1)]) (simp_all add: payload_def new_job_def size [OF that])
  show ?thesis
    unfolding executeSettlement_def Let_def
    using assms(1) conf queued by (simp split: option.split)
qed

lemma jobs_ok_cong: "db_jobs d' = db_jobs d \<Longrightarrow> jobs_ok d' = jobs_ok d"
  by (simp add: jobs_ok_def job_ids_def)

lemma jobs_unchanged [simp]:
  "db_jobs (snd (increment_filled k n d)) = db_jobs d" "db_jobs (decrement_filled k n d) = db_jobs d"
  "db_jobs (update_market m d) = db_jobs d" "db_jobs (cancelPoisonOrder k d) = db_jobs d"
  by (simp_all add: increment_filled_def decrement_filled_def update_market_def cancelPoisonOrder_def)

lemma jobs_ok_unchanged [simp]:
  "jobs_ok (snd (increment_filled k n d)) = jobs_ok d" "jobs_ok (decrement_filled k n d) = jobs_ok d"
  "jobs_ok (update_market m d) = jobs_ok d" "jobs_ok (cancelPoisonOrder k d) = jobs_ok d"
  "jobs_ok (delete_fills net h d) = jobs_ok d" "jobs_ok (db_fills_update f d) = jobs_ok d"
  by (rule jobs_ok_cong, simp)+

lemma signed_rows_update:
  assumes "signed_rows c cfg d" and "db_orders d' = update_where P f (db_orders d)" and "\<And>r. signed_part (f r) = signed_part r"
  shows "signed_rows c cfg d'"
  using all_signed_update [of "db_orders d" c cfg f P] assms by (simp add: signed_rows_def)

lemma signed_rows_keep:
  "signed_rows c cfg d \<Longrightarrow> signed_rows c cfg (snd (increment_filled k n d))"
  "signed_rows c cfg d \<Longrightarrow> signed_rows c cfg (decrement_filled k n d)"
  by (erule signed_rows_update, simp add: increment_filled_def, simp)
     (erule signed_rows_update, simp add: decrement_filled_def, simp)

lemma signed_rows_cong: "db_orders d' = db_orders d \<Longrightarrow> signed_rows c cfg d' = signed_rows c cfg d"
  by (simp add: signed_rows_def)

lemma signed_rows_unchanged [simp]:
  "signed_rows c cfg (update_market m d) = signed_rows c cfg d" "signed_rows c cfg (delete_fills net h d) = signed_rows c cfg d"
  "signed_rows c cfg (db_fills_update f d) = signed_rows c cfg d" "signed_rows c cfg (snd (executeSettlement E m d)) = signed_rows c cfg d"
  by (rule signed_rows_cong, simp add: executeSettlement_tables)+

lemma flags_unchanged:
  "map (\<lambda>r. (oid r, cancelled r)) (db_orders (snd (increment_filled k n d))) = map (\<lambda>r. (oid r, cancelled r)) (db_orders d)"
  "map (\<lambda>r. (oid r, cancelled r)) (db_orders (decrement_filled k n d)) = map (\<lambda>r. (oid r, cancelled r)) (db_orders d)"
  by (simp_all add: increment_filled_def decrement_filled_def map_update_where)

interpretation honest: tick_invariant E "honest E flags" "honest_match E" for E flags
proof unfold_locales
  fix d m mkt p
  assume h: "honest E flags d" and m: "m \<in> set (market_matches E mkt d)"
    and p: "loadOraclePrice mkt d = Some p" "withinOracleBand (me_maxDeviation E) (fillPrice m) p"
  have ok: "orders_ok (db_orders d)" and signed: "\<forall>r \<in> set (db_orders d). row_signed (me_crypto E) (me_cfg E) r"
    using h by (auto simp: honest_def exchange_ok_def signed_rows_def)
  have "settlementSigValid (me_crypto E) (me_cfg E) o' = Some True"
    if "o' \<in> set (loadRestingOrders (me_now E) mkt d) \<union> set (loadMarketOrders (me_now E) mkt d)" for o'
    using that signed row_signed_valid by (auto simp: set_loadRestingOrders set_loadMarketOrders)
  moreover have "maker m \<in> set (loadRestingOrders (me_now E) mkt d)" "0 < fillSize m"
      "taker m \<in> set (loadRestingOrders (me_now E) mkt d) \<union> set (loadMarketOrders (me_now E) mkt d)"
    using matchAll_basic [OF market_matches_book [OF ok] m [unfolded market_matches_def]]
      inBandLimits_filter [of E "loadOraclePrice mkt d" "loadRestingOrders (me_now E) mkt d"] by auto
  ultimately show "honest_match E m" by (simp add: honest_match_def)
next
  fix d m sd
  assume "honest_match E m" "sd = maker m \<or> sd = taker m" "settlementSigValid (me_crypto E) (me_cfg E) sd = Some False"
  then show "honest E flags (cancelPoisonOrder (oid sd) d)" by (auto simp: honest_match_def)
qed (simp_all add: honest_def exchange_ok_def honest_match_def orders_increment orders_decrement signed_rows_keep
      flags_unchanged executeSettlement_tables settle_jobs_ok)

subsection \<open>The reconciler\<close>

definition job_texts :: "database \<Rightarrow> (int \<times> json option) list" where
  "job_texts d = map (\<lambda>j. (j_id j, j_unsignedXdr j)) (db_jobs d)"

lemma jobs_ok_texts:
  assumes "job_texts d' = job_texts d"
  shows "jobs_ok d' = jobs_ok d"
proof -
  have ids: "map j_id (db_jobs e) = map fst (job_texts e)" for e by (simp add: job_texts_def comp_def)
  have pos: "(\<forall>j \<in> set (db_jobs e). \<forall>n. job_fillSize (payload j) = Some n \<longrightarrow> 0 < n) \<longleftrightarrow>
      (\<forall>(i, x) \<in> set (job_texts e). \<forall>n. job_fillSize (case x of None \<Rightarrow> JNull | Some y \<Rightarrow> y) = Some n \<longrightarrow> 0 < n)" for e
    by (simp add: job_texts_def payload_def)
  show ?thesis unfolding jobs_ok_def job_ids_def ids pos assms ..
qed

definition same_book :: "database \<Rightarrow> database \<Rightarrow> bool" where
  "same_book d d' \<longleftrightarrow> db_orders d' = db_orders d \<and> job_texts d' = job_texts d"

lemma same_book_refl: "same_book d d"
  by (simp add: same_book_def)

lemma same_book_trans: "same_book a b \<Longrightarrow> same_book b c \<Longrightarrow> same_book a c"
  by (simp add: same_book_def)

lemma same_book_update: "(\<And>j. j_id (f j) = j_id j \<and> j_unsignedXdr (f j) = j_unsignedXdr j) \<Longrightarrow> same_book d (update_jobs P f d)"
  by (simp add: same_book_def job_texts_def map_update_where)

lemma same_book_steps:
  "same_book d (record_hash t i h d)" "same_book d (mark_failed P t m d)" "same_book d (mark_confirmed P t d)"
  "same_book d (snd (claim_where P t d))"
  by (simp_all add: record_hash_def mark_failed_def mark_confirmed_def claim_where_def same_book_update)

lemma same_book_fills: "same_book d d' \<Longrightarrow> same_book d (update_fills P f d')"
  by (simp add: same_book_def update_fills_def job_texts_def)

lemma same_book_failed: "same_book d d' \<Longrightarrow> same_book d (mark_failed P t m d')"
  by (rule same_book_trans [OF _ same_book_steps(2)])

lemma poll_same_book: "same_book d (snd (resubmit_poll R job h i k d))"
proof (induction k arbitrary: i)
  case 0
  then show ?case by (simp add: same_book_refl)
next
  case (Suc k)
  then show ?case
    by (simp add: Let_def same_book_refl same_book_steps same_book_fills split: sum.split poll_status.split)
qed

lemma resubmit_same_book: "same_book d (snd (resubmitJob R job d))"
proof -
  obtain won d1 where cl: "claim_where (resubmit_claim (j_id job)) (rc_now R) d = (won, d1)" by force
  have 1: "same_book d d1" using same_book_steps(4) [of d "resubmit_claim (j_id job)" "rc_now R"] cl by simp
  have p: "same_book d (snd (resubmit_poll R job x 0 10 (record_hash t i x d1)))" for t i x
    by (rule same_book_trans [OF 1 same_book_trans [OF same_book_steps(1) poll_same_book]])
  show ?thesis
    using 1 p same_book_failed [OF 1] same_book_failed [OF p]
    by (cases won) (simp_all add: resubmitJob_def Let_def cl same_book_refl case_prod_beta split: sum.split)
qed

lemma reconcile_same_book: "same_book d (snd (reconcileSubmitted R job d))"
  by (simp add: reconcileSubmitted_def Let_def same_book_refl same_book_steps same_book_fills resubmit_same_book
      split: sum.split poll_status.split)

lemma exchange_ok_same_book: "same_book d d' \<Longrightarrow> exchange_ok c cfg d \<Longrightarrow> exchange_ok c cfg d'"
  using jobs_ok_texts [of d' d] signed_rows_cong [of d' d c cfg] by (simp add: exchange_ok_def same_book_def)

lemma exchange_ok_release:
  assumes "exchange_ok c cfg d" and "0 < n"
  shows "exchange_ok c cfg (release_order data a k n d)"
proof -
  define P where "P = (\<lambda>r :: order_row. Some (owner r) = text_field data a \<and> nonce_matches data k (nonce r))"
  have o: "db_orders (release_order data a k n d) = update_where P (sub_filled n) (db_orders d)"
    by (simp add: release_order_def P_def)
  have "orders_ok (update_where P (sub_filled n) (db_orders d))"
    by (rule orders_ok_update) (use assms in \<open>simp_all add: exchange_ok_def order_fill_ok_sub\<close>)
  then have "orders_ok (db_orders (release_order data a k n d))" by (simp add: o)
  moreover have "signed_rows c cfg (release_order data a k n d)"
    by (rule signed_rows_update [OF _ o]) (use assms(1) in \<open>simp_all add: exchange_ok_def\<close>)
  moreover have "jobs_ok (release_order data a k n d)"
    using assms(1) jobs_ok_cong [of "release_order data a k n d" d] by (simp add: exchange_ok_def)
  ultimately show ?thesis by (simp add: exchange_ok_def)
qed

lemma exchange_ok_delete: "exchange_ok c cfg d \<Longrightarrow> exchange_ok c cfg (delete_fills net h d)"
  by (simp add: exchange_ok_def)

lemma exchange_ok_undo:
  assumes "exchange_ok c cfg d" and "\<And>n. job_fillSize (payload job) = Some n \<Longrightarrow> 0 < n"
  shows "exchange_ok c cfg (snd (undo_fill fails job d))"
  unfolding undo_fill_def Let_def
  using assms by (simp add: exchange_ok_release exchange_ok_delete split: option.split)

lemma exchange_ok_expire:
  assumes "exchange_ok c cfg d" and "\<And>n. job_fillSize (payload job) = Some n \<Longrightarrow> 0 < n"
  shows "exchange_ok c cfg (snd (expire_job R job d))"
proof -
  obtain ok d1 where u: "undo_fill (rc_fail R ''expire'' (j_id job)) job d = (ok, d1)" by force
  have 1: "exchange_ok c cfg d1" using exchange_ok_undo [where fails = "rc_fail R ''expire'' (j_id job)" and job = job, OF assms] u by simp
  then have "exchange_ok c cfg (mark_failed P t m d1)" for P t m
    by (rule exchange_ok_same_book [OF same_book_steps(2)])
  then show ?thesis using 1 assms(1) by (cases ok) (simp_all add: expire_job_def Let_def u)
qed

lemma each_job_keeps:
  assumes "\<And>j d. j \<in> set js \<Longrightarrow> I d \<Longrightarrow> I (snd (f j d))" and "I d"
  shows "I (snd (each_job f js d))"
  using assms
proof (induction js arbitrary: d)
  case Nil
  then show ?case by simp
next
  case (Cons j js)
  obtain ok d1 where fj: "f j d = (ok, d1)" by force
  have 1: "I d1" using Cons.prems(1) [of j d] Cons.prems(2) fj by simp
  have "I (snd (each_job f js d1))" by (rule Cons.IH [OF _ 1]) (use Cons.prems(1) in simp)
  with 1 show ?case by (cases ok) (simp_all add: fj)
qed

lemma exchange_ok_recon:
  assumes "exchange_ok c cfg d"
  shows "exchange_ok c cfg (snd (recon_tick R d))"
proof -
  define q1 where "q1 = each_job (reconcileSubmitted R) (take 50 (settle_rows (\<lambda>j. j_status j = SUBMITTED \<and>
         j_updatedAt j < rc_now R - SUBMITTED_CHECK_AFTER_SECS * 1000) d)) d"
  have 1: "exchange_ok c cfg (snd q1)"
    unfolding q1_def by (rule each_job_keeps [where I = "exchange_ok c cfg"]) (rule exchange_ok_same_book [OF reconcile_same_book], assumption, rule assms)
  define q2 where "q2 = each_job (resubmitJob R) (take 20 (settle_rows (\<lambda>j. j_status j = QUEUED \<and>
           has_entry j ''makerSignedEntry'' \<and> has_entry j ''takerSignedEntry'' \<and> j_updatedAt j < rc_now R - 30000) (snd q1))) (snd q1)"
  have 2: "exchange_ok c cfg (snd q2)"
    unfolding q2_def by (rule each_job_keeps [where I = "exchange_ok c cfg"]) (rule exchange_ok_same_book [OF resubmit_same_book], assumption, rule 1)
  have "exchange_ok c cfg (snd (each_job (expire_job R) (settle_rows (stale_before (rc_now R) (rc_staleMinutes R)) (snd q2)) (snd q2)))"
  proof (rule each_job_keeps [where I = "exchange_ok c cfg", OF _ 2])
    fix j d' assume j: "j \<in> set (settle_rows (stale_before (rc_now R) (rc_staleMinutes R)) (snd q2))" and d': "exchange_ok c cfg d'"
    show "exchange_ok c cfg (snd (expire_job R j d'))"
      by (rule exchange_ok_expire [OF d']) (use j 2 in \<open>auto simp: settle_rows_def exchange_ok_def jobs_ok_def\<close>)
  qed
  then have 3: "exchange_ok c cfg (snd (expireStaleQueued R (snd q2)))" using 2 by (simp add: expireStaleQueued_def)
  show ?thesis
    using 1 2 3 assms unfolding recon_tick_def q1_def [symmetric]
    by (cases q1; cases "fst q1") (auto simp: q2_def case_prod_beta split: bool.split)
qed

subsection \<open>The request handlers\<close>

lemma exchange_ok_sign:
  assumes "exchange_ok c cfg d" and "POST_sign G req i (bs, d) = (resp, bs1, d1)"
  shows "exchange_ok c cfg d1 \<and> db_orders d1 = db_orders d"
proof -
  have ids: "job_ids d" and pos: "\<forall>j \<in> set (db_jobs d). \<forall>n. job_fillSize (payload j) = Some n \<longrightarrow> 0 < n"
    using assms(1) by (simp_all add: exchange_ok_def jobs_ok_def)
  note eff = POST_sign_effect [OF assms(2) ids]
  have "jobs_ok d1"
  proof (cases "d1 = d")
    case True
    then show ?thesis using assms(1) by (simp add: exchange_ok_def)
  next
    case False
    then obtain addr k where ch: "list_all2 (own_change k addr) (db_jobs d) (db_jobs d1)" using eff by blast
    have len: "length (db_jobs d1) = length (db_jobs d)" and nth: "\<And>n. n < length (db_jobs d) \<Longrightarrow> own_change k addr (db_jobs d ! n) (db_jobs d1 ! n)"
      using ch by (simp_all add: list_all2_conv_all_nth)
    have "map j_id (db_jobs d1) = map j_id (db_jobs d)"
    proof (rule nth_equalityI)
      fix q assume "q < length (map j_id (db_jobs d1))"
      then show "map j_id (db_jobs d1) ! q = map j_id (db_jobs d) ! q"
        using nth [of q, unfolded own_change_def, THEN conjunct1] len by (simp add: same_identity_def)
    qed (simp add: len)
    moreover have "0 < n" if "j' \<in> set (db_jobs d1)" "job_fillSize (payload j') = Some n" for j' n
    proof -
      obtain q where q: "q < length (db_jobs d1)" "j' = db_jobs d1 ! q" using \<open>j' \<in> _\<close> by (auto simp: in_set_conv_nth)
      have "own_change k addr (db_jobs d ! q) j'" using nth [of q] q len by simp
      then have "js_field (payload j') ''fillSize'' = js_field (payload (db_jobs d ! q)) ''fillSize''"
        unfolding own_change_def entry_field_def by fastforce
      then have "job_fillSize (payload (db_jobs d ! q)) = Some n" using that(2) by (simp add: job_fillSize_def text_field_def)
      then show ?thesis using pos q len by (metis nth_mem)
    qed
    ultimately show ?thesis using ids by (simp add: jobs_ok_def job_ids_def)
  qed
  then show ?thesis using eff assms(1) signed_rows_cong [of d1 d c cfg] by (simp add: exchange_ok_def)
qed

lemma exchange_ok_place:
  assumes "exchange_ok (in_crypto V) (in_cfg V) d" and "POST_order V req (bs, d) = (resp, bs1, d1)"
  shows "exchange_ok (in_crypto V) (in_cfg V) d1 \<and> (db_orders d1 = db_orders d \<or>
     (\<exists>r. db_orders d1 = db_orders d @ [r] \<and> oid r \<notin> oid ` set (db_orders d)))"
  using assms(2)
proof (cases rule: POST_order_cases)
  case refused
  then show ?thesis using assms(1) by simp
next
  case (run b o' res)
  obtain sig where sig: "body_signature b = Some sig" "settlement_signed (in_crypto V) (in_cfg V) o' sig"
    using accepted_signature [OF run(2)] by blast
  have bounds: "order_in_bounds (in_cfg V) (in_now V) o'" using validate_Accepted [OF run(2)] by blast
  have pl: "placed V o' (Some sig) d d1" using retry_placed [OF run(3)] sig(1) by simp
  have jobs: "jobs_ok d1" using pl assms(1) jobs_ok_cong [of d1 d] by (simp add: placed_def exchange_ok_def)
  show ?thesis
  proof (cases "db_orders d1 = db_orders d")
    case True
    then show ?thesis using assms(1) jobs signed_rows_cong [of d1 d] by (simp add: exchange_ok_def)
  next
    case False
    let ?r = "row_of (in_now V) o' (Some sig)"
    have new: "db_orders d1 = db_orders d @ [?r]" "oid ?r \<notin> oid ` set (db_orders d)"
      using pl False by (auto simp: placed_def)
    have "order_fill_ok ?r" using bounds by (simp add: order_fill_ok_def order_in_bounds_def)
    then have "orders_ok (db_orders d1)" using assms(1) new by (auto simp: exchange_ok_def orders_ok_def)
    moreover have "row_signed (in_crypto V) (in_cfg V) ?r" using sig(2) by (simp add: row_signed_def)
    ultimately show ?thesis using assms(1) new jobs by (auto simp: exchange_ok_def signed_rows_def)
  qed
qed

lemma exchange_ok_cancel_orders:
  assumes "exchange_ok c cfg d"
  shows "exchange_ok c cfg (cancel_orders own n d)"
proof -
  have "orders_ok (update_where (\<lambda>r. owner r = own \<and> nonce r = n) cancel_row (db_orders d))"
    by (rule orders_ok_update) (use assms in \<open>simp_all add: exchange_ok_def cancel_row_def order_fill_ok_def\<close>)
  moreover have "signed_rows c cfg (cancel_orders own n d)"
    by (rule signed_rows_update [of c cfg d _ "\<lambda>r. owner r = own \<and> nonce r = n" cancel_row])
       (use assms in \<open>simp_all add: exchange_ok_def cancel_orders_def\<close>)
  moreover have "jobs_ok (cancel_orders own n d)"
    using assms jobs_ok_cong [of "cancel_orders own n d" d] by (simp add: exchange_ok_def cancel_orders_def)
  ultimately show ?thesis by (simp add: exchange_ok_def cancel_orders_def)
qed

lemma exchange_ok_cancel:
  assumes "exchange_ok c cfg d" and "POST_cancel V req (bs, d) = (resp, bs1, d1)"
  shows "exchange_ok c cfg d1"
proof (cases "d1 = d")
  case True
  then show ?thesis using assms(1) by simp
next
  case False
  then obtain own n where "d1 = cancel_orders own n d" using POST_cancel_effect [OF assms(2)] by blast
  then show ?thesis using exchange_ok_cancel_orders [OF assms(1)] by simp
qed

text \<open>Every action keeps the invariant; the cancelled flags change only through \<open>Cancel\<close>.\<close>

lemma exchange_ok_act:
  assumes "exchange_ok c cfg (snd s)" and "shares c cfg a"
  shows "exchange_ok c cfg (snd (act a s))"
proof -
  obtain bs d where s: "s = (bs, d)" by force
  show ?thesis
  proof (cases a)
    case (Place V req)
    obtain resp bs1 d1 where run: "POST_order V req (bs, d) = (resp, bs1, d1)" using prod_cases3 by blast
    show ?thesis using assms exchange_ok_place [OF _ run] run s Place by simp
  next
    case (Cancel V req)
    obtain resp bs1 d1 where run: "POST_cancel V req (bs, d) = (resp, bs1, d1)" using prod_cases3 by blast
    show ?thesis using assms(1) exchange_ok_cancel [OF _ run] run s Cancel by simp
  next
    case (Match E)
    have "honest E (map (\<lambda>r. (oid r, cancelled r)) (db_orders d)) d" using assms s Match by (simp add: honest_def)
    then have "honest E (map (\<lambda>r. (oid r, cancelled r)) (db_orders d)) (snd (tick E d))" by (rule honest.whole_tick)
    then show ?thesis using assms(2) s Match by (simp add: honest_def)
  next
    case (Sign G req i)
    obtain resp bs1 d1 where run: "POST_sign G req i (bs, d) = (resp, bs1, d1)" using prod_cases3 by blast
    show ?thesis using assms(1) exchange_ok_sign [OF _ run] run s Sign by simp
  next
    case (Reconcile R)
    then show ?thesis using assms s exchange_ok_recon by simp
  next
    case (Index ms)
    then show ?thesis using assms s by (simp add: exchange_ok_def signed_rows_def jobs_ok_def job_ids_def)
  qed
qed

lemma exchange_ok_reach: "exchange_reach c cfg s \<Longrightarrow> exchange_ok c cfg (snd s)"
proof (induction rule: exchange_reach.induct)
  case start
  show ?case by (simp add: exchange_ok_def signed_rows_def jobs_ok_def job_ids_def empty_db_def)
next
  case (step s a)
  show ?case by (rule exchange_ok_act [OF step(3,2)])
qed

lemma undo_flags: "map (\<lambda>r. (oid r, cancelled r)) (db_orders (snd (undo_fill fails job d))) = map (\<lambda>r. (oid r, cancelled r)) (db_orders d)"
proof -
  have rel: "map (\<lambda>r. (oid r, cancelled r)) (db_orders (release_order data a k n d')) = map (\<lambda>r. (oid r, cancelled r)) (db_orders d')" for data a k n d'
    by (simp add: release_order_def map_update_where)
  show ?thesis by (simp add: undo_fill_def Let_def rel split: option.split)
qed

lemma recon_flags: "map (\<lambda>r. (oid r, cancelled r)) (db_orders (snd (recon_tick R d))) = map (\<lambda>r. (oid r, cancelled r)) (db_orders d)"
proof -
  let ?F = "\<lambda>d. map (\<lambda>r. (oid r, cancelled r)) (db_orders d)"
  have e: "?F (snd (expire_job R j d')) = ?F d'" for j d'
    using undo_flags [of "rc_fail R ''expire'' (j_id j)" j d']
    by (simp add: expire_job_def Let_def mark_failed_def case_prod_beta split: bool.split)
  have k: "(\<And>j d. ?F (snd (f j d)) = ?F d) \<Longrightarrow> ?F (snd (each_job f js d')) = ?F d'" for f js d'
    by (rule each_job_keeps [where I = "\<lambda>x. ?F x = ?F d'"]) simp_all
  have 1: "?F (snd (reconcileSubmitted R j d')) = ?F d'" "?F (snd (resubmitJob R j d')) = ?F d'" for j d'
    using reconcile_same_book [of d' R j] resubmit_same_book [of d' R j] by (simp_all add: same_book_def)
  note 2 = k [of "reconcileSubmitted R", OF 1(1)] k [of "resubmitJob R", OF 1(2)] k [of "expire_job R", OF e]
  show ?thesis
    unfolding recon_tick_def expireStaleQueued_def case_prod_beta using 2 by (simp split: bool.split)
qed

lemma flags_mem:
  assumes "map (\<lambda>r. (oid r, cancelled r)) t' = map (\<lambda>r. (oid r, cancelled r)) t" and "r' \<in> set t'"
  shows "\<exists>r \<in> set t. oid r = oid r' \<and> cancelled r = cancelled r'"
proof -
  have "(oid r', cancelled r') \<in> set (map (\<lambda>r. (oid r, cancelled r)) t')" using assms(2) by simp
  then obtain r where "r \<in> set t" "(oid r', cancelled r') = (oid r, cancelled r)" unfolding assms(1) set_map by blast
  then show ?thesis by auto
qed

subsection \<open>Properties\<close>

text \<open>
  C1. The exchange as a whole is sound: after any sequence of requests and service ticks, by any
  clients, with any failing statements, chain answers and oracle prices, order identifiers are unique,
  every order has \<open>0 \<le> filledSize \<le> size\<close> and carries a settlement signature of its owner that verifies.
\<close>

theorem exchange_always_sound:
  assumes "exchange_reach c cfg s"
  shows "orders_ok (db_orders (snd s)) \<and> (\<forall>r \<in> set (db_orders (snd s)). row_signed c cfg r)"
  using exchange_ok_reach [OF assms] by (simp add: exchange_ok_def signed_rows_def)

text \<open>
  C2. Only its owner can have an order cancelled: in any reachable state, if a step turns an order
  cancelled, that step is a cancel request with a signature that verifies under the owner's key for the
  cancel text of the order's nonce. In particular the matcher's quarantine never hits an order that
  came in through the API.
\<close>

theorem only_the_owner_cancels:
  assumes "exchange_reach c cfg s" and "shares c cfg a"
    and "r \<in> set (db_orders (snd s))" and "\<not> cancelled r"
    and "r' \<in> set (db_orders (snd (act a s)))" and "oid r' = oid r" and "cancelled r'"
  shows "\<exists>V req b sig. a = Cancel V req \<and> req_body req = Some b \<and> js_field b ''signature'' = Some (JStr sig) \<and>
     verifySignedMessage c (owner r) (cancelSigningMessage (passphrase (NETWORK_cfg cfg)) (owner r) (show_int (nonce r))) sig"
proof -
  obtain bs d where s: "s = (bs, d)" by force
  have ok: "exchange_ok c cfg d" using exchange_ok_reach [OF assms(1)] s by simp
  then have inj: "inj_on oid (set (db_orders d))" by (simp add: exchange_ok_def orders_ok_def distinct_map)
  have flags: False if same: "map (\<lambda>r. (oid r, cancelled r)) (db_orders (snd (act a s))) = map (\<lambda>r. (oid r, cancelled r)) (db_orders d)"
  proof -
    obtain q where "q \<in> set (db_orders d)" "oid q = oid r'" "cancelled q = cancelled r'"
      using flags_mem [OF same assms(5)] by blast
    then show False using assms(3,4,6,7) s inj_onD [OF inj, of q r] by simp
  qed
  show ?thesis
  proof (cases a)
    case (Place V req)
    obtain resp bs1 d1 where run: "POST_order V req (bs, d) = (resp, bs1, d1)" using prod_cases3 by blast
    have "db_orders d1 = db_orders d \<or> (\<exists>q. db_orders d1 = db_orders d @ [q] \<and> oid q \<notin> oid ` set (db_orders d))"
      using exchange_ok_place [OF _ run] ok assms(2) Place by simp
    then have "r' \<in> set (db_orders d)" using assms(3,5,6) run s Place by auto
    then show ?thesis using assms(3,4,6,7) s inj_onD [OF inj, of r' r] by simp
  next
    case (Cancel V req)
    obtain resp bs1 d1 where run: "POST_cancel V req (bs, d) = (resp, bs1, d1)" using prod_cases3 by blast
    have "d1 \<noteq> d" using flags run s Cancel by auto
    then obtain b own n sig where eff: "req_body req = Some b" "js_field b ''signature'' = Some (JStr sig)"
        "verifySignedMessage c own (cancelSigningMessage (passphrase (NETWORK_cfg cfg)) own (show_int n)) sig" "d1 = cancel_orders own n d"
      using POST_cancel_effect [OF run] assms(2) Cancel by auto
    have "owner r = own \<and> nonce r = n"
    proof (rule ccontr)
      assume no: "\<not> (owner r = own \<and> nonce r = n)"
      obtain q where q: "q \<in> set (db_orders d)" "r' = (if owner q = own \<and> nonce q = n then cancel_row q else q)"
        using assms(5) run s Cancel eff(4) by (auto simp: cancel_orders_def set_update_where)
      then have "oid q = oid r" using assms(6) by (auto simp: cancel_row_def split: if_splits)
      then have "q = r" using inj_onD [OF inj] q(1) assms(3) s by simp
      then have "r' = r" using no q(2) by auto
      then show False using assms(4,7) by simp
    qed
    then show ?thesis using eff Cancel by auto
  next
    case (Match E)
    have "honest E (map (\<lambda>r. (oid r, cancelled r)) (db_orders d)) d" using ok assms(2) Match by (simp add: honest_def)
    then have "honest E (map (\<lambda>r. (oid r, cancelled r)) (db_orders d)) (snd (tick E d))" by (rule honest.whole_tick)
    then show ?thesis using flags s Match by (simp add: honest_def)
  next
    case (Sign G req i)
    obtain resp bs1 d1 where run: "POST_sign G req i (bs, d) = (resp, bs1, d1)" using prod_cases3 by blast
    then show ?thesis using flags exchange_ok_sign [OF ok run] s Sign by simp
  next
    case (Reconcile R)
    then show ?thesis using flags recon_flags [of R d] s by simp
  next
    case (Index ms)
    then show ?thesis using flags s by simp
  qed
qed

subsection \<open>A concrete run\<close>

definition sample_place :: action where
  "sample_place = Place sample_intake (sample_request (order_body sample_order ''sig''))"

definition metered_intake :: intake_env where
  "metered_intake = sample_intake\<lparr> in_limiter := \<lparr> le_env = (\<lambda>_. Some ''x''), le_incr = (\<lambda>_. Some (Some (JNum (Fin 1)))) \<rparr> \<rparr>"

definition sample_cancel_act :: action where
  "sample_cancel_act = Cancel metered_intake (sample_request sample_cancel)"

lemma sample_reach: "exchange_reach sample_crypto default_config (act sample_place ([], empty_db))"
  by (rule exchange_reach.step [OF exchange_reach.start]) (simp add: sample_place_def)

lemma sample_placed_row: "db_orders (snd (act sample_place ([], empty_db))) = [row_of 1000000 sample_order (Some ''sig'')]"
proof -
  have "db_orders (snd (withRetry (place_attempt sample_intake sample_order (Some ''sig'')) empty_db)) = [row_of 1000000 sample_order (Some ''sig'')]"
    by (simp add: withRetry_def eval_nat_numeral place_attempt_def insert_order_def Let_def MAX_BIGINT_def empty_db_def
        insert_account_def sample_order_def)
  moreover have "body_signature (order_body sample_order ''sig'') = Some ''sig''" by (simp add: body_signature_def)
  ultimately show ?thesis
    using sample_not_large sample_admitted sample_retry
    by (auto simp: sample_place_def POST_order_def sample_validate Let_def case_prod_beta)
qed

lemma sample_cancelled:
  "db_orders (snd (act sample_cancel_act s)) = db_orders (cancel_orders ''GA'' 7 (snd s))"
proof -
  have f: "sample_cancel \<noteq> JNull" "js_field sample_cancel ''owner'' = Some (JStr ''GA'')" "js_field sample_cancel ''signature'' = Some (JStr ''sig'')"
    by (simp_all add: sample_cancel_def map_get_def)
  have v: "verifySignedMessage sample_crypto ''GA'' msg ''sig''" for msg
    by (simp add: verifySignedMessage_def decodeSignature_def js_trim_def is_space_def sample_crypto_def)
  have a: "isValidEd25519PublicKey sample_crypto ''GA''" by (simp add: sample_crypto_def)
  have l: "rateLimit (in_limiter metered_intake) t k 60 bs = (True, bs)" for t k bs
    by (simp add: rateLimit_def distributedRateLimit_def metered_intake_def json_or_def)
  have m: "in_now metered_intake = 1000000" "in_cfg metered_intake = default_config" "in_crypto metered_intake = sample_crypto"
      "in_dbUrl metered_intake = Some ''db''" "in_fail metered_intake = (\<lambda>_ _. None)"
    by (simp_all add: metered_intake_def)
  show ?thesis
    using sample_not_large f v a
    by (cases s) (auto simp: sample_cancel_act_def POST_cancel_def sample_cancel_nonce withRetry_def eval_nat_numeral
        cancel_attempt_def Let_def case_prod_beta MAX_BIGINT_def l m)
qed

theorem exchange_always_sound_witness:
  "row_signed sample_crypto default_config (row_of 1000000 sample_order (Some ''sig''))"
  using exchange_always_sound [OF sample_reach] by (simp add: sample_placed_row)

theorem only_the_owner_cancels_witness:
  "\<exists>V req b sig. sample_cancel_act = Cancel V req \<and> req_body req = Some b \<and> js_field b ''signature'' = Some (JStr sig) \<and>
     verifySignedMessage sample_crypto ''GA''
       (cancelSigningMessage (passphrase (NETWORK_cfg default_config)) ''GA'' (show_int 7)) sig"
proof -
  let ?r = "row_of 1000000 sample_order (Some ''sig'')"
  have own: "owner ?r = ''GA''" "nonce ?r = 7" by (simp_all add: sample_order_def)
  have sh: "shares sample_crypto default_config sample_cancel_act" by (simp add: sample_cancel_act_def metered_intake_def)
  have after: "cancel_row ?r \<in> set (db_orders (snd (act sample_cancel_act (act sample_place ([], empty_db)))))"
    unfolding sample_cancelled cancel_orders_def using own by (simp add: sample_placed_row)
  show ?thesis
    using only_the_owner_cancels [OF sample_reach sh _ _ after, of ?r] own
    by (simp add: sample_placed_row cancel_row_def)
qed

end
