(* ===== verification/Exchange_Types.thy ===== *)
theory Exchange_Types
  imports Exchange_System
begin

text \<open>
  The types of the stored rows. The Prisma schema declares what a row of \<open>Order\<close> and \<open>Fill\<close> may hold: \<open>BIGINT\<close>
  columns, an identifier made of owner and nonce, a unique pair of owner and nonce, an account for every owner. Some of
  it the database enforces, the rest only the code that writes the rows. Every service keeps it.
\<close>

subsection \<open>Well-typed rows\<close>

text \<open>An order was in bounds when it was created, fits its columns and is named after its owner and nonce.\<close>

definition typed_order :: "config \<Rightarrow> order_row \<Rightarrow> bool" where
  "typed_order cfg r \<longleftrightarrow> oid r = order_id (owner r) (nonce r) \<and> order_in_bounds cfg (createdAt r) (order_intent.truncate r) \<and>
     nonce r \<le> MAX_BIGINT \<and> expiryTs r \<le> MAX_BIGINT"

text \<open>A fill has a size and a price and joins stored orders of two owners in its market.\<close>

definition names_order :: "order_row list \<Rightarrow> string \<Rightarrow> int \<Rightarrow> int \<Rightarrow> bool" where
  "names_order t own n mkt \<longleftrightarrow> (\<exists>r \<in> set t. owner r = own \<and> nonce r = n \<and> marketId r = mkt)"

definition typed_fill :: "order_row list \<Rightarrow> fill_row \<Rightarrow> bool" where
  "typed_fill t f \<longleftrightarrow> 0 < f_size f \<and> 0 < f_price f \<and> f_maker f \<noteq> f_taker f \<and>
     names_order t (f_maker f) (f_makerNonce f) (f_marketId f) \<and> names_order t (f_taker f) (f_takerNonce f) (f_marketId f)"

definition has_account :: "database \<Rightarrow> string \<Rightarrow> bool" where
  "has_account d own \<longleftrightarrow> (\<exists>a \<in> set (db_accounts d). a_address a = own)"

definition typed_db :: "config \<Rightarrow> database \<Rightarrow> bool" where
  "typed_db cfg d \<longleftrightarrow> (\<forall>r \<in> set (db_orders d). typed_order cfg r \<and> has_account d (owner r)) \<and>
     (\<forall>f \<in> set (db_fills d). typed_fill (db_orders d) f) \<and> distinct (map a_address (db_accounts d))"

subsection \<open>What most statements leave alone\<close>

definition stored_part :: "order_row \<Rightarrow> string \<times> int \<times> order_intent" where
  "stored_part r = (oid r, createdAt r, order_intent.truncate r)"

definition fill_part :: "fill_row \<Rightarrow> (int \<times> int \<times> int) \<times> (string \<times> int) \<times> string \<times> int" where
  "fill_part f = ((f_marketId f, f_size f, f_price f), (f_maker f, f_makerNonce f), f_taker f, f_takerNonce f)"

definition same_types :: "database \<Rightarrow> database \<Rightarrow> bool" where
  "same_types d d' \<longleftrightarrow> map stored_part (db_orders d') = map stored_part (db_orders d) \<and> db_accounts d' = db_accounts d \<and>
     fill_part ` set (db_fills d') \<subseteq> fill_part ` set (db_fills d)"

lemma same_types_refl [simp, intro]: "same_types d d"
  by (simp add: same_types_def)

lemma same_types_trans: 
  assumes "same_types a b" and "same_types b c"
  shows "same_types a c"
  using subset_trans [of "fill_part ` set (db_fills c)" "fill_part ` set (db_fills b)" "fill_part ` set (db_fills a)"] assms
  unfolding same_types_def by argo

lemma stored_part_sel: "owner r = owner (snd (snd (stored_part r)))" "nonce r = nonce (snd (snd (stored_part r)))"
    "marketId r = marketId (snd (snd (stored_part r)))"
  by (simp_all add: stored_part_def order_intent.defs)

lemma stored_part_owner: "stored_part r = stored_part r' \<Longrightarrow> owner r = owner r'"
  using stored_part_sel(1) [of r] stored_part_sel(1) [of r'] by simp

lemma names_order_parts: "names_order t own n mkt \<longleftrightarrow> (\<exists>q \<in> stored_part ` set t. owner (snd (snd q)) = own \<and> nonce (snd (snd q)) = n \<and> marketId (snd (snd q)) = mkt)"
  unfolding names_order_def by (auto simp flip: stored_part_sel)

lemma typed_order_part: "stored_part r = stored_part r' \<Longrightarrow> typed_order cfg r = typed_order cfg r'"
  unfolding typed_order_def stored_part_def by (auto simp: order_intent.defs)

lemma typed_fill_parts:
  assumes "fill_part f = fill_part f'" and "stored_part ` set t = stored_part ` set t'"
  shows "typed_fill t f = typed_fill t' f'"
  unfolding typed_fill_def names_order_parts assms(2) using assms(1) by (simp add: fill_part_def)

lemma same_types_keeps:
  assumes "same_types d d'" and "typed_db cfg d"
  shows "typed_db cfg d'"
proof -
  have m: "map stored_part (db_orders d') = map stored_part (db_orders d)" and a: "db_accounts d' = db_accounts d"
    and f: "fill_part ` set (db_fills d') \<subseteq> fill_part ` set (db_fills d)" using assms(1) by (simp_all add: same_types_def)
  have s: "stored_part ` set (db_orders d') = stored_part ` set (db_orders d)" using arg_cong [OF m, of set] by simp
  have "typed_order cfg r' \<and> has_account d' (owner r')" if "r' \<in> set (db_orders d')" for r'
  proof -
    have "stored_part r' \<in> stored_part ` set (db_orders d)" using that s by blast
    then obtain r where r: "r \<in> set (db_orders d)" "stored_part r' = stored_part r" by blast
    then show ?thesis
      using assms(2) typed_order_part [OF r(2)] stored_part_owner [OF r(2)] a by (simp add: typed_db_def has_account_def)
  qed
  moreover have "typed_fill (db_orders d') g'" if "g' \<in> set (db_fills d')" for g'
  proof -
    have "fill_part g' \<in> fill_part ` set (db_fills d)" using that f by blast
    then obtain g where g: "g \<in> set (db_fills d)" "fill_part g' = fill_part g" by blast
    then show ?thesis using assms(2) typed_fill_parts [OF g(2) s] by (simp add: typed_db_def)
  qed
  ultimately show ?thesis using assms(2) a by (simp add: typed_db_def)
qed

lemma stored_part_updates [simp]:
  "stored_part (add_filled n r) = stored_part r" "stored_part (sub_filled n r) = stored_part r" "stored_part (cancel_row r) = stored_part r"
  "stored_part (r\<lparr> cancelled := b \<rparr>) = stored_part r"
  by (simp_all add: stored_part_def add_filled_def sub_filled_def cancel_row_def order_intent.defs)

lemma job_same_types: "same_types d (update_jobs P f d)"
  by (simp add: same_types_def update_jobs_def)

lemma statement_same_types:
  "same_types d (record_hash t i h d)" "same_types d (mark_failed P t m d)" "same_types d (mark_confirmed P t d)"
  "same_types d (snd (claim_where P t d))" "same_types d (delete_fills net h d)" "same_types d (release_order data a k n d)"
  "same_types d (update_fills Q (settle_fill_row h' l) d)" "same_types d (cancel_orders own nn d)"
proof -
  show "same_types d (record_hash t i h d)" "same_types d (mark_failed P t m d)" "same_types d (mark_confirmed P t d)"
    "same_types d (snd (claim_where P t d))"
    by (simp_all add: record_hash_def mark_failed_def mark_confirmed_def claim_where_def job_same_types)
  show "same_types d (delete_fills net h d)" by (auto simp: same_types_def delete_fills_def delete_where_def)
  show "same_types d (release_order data a k n d)" by (simp add: same_types_def release_order_def map_update_where)
  show "same_types d (cancel_orders own nn d)" by (simp add: same_types_def cancel_orders_def map_update_where)
  show "same_types d (update_fills Q (settle_fill_row h' l) d)"
    by (auto simp: same_types_def update_fills_def set_update_where settle_fill_row_def fill_part_def)
qed

lemmas then_same_types = same_types_trans [OF _ statement_same_types(1)] same_types_trans [OF _ statement_same_types(2)]
  same_types_trans [OF _ statement_same_types(3)] same_types_trans [OF _ statement_same_types(4)]
  same_types_trans [OF _ statement_same_types(5)] same_types_trans [OF _ statement_same_types(6)]
  same_types_trans [OF _ statement_same_types(7)]

subsection \<open>The reconciler and the sign route\<close>

lemma poll_same_types: "same_types d (snd (resubmit_poll R job h i k d))"
proof (induction k arbitrary: i)
  case 0
  then show ?case by simp
next
  case (Suc k)
  then show ?case
    by (simp add: Let_def then_same_types statement_same_types split: sum.split poll_status.split)
qed

lemma resubmit_same_types: "same_types d (snd (resubmitJob R job d))"
proof -
  obtain won d1 where cl: "claim_where (resubmit_claim (j_id job)) (rc_now R) d = (won, d1)" by force
  have 1: "same_types d d1" using statement_same_types(4) [of d "resubmit_claim (j_id job)" "rc_now R"] cl by simp
  have p: "same_types d (snd (resubmit_poll R job x 0 10 (record_hash t i x d1)))" for t i x
    by (rule same_types_trans [OF then_same_types(1) [OF 1] poll_same_types])
  show ?thesis
    using 1 p then_same_types(2) [OF 1] then_same_types(2) [OF p]
    by (cases won) (simp_all add: resubmitJob_def Let_def cl case_prod_beta split: sum.split)
qed

lemma reconcile_same_types: "same_types d (snd (reconcileSubmitted R job d))"
  by (simp add: reconcileSubmitted_def Let_def statement_same_types then_same_types resubmit_same_types
      split: sum.split poll_status.split)

lemma expire_same_types: "same_types d (snd (expire_job R job d))"
proof -
  have u: "same_types d (snd (undo_fill fails job d))" for fails
    by (simp add: undo_fill_def Let_def statement_same_types then_same_types split: option.split)
  then show ?thesis
    using then_same_types(2) [OF u [of "rc_fail R ''expire'' (j_id job)"]]
    by (simp add: expire_job_def Let_def case_prod_beta split: bool.split)
qed

lemma recon_same_types: "same_types d (snd (recon_tick R d))"
proof -
  have k: "same_types e (snd (each_job f js d'))" if "\<And>j d. same_types d (snd (f j d))" "same_types e d'" for f js d' e
    by (rule each_job_keeps [where I = "same_types e"]) (auto intro: that same_types_trans)
  note 1 = k [of "reconcileSubmitted R", OF reconcile_same_types same_types_refl]
  note 2 = k [of "resubmitJob R", OF resubmit_same_types 1]
  note 3 = k [of "expire_job R", OF expire_same_types 2]
  show ?thesis
    unfolding recon_tick_def expireStaleQueued_def case_prod_beta using 1 2 3 by (simp split: bool.split)
qed

lemma sign_same_types:
  assumes "POST_sign G req i (bs, d) = (resp, bs1, d1)"
  shows "same_types d d1"
proof -
  have merged: "same_types e (snd (sign_merged G k data e))" for k data e
  proof -
    have sub: "same_types e (snd (submit_claimed G k data e'))" if "same_types e e'" for e'
      using that then_same_types(1,2) [OF that] by (simp add: submit_claimed_def split: sum.split)
    have "same_types e (snd (claim_queued t k e))" for t by (simp add: claim_queued_def statement_same_types)
    then have "same_types e e'" if "claim_queued t k e = (w, e')" for t w e' using that by (metis snd_conv)
    then show ?thesis using sub unfolding sign_merged_def by (auto split: prod.split bool.split)
  qed
  have "same_types e (snd (merge_entry t k b x e))" for t k b x e
    by (simp add: merge_entry_def job_same_types split: list.split option.split)
  then have m: "same_types e e'" if "merge_entry t k b x e = (w, e')" for t k b x e w e' using that by (metis snd_conv)
  have "same_types d (snd (sign_loaded G k job addr x d))" for k job addr x
    unfolding sign_loaded_def Let_def
    by (auto split: option.split prod.split dest!: m intro: same_types_trans [OF _ merged])
  then have l: "same_types d d'" if "sign_loaded G k job addr x d = (w, d')" for k job addr x w d' using that by (metis snd_conv)
  show ?thesis using assms unfolding POST_sign_def Let_def
    by (auto split: if_splits option.splits prod.splits dest!: l)
qed

subsection \<open>The matcher\<close>

lemma matcher_same_types:
  "same_types d (snd (increment_filled k n d))" "same_types d (decrement_filled k n d)" "same_types d (update_market m d)"
  "same_types d (snd (executeSettlement E m d))" "same_types d (cancelPoisonOrder k d)"
proof -
  show "same_types d (snd (increment_filled k n d))" "same_types d (decrement_filled k n d)" "same_types d (update_market m d)"
      "same_types d (cancelPoisonOrder k d)"
    by (simp_all add: same_types_def increment_filled_def decrement_filled_def update_market_def cancelPoisonOrder_def map_update_where)
  have "db_accounts (snd (executeSettlement E m d)) = db_accounts d"
    unfolding executeSettlement_def Let_def upsert_job_def by (auto split: option.splits)
  then show "same_types d (snd (executeSettlement E m d))" by (simp add: same_types_def executeSettlement_tables)
qed

text \<open>A match over a sound, well-typed book becomes a well-typed fill.\<close>

lemma match_typed:
  assumes "orders_ok (db_orders d)" and "typed_db cfg d" and m: "m \<in> set (market_matches E mkt d)"
    and "loadOraclePrice mkt d = Some p" and "withinOracleBand (me_maxDeviation E) (fillPrice m) p"
  shows "0 < fillSize m \<and> typed_fill (db_orders d) (fill_of net now m)"
proof -
  have sub: "set (inBandLimits E (loadOraclePrice mkt d) ls) \<subseteq> set ls" for ls
    using inBandLimits_filter [of E "loadOraclePrice mkt d" ls] by auto
  note b = matchAll_basic [OF market_matches_book [OF assms(1)] m [unfolded market_matches_def]]
  then have mk: "maker m \<in> set (loadRestingOrders (me_now E) mkt d)" using sub by blast
  have tk: "taker m \<in> set (loadRestingOrders (me_now E) mkt d) \<union> set (loadMarketOrders (me_now E) mkt d)" using b sub by blast
  obtain r where r: "r \<in> set (db_orders d)" "maker m = mapOrderRow r" "marketId r = mkt" "limitPrice r \<noteq> 0"
    using mk by (auto simp: set_loadRestingOrders open_row_def)
  obtain q where q: "q \<in> set (db_orders d)" "taker m = mapOrderRow q" "marketId q = mkt"
    using tk by (auto simp: set_loadRestingOrders set_loadMarketOrders open_row_def)
  have "typed_order cfg r" using assms(2) r(1) by (simp add: typed_db_def)
  then have "0 \<le> limitPrice r" by (simp add: typed_order_def order_in_bounds_def order_intent.defs)
  then show ?thesis
    using b r q by (auto simp: typed_fill_def fill_of_def names_order_def mapOrderRow_def)
qed

text \<open>What a tick keeps: the stored parts \<open>S\<close> of the orders, the accounts \<open>A\<close>, and the types.\<close>

definition typed_book :: "config \<Rightarrow> (string \<times> int \<times> order_intent) list \<Rightarrow> account_row list \<Rightarrow> database \<Rightarrow> bool" where
  "typed_book cfg S A d \<longleftrightarrow> orders_ok (db_orders d) \<and> typed_db cfg d \<and> map stored_part (db_orders d) = S \<and> db_accounts d = A"

definition typed_match :: "matcher_env \<Rightarrow> (string \<times> int \<times> order_intent) list \<Rightarrow> match_result \<Rightarrow> bool" where
  "typed_match E S m \<longleftrightarrow> 0 < fillSize m \<and>
     (\<forall>t. map stored_part t = S \<longrightarrow> typed_fill t (fill_of (me_network E) (me_now E) m))"

lemma typed_book_same: "same_types d d' \<Longrightarrow> orders_ok (db_orders d') \<Longrightarrow> typed_book cfg S A d \<Longrightarrow> typed_book cfg S A d'"
  using same_types_keeps [of d d' cfg] by (simp add: typed_book_def same_types_def)

interpretation typed: tick_invariant E "typed_book cfg S A" "typed_match E S" for E cfg S A
proof unfold_locales
  fix d m mkt p
  assume d: "typed_book cfg S A d" and m: "m \<in> set (market_matches E mkt d)"
    and p: "loadOraclePrice mkt d = Some p" "withinOracleBand (me_maxDeviation E) (fillPrice m) p"
  have f: "0 < fillSize m \<and> typed_fill (db_orders d) (fill_of (me_network E) (me_now E) m)"
    using d m p match_typed [of d cfg m E mkt p] by (simp add: typed_book_def)
  have "typed_fill t (fill_of (me_network E) (me_now E) m)" if "map stored_part t = S" for t
  proof -
    have "map stored_part t = map stored_part (db_orders d)" using that d by (simp add: typed_book_def)
    then have "stored_part ` set t = stored_part ` set (db_orders d)" by (metis list.set_map)
    then show ?thesis using f typed_fill_parts [OF refl] by blast
  qed
  then show "typed_match E S m" using f by (simp add: typed_match_def)
next
  fix d m assume "typed_book cfg S A d" "typed_match E S m"
  then show "typed_book cfg S A (d\<lparr> db_fills := db_fills d @ [fill_of (me_network E) (me_now E) m] \<rparr>)"
    by (auto simp: typed_book_def typed_match_def typed_db_def has_account_def)
next
  fix d net h assume d: "typed_book cfg S A d"
  have "db_orders (delete_fills net h d) = db_orders d" by (simp add: delete_fills_def)
  then show "typed_book cfg S A (delete_fills net h d)"
    using d typed_book_same [OF statement_same_types(5) [of d net h] _ d] by (simp add: typed_book_def)
next
  fix d m k assume d: "typed_book cfg S A d" and m: "typed_match E S m"
  have ok: "orders_ok (db_orders d)" and n: "0 < fillSize m" using d m by (simp_all add: typed_book_def typed_match_def)
  show "typed_book cfg S A (snd (increment_filled k (fillSize m) d))" by (rule typed_book_same [OF matcher_same_types(1) orders_increment [OF ok n] d])
  show "typed_book cfg S A (decrement_filled k (fillSize m) d)" by (rule typed_book_same [OF matcher_same_types(2) orders_decrement [OF ok n] d])
  show "typed_book cfg S A (update_market m d)" using ok by (intro typed_book_same [OF matcher_same_types(3) _ d]) (simp add: update_market_def)
  show "typed_book cfg S A (snd (executeSettlement E m d))" using ok by (intro typed_book_same [OF matcher_same_types(4) _ d]) (simp add: executeSettlement_tables)
next
  fix d sd assume d: "typed_book cfg S A d"
  then have "orders_ok (db_orders d)" by (simp add: typed_book_def)
  then show "typed_book cfg S A (cancelPoisonOrder (oid sd) d)" by (intro typed_book_same [OF matcher_same_types(5) orders_cancel d])
qed

subsection \<open>Placing an order\<close>

lemma typed_insert_account: "typed_db cfg d \<Longrightarrow> typed_db cfg (insert_account now own d)"
  by (auto simp: typed_db_def has_account_def insert_account_def insert_unless_def)

lemma insert_account_has: "has_account (insert_account now own d) own"
  by (auto simp: has_account_def insert_account_def insert_unless_def)

lemma names_order_mono: "set t \<subseteq> set t' \<Longrightarrow> names_order t own n mkt \<Longrightarrow> names_order t' own n mkt"
  by (auto simp: names_order_def)

lemma typed_fill_mono: "set t \<subseteq> set t' \<Longrightarrow> typed_fill t f \<Longrightarrow> typed_fill t' f"
  using names_order_mono by (auto simp: typed_fill_def)

lemma typed_place_attempt:
  assumes "typed_db cfg d" and "order_in_bounds cfg (in_now V) o'"
  shows "typed_db cfg (snd (place_attempt V o' sig i d))"
proof -
  let ?d1 = "insert_account (in_now V) (owner o') d" and ?r = "row_of (in_now V) o' sig"
  have d1: "typed_db cfg ?d1" by (rule typed_insert_account [OF assms(1)])
  have "typed_db cfg (?d1\<lparr> db_orders := db_orders ?d1 @ [?r] \<rparr>)"
    if "\<not> (MAX_BIGINT < nonce ?r \<or> MAX_BIGINT < expiryTs ?r)"
  proof -
    have "createdAt ?r = in_now V" by (simp add: row_of_def)
    then have "typed_order cfg ?r" using that assms(2) by (simp add: typed_order_def)
    moreover have "has_account ?d1 (owner ?r)" by (simp add: insert_account_has)
    moreover have "typed_fill (db_orders ?d1) f \<Longrightarrow> typed_fill (db_orders ?d1 @ [?r]) f" for f
      by (rule typed_fill_mono [where t = "db_orders ?d1"]) auto
    ultimately show ?thesis using d1 by (auto simp: typed_db_def has_account_def)
  qed
  then show ?thesis
    using assms(1) d1 by (simp add: place_attempt_def insert_order_def Let_def split: option.split)
qed

lemma typed_place:
  assumes "typed_db (in_cfg V) d" and "POST_order V req (bs, d) = (resp, bs1, d1)"
  shows "typed_db (in_cfg V) d1"
  using assms(2)
proof (cases rule: POST_order_cases)
  case refused
  then show ?thesis using assms(1) by simp
next
  case (run b o' res)
  have bounds: "order_in_bounds (in_cfg V) (in_now V) o'" using validate_Accepted [OF run(2)] by blast
  have "typed_db (in_cfg V) (snd (retry_from (place_attempt V o' (body_signature b)) 0 3 d))"
    by (rule retry_invariant) (auto intro: typed_place_attempt bounds assms(1))
  then show ?thesis using run(3) by (simp add: withRetry_def)
qed

subsection \<open>Preservation\<close>

lemma typed_act:
  assumes "exchange_ok c cfg (snd s)" and "typed_db cfg (snd s)" and "shares c cfg a"
  shows "typed_db cfg (snd (act a s))"
proof -
  obtain bs d where s: "s = (bs, d)" by force
  note d = assms(2) [unfolded s, simplified]
  show ?thesis
  proof (cases a)
    case (Place V req)
    obtain resp bs1 d1 where run: "POST_order V req (bs, d) = (resp, bs1, d1)" using prod_cases3 by blast
    show ?thesis using assms(3) typed_place [OF _ run] d run s Place by simp
  next
    case (Cancel V req)
    obtain resp bs1 d1 where run: "POST_cancel V req (bs, d) = (resp, bs1, d1)" using prod_cases3 by blast
    have "d1 = d \<or> (\<exists>own n. d1 = cancel_orders own n d)" using POST_cancel_effect [OF run] by blast
    then have "same_types d d1" using statement_same_types(8) by auto
    then show ?thesis using same_types_keeps d run s Cancel by auto
  next
    case (Match E)
    have "typed_book cfg (map stored_part (db_orders d)) (db_accounts d) d"
      using assms(1) d s by (simp add: typed_book_def exchange_ok_def)
    then have "typed_book cfg (map stored_part (db_orders d)) (db_accounts d) (snd (tick E d))" by (rule typed.whole_tick)
    then show ?thesis using s Match by (simp add: typed_book_def)
  next
    case (Sign G req i)
    obtain resp bs1 d1 where run: "POST_sign G req i (bs, d) = (resp, bs1, d1)" using prod_cases3 by blast
    show ?thesis using same_types_keeps [OF sign_same_types [OF run] d] run s Sign by simp
  next
    case (Reconcile R)
    then show ?thesis using same_types_keeps [OF recon_same_types d] s by simp
  next
    case (Index ms)
    then show ?thesis using d s by (simp add: typed_db_def has_account_def)
  qed
qed

text \<open>
  C3. Type preservation for the stored rows: in every reachable state of the exchange every order was in bounds when it
  was created, fits its \<open>BIGINT\<close> columns, is named after its owner and nonce, which no other row has, and has an
  account; every fill has a positive size and price and joins stored orders of two different owners in its market.
\<close>

theorem stored_rows_well_typed:
  assumes "exchange_reach c cfg s"
  shows "typed_db cfg (snd s) \<and> distinct (map (\<lambda>r. (owner r, nonce r)) (db_orders (snd s)))"
proof -
  have t: "typed_db cfg (snd s)" using assms
  proof (induction rule: exchange_reach.induct)
    case start
    show ?case by (simp add: typed_db_def empty_db_def)
  next
    case (step s a)
    show ?case by (rule typed_act [OF exchange_ok_reach [OF step(1)] step(3,2)])
  qed
  have "distinct (map oid (db_orders (snd s)))"
    using exchange_ok_reach [OF assms] by (simp add: exchange_ok_def orders_ok_def)
  moreover have "map oid (db_orders (snd s)) = map (\<lambda>(x, n). order_id x n) (map (\<lambda>r. (owner r, nonce r)) (db_orders (snd s)))"
    using t by (simp add: typed_db_def typed_order_def)
  ultimately show ?thesis using t by (simp add: distinct_map comp_inj_on_iff [symmetric] del: map_map)
qed

theorem stored_rows_well_typed_witness:
  "typed_order default_config (row_of 1000000 sample_order (Some ''sig'')) \<and> nonce (row_of 1000000 sample_order (Some ''sig'')) = 7"
  using stored_rows_well_typed [OF sample_reach] by (simp add: sample_placed_row typed_db_def sample_order_def)

end
