(* ===== verification/Exchange_Jobs.thy ===== *)
theory Exchange_Jobs
  imports Exchange_System
begin

text \<open>
  The settlement jobs of the whole exchange. The API accepts only orders with a settlement signature, so the matcher
  settles every match directly: the queue of jobs that wait for the wallets stays empty, and what serves it never acts.
\<close>

subsection \<open>Directly settled jobs\<close>

definition direct_jobs :: "database \<Rightarrow> bool" where
  "direct_jobs d \<longleftrightarrow> (\<forall>j \<in> set (db_jobs d). j_status j = CONFIRMED \<and> j_submittedHash j \<noteq> None)"

lemma direct_jobs_cong: "db_jobs d' = db_jobs d \<Longrightarrow> direct_jobs d' = direct_jobs d"
  by (simp add: direct_jobs_def)

lemma direct_jobs_tables [simp]:
  "direct_jobs (d\<lparr> db_fills := f \<rparr>) = direct_jobs d" "direct_jobs (d\<lparr> db_markets := ms \<rparr>) = direct_jobs d"
  "direct_jobs (delete_fills net h d) = direct_jobs d" "direct_jobs (snd (increment_filled k n d)) = direct_jobs d"
  "direct_jobs (decrement_filled k n d) = direct_jobs d" "direct_jobs (update_market m d) = direct_jobs d"
  "direct_jobs (cancelPoisonOrder k d) = direct_jobs d" "direct_jobs (cancel_orders own nn d) = direct_jobs d"
  by (simp_all add: direct_jobs_def delete_fills_def increment_filled_def decrement_filled_def update_market_def
      cancelPoisonOrder_def cancel_orders_def)

lemma direct_settle:
  assumes "direct_jobs d" and "\<not> falsy_str (signature (maker m))" and "\<not> falsy_str (signature (taker m))"
  shows "direct_jobs (snd (executeSettlement E m d))"
  using assms
  by (auto simp: executeSettlement_def Let_def upsert_job_def new_job_def direct_jobs_def set_update_where split: option.split)

subsection \<open>The matcher\<close>

text \<open>Decoding the empty text as base64 gives no bytes, so an empty signature never verifies.\<close>

lemma signed_not_empty:
  assumes "base64_bytes c [] = []" and "row_signed c cfg r"
  shows "\<not> falsy_str (signature r)"
proof -
  obtain sig where sig: "signature r = Some sig" "settlement_signed c cfg (order_intent.truncate r) sig"
    using assms(2) by (auto simp: row_signed_def)
  have "\<not> verifySignedMessage c own msg []" for own msg
    using assms(1) by (simp add: verifySignedMessage_def decodeSignature_def js_trim_def)
  then show ?thesis using sig by (auto simp: settlement_signed_def)
qed

definition direct_state :: "matcher_env \<Rightarrow> (string \<times> bool) list \<Rightarrow> database \<Rightarrow> bool" where
  "direct_state E flags d \<longleftrightarrow> base64_bytes (me_crypto E) [] = [] \<and> honest E flags d \<and> direct_jobs d"

definition direct_match :: "matcher_env \<Rightarrow> match_result \<Rightarrow> bool" where
  "direct_match E m \<longleftrightarrow> honest_match E m \<and> \<not> falsy_str (signature (maker m)) \<and> \<not> falsy_str (signature (taker m))"

interpretation direct: tick_invariant E "direct_state E flags" "direct_match E" for E flags
proof unfold_locales
  fix d m mkt p
  assume d: "direct_state E flags d" and m: "m \<in> set (market_matches E mkt d)"
    and p: "loadOraclePrice mkt d = Some p" "withinOracleBand (me_maxDeviation E) (fillPrice m) p"
  have ok: "orders_ok (db_orders d)" and signed: "\<forall>r \<in> set (db_orders d). row_signed (me_crypto E) (me_cfg E) r"
    using d by (auto simp: direct_state_def honest_def exchange_ok_def signed_rows_def)
  have s: "\<not> falsy_str (signature o')"
    if mem: "o' \<in> set (loadRestingOrders (me_now E) mkt d) \<union> set (loadMarketOrders (me_now E) mkt d)" for o'
  proof -
    obtain r where r: "r \<in> set (db_orders d)" "o' = mapOrderRow r"
      using mem unfolding set_loadRestingOrders set_loadMarketOrders by blast
    have "\<not> falsy_str (signature r)" using signed_not_empty d signed r(1) by (auto simp: direct_state_def)
    then show ?thesis using r(2) by (simp add: mapOrderRow_def)
  qed
  have "maker m \<in> set (loadRestingOrders (me_now E) mkt d)"
      "taker m \<in> set (loadRestingOrders (me_now E) mkt d) \<union> set (loadMarketOrders (me_now E) mkt d)"
    using matchAll_basic [OF market_matches_book [OF ok] m [unfolded market_matches_def]]
      inBandLimits_filter [of E "loadOraclePrice mkt d" "loadRestingOrders (me_now E) mkt d"] by auto
  then show "direct_match E m" using s honest.reached [of E flags d m mkt p] d m p by (simp add: direct_match_def direct_state_def)
qed (auto simp: direct_state_def direct_match_def direct_settle honest.insert_fill honest.delete_fill honest.increment
      honest.decrement honest.market honest.settle intro: honest.cancel)

subsection \<open>The services behind the queue\<close>

lemma no_queued_rows:
  assumes "direct_jobs d" and "\<And>j. P j \<Longrightarrow> j_status j \<noteq> CONFIRMED"
  shows "settle_rows P d = []"
  using assms by (auto simp: settle_rows_def filter_empty_conv direct_jobs_def)

lemma direct_recon:
  assumes "direct_jobs d"
  shows "recon_tick R d = (\<not> select_fails R 0 \<and> \<not> select_fails R 1 \<and> \<not> select_fails R 2, d)"
proof -
  have "\<not> cast_fails d" using assms by (auto simp: cast_fails_def direct_jobs_def)
  moreover
  have "settle_rows (\<lambda>j. j_status j = SUBMITTED \<and> P j) d = []" "settle_rows (\<lambda>j. j_status j = QUEUED \<and> P j) d = []"
      "settle_rows (stale_before t n) d = []" for P t n
    by (rule no_queued_rows [OF assms], simp add: stale_before_def)+
  ultimately show ?thesis by (simp add: recon_tick_def expireStaleQueued_def)
qed

lemma direct_sign:
  assumes "direct_jobs d"
  shows "snd (snd (POST_sign G req i (bs, d))) = d"
proof -
  have "sign_loaded G k job addr x d = (Some (fail_resp 409 ''Already processed''), d)" if "load_job k' d = Some job" for G k k' job addr x
  proof -
    have "job \<in> set (db_jobs d)" using that by (auto simp: load_job_def find_row_def find_Some_iff)
    then have "j_status job = CONFIRMED" using assms by (simp add: direct_jobs_def)
    then show ?thesis by (simp add: sign_loaded_def)
  qed
  then show ?thesis unfolding POST_sign_def Let_def by (auto split: if_splits option.splits prod.splits)
qed

lemma direct_listing:
  assumes "direct_jobs d"
  shows "snd (fst (GET_settlements c L now fails req addr (bs, d))) = []"
proof -
  have "filter (\<lambda>j. j_kind j = settle_kind \<and> j_status j = QUEUED) (db_jobs d) = []"
    using assms by (auto simp: filter_empty_conv direct_jobs_def)
  then have "js_sort newest_first (filter (\<lambda>j. j_kind j = settle_kind \<and> j_status j = QUEUED) (db_jobs d)) = []" by (simp only: js_sort.simps)
  then show ?thesis by (simp add: GET_settlements_def Let_def map_filter_def case_prod_beta)
qed

lemma direct_place:
  assumes "direct_jobs d" and "POST_order V req (bs, d) = (resp, bs1, d1)"
  shows "direct_jobs d1"
  using assms(2)
proof (cases rule: POST_order_cases)
  case (run b o' res)
  obtain sig where "body_signature b = Some sig" using accepted_signature [OF run(2)] by blast
  then have "placed V o' (Some sig) d d1" using retry_placed [OF run(3)] by simp
  then show ?thesis using assms(1) direct_jobs_cong [of d1 d] by (simp add: placed_def)
qed (use assms(1) in simp)

subsection \<open>Preservation\<close>

lemma direct_act:
  assumes "exchange_ok c cfg (snd s)" and "direct_jobs (snd s)" and "shares c cfg a" and "base64_bytes c [] = []"
  shows "direct_jobs (snd (act a s))"
proof -
  obtain bs d where s: "s = (bs, d)" by force
  have d: "direct_jobs d" using assms(2) s by simp
  show ?thesis
  proof (cases a)
    case (Place V req)
    obtain resp bs1 d1 where run: "POST_order V req (bs, d) = (resp, bs1, d1)" using prod_cases3 by blast
    show ?thesis using direct_place [OF d run] run s Place by simp
  next
    case (Cancel V req)
    obtain resp bs1 d1 where run: "POST_cancel V req (bs, d) = (resp, bs1, d1)" using prod_cases3 by blast
    have "d1 = d \<or> (\<exists>own n. d1 = cancel_orders own n d)" using POST_cancel_effect [OF run] by blast
    then show ?thesis using d run s Cancel by auto
  next
    case (Match E)
    have "direct_state E (map (\<lambda>r. (oid r, cancelled r)) (db_orders d)) d"
      using assms s Match by (simp add: direct_state_def honest_def)
    then have "direct_state E (map (\<lambda>r. (oid r, cancelled r)) (db_orders d)) (snd (tick E d))" by (rule direct.whole_tick)
    then show ?thesis using s Match by (simp add: direct_state_def)
  qed (use d s direct_sign direct_recon in simp_all)
qed

lemma direct_reach: "exchange_reach c cfg s \<Longrightarrow> base64_bytes c [] = [] \<Longrightarrow> direct_jobs (snd s)"
proof (induction rule: exchange_reach.induct)
  case start
  show ?case by (simp add: direct_jobs_def empty_db_def)
next
  case (step s a)
  show ?case by (rule direct_act [OF exchange_ok_reach [OF step(1)] step(3) step(2)]) (rule step)+
qed

text \<open>
  C4. In every reachable state of the exchange each settlement job is confirmed and carries the hash of its transaction;
  no job ever waits for signatures: the list of settlements to sign is empty for every wallet, a sign request changes
  no row, and a tick of the reconciler changes nothing and succeeds exactly when its three queries run.
\<close>

theorem queue_never_used:
  assumes "exchange_reach c cfg s" and "base64_bytes c [] = []"
  shows "(\<forall>j \<in> set (db_jobs (snd s)). j_status j = CONFIRMED \<and> j_submittedHash j \<noteq> None) \<and>
    recon_tick R (snd s) = (\<not> select_fails R 0 \<and> \<not> select_fails R 1 \<and> \<not> select_fails R 2, snd s) \<and> snd (snd (POST_sign G req i s)) = snd s \<and>
    snd (fst (GET_settlements c' L now fails req' addr s)) = []"
proof -
  obtain bs d where s: "s = (bs, d)" by force
  have d: "direct_jobs d" using direct_reach [OF assms] s by simp
  show ?thesis using d direct_recon [OF d] direct_sign [OF d] direct_listing [OF d] s by (simp add: direct_jobs_def)
qed

subsection \<open>A concrete run\<close>

text \<open>Two wallets place orders that meet, the indexer writes a price, and the matcher ticks.\<close>

definition demo_crypto :: crypto where
  "demo_crypto = sample_sig_crypto\<lparr> base64_bytes := (\<lambda>s. if s = [] then [] else replicate 64 0) \<rparr>"

definition demo_order :: "string \<Rightarrow> bool \<Rightarrow> order_intent" where
  "demo_order who long = \<lparr> owner = who, marketId = 1, isLong = long, size = 3, limitPrice = 100, reduceOnly = False,
     nonce = 7, expiryTs = 1100 \<rparr>"

definition demo_place :: "string \<Rightarrow> bool \<Rightarrow> action" where
  "demo_place who long = Place (sample_intake\<lparr> in_crypto := demo_crypto \<rparr>) (sample_request (order_body (demo_order who long) ''sig''))"

definition demo_match :: action where
  "demo_match = Match (sample_env (Some ''s'')\<lparr> me_now := 1000000, me_crypto := demo_crypto \<rparr>)"

definition demo_state :: "buckets \<times> database" where
  "demo_state = act demo_match (act (Index [\<lparr> m_id = 1, m_lastPrice = 0, m_volume = 0, m_lastOraclePrice = 100 \<rparr>])
     (act (demo_place ''GT'' False) (act (demo_place ''GM'' True) ([], empty_db))))"

lemma demo_reach: "exchange_reach demo_crypto default_config demo_state"
  unfolding demo_state_def
  by (intro exchange_reach.step exchange_reach.start) (simp_all add: demo_place_def demo_match_def)

lemma demo_job: "map j_payloadHash (db_jobs (snd demo_state)) \<noteq> [] \<and> map (\<lambda>r. (oid r, filledSize r)) (db_orders (snd demo_state)) = [(''GM:7'', 3), (''GT:7'', 3)]"
  by code_simp

theorem queue_never_used_witness:
  "(\<exists>j \<in> set (db_jobs (snd demo_state)). j_status j = CONFIRMED \<and> j_submittedHash j \<noteq> None) \<and>
    recon_tick sample_recon (snd demo_state) = (True, snd demo_state)"
proof -
  have e: "base64_bytes demo_crypto [] = []" by (simp add: demo_crypto_def)
  obtain j js where "db_jobs (snd demo_state) = j # js" using demo_job by (cases "db_jobs (snd demo_state)") auto
  then show ?thesis using queue_never_used [OF demo_reach e] by (simp add: sample_recon_def)
qed

end
