(* ===== verification/Chain_Views.thy ===== *)
theory Chain_Views
  imports Settlement_Client
begin

text \<open>
  Reading contract state: \<open>client/lib/stellar/scval.ts\<close>, \<open>invoke.ts\<close>, \<open>contracts.ts\<close> and \<open>oracle.ts\<close>.
  A contract value reaches the code through \<open>scValToNative\<close> of the SDK; \<open>native\<close> is what that function
  yields, with the coercions \<open>BigInt\<close>, \<open>Number\<close>, \<open>String\<close> and \<open>Boolean\<close> the code applies to it. The
  answers of the RPC server are parameters.
\<close>

subsection \<open>Native values\<close>

datatype native =
    VNull
  | VBool bool
  | VNum number
  | VBig int
  | VStr string
  | VArr "native list"
  | VObj "(string \<times> native) list"

fun native_field :: "native \<Rightarrow> string \<Rightarrow> native option" where
  "native_field (VObj kvs) k = map_get kvs k"
| "native_field _ k = None"

fun native_string :: "native \<Rightarrow> string" where
  "native_string VNull = ''null''"
| "native_string (VBool b) = (if b then ''true'' else ''false'')"
| "native_string (VNum x) = js_number_to_string x"
| "native_string (VBig n) = show_int n"
| "native_string (VStr s) = s"
| "native_string (VArr xs) = js_join '','' (map (\<lambda>x. if x = VNull then [] else native_string x) xs)"
| "native_string (VObj _) = ''[object Object]''"

text \<open>\<open>v ?? d\<close>, \<open>v\<close> in a boolean context (also \<open>Boolean(v)\<close>), and \<open>Number(v)\<close>.\<close>

definition native_or :: "native option \<Rightarrow> native \<Rightarrow> native" where
  "native_or v d = (case v of None \<Rightarrow> d | Some x \<Rightarrow> if x = VNull then d else x)"

fun native_truthy :: "native option \<Rightarrow> bool" where
  "native_truthy None = False"
| "native_truthy (Some VNull) = False"
| "native_truthy (Some (VBool b)) = b"
| "native_truthy (Some (VNum x)) = js_truthy x"
| "native_truthy (Some (VBig n)) = (n \<noteq> 0)"
| "native_truthy (Some (VStr s)) = (s \<noteq> [])"
| "native_truthy (Some _) = True"

fun native_number :: "native \<Rightarrow> number" where
  "native_number VNull = Fin 0"
| "native_number (VBool b) = Fin (if b then 1 else 0)"
| "native_number (VNum x) = x"
| "native_number (VBig n) = number_of_bigint n"
| "native_number (VStr s) = string_to_number s"
| "native_number v = string_to_number (native_string v)"

text \<open>
  \<open>BigInt(s)\<close> of a string: blank is zero, then an optionally signed decimal or a radix literal; anything
  else is a SyntaxError (\<open>None\<close>).
\<close>

definition bigint_radix :: "int \<Rightarrow> string \<Rightarrow> int option" where
  "bigint_radix b s = (if s = [] then None else read_radix b s)"

definition bigint_of_string :: "string \<Rightarrow> int option" where
  "bigint_of_string s0 =
    (let s = js_trim s0 in
     if s = [] then Some 0
     else if take 2 s \<in> {''0x'', ''0X''} then bigint_radix 16 (drop 2 s)
     else if take 2 s \<in> {''0o'', ''0O''} then bigint_radix 8 (drop 2 s)
     else if take 2 s \<in> {''0b'', ''0B''} then bigint_radix 2 (drop 2 s)
     else if hd s = CHR ''+'' then (if all_digits (tl s) then Some (int (read_nat (tl s))) else None)
     else if signed_digits s then Some (read_int s) else None)"

fun native_bigint :: "native \<Rightarrow> int option" where
  "native_bigint VNull = None"
| "native_bigint (VBool b) = Some (if b then 1 else 0)"
| "native_bigint (VNum x) = bigint_of_number x"
| "native_bigint (VBig n) = Some n"
| "native_bigint (VStr s) = bigint_of_string s"
| "native_bigint v = bigint_of_string (native_string v)"

lemma digits_not_radix: "all_digits ds \<Longrightarrow> take 2 ds \<notin> {''0x'', ''0X'', ''0o'', ''0O'', ''0b'', ''0B''}"
  by (cases ds; cases "tl ds") (auto simp: all_digits_def is_digit_def)

lemma show_int_not_radix: "take 2 (show_int n) \<notin> {''0x'', ''0X'', ''0o'', ''0O'', ''0b'', ''0B''}"
proof (cases "n < 0")
  case True
  then show ?thesis by (auto simp: show_int_def)
next
  case False
  then have "show_int n = show_nat (nat n)" by (simp add: show_int_def)
  moreover have "all_digits (show_nat (nat n))" by (simp add: all_digits_def show_nat_digits)
  ultimately show ?thesis using digits_not_radix by simp
qed

text \<open>\<open>BigInt(String(b))\<close> of a BigInt is that BigInt.\<close>

lemma bigint_of_show_int [simp]: "bigint_of_string (show_int n) = Some n"
proof -
  have ne: "show_int n \<noteq> []" using signed_digits_show_int [of n] by auto
  have "hd (show_int n) \<noteq> CHR ''+''"
    using show_int_chars [of "hd (show_int n)" n] ne by (auto simp: is_digit_def)
  then show ?thesis
    using ne show_int_not_radix [of n] signed_digits_show_int [of n] by (simp add: bigint_of_string_def Let_def)
qed

subsection \<open>Simulated reads\<close>

text \<open>
  The RPC server's answer to a simulated call: it throws, reports a simulation error, or returns the
  value, if any. \<open>simulateRead\<close> yields an exception (\<open>None\<close>), \<open>null\<close> (\<open>Some None\<close>) or the value.
\<close>

datatype read_answer = ReadThrow | ReadError | ReadVal "native option"

type_synonym chain_reads = "string \<Rightarrow> string \<Rightarrow> scval list \<Rightarrow> read_answer"

definition simulateRead :: "chain_reads \<Rightarrow> string \<Rightarrow> string \<Rightarrow> scval list \<Rightarrow> native option option" where
  "simulateRead R contract method args = (case R contract method args of
     ReadThrow \<Rightarrow> None | ReadError \<Rightarrow> Some None | ReadVal v \<Rightarrow> Some v)"

text \<open>\<open>raw[k]\<close> throws on \<open>null\<close>; \<open>BigInt(String(raw[k] ?? "0"))\<close>, \<open>Number(raw[k] ?? 0)\<close>, and so on.\<close>

definition raw_field :: "native \<Rightarrow> string \<Rightarrow> native option option" where
  "raw_field raw k = (if raw = VNull then None else Some (native_field raw k))"

definition big_field :: "native \<Rightarrow> string \<Rightarrow> int option" where
  "big_field raw k = Option.bind (raw_field raw k) (\<lambda>v. bigint_of_string (native_string (native_or v (VStr ''0''))))"

definition num_field :: "native \<Rightarrow> string \<Rightarrow> number option" where
  "num_field raw k = Option.bind (raw_field raw k) (\<lambda>v. Some (native_number (native_or v (VNum (Fin 0)))))"

definition bool_field :: "native \<Rightarrow> string \<Rightarrow> bool option" where
  "bool_field raw k = Option.bind (raw_field raw k) (\<lambda>v. Some (native_truthy v))"

definition str_field :: "native \<Rightarrow> string \<Rightarrow> string option" where
  "str_field raw k = Option.bind (raw_field raw k) (\<lambda>v. Some (native_string (native_or v (VStr []))))"

subsection \<open>The views of the contracts\<close>

record raw_position =
  rp_positionId :: int
  rp_owner :: string
  rp_marketId :: number
  rp_size :: int
  rp_entryPrice :: int
  rp_margin :: int
  rp_isLong :: bool
  rp_lastFundingIndex :: int

record raw_funding =
  rf_longIndex :: int
  rf_shortIndex :: int
  rf_ratePerHour :: int
  rf_lastUpdated :: number

record raw_health =
  rh_equity :: int
  rh_usedMargin :: int
  rh_freeCollateral :: int
  rh_healthFactor :: int
  rh_liquidatable :: bool

definition parsePosition :: "native \<Rightarrow> raw_position option" where
  "parsePosition raw = do {
     pid \<leftarrow> big_field raw ''position_id'';
     own \<leftarrow> str_field raw ''owner'';
     mkt \<leftarrow> num_field raw ''market_id'';
     sz \<leftarrow> big_field raw ''size'';
     ep \<leftarrow> big_field raw ''entry_price'';
     mg \<leftarrow> big_field raw ''margin'';
     long \<leftarrow> bool_field raw ''is_long'';
     fi \<leftarrow> big_field raw ''last_funding_index'';
     Some \<lparr> rp_positionId = pid, rp_owner = own, rp_marketId = mkt, rp_size = sz, rp_entryPrice = ep,
       rp_margin = mg, rp_isLong = long, rp_lastFundingIndex = fi \<rparr> }"

fun map_opt :: "('a \<Rightarrow> 'b option) \<Rightarrow> 'a list \<Rightarrow> 'b list option" where
  "map_opt f [] = Some []"
| "map_opt f (x # xs) = (case f x of None \<Rightarrow> None | Some y \<Rightarrow> map_option ((#) y) (map_opt f xs))"

definition getPositions :: "chain_reads \<Rightarrow> contracts \<Rightarrow> string \<Rightarrow> raw_position list option" where
  "getPositions R C user = do {
     val \<leftarrow> simulateRead R (engine C) ''positions'' [ScAddress user];
     (case val of None \<Rightarrow> Some []
      | Some (VArr xs) \<Rightarrow> map_opt parsePosition xs
      | Some _ \<Rightarrow> None) }"

text \<open>\<open>val ? scValToI128(val) : 0n\<close> (a contract value is an object, so only \<open>null\<close> is false).\<close>

definition i128_or_zero :: "native option \<Rightarrow> int option" where
  "i128_or_zero v = (case v of None \<Rightarrow> Some 0 | Some x \<Rightarrow> native_bigint x)"

definition getOpenInterest :: "chain_reads \<Rightarrow> contracts \<Rightarrow> int \<Rightarrow> (int \<times> int \<times> int) option" where
  "getOpenInterest R C mkt = do {
     l \<leftarrow> simulateRead R (engine C) ''long_open_interest'' [ScU32 mkt];
     s \<leftarrow> simulateRead R (engine C) ''short_open_interest'' [ScU32 mkt];
     t \<leftarrow> simulateRead R (engine C) ''open_interest'' [ScU32 mkt];
     l' \<leftarrow> i128_or_zero l; s' \<leftarrow> i128_or_zero s; t' \<leftarrow> i128_or_zero t;
     Some (l', s', t') }"

definition getFundingState :: "chain_reads \<Rightarrow> contracts \<Rightarrow> int \<Rightarrow> raw_funding option" where
  "getFundingState R C mkt = do {
     val \<leftarrow> simulateRead R (engine C) ''funding_state'' [ScU32 mkt];
     (case val of
        None \<Rightarrow> Some \<lparr> rf_longIndex = 0, rf_shortIndex = 0, rf_ratePerHour = 0, rf_lastUpdated = Fin 0 \<rparr>
      | Some raw \<Rightarrow> do {
          li \<leftarrow> big_field raw ''long_index'';
          si \<leftarrow> big_field raw ''short_index'';
          rate \<leftarrow> big_field raw ''rate_per_hour'';
          upd \<leftarrow> num_field raw ''last_update'';
          Some \<lparr> rf_longIndex = li, rf_shortIndex = si, rf_ratePerHour = rate, rf_lastUpdated = upd \<rparr> }) }"

definition getBalance :: "chain_reads \<Rightarrow> contracts \<Rightarrow> string \<Rightarrow> string \<Rightarrow> int option" where
  "getBalance R C user asset = Option.bind
     (simulateRead R (vault C) ''balance_of'' [ScAddress user, ScAddress asset]) i128_or_zero"

definition getTokenBalance :: "chain_reads \<Rightarrow> string \<Rightarrow> string \<Rightarrow> int option" where
  "getTokenBalance R user asset = Option.bind (simulateRead R asset ''balance'' [ScAddress user]) i128_or_zero"

definition getAccountHealth :: "chain_reads \<Rightarrow> contracts \<Rightarrow> string \<Rightarrow> string \<Rightarrow> raw_health option option" where
  "getAccountHealth R C user asset = do {
     val \<leftarrow> simulateRead R (vault C) ''account_health'' [ScAddress user, ScAddress asset];
     (case val of None \<Rightarrow> Some None
      | Some raw \<Rightarrow> do {
          eq \<leftarrow> big_field raw ''equity'';
          um \<leftarrow> big_field raw ''initial_margin_required'';
          fc \<leftarrow> big_field raw ''free_collateral'';
          hf \<leftarrow> big_field raw ''margin_ratio'';
          lq \<leftarrow> bool_field raw ''liquidatable'';
          Some (Some \<lparr> rh_equity = eq, rh_usedMargin = um, rh_freeCollateral = fc, rh_healthFactor = hf,
            rh_liquidatable = lq \<rparr>) }) }"

definition isCancelled :: "chain_reads \<Rightarrow> contracts \<Rightarrow> string \<Rightarrow> int \<Rightarrow> bool option" where
  "isCancelled R C user n = do {
     val \<leftarrow> simulateRead R (orderGateway C) ''is_cancelled'' [ScAddress user, ScU64 n];
     Some (native_truthy val) }"

definition getOrderFilled :: "chain_reads \<Rightarrow> contracts \<Rightarrow> string \<Rightarrow> int \<Rightarrow> int option" where
  "getOrderFilled R C user n = Option.bind
     (simulateRead R (orderGateway C) ''filled'' [ScAddress user, ScU64 n]) i128_or_zero"

record oracle_result =
  or_price :: int
  or_confidence :: int
  or_publishTime :: number

text \<open>\<open>getOraclePrice\<close> catches every exception: it and \<open>null\<close> are both \<open>None\<close>.\<close>

definition getOraclePrice :: "chain_reads \<Rightarrow> contracts \<Rightarrow> string \<Rightarrow> oracle_result option" where
  "getOraclePrice R C asset = do {
     val \<leftarrow> simulateRead R (oracleAdapter C) ''get_price'' [ScSymbol asset, ScVoid];
     raw \<leftarrow> val;
     price \<leftarrow> raw_field raw ''price'';
     conf \<leftarrow> raw_field raw ''confidence'';
     pt \<leftarrow> num_field raw ''publish_time'';
     (case price of None \<Rightarrow> None
      | Some pv \<Rightarrow> if pv = VNull then None else do {
          p \<leftarrow> bigint_of_string (native_string pv);
          c \<leftarrow> (case conf of None \<Rightarrow> Some 0 | Some cv \<Rightarrow> bigint_of_string (native_string cv));
          Some \<lparr> or_price = p, or_confidence = c, or_publishTime = pt \<rparr> }) }"

subsection \<open>Invocations\<close>

text \<open>
  \<open>invokeContract\<close>: build on the source account, simulate, assemble, sign in the wallet, send, and poll
  once a second, thirty times. Each field answers one step, \<open>None\<close> being an exception.
\<close>

record invoke_io =
  iv_account :: "string \<Rightarrow> bool"
  iv_simError :: "string \<Rightarrow> string \<Rightarrow> scval list \<Rightarrow> string option option"
  iv_sign :: "string \<Rightarrow> bool"
  iv_sendError :: "string \<Rightarrow> string option option"
  iv_poll :: "string \<Rightarrow> nat \<Rightarrow> poll_status option"

primrec invoke_poll :: "(nat \<Rightarrow> poll_status option) \<Rightarrow> nat \<Rightarrow> nat \<Rightarrow> string + int" where
  "invoke_poll p i 0 = Inl ''Transaction polling timeout''"
| "invoke_poll p i (Suc n) = (case p i of
     None \<Rightarrow> Inl ''rpc error''
   | Some (PollSuccess ledger) \<Rightarrow> Inr ledger
   | Some PollFailed \<Rightarrow> Inl ''Transaction failed''
   | Some PollPending \<Rightarrow> invoke_poll p (Suc i) n)"

definition invokeContract :: "invoke_io \<Rightarrow> string \<Rightarrow> string \<Rightarrow> scval list \<Rightarrow> string \<Rightarrow> string + int" where
  "invokeContract io contract method args source =
    (if \<not> iv_account io source then Inl ''rpc error''
     else case iv_simError io contract method args of
       None \<Rightarrow> Inl ''rpc error''
     | Some (Some e) \<Rightarrow> Inl (''Simulation failed: '' @ e)
     | Some None \<Rightarrow>
         if \<not> iv_sign io source then Inl ''signing failed''
         else (case iv_sendError io method of
           None \<Rightarrow> Inl ''rpc error''
         | Some (Some e) \<Rightarrow> Inl (''Submit failed: '' @ e)
         | Some None \<Rightarrow> invoke_poll (iv_poll io method) 0 30))"

definition deposit :: "invoke_io \<Rightarrow> contracts \<Rightarrow> string \<Rightarrow> int \<Rightarrow> string \<Rightarrow> string + int" where
  "deposit io C user amount asset = invokeContract io (vault C) ''deposit'' [ScAddress user, ScAddress asset, ScI128 amount] user"

definition withdraw :: "invoke_io \<Rightarrow> contracts \<Rightarrow> string \<Rightarrow> int \<Rightarrow> string \<Rightarrow> string + int" where
  "withdraw io C user amount asset = invokeContract io (vault C) ''withdraw'' [ScAddress user, ScAddress asset, ScI128 amount] user"

definition cancelOrder :: "invoke_io \<Rightarrow> contracts \<Rightarrow> string \<Rightarrow> int \<Rightarrow> int \<Rightarrow> string + int" where
  "cancelOrder io C user n expiry = invokeContract io (orderGateway C) ''cancel_order'' [ScAddress user, ScU64 n, ScU64 expiry] user"

subsection \<open>What the views promise\<close>

text \<open>The struct the engine returns, and that parsing it gives the position back.\<close>

definition encode_position :: "raw_position \<Rightarrow> native" where
  "encode_position p = VObj
    [(''entry_price'', VBig (rp_entryPrice p)), (''is_long'', VBool (rp_isLong p)),
     (''last_funding_index'', VBig (rp_lastFundingIndex p)), (''margin'', VBig (rp_margin p)),
     (''market_id'', VNum (rp_marketId p)), (''owner'', VStr (rp_owner p)),
     (''position_id'', VBig (rp_positionId p)), (''size'', VBig (rp_size p))]"

lemmas field_defs = big_field_def num_field_def bool_field_def str_field_def raw_field_def native_or_def

lemma parse_encode_position: "parsePosition (encode_position p) = Some p"
  by (simp add: parsePosition_def encode_position_def field_defs map_get_def)

lemma map_opt_map: "(\<And>x. f (g x) = Some x) \<Longrightarrow> map_opt f (map g xs) = Some xs"
  by (induction xs) simp_all

text \<open>An invocation that returns polled a success within its thirty attempts.\<close>

lemma invoke_poll_success: "invoke_poll p i n = Inr l \<Longrightarrow> \<exists>j. i \<le> j \<and> j < i + n \<and> p j = Some (PollSuccess l)"
proof (induction n arbitrary: i)
  case (Suc n)
  show ?case
  proof (cases "p i = Some PollPending")
    case True
    with Suc.prems Suc.IH [of "Suc i"] obtain j where "Suc i \<le> j" "j < Suc i + n" "p j = Some (PollSuccess l)"
      by auto
    then show ?thesis by (intro exI [of _ j]) simp
  next
    case False
    with Suc.prems show ?thesis by (intro exI [of _ i]) (auto split: option.splits poll_status.splits)
  qed
qed simp

end
