(* ===== verification/Oracle_Keeper.thy ===== *)
theory Oracle_Keeper
  imports Settlement_Jobs
begin

text \<open>
  \<open>client/scripts/oracle-keeper.ts\<close> and \<open>client/lib/oracle-activity.ts\<close>: the price sources, their
  aggregation, the gate on deviation and heartbeat, the USDC peg, the idling on protocol activity, and
  the tick. HTTP responses are JSON values (\<open>None\<close>: the fetch threw or was not ok); prices are IEEE
  doubles as in \<open>Js_Number\<close>.
\<close>

subsection \<open>Sources\<close>

text \<open>\<open>parseFloat\<close>: the longest prefix that is a decimal literal.\<close>

definition parse_float :: "string \<Rightarrow> number" where
  "parse_float s0 =
    (let s = js_trim s0; neg = (s \<noteq> [] \<and> hd s = CHR ''-''); u = (if s \<noteq> [] \<and> hd s \<in> {CHR ''-'', CHR ''+''} then tl s else s) in
     if take 8 u = ''Infinity'' then js_inf (\<not> neg)
     else (case find (\<lambda>p. unsigned_decimal p \<noteq> None) (rev (prefixes u)) of
         None \<Rightarrow> NaN
       | Some p \<Rightarrow> (let v = the (unsigned_decimal p) in to_number (if neg then - v else v))))"

text \<open>\<open>parseFloat(v)\<close> of a property, and the check that every source applies.\<close>

definition json_float :: "json option \<Rightarrow> number" where
  "json_float v = (case v of None \<Rightarrow> NaN | Some j \<Rightarrow> parse_float (json_to_string j))"

definition good_price :: "number \<Rightarrow> number option" where
  "good_price p = (if \<not> is_finite p \<or> js_le p (Fin 0) then None else Some p)"

definition opt_field :: "json option \<Rightarrow> string \<Rightarrow> json option" where
  "opt_field v k = (case v of None \<Rightarrow> None | Some j \<Rightarrow> js_field j k)"

definition binancePrice :: "json option \<Rightarrow> number option" where
  "binancePrice resp = (case resp of None \<Rightarrow> None
   | Some data \<Rightarrow> if data = JNull then None else good_price (json_float (js_field data ''price'')))"

definition coinbasePrice :: "json option \<Rightarrow> number option" where
  "coinbasePrice resp = (case resp of None \<Rightarrow> None
   | Some data \<Rightarrow> if data = JNull then None
       else good_price (json_float (Some (json_or (opt_field (js_field data ''data'') ''amount'') (JStr [])))))"

fun json_length :: "json option \<Rightarrow> nat" where
  "json_length (Some (JArr xs)) = length xs"
| "json_length (Some (JStr s)) = length s"
| "json_length _ = 0"

fun json_values :: "json option \<Rightarrow> json list" where
  "json_values (Some (JObj kvs)) = map snd kvs"
| "json_values (Some (JArr xs)) = xs"
| "json_values _ = []"

definition json_index0 :: "json option \<Rightarrow> json option" where
  "json_index0 v = (case v of Some (JArr (x # xs)) \<Rightarrow> Some x | Some (JStr (ch # s)) \<Rightarrow> Some (JStr [ch]) | _ \<Rightarrow> None)"

definition krakenPrice :: "json option \<Rightarrow> number option" where
  "krakenPrice resp = (case resp of None \<Rightarrow> None
   | Some data \<Rightarrow> if data = JNull then None
       else if 0 < json_length (js_field data ''error'') then None
       else (let first = (case json_values (js_field data ''result'') of [] \<Rightarrow> None | x # xs \<Rightarrow> Some x) in
         good_price (json_float (Some (json_or (json_index0 (opt_field first ''c'')) (JStr []))))))"

subsection \<open>Aggregation\<close>

record keeper_cfg =
  k_minSources :: number
  k_maxDeviation :: number
  k_publishDeviation :: number
  k_publishHeartbeat :: number
  k_usdcDeviation :: number
  k_usdcHeartbeat :: number
  k_depegHalt :: number
  k_activityInterval :: number
  k_idleGrace :: number

record aggregated =
  ag_price :: int
  ag_confidence :: int
  ag_publishTime :: int
  ag_sources :: nat

text \<open>The aggregate, no aggregate (\<open>null\<close>), or an exception of \<open>BigInt\<close> on a value that is no integer.\<close>

datatype aggregate = Agg aggregated | Skip | AggThrow

definition cmp_numbers :: "number \<Rightarrow> number \<Rightarrow> int" where
  "cmp_numbers a b = js_sign (js_sub a b)"

definition sorted_prices :: "number option list \<Rightarrow> number list" where
  "sorted_prices results = js_sort cmp_numbers (List.map_filter id results)"

definition num_precision :: number where
  "num_precision = number_of_bigint PRICE_PRECISION"

definition median :: "number list \<Rightarrow> number" where
  "median ps = (let n = length ps in
     if odd n then ps ! ((n - 1) div 2) else js_div (js_add (ps ! (n div 2 - 1)) (ps ! (n div 2))) (Fin 2))"

definition spread_bps :: "number list \<Rightarrow> number" where
  "spread_bps ps = js_mul (js_div (js_sub (last ps) (hd ps)) (hd ps)) (Fin 10000)"

definition scaled_int :: "number \<Rightarrow> int option" where
  "scaled_int x = bigint_of_number (math_round (js_mul x num_precision))"

definition aggregatePrice :: "keeper_cfg \<Rightarrow> int \<Rightarrow> number option list \<Rightarrow> aggregate" where
  "aggregatePrice K now results =
    (let prices = sorted_prices results; n = length prices in
     if js_lt (Fin (of_nat n)) (k_minSources K) then Skip
     else if n = 0 then AggThrow
     else if js_lt (k_maxDeviation K) (spread_bps prices) then Skip
     else (case (scaled_int (median prices), scaled_int (js_div (js_sub (last prices) (hd prices)) (Fin 2))) of
         (Some price, Some spread) \<Rightarrow>
           Agg \<lparr> ag_price = price, ag_confidence = (if price sdiv 1000 < spread then spread else price sdiv 1000),
             ag_publishTime = now div 1000, ag_sources = n \<rparr>
       | _ \<Rightarrow> AggThrow))"

subsection \<open>Publishing\<close>

record published =
  pb_price :: int
  pb_ts :: int

type_synonym last_published = "(string, published) js_map"

text \<open>
  The gate on heartbeat and deviation. A last price of zero makes the BigInt division throw; both
  callers catch the exception and do not publish.
\<close>

definition shouldPublish :: "int \<Rightarrow> last_published \<Rightarrow> string \<Rightarrow> int \<Rightarrow> number \<Rightarrow> number \<Rightarrow> bool" where
  "shouldPublish now lp asset price devBps heartbeat = (case map_get lp asset of
     None \<Rightarrow> True
   | Some l \<Rightarrow> if js_le (js_mul heartbeat (Fin 1000)) (Fin (of_int (now - pb_ts l))) then True
       else if pb_price l = 0 then False
       else (let diff = (if pb_price l < price then price - pb_price l else pb_price l - price) in
         js_le devBps (number_of_bigint ((diff * 10000) sdiv pb_price l))))"

text \<open>
  What the RPC server answers while \<open>write_price\<close> is submitted; \<open>None\<close> is an exception. The account
  lookup only fails or succeeds, the simulation and the submission report an error or not, and a poll
  reports the status of the transaction.
\<close>

datatype write_status = W_SUCCESS | W_FAILED | W_OTHER

record write_rpc =
  wr_account :: bool
  wr_simError :: "bool option"
  wr_sendError :: "bool option"
  wr_poll :: "nat \<Rightarrow> write_status option"

primrec write_poll :: "(nat \<Rightarrow> write_status option) \<Rightarrow> nat \<Rightarrow> nat \<Rightarrow> bool option" where
  "write_poll p i 0 = Some False"
| "write_poll p i (Suc n) = (case p i of
     None \<Rightarrow> None
   | Some W_SUCCESS \<Rightarrow> Some True
   | Some W_FAILED \<Rightarrow> Some False
   | Some W_OTHER \<Rightarrow> write_poll p (Suc i) n)"

text \<open>Whether the transaction was handed to \<open>sendTransaction\<close>, and the result (\<open>None\<close>: an exception).\<close>

definition writePrice :: "write_rpc \<Rightarrow> bool \<times> bool option" where
  "writePrice rpc = (if \<not> wr_account rpc then (False, None)
     else case wr_simError rpc of None \<Rightarrow> (False, None) | Some True \<Rightarrow> (False, Some False)
     | Some False \<Rightarrow> (True, case wr_sendError rpc of None \<Rightarrow> None | Some True \<Rightarrow> Some False
       | Some False \<Rightarrow> write_poll (wr_poll rpc) 0 15))"

text \<open>
  The outside world of a tick: the answers to a submission and of the three price sources, and the clock.
  An asset is gated once in a tick, in one go with the aggregation of its price (\<open>io_now\<close>); a confirmed
  write is booked when the poll that saw it returns (\<open>io_seen\<close>).
\<close>

record keeper_io =
  io_write :: "string \<Rightarrow> int \<Rightarrow> int \<Rightarrow> int \<Rightarrow> write_rpc"
  io_binance :: "string \<Rightarrow> json option"
  io_coinbase :: "string \<Rightarrow> json option"
  io_kraken :: "string \<Rightarrow> json option"
  io_now :: "string \<Rightarrow> int"
  io_seen :: "string \<Rightarrow> int"

text \<open>The keeper's state, and the writes it handed to the network, in order.\<close>

record keeper =
  kp_last :: last_published
  kp_lastActivityCheck :: int
  kp_lastActiveAt :: int
  kp_reasons :: "string list"
  kp_idleLogged :: bool
  kp_writes :: "(string \<times> int \<times> int \<times> int) list"

definition publish :: "keeper_io \<Rightarrow> string \<Rightarrow> int \<Rightarrow> int \<Rightarrow> int \<Rightarrow> keeper \<Rightarrow> keeper" where
  "publish io asset price conf time s =
    (let (sent, r) = writePrice (io_write io asset price conf time);
         s1 = (if sent then s\<lparr> kp_writes := kp_writes s @ [(asset, price, conf, time)] \<rparr> else s) in
     if r = Some True then s1\<lparr> kp_last := map_set (kp_last s1) asset \<lparr> pb_price = price, pb_ts = io_seen io asset \<rparr> \<rparr> else s1)"

text \<open>Kraken names the pair, and uses XBT for BTC.\<close>

definition kraken_pair :: "string \<Rightarrow> string" where
  "kraken_pair base = (if base = ''BTC'' then ''XBT'' else base) @ ''USD''"

text \<open>The three sources of a market, in the order of the fetchers, and the two of USDC.\<close>

definition market_sources :: "keeper_io \<Rightarrow> market_config \<Rightarrow> number option list" where
  "market_sources io mkt = [binancePrice (io_binance io (priceSourceSymbol mkt)),
     coinbasePrice (io_coinbase io (baseAsset mkt)), krakenPrice (io_kraken io (kraken_pair (baseAsset mkt)))]"

definition usdc_sources :: "keeper_io \<Rightarrow> number option list" where
  "usdc_sources io = [coinbasePrice (io_coinbase io ''USDC''), krakenPrice (io_kraken io (kraken_pair ''USDC''))]"

definition publishMarket :: "keeper_cfg \<Rightarrow> keeper_io \<Rightarrow> market_config \<Rightarrow> keeper \<Rightarrow> keeper" where
  "publishMarket K io mkt s =
    (let asset = oracleSymbol mkt in
     case aggregatePrice K (io_now io asset) (market_sources io mkt) of
       Agg a \<Rightarrow> if shouldPublish (io_now io asset) (kp_last s) asset (ag_price a) (k_publishDeviation K) (k_publishHeartbeat K)
         then publish io asset (ag_price a) (ag_confidence a) (ag_publishTime a) s else s
     | _ \<Rightarrow> s)"

definition peg_deviation :: "int \<Rightarrow> int" where
  "peg_deviation price = ((if PRICE_PRECISION < price then price - PRICE_PRECISION else PRICE_PRECISION - price) * 10000)
     sdiv PRICE_PRECISION"

text \<open>The USDC price and confidence to publish, if any.\<close>

definition usdc_quote :: "keeper_cfg \<Rightarrow> config \<Rightarrow> aggregate \<Rightarrow> (int \<times> int) option" where
  "usdc_quote K cfg agg = (case agg of
     Agg a \<Rightarrow> if js_lt (k_depegHalt K) (number_of_bigint (peg_deviation (ag_price a))) then None
       else Some (ag_price a, ag_confidence a)
   | Skip \<Rightarrow> if net_name (NETWORK_cfg cfg) \<noteq> ''mainnet'' then Some (PRICE_PRECISION, PRICE_PRECISION sdiv 1000) else None
   | AggThrow \<Rightarrow> None)"

definition publishUsdc :: "keeper_cfg \<Rightarrow> config \<Rightarrow> keeper_io \<Rightarrow> keeper \<Rightarrow> keeper" where
  "publishUsdc K cfg io s =
    (case usdc_quote K cfg (aggregatePrice K (io_now io ''USDC'') (usdc_sources io)) of
       None \<Rightarrow> s
     | Some (price, conf) \<Rightarrow>
         if shouldPublish (io_now io ''USDC'') (kp_last s) ''USDC'' price (k_usdcDeviation K) (k_usdcHeartbeat K)
         then publish io ''USDC'' price conf (io_now io ''USDC'' div 1000) s else s)"

subsection \<open>Activity\<close>

record position_row =
  ps_owner :: string
  ps_marketId :: int
  ps_size :: int

record activity_env =
  ac_fails :: "nat \<Rightarrow> string option"
  ac_positions :: "position_row list"
  ac_vault :: "string + int"

definition short_error :: "string \<Rightarrow> string \<Rightarrow> string" where
  "short_error pre msg = pre @ take 40 msg"

definition check_signal :: "string option \<Rightarrow> string \<Rightarrow> bool \<Rightarrow> string \<Rightarrow> string list" where
  "check_signal failure pre found reason = (case failure of
     Some msg \<Rightarrow> [short_error pre msg] | None \<Rightarrow> if found then [reason] else [])"

definition dbSignals :: "activity_env \<Rightarrow> int \<Rightarrow> database \<Rightarrow> string list" where
  "dbSignals A now d =
     check_signal (ac_fails A 0) ''order-check-error:''
       (\<exists>r \<in> set (db_orders d). \<not> cancelled r \<and> filledSize r < size r \<and> now div 1000 < expiryTs r) ''open-orders'' @
     check_signal (ac_fails A 1) ''txjob-check-error:''
       (\<exists>j \<in> set (db_jobs d). j_status j = QUEUED \<or> j_status j = SUBMITTED) ''pending-settlements'' @
     check_signal (ac_fails A 2) ''position-check-error:'' (\<exists>p \<in> set (ac_positions A). ps_size p \<noteq> 0) ''open-positions''"

definition vaultDepositsSignal :: "activity_env \<Rightarrow> string list" where
  "vaultDepositsSignal A = (case ac_vault A of
     Inl msg \<Rightarrow> [short_error ''vault-check-error:'' msg]
   | Inr deposited \<Rightarrow> if 0 < deposited then [''vault-deposits''] else [])"

definition checkProtocolActivity :: "activity_env \<Rightarrow> int \<Rightarrow> database \<Rightarrow> bool \<times> string list" where
  "checkProtocolActivity A now d =
    (let reasons = dbSignals A now d @ vaultDepositsSignal A in (0 < length reasons, reasons))"

definition isPublishingNeeded :: "keeper_cfg \<Rightarrow> activity_env \<Rightarrow> int \<Rightarrow> database \<Rightarrow> keeper \<Rightarrow> bool \<times> keeper" where
  "isPublishingNeeded K A now d s =
    (let s1 = (if js_le (k_activityInterval K) (Fin (of_int (now - kp_lastActivityCheck s)))
        then (let (active, reasons) = checkProtocolActivity A now d in
          s\<lparr> kp_lastActivityCheck := now, kp_reasons := reasons,
             kp_lastActiveAt := (if active then now else kp_lastActiveAt s) \<rparr>) else s) in
     if js_lt (Fin (of_int (now - kp_lastActiveAt s1))) (js_mul (k_idleGrace K) (Fin 1000))
     then (True, s1\<lparr> kp_idleLogged := False \<rparr>) else (False, s1\<lparr> kp_idleLogged := True \<rparr>))"

definition ORACLE_MARKETS :: "config \<Rightarrow> market_config list" where
  "ORACLE_MARKETS cfg = map snd (ACTIVE_MARKETS cfg)"

definition tickInner :: "keeper_cfg \<Rightarrow> config \<Rightarrow> keeper_io \<Rightarrow> keeper \<Rightarrow> keeper" where
  "tickInner K cfg io s = publishUsdc K cfg io (foldl (\<lambda>s mkt. publishMarket K io mkt s) s (ORACLE_MARKETS cfg))"

text \<open>One tick; ticks do not overlap (the \<open>ticking\<close> flag drops a tick that starts during another).\<close>

definition keeper_tick :: "keeper_cfg \<Rightarrow> config \<Rightarrow> keeper_io \<Rightarrow> activity_env \<Rightarrow> int \<Rightarrow> database \<Rightarrow> keeper \<Rightarrow> keeper" where
  "keeper_tick K cfg io A now d s = (case isPublishingNeeded K A now d s of
     (True, s1) \<Rightarrow> tickInner K cfg io s1 | (False, s1) \<Rightarrow> s1)"

text \<open>The ticks of a run, each with the world, the activity, the clock and the tables it meets.\<close>

type_synonym keeper_step = "keeper_io \<times> activity_env \<times> int \<times> database"

fun keeper_run :: "keeper_cfg \<Rightarrow> config \<Rightarrow> keeper_step list \<Rightarrow> keeper \<Rightarrow> keeper" where
  "keeper_run K cfg [] s = s"
| "keeper_run K cfg ((io, A, now, d) # ts) s = keeper_run K cfg ts (keeper_tick K cfg io A now d s)"

end
