(* ===== verification/Oracle_Correct.thy ===== *)
theory Oracle_Correct
  imports Oracle_Keeper
begin

text \<open>
  What the oracle keeper promises. First the floating-point facts: subtraction of Numbers decides their
  order (gradual underflow), so the sort of the prices is a sort, and scaling to 18 decimals is monotone.
  Then the properties: the median of three sources stays within any two of them, USDC is published less
  than a basis point beyond the halt threshold, and an active tick leaves no stale price behind.
\<close>

subsection \<open>Doubles\<close>

lemma fl_fixed_multiple:
  assumes "fl x = x"
  shows "\<exists>m. x = of_int m * pow2 (- 1074)"
proof -
  have pos: "\<exists>m. y = of_int m * pow2 (- 1074)" if y: "0 < y" "fl y = y" for y
  proof -
    obtain n where n: "y = of_int n * ulp y" using fl_fixed_pos [OF y] by auto
    define k where "k = max (expo y - 52) (- 1074)"
    have "- 1074 \<le> k" by (simp add: k_def)
    then have "pow2 k = 2 ^ nat (k + 1074) * pow2 (- 1074)"
      using pow2_nat_add [of "- 1074" "nat (k + 1074)"] by simp
    then have "ulp y = 2 ^ nat (k + 1074) * pow2 (- 1074)" by (simp add: ulp_def k_def)
    then have "y = of_int (n * 2 ^ nat (k + 1074)) * pow2 (- 1074)" using n by simp
    then show ?thesis by blast
  qed
  show ?thesis
  proof (cases x "0 :: rat" rule: linorder_cases)
    case less
    then have "\<exists>m. - x = of_int m * pow2 (- 1074)" using assms by (intro pos) (simp_all add: fl_minus)
    then obtain m where "- x = of_int m * pow2 (- 1074)" by blast
    then have "x = of_int (- m) * pow2 (- 1074)" by simp
    then show ?thesis by blast
  next
    case equal
    then show ?thesis by (intro exI [of _ 0]) simp
  next
    case greater
    with assms show ?thesis by (intro pos)
  qed
qed

lemma fl_least_subnormal: "fl (pow2 (- 1074)) = pow2 (- 1074)"
proof -
  have "expo (pow2 (- 1074)) = - 1074"
    by (rule expo_unique) (use pow2_Suc [of "- 1074"] pow2_pos [of "- 1074"] in simp_all)
  then have "pow2 (- 1074) = of_int 1 * ulp (pow2 (- 1074))" by (simp add: ulp_def)
  then show ?thesis by (intro fl_exact) simp_all
qed

lemma fl_diff_pos:
  assumes "fl a = a" and "fl b = b" and "b < a"
  shows "0 < fl (a - b)"
proof -
  obtain m n where m: "a = of_int m * pow2 (- 1074)" and n: "b = of_int n * pow2 (- 1074)"
    using fl_fixed_multiple [OF assms(1)] fl_fixed_multiple [OF assms(2)] by auto
  have d: "a - b = of_int (m - n) * pow2 (- 1074)" using m n by (simp add: algebra_simps)
  have "0 < a - b" using assms(3) by simp
  then have "0 < rat_of_int (m - n)" unfolding d using pow2_pos [of "- 1074"] by (simp add: zero_less_mult_iff)
  then have "1 \<le> m - n" by simp
  then have "1 * pow2 (- 1074) \<le> of_int (m - n) * pow2 (- 1074)"
    by (intro mult_right_mono) (auto simp: less_imp_le)
  then have "fl (pow2 (- 1074)) \<le> fl (a - b)" unfolding d by (intro fl_mono) simp
  then show ?thesis using fl_least_subnormal pow2_pos [of "- 1074"] by linarith
qed

lemma js_sign_to_number: "js_sign (to_number x) = sgn_num (fl x)" if "sgn_num = (\<lambda>y::rat. if y < 0 then - 1 else if 0 < y then 1 else 0 :: int)"
  using that by (auto simp: to_number_def Let_def in_range_def)

text \<open>The comparator \<open>(a, b) => a - b\<close> on Numbers.\<close>

lemma cmp_numbers_Fin:
  assumes "is_double a" and "is_double b"
  shows "cmp_numbers (Fin a) (Fin b) \<le> 0 \<longleftrightarrow> a \<le> b"
proof -
  have f: "fl a = a" "fl b = b" using assms by (auto simp: is_double_def)
  have s: "cmp_numbers (Fin a) (Fin b) \<le> 0 \<longleftrightarrow> fl (a - b) \<le> 0"
    by (auto simp: cmp_numbers_def js_sub_def js_sign_to_number [OF refl])
  show ?thesis
  proof (cases "a \<le> b")
    case True
    then have "fl (a - b) \<le> fl 0" by (intro fl_mono) simp
    with True s show ?thesis by simp
  next
    case False
    then have "0 < fl (a - b)" using f by (intro fl_diff_pos) simp_all
    with False s show ?thesis by simp
  qed
qed

text \<open>Rounding is idempotent: a rounded value has at most 53 significant bits.\<close>

lemma fl_scaled:
  assumes "0 < n" and "n < 2 ^ 53" and "- 1074 \<le> k"
  shows "fl (of_int n * pow2 k) = of_int n * pow2 k"
proof -
  let ?x = "rat_of_int n * pow2 k"
  have x: "0 < ?x" using assms(1) by simp
  have "rat_of_int n < 2 ^ 53" using assms(2) by (metis of_int_less_iff of_int_numeral of_int_power)
  then have "?x < 2 ^ 53 * pow2 k" by simp
  also have "\<dots> = pow2 (k + 53)" using pow2_nat_add [of k 53] by simp
  finally have "pow2 (expo ?x) < pow2 (k + 53)" using expo_bounds [OF x] by linarith
  then have e: "max (expo ?x - 52) (- 1074) \<le> k" using pow2_less_cancel assms(3) by fastforce
  define j where "j = k - max (expo ?x - 52) (- 1074)"
  have "0 \<le> j" using e by (simp add: j_def)
  then have "pow2 k = 2 ^ nat j * pow2 (k - j)" using pow2_nat_add [of "k - j" "nat j"] by simp
  then have "pow2 k = 2 ^ nat j * ulp ?x" by (simp add: ulp_def j_def)
  then have m: "?x = of_int (n * 2 ^ nat j) * ulp ?x" by simp
  show ?thesis by (rule fl_exact [OF x m])
qed

lemma fl_pos_idem:
  assumes "0 < x"
  shows "fl (fl_pos x) = fl_pos x"
proof -
  define k where "k = max (expo x - 52) (- 1074)"
  let ?n = "rne (x / ulp x)"
  have u: "ulp x = pow2 k" by (simp add: ulp_def k_def)
  have eq: "fl_pos x = of_int ?n * pow2 k" by (simp add: fl_pos_def u)
  have "x < pow2 (expo x + 1)" using expo_bounds [OF assms] by simp
  also have "\<dots> \<le> pow2 (k + 53)" by (rule pow2_mono) (simp add: k_def)
  also have "\<dots> = 2 ^ 53 * pow2 k" using pow2_nat_add [of k 53] by simp
  finally have "x / ulp x \<le> of_int (2 ^ 53)" by (simp add: u divide_le_eq less_imp_le)
  then have "?n \<le> rne (of_int (2 ^ 53))" by (rule rne_mono)
  then have hi: "?n \<le> 2 ^ 53" by (simp only: rne_of_int)
  have "rne (of_int 0) \<le> ?n" by (rule rne_mono) (use assms in \<open>simp add: less_imp_le\<close>)
  then have lo: "0 \<le> ?n" by (simp only: rne_of_int)
  consider "?n = 0" | "0 < ?n" "?n < 2 ^ 53" | "?n = 2 ^ 53" using lo hi by linarith
  then show ?thesis
  proof cases
    case 1
    then show ?thesis by (simp add: eq)
  next
    case 2
    then show ?thesis unfolding eq by (intro fl_scaled) (simp_all add: k_def)
  next
    case 3
    have "fl (of_int (2 ^ 52) * pow2 (k + 1)) = of_int (2 ^ 52) * pow2 (k + 1)"
      by (intro fl_scaled) (simp_all add: k_def)
    moreover have "of_int ?n * pow2 k = of_int (2 ^ 52) * pow2 (k + 1)"
      unfolding 3 pow2_Suc by simp
    ultimately show ?thesis by (simp add: eq)
  qed
qed

lemma fl_idem: "fl (fl x) = fl x"
  using fl_pos_idem [of x] fl_pos_idem [of "- x"] fl_minus [of "fl_pos (- x)"] by (auto simp: fl_def [of x])

lemma to_number_Fin: "to_number x = Fin y \<Longrightarrow> y = fl x \<and> is_double y"
  by (auto simp: to_number_def Let_def is_double_def fl_idem split: if_splits)

subsection \<open>Sorting Numbers\<close>

lemma sort_insert_numbers:
  "is_double x \<Longrightarrow> list_all is_double ys \<Longrightarrow> sort_insert cmp_numbers (Fin x) (map Fin ys) = map Fin (insort x ys)"
  by (induction ys) (auto simp: cmp_numbers_Fin)

lemma sort_numbers: "list_all is_double xs \<Longrightarrow> js_sort cmp_numbers (map Fin xs) = map Fin (sort xs)"
proof (induction xs)
  case (Cons x xs)
  then have "list_all is_double (sort xs)" by (simp add: list_all_iff)
  with Cons show ?case by (simp add: sort_insert_numbers)
qed simp

text \<open>In a sorted list of which more than half lies in an interval, the middle lies in it.\<close>

lemma sorted_majority:
  fixes s :: "rat list"
  assumes s: "sorted s" and i: "i < length s" "length s \<le> 2 * i + 2" "2 * i \<le> length s"
    and maj: "length s < 2 * length (filter (\<lambda>x. lo \<le> x \<and> x \<le> hi) s)"
  shows "lo \<le> s ! i \<and> s ! i \<le> hi"
proof -
  let ?G = "{j. j < length s \<and> lo \<le> s ! j \<and> s ! j \<le> hi}"
  have c: "length (filter (\<lambda>x. lo \<le> x \<and> x \<le> hi) s) = card ?G" by (simp add: length_filter_conv_card)
  have "lo \<le> s ! i"
  proof (rule ccontr)
    assume "\<not> lo \<le> s ! i"
    then have "?G \<subseteq> {i<..<length s}" using sorted_nth_mono [OF s, of _ i] i(1) by (force simp: not_le)
    then have "card ?G \<le> length s - i - 1" using card_mono [of "{i<..<length s}" ?G] by simp
    then show False using maj c i by linarith
  qed
  moreover have "s ! i \<le> hi"
  proof (rule ccontr)
    assume "\<not> s ! i \<le> hi"
    then have "?G \<subseteq> {..<i}" using sorted_nth_mono [OF s, of i] by (force simp: not_le)
    then have "card ?G \<le> i" using card_mono [of "{..<i}" ?G] by simp
    then show False using maj c i by linarith
  qed
  ultimately show ?thesis ..
qed

subsection \<open>The aggregate price\<close>

lemma num_precision_pos: "\<exists>c. num_precision = Fin c \<and> 0 < c"
proof -
  have "fl (of_int PRICE_PRECISION) = of_int 3814697265625 * pow2 18"
    using fl_scaled [of 3814697265625 18] by (simp add: PRICE_PRECISION_def pow2_def)
  moreover have "in_range (of_int 3814697265625 * pow2 18)"
  proof -
    have "expo (of_int 3814697265625 * pow2 18) = 59"
      by (rule expo_unique) (simp_all add: pow2_def)
    then show ?thesis by (simp add: in_range_def abs_mult abs_of_pos)
  qed
  ultimately have "num_precision = Fin (of_int 3814697265625 * pow2 18)"
    by (simp add: num_precision_def number_of_bigint_def to_number_def)
  then show ?thesis by (intro exI [of _ "of_int 3814697265625 * pow2 18"]) simp
qed

lemma scaled_int_mono:
  assumes "scaled_int (Fin a) = Some v" and "scaled_int (Fin b) = Some w" and "a \<le> b"
  shows "v \<le> w"
proof -
  obtain c where c: "num_precision = Fin c" "0 < c" using num_precision_pos by auto
  have "fl (a * c) \<le> fl (b * c)" using assms(3) c(2) by (intro fl_mono) simp
  moreover have "v = \<lfloor>fl (a * c) + 1 / 2\<rfloor>" "w = \<lfloor>fl (b * c) + 1 / 2\<rfloor>"
    using assms(1,2) by (auto simp: scaled_int_def c(1) to_number_def Let_def split: if_splits)
  ultimately show ?thesis by (simp add: floor_mono)
qed

lemma median_majority:
  assumes d: "list_all is_double ds" and m: "median (map Fin (sort ds)) = Fin y"
    and maj: "length ds < 2 * length (filter (\<lambda>x. lo \<le> x \<and> x \<le> hi) ds)"
  shows "lo \<le> y \<and> y \<le> hi"
proof -
  let ?s = "sort ds" and ?n = "length ds"
  have maj': "length ?s < 2 * length (filter (\<lambda>x. lo \<le> x \<and> x \<le> hi) ?s)"
    using maj by (simp add: filter_sort)
  have n: "0 < ?n" using maj by (cases ds) auto
  have mid: "lo \<le> ?s ! i \<and> ?s ! i \<le> hi" if "i < ?n" "?n \<le> 2 * i + 2" "2 * i \<le> ?n" for i
    by (rule sorted_majority [OF _ _ _ _ maj']) (use that in simp_all)
  show ?thesis
  proof (cases "odd ?n")
    case True
    then obtain k where k: "?n = 2 * k + 1" by (elim oddE)
    then have "y = ?s ! k" using m by (simp add: median_def)
    then show ?thesis using mid [of k] k by simp
  next
    case False
    then obtain k where k: "?n = 2 * k" by (auto elim: evenE)
    with n have k0: "0 < k" by simp
    let ?a = "?s ! (k - 1)" and ?b = "?s ! k"
    have ab: "is_double ?a" "is_double ?b" "?a \<le> ?b"
      using d k k0 sorted_nth_mono [of ?s "k - 1" k] nth_mem [of "k - 1" ?s] nth_mem [of k ?s]
      by (auto simp: list_all_iff simp del: nth_mem)
    have "js_div (to_number (?a + ?b)) (Fin 2) = Fin y" using m k k0 by (simp add: median_def)
    then obtain z where z: "to_number (?a + ?b) = Fin z" "to_number (z / 2) = Fin y"
      by (cases "to_number (?a + ?b)") (auto simp: js_inf_def split: if_splits)
    then have "y = fl (fl (?a + ?b) / 2)" using to_number_Fin by blast
    then have "?a \<le> y \<and> y \<le> ?b" using fl_midpoint [of ?a ?b] ab by (simp add: is_double_def)
    then show ?thesis using mid [of k] mid [of "k - 1"] k k0 by fastforce
  qed
qed

text \<open>What the sources deliver: positive finite Numbers.\<close>

definition source_ok :: "number option \<Rightarrow> bool" where
  "source_ok r \<longleftrightarrow> (\<forall>p. r = Some p \<longrightarrow> (\<exists>x. p = Fin x \<and> is_double x \<and> 0 < x))"

lemma parse_float_double: "parse_float s = Fin x \<Longrightarrow> is_double x"
  by (auto simp: parse_float_def Let_def js_inf_def split: if_splits option.splits dest: to_number_Fin)

lemma json_float_double: "json_float v = Fin x \<Longrightarrow> is_double x"
  by (auto simp: json_float_def split: option.splits dest: parse_float_double)

lemma good_price_ok: "source_ok (good_price (json_float v))"
  using json_float_double [of v] by (cases "json_float v") (auto simp: source_ok_def good_price_def)

lemma sources_ok: "source_ok (binancePrice r)" "source_ok (coinbasePrice r)" "source_ok (krakenPrice r)"
  using good_price_ok
  by (auto simp: binancePrice_def coinbasePrice_def krakenPrice_def Let_def split: option.splits)
     (simp_all add: source_ok_def)

lemma responding_Fin:
  "list_all source_ok rs \<Longrightarrow> \<exists>ds. List.map_filter id rs = map Fin ds \<and> list_all is_double ds \<and> list_all ((<) 0) ds"
proof (induction rs)
  case (Cons r rs)
  then obtain ds where ds: "List.map_filter id rs = map Fin ds" "list_all is_double ds" "list_all ((<) 0) ds"
    by (auto simp: id_def)
  show ?case
  proof (cases r)
    case None
    with ds show ?thesis by (intro exI [of _ ds]) (simp add: id_def)
  next
    case (Some p)
    then obtain x where "p = Fin x" "is_double x" "0 < x" using Cons.prems by (auto simp: source_ok_def)
    with ds Some show ?thesis by (intro exI [of _ "x # ds"]) (simp add: id_def)
  qed
qed simp

text \<open>The number of responding sources, and of those that lie in an interval.\<close>

definition responding :: "number option list \<Rightarrow> nat" where
  "responding rs = length (List.map_filter id rs)"

definition sources_between :: "rat \<Rightarrow> rat \<Rightarrow> number option list \<Rightarrow> nat" where
  "sources_between lo hi rs = length (filter (\<lambda>p. js_le (Fin lo) p \<and> js_le p (Fin hi)) (List.map_filter id rs))"

lemma aggregate_majority:
  assumes ok: "list_all source_ok rs" and ag: "aggregatePrice K now rs = Agg a"
    and maj: "responding rs < 2 * sources_between lo hi rs"
    and l: "scaled_int (Fin lo) = Some l" and h: "scaled_int (Fin hi) = Some h"
  shows "l \<le> ag_price a \<and> ag_price a \<le> h"
proof -
  obtain ds where ds: "List.map_filter id rs = map Fin ds" "list_all is_double ds"
    using responding_Fin [OF ok] by auto
  have sp: "sorted_prices rs = map Fin (sort ds)" using ds by (simp add: sorted_prices_def sort_numbers)
  have s: "scaled_int (median (map Fin (sort ds))) = Some (ag_price a)"
    using ag by (auto simp: aggregatePrice_def sp Let_def split: if_splits option.splits)
  obtain c where c: "num_precision = Fin c" "0 < c" using num_precision_pos by auto
  from s obtain y where y: "median (map Fin (sort ds)) = Fin y"
    by (cases "median (map Fin (sort ds))") (use c(2) in \<open>auto simp: scaled_int_def js_inf_def c(1)\<close>)
  have "length ds < 2 * length (filter (\<lambda>x. lo \<le> x \<and> x \<le> hi) ds)"
    using maj by (simp add: responding_def sources_between_def ds(1) filter_map o_def)
  with ds(2) y have "lo \<le> y \<and> y \<le> hi" by (intro median_majority)
  then show ?thesis using scaled_int_mono [OF l s [unfolded y]] scaled_int_mono [OF s [unfolded y] h] by simp
qed

lemma aggregate_guards:
  assumes "aggregatePrice K now rs = Agg a"
  shows "\<not> js_lt (Fin (of_nat (responding rs))) (k_minSources K) \<and> ag_sources a = responding rs
    \<and> \<not> js_lt (k_maxDeviation K) (spread_bps (sorted_prices rs))"
proof -
  have "length (sorted_prices rs) = responding rs" by (simp add: sorted_prices_def responding_def)
  then show ?thesis using assms by (auto simp: aggregatePrice_def Let_def split: if_splits option.splits)
qed

lemma market_sources_ok: "list_all source_ok (market_sources io mkt)"
  by (simp add: market_sources_def sources_ok)

subsection \<open>Writes\<close>

text \<open>A write leaves for the network when the account is found and the simulation passes.\<close>

definition reaches_network :: "write_rpc \<Rightarrow> bool" where
  "reaches_network rpc \<longleftrightarrow> wr_account rpc \<and> wr_simError rpc = Some False"

lemma sent_iff: "fst (writePrice rpc) \<longleftrightarrow> reaches_network rpc"
  by (auto simp: writePrice_def reaches_network_def split: option.split bool.split)

lemma publish_writes:
  "kp_writes (publish io asset price conf time s) = kp_writes s @
     (if reaches_network (io_write io asset price conf time) then [(asset, price, conf, time)] else [])"
  by (auto simp: publish_def Let_def case_prod_beta sent_iff)

lemma confirmed_sent: "snd (writePrice rpc) = Some True \<Longrightarrow> fst (writePrice rpc)"
  by (auto simp: writePrice_def split: option.splits bool.splits if_splits)

lemma publishMarket_writes:
  "kp_writes (publishMarket K io mkt s) = kp_writes s \<or>
   (\<exists>a. aggregatePrice K (io_now io (oracleSymbol mkt)) (market_sources io mkt) = Agg a \<and>
      kp_writes (publishMarket K io mkt s)
        = kp_writes s @ [(oracleSymbol mkt, ag_price a, ag_confidence a, ag_publishTime a)])"
  by (auto simp: publishMarket_def Let_def publish_writes split: aggregate.splits)

lemma publishUsdc_writes:
  "kp_writes (publishUsdc K cfg io s) = kp_writes s \<or>
   (\<exists>price conf. usdc_quote K cfg (aggregatePrice K (io_now io ''USDC'') (usdc_sources io)) = Some (price, conf) \<and>
      kp_writes (publishUsdc K cfg io s) = kp_writes s @ [(''USDC'', price, conf, io_now io ''USDC'' div 1000)])"
  by (auto simp: publishUsdc_def publish_writes split: option.splits)

text \<open>
  C12. A market price follows the honest majority: when more than half of the sources that respond quote
  a price in an interval, the price the keeper writes lies in the scaled interval, whatever the others
  quote; and it is written only when at least \<open>MIN_SOURCES\<close> sources responded within the allowed
  deviation of each other.
\<close>

theorem market_price_follows_majority:
  assumes "w \<in> set (kp_writes (publishMarket K io mkt s))" and "w \<notin> set (kp_writes s)"
    and "responding (market_sources io mkt) < 2 * sources_between lo hi (market_sources io mkt)"
    and "scaled_int (Fin lo) = Some l" and "scaled_int (Fin hi) = Some h"
  shows "fst w = oracleSymbol mkt \<and> l \<le> fst (snd w) \<and> fst (snd w) \<le> h
    \<and> \<not> js_lt (Fin (of_nat (responding (market_sources io mkt)))) (k_minSources K)
    \<and> \<not> js_lt (k_maxDeviation K) (spread_bps (sorted_prices (market_sources io mkt)))"
proof -
  obtain a where a: "aggregatePrice K (io_now io (oracleSymbol mkt)) (market_sources io mkt) = Agg a"
    and w: "w = (oracleSymbol mkt, ag_price a, ag_confidence a, ag_publishTime a)"
    using publishMarket_writes [of K io mkt s] assms(1,2) by auto
  then show ?thesis
    using aggregate_majority [OF market_sources_ok a assms(3-5)] aggregate_guards [OF a] by simp
qed

lemma less_div_Suc_mult: "0 < b \<Longrightarrow> (a::int) < (a div b + 1) * b"
  by (metis add_less_cancel_left distrib_right div_mult_mod_eq mult_1 pos_mod_bound)

text \<open>The deviation from the peg, as the code computes it, bounds the price.\<close>

lemma peg_deviation_bound:
  assumes "\<not> js_lt (Fin (of_int h)) (number_of_bigint (peg_deviation p))" and "0 \<le> h" and "h < 2 ^ 52"
  shows "\<bar>p - PRICE_PRECISION\<bar> * 10000 < (h + 1) * PRICE_PRECISION"
proof -
  let ?d = "peg_deviation p"
  have d: "?d = (\<bar>p - PRICE_PRECISION\<bar> * 10000) div PRICE_PRECISION"
    by (simp add: peg_deviation_def sdiv_nonneg)
  have "?d \<le> h"
  proof (rule ccontr)
    assume "\<not> ?d \<le> h"
    then have "rat_of_int (h + 1) \<le> of_int ?d" by simp
    then have "fl (of_int (h + 1)) \<le> fl (of_int ?d)" by (rule fl_mono)
    moreover have "fl (of_int (h + 1)) = of_int (h + 1)" by (rule fl_int) (use assms(2,3) in simp)
    ultimately have "of_int h < fl (of_int ?d)" and "0 < fl (of_int ?d)" using assms(2) by simp_all
    with assms(1) show False
      by (auto simp: number_of_bigint_def to_number_def Let_def not_less in_range_def split: if_splits)
  qed
  moreover have "\<bar>p - PRICE_PRECISION\<bar> * 10000 < (?d + 1) * PRICE_PRECISION"
    unfolding d by (rule less_div_Suc_mult) simp
  ultimately show ?thesis
    using precision_pos(1) mult_right_mono [of "?d + 1" "h + 1" PRICE_PRECISION] by linarith
qed

text \<open>
  C13. USDC is published near its peg: with a halt threshold of \<open>h\<close> basis points every USDC price the
  keeper hands to the network deviates from one dollar by less than \<open>h + 1\<close> basis points - not \<open>h\<close>, because
  the deviation is truncated to whole basis points before it is compared - and on mainnet it is the
  aggregate of the sources, never the fallback.
\<close>

theorem usdc_published_near_peg:
  assumes "w \<in> set (kp_writes (publishUsdc K cfg io s))" and "w \<notin> set (kp_writes s)"
    and "k_depegHalt K = Fin (of_int h)" and "0 \<le> h" and "h < 2 ^ 52"
  shows "\<bar>fst (snd w) - PRICE_PRECISION\<bar> * 10000 < (h + 1) * PRICE_PRECISION \<and>
    (net_name (NETWORK_cfg cfg) = ''mainnet'' \<longrightarrow>
      (\<exists>a. aggregatePrice K (io_now io ''USDC'') (usdc_sources io) = Agg a \<and> fst (snd w) = ag_price a))"
proof -
  obtain price conf where q: "usdc_quote K cfg (aggregatePrice K (io_now io ''USDC'') (usdc_sources io)) = Some (price, conf)"
    and w: "w = (''USDC'', price, conf, io_now io ''USDC'' div 1000)"
    using publishUsdc_writes [of K cfg io s] assms(1,2) by auto
  show ?thesis
  proof (cases "aggregatePrice K (io_now io ''USDC'') (usdc_sources io)")
    case (Agg a)
    with q assms(3) have "\<not> js_lt (Fin (of_int h)) (number_of_bigint (peg_deviation price))" "price = ag_price a"
      by (auto simp: usdc_quote_def split: if_splits)
    with Agg w show ?thesis using peg_deviation_bound [OF _ assms(4,5)] by auto
  next
    case Skip
    with q w assms(4) show ?thesis by (auto simp: usdc_quote_def split: if_splits)
  next
    case AggThrow
    with q show ?thesis by (simp add: usdc_quote_def)
  qed
qed

text \<open>The bound is sharp: with the default threshold of 100 a price almost 101 basis points off the peg is still quoted.\<close>

lemma depeg_quoted:
  assumes "k_depegHalt K = Fin 100" and "ag_price a = 1010099999999999999"
  shows "usdc_quote K cfg (Agg a) = Some (1010099999999999999, ag_confidence a)"
proof -
  have "\<not> js_lt (Fin 100) (number_of_bigint (peg_deviation 1010099999999999999))" by code_simp
  then show ?thesis using assms by (simp add: usdc_quote_def)
qed

subsection \<open>Freshness\<close>

text \<open>
  Along a sequence of publications the writes only grow, and the last published entry of an asset
  changes only together with a write of that asset.
\<close>

definition keeper_ext :: "keeper \<Rightarrow> keeper \<Rightarrow> bool" where
  "keeper_ext s s' \<longleftrightarrow> (\<exists>new. kp_writes s' = kp_writes s @ new \<and>
     (\<forall>asset. map_get (kp_last s') asset \<noteq> map_get (kp_last s) asset \<longrightarrow> asset \<in> fst ` set new))"

lemma keeper_ext_refl [intro, simp]: "keeper_ext s s"
  by (simp add: keeper_ext_def)

lemma keeper_ext_trans: "keeper_ext s s' \<Longrightarrow> keeper_ext s' s'' \<Longrightarrow> keeper_ext s s''"
  by (simp only: keeper_ext_def) (metis (no_types, lifting) append_assoc image_Un set_append Un_iff)

lemma keeper_ext_publish: "keeper_ext s (publish io asset price conf time s)"
  using confirmed_sent [of "io_write io asset price conf time"]
  by (auto simp: keeper_ext_def publish_def Let_def map_get_set case_prod_beta)

lemma keeper_ext_market: "keeper_ext s (publishMarket K io mkt s)"
  by (auto simp: publishMarket_def Let_def keeper_ext_publish split: aggregate.splits)

lemma keeper_ext_usdc: "keeper_ext s (publishUsdc K cfg io s)"
  by (auto simp: publishUsdc_def keeper_ext_publish split: option.splits)

lemma keeper_ext_markets: "keeper_ext s (foldl (\<lambda>s mkt. publishMarket K io mkt s) s ms)"
  by (induction ms arbitrary: s) (auto intro: keeper_ext_trans keeper_ext_market)

text \<open>An asset is settled after \<open>s\<close> by \<open>s'\<close>: it was written in between, or its last entry keeps the gate shut.\<close>

definition price_settled :: "keeper_cfg \<Rightarrow> int \<Rightarrow> string \<Rightarrow> int \<Rightarrow> keeper \<Rightarrow> keeper \<Rightarrow> bool" where
  "price_settled K now asset price s s' \<longleftrightarrow> asset \<in> fst ` set (drop (length (kp_writes s)) (kp_writes s')) \<or>
     \<not> shouldPublish now (kp_last s') asset price (k_publishDeviation K) (k_publishHeartbeat K)"

lemma price_settled_later:
  assumes "price_settled K now asset price s s'" and "keeper_ext s s'" and "keeper_ext s' s''"
  shows "price_settled K now asset price s s''"
proof -
  obtain n1 n2 where n: "kp_writes s' = kp_writes s @ n1" "kp_writes s'' = kp_writes s @ n1 @ n2"
    and k: "\<And>asset. map_get (kp_last s'') asset \<noteq> map_get (kp_last s') asset \<Longrightarrow> asset \<in> fst ` set n2"
    using assms(2,3) unfolding keeper_ext_def by (metis append_assoc)
  show ?thesis
  proof (cases "map_get (kp_last s'') asset = map_get (kp_last s') asset")
    case True
    then have "shouldPublish now (kp_last s'') asset = shouldPublish now (kp_last s') asset"
      by (simp add: shouldPublish_def fun_eq_iff)
    with assms(1) n show ?thesis by (auto simp: price_settled_def)
  next
    case False
    then show ?thesis using k n by (auto simp: price_settled_def)
  qed
qed

lemma price_settled_earlier:
  "keeper_ext s s' \<Longrightarrow> price_settled K now asset price s' s'' \<Longrightarrow> keeper_ext s' s'' \<Longrightarrow> price_settled K now asset price s s''"
  by (auto simp: price_settled_def keeper_ext_def)

lemma market_settled:
  assumes "aggregatePrice K (io_now io (oracleSymbol mkt)) (market_sources io mkt) = Agg a"
    and "reaches_network (io_write io (oracleSymbol mkt) (ag_price a) (ag_confidence a) (ag_publishTime a))"
  shows "price_settled K (io_now io (oracleSymbol mkt)) (oracleSymbol mkt) (ag_price a) s (publishMarket K io mkt s)"
  using assms by (auto simp: price_settled_def publishMarket_def Let_def publish_writes)

lemma markets_settled:
  assumes "mkt \<in> set ms" and "aggregatePrice K (io_now io (oracleSymbol mkt)) (market_sources io mkt) = Agg a"
    and "reaches_network (io_write io (oracleSymbol mkt) (ag_price a) (ag_confidence a) (ag_publishTime a))"
  shows "price_settled K (io_now io (oracleSymbol mkt)) (oracleSymbol mkt) (ag_price a) s (foldl (\<lambda>s mkt. publishMarket K io mkt s) s ms)"
  using assms(1)
proof (induction ms arbitrary: s)
  case (Cons m ms)
  let ?s1 = "publishMarket K io m s"
  show ?case
  proof (cases "m = mkt")
    case True
    then show ?thesis
      using price_settled_later [OF market_settled [OF assms(2,3)] keeper_ext_market keeper_ext_markets] by simp
  next
    case False
    with Cons have "price_settled K (io_now io (oracleSymbol mkt)) (oracleSymbol mkt) (ag_price a) ?s1
        (foldl (\<lambda>s mkt. publishMarket K io mkt s) ?s1 ms)" by simp
    then show ?thesis using price_settled_earlier [OF keeper_ext_market _ keeper_ext_markets] by simp
  qed
qed simp

lemma settled_gate:
  assumes "\<not> shouldPublish now lp asset price dev hb"
  shows "\<exists>l. map_get lp asset = Some l \<and> \<not> js_le (js_mul hb (Fin 1000)) (Fin (of_int (now - pb_ts l))) \<and>
    (pb_price l = 0 \<or> \<not> js_le dev (number_of_bigint ((\<bar>price - pb_price l\<bar> * 10000) sdiv pb_price l)))"
proof -
  obtain l where l: "map_get lp asset = Some l" using assms by (auto simp: shouldPublish_def split: option.splits)
  have "(if pb_price l < price then price - pb_price l else pb_price l - price) = \<bar>price - pb_price l\<bar>" by simp
  then show ?thesis using assms l by (auto simp: shouldPublish_def Let_def split: if_splits)
qed

lemma tickInner_settles:
  assumes "mkt \<in> set (ORACLE_MARKETS cfg)" and "aggregatePrice K (io_now io (oracleSymbol mkt)) (market_sources io mkt) = Agg a"
    and "reaches_network (io_write io (oracleSymbol mkt) (ag_price a) (ag_confidence a) (ag_publishTime a))"
  shows "price_settled K (io_now io (oracleSymbol mkt)) (oracleSymbol mkt) (ag_price a) s (tickInner K cfg io s)"
  unfolding tickInner_def
  by (rule price_settled_later [OF markets_settled [OF assms] keeper_ext_markets keeper_ext_usdc])

lemma isPublishingNeeded_keeps:
  "kp_writes (snd (isPublishingNeeded K A now d s)) = kp_writes s"
  by (simp add: isPublishingNeeded_def Let_def case_prod_beta)

text \<open>
  C14. A tick leaves no stale price: when publishing is needed, the sources of a market agree on a price,
  and the server knows the publisher's account and simulates the write of that price without an error,
  then either this tick hands the network a write of that market's asset, or the asset was seen
  confirmed less than a heartbeat before its turn, at a price from which it has moved by less than
  the publish deviation (or at the price zero, where the code's division throws).
\<close>

theorem tick_leaves_no_stale_price:
  assumes "fst (isPublishingNeeded K A now d s)" and "mkt \<in> set (ORACLE_MARKETS cfg)" and "asset = oracleSymbol mkt"
    and "aggregatePrice K (io_now io asset) (market_sources io mkt) = Agg a"
    and "wr_account (io_write io asset (ag_price a) (ag_confidence a) (ag_publishTime a))"
    and "wr_simError (io_write io asset (ag_price a) (ag_confidence a) (ag_publishTime a)) = Some False"
  shows "asset \<in> fst ` set (drop (length (kp_writes s)) (kp_writes (keeper_tick K cfg io A now d s))) \<or>
    (\<exists>l. map_get (kp_last (keeper_tick K cfg io A now d s)) asset = Some l \<and>
       \<not> js_le (js_mul (k_publishHeartbeat K) (Fin 1000)) (Fin (of_int (io_now io asset - pb_ts l))) \<and>
       (pb_price l = 0 \<or> \<not> js_le (k_publishDeviation K) (number_of_bigint ((\<bar>ag_price a - pb_price l\<bar> * 10000) sdiv pb_price l))))"
proof -
  let ?s1 = "snd (isPublishingNeeded K A now d s)"
  have t: "keeper_tick K cfg io A now d s = tickInner K cfg io ?s1"
    using assms(1) by (cases "isPublishingNeeded K A now d s") (simp add: keeper_tick_def)
  have "reaches_network (io_write io asset (ag_price a) (ag_confidence a) (ag_publishTime a))"
    using assms(5,6) by (simp add: reaches_network_def)
  then show ?thesis
    using tickInner_settles [OF assms(2), of K io a ?s1] assms(3,4) settled_gate
    unfolding price_settled_def t isPublishingNeeded_keeps by blast
qed

subsection \<open>Idling\<close>

text \<open>What keeps the oracle publishing, in terms of the rows and the vault; a failed check counts.\<close>

definition needs_prices :: "activity_env \<Rightarrow> int \<Rightarrow> database \<Rightarrow> bool" where
  "needs_prices A now d \<longleftrightarrow> ac_fails A 0 \<noteq> None \<or> ac_fails A 1 \<noteq> None \<or> ac_fails A 2 \<noteq> None \<or>
     (\<exists>msg. ac_vault A = Inl msg) \<or> (\<exists>n. ac_vault A = Inr n \<and> 0 < n) \<or>
     (\<exists>r \<in> set (db_orders d). \<not> cancelled r \<and> filledSize r < size r \<and> now div 1000 < expiryTs r) \<or>
     (\<exists>j \<in> set (db_jobs d). j_status j = QUEUED \<or> j_status j = SUBMITTED) \<or>
     (\<exists>p \<in> set (ac_positions A). ps_size p \<noteq> 0)"

lemma check_signal_Nil: "check_signal f pre found reason = [] \<longleftrightarrow> f = None \<and> \<not> found"
  by (auto simp: check_signal_def split: option.splits)

lemma active_iff: "fst (checkProtocolActivity A now d) \<longleftrightarrow> needs_prices A now d"
  by (auto simp: checkProtocolActivity_def Let_def dbSignals_def check_signal_Nil vaultDepositsSignal_def
        needs_prices_def split: sum.splits)

lemma active_check:
  assumes "js_le (k_activityInterval K) (Fin (of_int (t0 - kp_lastActivityCheck s)))" and "needs_prices A t0 d"
  shows "kp_lastActiveAt (snd (isPublishingNeeded K A t0 d s)) = t0"
  using assms active_iff [of A t0 d] by (simp add: isPublishingNeeded_def Let_def case_prod_beta)

lemma grace_mono: "a \<le> b \<Longrightarrow> js_lt (Fin b) g \<Longrightarrow> js_lt (Fin a) g"
  by (cases g) auto

lemma publishing_keeps_active: "kp_lastActiveAt (tickInner K cfg io s) = kp_lastActiveAt s"
proof -
  have p: "kp_lastActiveAt (publish io asset price conf time s) = kp_lastActiveAt s" for asset price conf time s
    by (simp add: publish_def Let_def case_prod_beta)
  have m: "kp_lastActiveAt (publishMarket K io mkt s) = kp_lastActiveAt s" for mkt s
    by (simp add: publishMarket_def Let_def p split: aggregate.split)
  have "kp_lastActiveAt (foldl (\<lambda>s mkt. publishMarket K io mkt s) s ms) = kp_lastActiveAt s" for ms s
    by (induction ms arbitrary: s) (simp_all add: m)
  then show ?thesis by (simp add: tickInner_def publishUsdc_def p split: option.split)
qed

lemma tick_active: "kp_lastActiveAt (keeper_tick K cfg io A now d s) = kp_lastActiveAt (snd (isPublishingNeeded K A now d s))"
  by (simp add: keeper_tick_def case_prod_beta publishing_keeps_active split: bool.split)

lemma run_active:
  "\<forall>(io, A, t, d) \<in> set ts. t0 \<le> t \<Longrightarrow> t0 \<le> kp_lastActiveAt s \<Longrightarrow> t0 \<le> kp_lastActiveAt (keeper_run K cfg ts s)"
proof (induction ts arbitrary: s)
  case (Cons x ts)
  obtain io A t d where x: "x = (io, A, t, d)" by (cases x)
  have "t0 \<le> kp_lastActiveAt (keeper_tick K cfg io A t d s)"
    unfolding tick_active using Cons.prems x by (simp add: isPublishingNeeded_def Let_def case_prod_beta)
  then show ?case using Cons x by simp
qed simp

text \<open>
  C15. The keeper never idles on activity: when a tick at \<open>t0\<close>, with a check due, finds a live order, a
  settlement in flight, an open position, a deposit, or a failing check, then after any further ticks
  (whose own checks may find nothing) a tick within the idle grace of \<open>t0\<close> still publishes, whatever it
  finds itself.
\<close>

theorem activity_keeps_publishing:
  assumes "js_le (k_activityInterval K) (Fin (of_int (t0 - kp_lastActivityCheck s)))"
    and "needs_prices A t0 d" and "\<forall>(io, A, t, d) \<in> set ts. t0 \<le> t" and "t0 \<le> t1"
    and "js_lt (Fin (of_int (t1 - t0))) (js_mul (k_idleGrace K) (Fin 1000))"
  shows "fst (isPublishingNeeded K A' t1 d' (keeper_run K cfg ((io, A, t0, d) # ts) s))"
proof -
  let ?s = "keeper_run K cfg ((io, A, t0, d) # ts) s"
  have "t0 \<le> kp_lastActiveAt ?s"
    using run_active [OF assms(3)] active_check [OF assms(1,2)] by (simp add: tick_active)
  then have g: "js_lt (Fin (of_int (t1 - x))) (js_mul (k_idleGrace K) (Fin 1000))" if "x = t1 \<or> x = kp_lastActiveAt ?s" for x
    by (intro grace_mono [OF _ assms(5)]) (use that assms(4) in auto)
  show ?thesis
    using g [of t1] g [of "kp_lastActiveAt ?s"] by (simp add: isPublishingNeeded_def [of K A' t1] Let_def case_prod_beta)
qed

subsection \<open>Witnesses\<close>

definition example_cfg :: keeper_cfg where
  "example_cfg = \<lparr> k_minSources = Fin 2, k_maxDeviation = Fin 200, k_publishDeviation = Fin 30,
     k_publishHeartbeat = Fin 60, k_usdcDeviation = Fin 10, k_usdcHeartbeat = Fin 90, k_depegHalt = Fin 100,
     k_activityInterval = Fin 30000, k_idleGrace = Fin 900 \<rparr>"

definition example_io :: keeper_io where
  "example_io = \<lparr> io_write = \<lambda>_ _ _ _. \<lparr> wr_account = True, wr_simError = Some False, wr_sendError = Some False, wr_poll = \<lambda>i. Some W_SUCCESS \<rparr>,
     io_binance = \<lambda>_. Some (JObj [(''price'', JStr ''1'')]),
     io_coinbase = \<lambda>_. Some (JObj [(''data'', JObj [(''amount'', JStr ''1'')])]),
     io_kraken = \<lambda>_. Some (JObj [(''result'', JObj [(''XLMUSD'', JObj [(''c'', JArr [JStr ''1.0078125'']) ])])]),
     io_now = \<lambda>_. 60000000, io_seen = \<lambda>_. 60004000 \<rparr>"

definition example_keeper :: keeper where
  "example_keeper = \<lparr> kp_last = [], kp_lastActivityCheck = 0, kp_lastActiveAt = 0, kp_reasons = [],
     kp_idleLogged = False, kp_writes = [] \<rparr>"

definition example_mkt :: market_config where
  "example_mkt = snd (hd (ACTIVE_MARKETS default_config))"

lemma example_prices:
  "binancePrice (Some (JObj [(''price'', JStr ''1'')])) = Some (Fin 1)"
  "coinbasePrice (Some (JObj [(''data'', JObj [(''amount'', JStr ''1'')])])) = Some (Fin 1)"
  by code_simp+
lemma example_k:
  "krakenPrice (Some (JObj [(''result'', JObj [(''XLMUSD'', JObj [(''c'', JArr [JStr ''1.0078125'']) ])])])) = Some (Fin (129 / 128))"
  by code_simp
lemma example_agg:
  "aggregatePrice example_cfg 60000000 [Some (Fin 1), Some (Fin 1), Some (Fin (129 / 128))] =
     Agg \<lparr> ag_price = 1000000000000000000, ag_confidence = 3906250000000000, ag_publishTime = 60000, ag_sources = 3 \<rparr>"
  by code_simp

lemma example_mkt_symbol: "oracleSymbol example_mkt = ''XLM''"
  by (simp add: example_mkt_def default_config_def active_markets_def map_get_def MARKETS_def)

lemma example_sources: "market_sources example_io example_mkt = [Some (Fin 1), Some (Fin 1), Some (Fin (129 / 128))]"
  by (simp add: market_sources_def example_io_def example_prices example_k)

lemma example_aggregate:
  "aggregatePrice example_cfg 60000000 (market_sources example_io example_mkt) =
     Agg \<lparr> ag_price = 1000000000000000000, ag_confidence = 3906250000000000, ag_publishTime = 60000, ag_sources = 3 \<rparr>"
  unfolding example_sources by (rule example_agg)

lemma example_io_sel [simp]:
  "io_now example_io asset = 60000000" "reaches_network (io_write example_io asset price conf time)"
  "wr_account (io_write example_io asset price conf time)" "wr_simError (io_write example_io asset price conf time) = Some False"
  by (simp_all add: example_io_def reaches_network_def)

lemma example_market_write:
  "kp_writes (publishMarket example_cfg example_io example_mkt example_keeper)
     = [(''XLM'', 1000000000000000000, 3906250000000000, 60000)]"
  by (simp add: publishMarket_def Let_def example_aggregate shouldPublish_def example_keeper_def publish_writes example_mkt_symbol)

lemma example_scaled: "scaled_int (Fin 1) = Some 1000000000000000000"
  by code_simp

theorem market_price_follows_majority_witness:
  "\<exists>w \<in> set (kp_writes (publishMarket example_cfg example_io example_mkt example_keeper)).
     1000000000000000000 \<le> fst (snd w) \<and> fst (snd w) \<le> 1000000000000000000"
proof -
  let ?w = "(''XLM'', 1000000000000000000 :: int, 3906250000000000 :: int, 60000 :: int)"
  have m: "responding (market_sources example_io example_mkt) < 2 * sources_between 1 1 (market_sources example_io example_mkt)"
    by (simp add: example_sources responding_def sources_between_def)
  have i: "?w \<in> set (kp_writes (publishMarket example_cfg example_io example_mkt example_keeper))"
    by (simp add: example_market_write)
  have o: "?w \<notin> set (kp_writes example_keeper)" by (simp add: example_keeper_def)
  show ?thesis
    using market_price_follows_majority [OF i o m example_scaled example_scaled] i by blast
qed

lemma example_usdc_sources: "usdc_sources example_io = [Some (Fin 1), Some (Fin (129 / 128))]"
  by (simp add: usdc_sources_def example_io_def example_prices example_k)

lemma example_usdc_aggregate:
  "aggregatePrice example_cfg 60000000 [Some (Fin 1), Some (Fin (129 / 128))] =
     Agg \<lparr> ag_price = 1003906250000000000, ag_confidence = 3906250000000000, ag_publishTime = 60000, ag_sources = 2 \<rparr>"
  by code_simp

lemma example_usdc_quote:
  "usdc_quote example_cfg default_config (aggregatePrice example_cfg 60000000 (usdc_sources example_io))
     = Some (1003906250000000000, 3906250000000000)"
proof -
  have "\<not> js_lt (Fin 100) (number_of_bigint (peg_deviation 1003906250000000000))" by code_simp
  then show ?thesis
    unfolding example_usdc_sources example_usdc_aggregate by (simp add: usdc_quote_def example_cfg_def)
qed

theorem usdc_published_near_peg_witness:
  "\<exists>w \<in> set (kp_writes (publishUsdc example_cfg default_config example_io example_keeper)).
     \<bar>fst (snd w) - PRICE_PRECISION\<bar> * 10000 < 101 * PRICE_PRECISION"
proof -
  let ?w = "(''USDC'', 1003906250000000000 :: int, 3906250000000000 :: int, 60000 :: int)"
  have i: "?w \<in> set (kp_writes (publishUsdc example_cfg default_config example_io example_keeper))"
    by (simp add: publishUsdc_def example_usdc_quote shouldPublish_def example_keeper_def publish_writes)
  have o: "?w \<notin> set (kp_writes example_keeper)" by (simp add: example_keeper_def)
  have k: "k_depegHalt example_cfg = Fin (of_int 100)" by (simp add: example_cfg_def)
  show ?thesis using usdc_published_near_peg [OF i o k] i by (intro bexI [OF _ i]) simp
qed

definition example_activity :: activity_env where
  "example_activity = \<lparr> ac_fails = \<lambda>_. None, ac_positions = [], ac_vault = Inr 5 \<rparr>"

lemma example_grace: "js_mul (k_idleGrace example_cfg) (Fin 1000) = Fin 900000"
  by code_simp

lemma example_needed: "fst (isPublishingNeeded example_cfg example_activity 60000000 empty_db example_keeper)"
proof -
  have "needs_prices example_activity 60000000 empty_db" by (simp add: needs_prices_def example_activity_def)
  then have "fst (checkProtocolActivity example_activity 60000000 empty_db)" by (simp add: active_iff)
  moreover have "js_le (k_activityInterval example_cfg) (Fin (of_int (60000000 - kp_lastActivityCheck example_keeper)))"
    by (simp add: example_cfg_def example_keeper_def)
  ultimately show ?thesis
    by (simp add: isPublishingNeeded_def Let_def case_prod_beta example_grace)
qed

theorem tick_leaves_no_stale_price_witness:
  "\<exists>mkt \<in> set (ORACLE_MARKETS default_config).
    oracleSymbol mkt \<in> fst ` set (kp_writes (keeper_tick example_cfg default_config example_io example_activity 60000000 empty_db example_keeper)) \<or>
    map_get (kp_last (keeper_tick example_cfg default_config example_io example_activity 60000000 empty_db example_keeper)) (oracleSymbol mkt) \<noteq> None"
proof -
  have m: "example_mkt \<in> set (ORACLE_MARKETS default_config)"
    by (simp add: example_mkt_def ORACLE_MARKETS_def default_config_def active_markets_def map_get_def MARKETS_def)
  have a: "aggregatePrice example_cfg (io_now example_io (oracleSymbol example_mkt)) (market_sources example_io example_mkt) =
      Agg \<lparr> ag_price = 1000000000000000000, ag_confidence = 3906250000000000, ag_publishTime = 60000, ag_sources = 3 \<rparr>"
    by (simp add: example_aggregate)
  from tick_leaves_no_stale_price [OF example_needed m refl a example_io_sel(3) example_io_sel(4)] m
  show ?thesis by (intro bexI [of _ example_mkt]) (auto simp: example_keeper_def)
qed

text \<open>A quiet tick after an active one: the keeper still publishes thirteen minutes later.\<close>

theorem activity_keeps_publishing_witness:
  "fst (isPublishingNeeded example_cfg (example_activity\<lparr> ac_vault := Inr 0 \<rparr>) 60800000 empty_db
     (keeper_run example_cfg default_config ((example_io, example_activity, 60000000, empty_db) #
       [(example_io, example_activity\<lparr> ac_vault := Inr 0 \<rparr>, 60400000, empty_db)]) example_keeper))"
proof (rule activity_keeps_publishing)
  show "js_le (k_activityInterval example_cfg) (Fin (of_int (60000000 - kp_lastActivityCheck example_keeper)))"
    by (simp add: example_cfg_def example_keeper_def)
  show "needs_prices example_activity 60000000 empty_db" by (simp add: needs_prices_def example_activity_def)
qed (simp_all add: example_grace)

end
