(* ===== verification/Book_View.thy ===== *)
theory Book_View
  imports Oracle_Correct Http_Common
begin

text \<open>
  The public views of a market: the order book, the recent trades, the candles and the market row
  (\<open>client/app/api/markets/[id]/**\<close>), and the same book and trades as \<open>client/scripts/ws-server.ts\<close> reads
  them for its channels. A failing query is \<open>None\<close> for the rows and gives the route's 500.
\<close>

subsection \<open>\<open>Number.prototype.toFixed\<close> and \<open>parseInt\<close>\<close>

definition pad_left :: "nat \<Rightarrow> string \<Rightarrow> string" where
  "pad_left n s = replicate (n - length s) (CHR ''0'') @ s"

definition fixed_pos :: "nat \<Rightarrow> rat \<Rightarrow> string" where
  "fixed_pos f x = (let m = show_int \<lfloor>x * 10 ^ f + 1 / 2\<rfloor> in
     if f = 0 then m else (let p = pad_left (f + 1) m in take (length p - f) p @ ''.'' @ drop (length p - f) p))"

fun to_fixed :: "nat \<Rightarrow> number \<Rightarrow> string" where
  "to_fixed f (Fin x) = (if 10 ^ 21 \<le> \<bar>x\<bar> then js_number_to_string (Fin x)
     else if x < 0 then CHR ''-'' # fixed_pos f (- x) else fixed_pos f x)"
| "to_fixed f x = js_number_to_string x"

text \<open>\<open>parseInt(s, 10)\<close>: an optional sign and the leading digits; none is \<open>NaN\<close>.\<close>

definition parse_int :: "string \<Rightarrow> int option" where
  "parse_int s0 = (let s = js_trim s0; neg = (s \<noteq> [] \<and> hd s = CHR ''-'');
       u = (if s \<noteq> [] \<and> hd s \<in> {CHR ''-'', CHR ''+''} then tl s else s); ds = takeWhile is_digit u in
     if ds = [] then None else Some (if neg then - int (read_nat ds) else int (read_nat ds)))"

text \<open>The path parameter: \<open>parseInt\<close>, where \<open>NaN\<close> and zero are rejected.\<close>

definition market_param :: "string \<Rightarrow> int option" where
  "market_param s = (case parse_int s of None \<Rightarrow> None | Some n \<Rightarrow> if n = 0 then None else Some n)"

subsection \<open>The order book\<close>

definition PRICE_SCALE :: number where "PRICE_SCALE = Fin (10 ^ 18)"
definition AMOUNT_SCALE :: number where "AMOUNT_SCALE = Fin (10 ^ 7)"

text \<open>The rows of the query: live limit orders of the market, by ascending price.\<close>

definition book_order :: "int \<Rightarrow> order_row \<Rightarrow> bool" where
  "book_order mkt r \<longleftrightarrow> marketId r = mkt \<and> \<not> cancelled r \<and> limitPrice r \<noteq> 0 \<and> filledSize r < size r"

definition book_rows :: "int \<Rightarrow> database \<Rightarrow> order_row list" where
  "book_rows mkt d = js_sort (\<lambda>a b. limitPrice a - limitPrice b) (filter (book_order mkt) (db_orders d))"

definition price_human :: "order_row \<Rightarrow> string" where
  "price_human r = to_fixed 4 (js_div (number_of_bigint (limitPrice r)) PRICE_SCALE)"

definition remaining_human :: "order_row \<Rightarrow> number" where
  "remaining_human r = js_div (js_sub (number_of_bigint (size r)) (number_of_bigint (filledSize r))) AMOUNT_SCALE"

type_synonym levels = "(string, number) js_map"

definition add_level :: "levels \<Rightarrow> order_row \<Rightarrow> levels" where
  "add_level m r = map_set m (price_human r)
     (js_add (case map_get m (price_human r) of None \<Rightarrow> Fin 0 | Some v \<Rightarrow> v) (remaining_human r))"

definition side_levels :: "bool \<Rightarrow> order_row list \<Rightarrow> levels" where
  "side_levels long rows = foldl add_level [] (filter (\<lambda>r. isLong r = long) rows)"

record book_level =
  bl_price :: string
  bl_size :: string

definition level_of :: "string \<times> number \<Rightarrow> book_level" where
  "level_of e = \<lparr> bl_price = fst e, bl_size = to_fixed 4 (snd e) \<rparr>"

definition cmp_best_bid :: "string \<times> number \<Rightarrow> string \<times> number \<Rightarrow> int" where
  "cmp_best_bid a b = cmp_numbers (parse_float (fst b)) (parse_float (fst a))"

definition cmp_best_ask :: "string \<times> number \<Rightarrow> string \<times> number \<Rightarrow> int" where
  "cmp_best_ask a b = cmp_numbers (parse_float (fst a)) (parse_float (fst b))"

record order_book =
  ob_bids :: "book_level list"
  ob_asks :: "book_level list"
  ob_timestamp :: int

definition fetchOrderBook :: "int \<Rightarrow> int \<Rightarrow> database \<Rightarrow> order_book" where
  "fetchOrderBook now mkt d = (let rows = book_rows mkt d in
     \<lparr> ob_bids = map level_of (js_sort cmp_best_bid (side_levels True rows)),
       ob_asks = map level_of (js_sort cmp_best_ask (side_levels False rows)),
       ob_timestamp = now \<rparr>)"

text \<open>\<open>GET /api/markets/[id]/orderbook\<close>.\<close>

datatype 'a reply = Reply int 'a | Refused int

definition GET_orderbook :: "int \<Rightarrow> bool \<Rightarrow> string \<Rightarrow> database \<Rightarrow> order_book reply" where
  "GET_orderbook now db_fails ident d = (case market_param ident of
     None \<Rightarrow> Refused 400
   | Some mkt \<Rightarrow> if db_fails then Refused 500 else Reply 200 (fetchOrderBook now mkt d))"

subsection \<open>Recent trades\<close>

record trade =
  t_price :: string
  t_size :: string
  t_buy :: bool
  t_timestamp :: int

definition normaliseSize :: "int \<Rightarrow> number" where
  "normaliseSize raw = (let n = number_of_bigint raw in if js_le (Fin (10 ^ 12)) n then js_div n PRICE_SCALE else js_div n AMOUNT_SCALE)"

definition js_even :: "number \<Rightarrow> bool" where
  "js_even x = (case x of Fin a \<Rightarrow> of_int \<lfloor>a / 2\<rfloor> * 2 = a | _ \<Rightarrow> False)"

definition trade_of :: "fill_row \<Rightarrow> trade" where
  "trade_of r = \<lparr> t_price = to_fixed 4 (js_div (number_of_bigint (f_price r)) PRICE_SCALE),
     t_size = to_fixed 4 (normaliseSize (f_size r)), t_buy = js_even (number_of_bigint (f_makerNonce r)),
     t_timestamp = f_createdAt r \<rparr>"

text \<open>
  Newest first; the position in the table stands for the id that breaks ties, so among equal times the
  later row comes first.
\<close>

definition recent_fills :: "int \<Rightarrow> nat \<Rightarrow> database \<Rightarrow> fill_row list" where
  "recent_fills mkt limit d =
     take limit (js_sort (\<lambda>a b. f_createdAt b - f_createdAt a) (rev (filter (\<lambda>f. f_marketId f = mkt) (db_fills d))))"

definition fetchRecentTrades :: "int \<Rightarrow> nat \<Rightarrow> database \<Rightarrow> trade list" where
  "fetchRecentTrades mkt limit d = map trade_of (recent_fills mkt limit d)"

text \<open>\<open>Math.min(parseInt(limit ?? d), cap)\<close>; a limit that is no number or negative makes the query fail.\<close>

definition limit_param :: "string option \<Rightarrow> int \<Rightarrow> int \<Rightarrow> nat option" where
  "limit_param q d cap = (case (case q of None \<Rightarrow> Some d | Some s \<Rightarrow> parse_int s) of
     None \<Rightarrow> None | Some n \<Rightarrow> if n < 0 then None else Some (nat (min n cap)))"

definition GET_trades :: "bool \<Rightarrow> string \<Rightarrow> string option \<Rightarrow> database \<Rightarrow> trade list reply" where
  "GET_trades db_fails ident limit d = (case market_param ident of
     None \<Rightarrow> Refused 400
   | Some mkt \<Rightarrow> (case limit_param limit 50 200 of
       None \<Rightarrow> Refused 500
     | Some n \<Rightarrow> if db_fails then Refused 500 else Reply 200 (fetchRecentTrades mkt n d)))"

subsection \<open>Candles\<close>

record candle =
  c_time :: int
  c_open :: int
  c_high :: int
  c_low :: int
  c_close :: int
  c_volume :: int

text \<open>The bucket of a fill, in seconds; and the fills of a market, oldest first.\<close>

definition bucket_of :: "int \<Rightarrow> fill_row \<Rightarrow> int" where
  "bucket_of tf f = (f_createdAt f div (1000 * tf)) * tf"

definition market_fills :: "int \<Rightarrow> database \<Rightarrow> fill_row list" where
  "market_fills mkt d = js_sort (\<lambda>a b. f_createdAt a - f_createdAt b) (filter (\<lambda>f. f_marketId f = mkt) (db_fills d))"

definition candle_of :: "int \<Rightarrow> fill_row list \<Rightarrow> candle" where
  "candle_of time fs = \<lparr> c_time = time, c_open = f_price (hd fs), c_high = foldl max (f_price (hd fs)) (map f_price fs),
     c_low = foldl min (f_price (hd fs)) (map f_price fs), c_close = f_price (last fs), c_volume = sum_list (map f_size fs) \<rparr>"

definition candle_rows :: "int \<Rightarrow> int \<Rightarrow> database \<Rightarrow> candle list" where
  "candle_rows mkt tf d = (let fs = market_fills mkt d in
     map (\<lambda>time. candle_of time (filter (\<lambda>f. bucket_of tf f = time) fs)) (uniq (map (bucket_of tf) fs)))"

text \<open>The latest \<open>limit\<close> candles, oldest first: \<open>ORDER BY time DESC LIMIT\<close>, then \<open>reverse\<close>.\<close>

definition fetchCandles :: "int \<Rightarrow> int \<Rightarrow> nat \<Rightarrow> database \<Rightarrow> candle list" where
  "fetchCandles mkt tf limit d = rev (take limit (js_sort (\<lambda>a b. c_time b - c_time a) (candle_rows mkt tf d)))"

definition tf_param :: "string option \<Rightarrow> int option" where
  "tf_param q = (case q of None \<Rightarrow> Some 3600 | Some s \<Rightarrow> map_option (max 60) (parse_int s))"

record candle_view =
  cv_time :: number
  cv_open :: number
  cv_high :: number
  cv_low :: number
  cv_close :: number
  cv_volume :: number

definition candle_json :: "candle \<Rightarrow> candle_view" where
  "candle_json c = \<lparr> cv_time = number_of_bigint (c_time c),
     cv_open = js_div (number_of_bigint (c_open c)) PRICE_SCALE, cv_high = js_div (number_of_bigint (c_high c)) PRICE_SCALE,
     cv_low = js_div (number_of_bigint (c_low c)) PRICE_SCALE, cv_close = js_div (number_of_bigint (c_close c)) PRICE_SCALE,
     cv_volume = js_div (number_of_bigint (c_volume c)) AMOUNT_SCALE \<rparr>"

definition GET_candles :: "bool \<Rightarrow> string \<Rightarrow> string option \<Rightarrow> string option \<Rightarrow> database \<Rightarrow> candle_view list reply" where
  "GET_candles db_fails ident tf limit d = (case market_param ident of
     None \<Rightarrow> Refused 400
   | Some mkt \<Rightarrow> (case (tf_param tf, limit_param limit 600 1000) of
       (Some t, Some n) \<Rightarrow> if db_fails then Refused 500 else Reply 200 (map candle_json (fetchCandles mkt t n d))
     | _ \<Rightarrow> Refused 500))"

subsection \<open>Fills of an account\<close>

record fill_view =
  fv_marketId :: int
  fv_isMaker :: bool
  fv_price :: string
  fv_size :: string
  fv_txHash :: string
  fv_createdAt :: int

definition fill_view_of :: "string \<Rightarrow> fill_row \<Rightarrow> fill_view" where
  "fill_view_of address r = \<lparr> fv_marketId = f_marketId r, fv_isMaker = (f_maker r = address),
     fv_price = to_fixed 4 (js_div (number_of_bigint (f_price r)) PRICE_SCALE),
     fv_size = to_fixed 4 (js_div (number_of_bigint (f_size r)) AMOUNT_SCALE), fv_txHash = f_txHash r,
     fv_createdAt = f_createdAt r \<rparr>"

text \<open>The window: the last day, or from the given milliseconds (a text that is no number fails the query).\<close>

definition since_param :: "int \<Rightarrow> string option \<Rightarrow> int option" where
  "since_param now q = (if falsy_str q then Some (now - 24 * 3600 * 1000) else parse_int (the q))"

definition account_fills :: "string \<Rightarrow> int \<Rightarrow> nat \<Rightarrow> database \<Rightarrow> fill_row list" where
  "account_fills address since limit d = take limit (js_sort (\<lambda>a b. f_createdAt b - f_createdAt a)
     (filter (\<lambda>f. (f_maker f = address \<or> f_taker f = address) \<and> since < f_createdAt f) (db_fills d)))"

definition GET_fills :: "crypto \<Rightarrow> limiter_env \<Rightarrow> int \<Rightarrow> bool \<Rightarrow> request \<Rightarrow> string option \<Rightarrow> string option \<Rightarrow> string option \<Rightarrow>
    buckets \<times> database \<Rightarrow> fill_view list reply \<times> buckets" where
  "GET_fills cr L now db_fails req address since limit s =
    (case s of (bs, d) \<Rightarrow>
      if falsy_str address \<or> \<not> isValidEd25519PublicKey cr (the address) then (Refused 400, bs)
      else (let (ok, bs') = rateLimit L now (requestKey req (the address)) 120 bs in
        if \<not> ok then (Refused 429, bs')
        else (case (limit_param limit 20 50, since_param now since) of
            (Some n, Some t) \<Rightarrow> if db_fails then (Refused 500, bs')
              else (Reply 200 (map (fill_view_of (the address)) (account_fills (the address) t n d)), bs')
          | _ \<Rightarrow> (Refused 500, bs'))))"

end
