(* ===== verification/Trading_Math.thy ===== *)
theory Trading_Math
  imports Book_View
begin

text \<open>
  \<open>client/lib/math.ts\<close> and the numeric part of \<open>client/lib/format.ts\<close>: liquidation price, margin ratio,
  maximal size and unrealized profit over BigInts, and the conversions between raw and human amounts.
  A \<open>RangeError\<close> (a \<open>BigInt\<close> of a fraction or of \<open>NaN\<close>, a division by zero) is \<open>None\<close>. Left out are the
  two functions that need more than Latin-1 digits: \<open>formatUsd\<close> (\<open>toLocaleString\<close>) and
  \<open>shortenAddress\<close> (an ellipsis character).
\<close>

subsection \<open>math.ts\<close>

definition SCALE :: int where "SCALE = 1000000"

text \<open>\<open>BigInt(Math.round(x * k))\<close>.\<close>

definition big_scaled :: "number \<Rightarrow> int \<Rightarrow> int option" where
  "big_scaled x k = bigint_of_number (math_round (js_mul x (number_of_bigint k)))"

definition calcLiqPrice :: "bool \<Rightarrow> int \<Rightarrow> number \<Rightarrow> number \<Rightarrow> int option" where
  "calcLiqPrice lng entryPrice leverage mmBps =
    (if js_le leverage (Fin 0) \<or> entryPrice \<le> 0 then Some 0
     else (case (big_scaled (js_div mmBps (number_of_bigint BPS_PRECISION)) SCALE, big_scaled leverage SCALE) of
         (Some mmRate, Some leverageScaled) \<Rightarrow>
           if leverageScaled = 0 then None
           else if lng then
             (let factor = SCALE - (SCALE * SCALE) sdiv leverageScaled + mmRate in
              if factor \<le> 0 then Some 0 else Some ((entryPrice * factor) sdiv SCALE))
           else
             (let factor = SCALE + (SCALE * SCALE) sdiv leverageScaled - mmRate in
              Some ((entryPrice * factor) sdiv SCALE))
       | _ \<Rightarrow> None))"

definition calcMarginRatio :: "int \<Rightarrow> int \<Rightarrow> number" where
  "calcMarginRatio margin notional =
    (if notional \<le> 0 then Fin 0 else js_div (number_of_bigint ((margin * 10000) sdiv notional)) (Fin 10000))"

definition calcMaxPositionSize :: "int \<Rightarrow> number \<Rightarrow> int \<Rightarrow> int option" where
  "calcMaxPositionSize collateral leverage markPrice =
    (if markPrice \<le> 0 \<or> js_le leverage (Fin 0) \<or> collateral \<le> 0 then Some 0
     else map_option (\<lambda>leverageScaled. (collateral * leverageScaled * PRICE_PRECISION) sdiv (markPrice * 1000 * AMOUNT_PRECISION))
       (big_scaled leverage 1000))"

definition calcUnrealizedPnl :: "bool \<Rightarrow> int \<Rightarrow> int \<Rightarrow> int \<Rightarrow> int" where
  "calcUnrealizedPnl lng sz entryPrice markPrice =
    (if markPrice \<le> 0 \<or> entryPrice \<le> 0 \<or> sz \<le> 0 then 0
     else (let priceDelta = (if lng then markPrice - entryPrice else entryPrice - markPrice) in
       (sz * priceDelta) sdiv PRICE_PRECISION))"

lemma unrealized_opposite: "calcUnrealizedPnl (\<not> l) sz e m = - calcUnrealizedPnl l sz e m"
proof -
  have "sz * (e - m) = - (sz * (m - e))" by (simp add: algebra_simps)
  then show ?thesis by (simp add: calcUnrealizedPnl_def Let_def sdiv_minus_left)
qed

text \<open>
  The liquidation price is on the losing side of the entry price as long as the maintenance rate does
  not exceed the inverse of the leverage.
\<close>

lemma liq_price_side:
  assumes rate: "big_scaled (js_div mm (number_of_bigint BPS_PRECISION)) SCALE = Some mmRate"
    and lev: "big_scaled leverage SCALE = Some ls" "0 < ls" and mm: "0 \<le> mmRate" "mmRate \<le> (SCALE * SCALE) sdiv ls"
    and r: "calcLiqPrice lng entry leverage mm = Some liq" "0 < entry" "\<not> js_le leverage (Fin 0)"
  shows "if lng then 0 \<le> liq \<and> liq \<le> entry else entry \<le> liq"
proof -
  have S: "(0::int) < SCALE" by (simp add: SCALE_def)
  have down: "entry * f sdiv SCALE \<le> entry" if "f \<le> SCALE" "0 \<le> f" for f
  proof -
    have "entry * f \<le> entry * SCALE" using that r(2) by simp
    then have "entry * f sdiv SCALE \<le> entry * SCALE sdiv SCALE"
      using that r(2) S by (intro sdiv_mono_nonneg) simp_all
    then show ?thesis using sdiv_mult_self [of SCALE entry] S by simp
  qed
  have up: "entry \<le> entry * f sdiv SCALE" if "SCALE \<le> f" for f
  proof -
    have "entry * SCALE \<le> entry * f" using that r(2) by simp
    then have "entry * SCALE sdiv SCALE \<le> entry * f sdiv SCALE"
      using r(2) S by (intro sdiv_mono_nonneg) simp_all
    then show ?thesis using sdiv_mult_self [of SCALE entry] S by simp
  qed
  show ?thesis
  proof (cases lng)
    case True
    let ?f = "SCALE - (SCALE * SCALE) sdiv ls + mmRate"
    have "liq = (if ?f \<le> 0 then 0 else (entry * ?f) sdiv SCALE)"
      using r True rate lev by (auto simp: calcLiqPrice_def Let_def split: if_splits)
    moreover have "0 \<le> (entry * ?f) sdiv SCALE" if "0 < ?f" using that r(2) S by (intro sdiv_nonneg_nonneg) simp_all
    ultimately show ?thesis using True down [of ?f] mm r(2) by (auto split: if_splits)
  next
    case False
    let ?f = "SCALE + (SCALE * SCALE) sdiv ls - mmRate"
    have "liq = (entry * ?f) sdiv SCALE" using r False rate lev by (simp add: calcLiqPrice_def Let_def)
    then show ?thesis using False up [of ?f] mm by simp
  qed
qed

text \<open>A positive leverage below a two-millionth divides by zero.\<close>

lemma tiny_leverage_throws: "calcLiqPrice True 1000 (to_number (1 / 10 ^ 7)) (Fin 500) = None"
  by code_simp

subsection \<open>format.ts\<close>

definition priceToHuman :: "int \<Rightarrow> number" where
  "priceToHuman raw = js_div (number_of_bigint ((raw * 10000) sdiv PRICE_PRECISION)) (Fin 10000)"

definition humanToPrice :: "number \<Rightarrow> int option" where
  "humanToPrice val = big_scaled val PRICE_PRECISION"

definition amountToHuman :: "int \<Rightarrow> number" where
  "amountToHuman raw = js_div (number_of_bigint raw) (number_of_bigint AMOUNT_PRECISION)"

definition humanToAmount :: "number \<Rightarrow> int option" where
  "humanToAmount val = big_scaled val AMOUNT_PRECISION"

definition bpsToPercent :: "number \<Rightarrow> number" where
  "bpsToPercent bps = js_mul (js_div bps (number_of_bigint BPS_PRECISION)) (Fin 100)"

definition formatPrice :: "int \<Rightarrow> nat \<Rightarrow> string" where
  "formatPrice raw decimals = to_fixed decimals (priceToHuman raw)"

definition formatAmount :: "int \<Rightarrow> nat \<Rightarrow> string" where
  "formatAmount raw decimals = to_fixed decimals (amountToHuman raw)"

fun js_abs :: "number \<Rightarrow> number" where
  "js_abs (Fin a) = Fin \<bar>a\<bar>"
| "js_abs NaN = NaN"
| "js_abs _ = PInf"

definition plus_sign :: "number \<Rightarrow> string" where
  "plus_sign v = (if js_le (Fin 0) v then ''+'' else [])"

text \<open>The sign of a negative value is dropped: a loss prints like a gain without its plus.\<close>

definition formatPnl :: "int \<Rightarrow> string" where
  "formatPnl raw = (let val = amountToHuman raw in plus_sign val @ ''$'' @ to_fixed 2 (js_abs val))"

definition formatLeverage :: "number \<Rightarrow> string" where
  "formatLeverage bps = to_fixed 1 (js_mul (js_div bps (number_of_bigint BPS_PRECISION)) (Fin 100)) @ ''x''"

definition formatPercent :: "number \<Rightarrow> nat \<Rightarrow> string" where
  "formatPercent bps decimals = to_fixed decimals (bpsToPercent bps) @ ''%''"

definition formatFundingRate :: "int \<Rightarrow> string" where
  "formatFundingRate raw = (let rate = priceToHuman raw in plus_sign rate @ to_fixed 4 (js_mul rate (Fin 100)) @ ''%'')"

definition compact :: "number \<Rightarrow> nat \<Rightarrow> string" where
  "compact val decimals =
    (if js_le (Fin 1000000000) val then to_fixed decimals (js_div val (Fin 1000000000)) @ ''B''
     else if js_le (Fin 1000000) val then to_fixed decimals (js_div val (Fin 1000000)) @ ''M''
     else if js_le (Fin 1000) val then to_fixed decimals (js_div val (Fin 1000)) @ ''K''
     else to_fixed decimals val)"

definition formatCompact :: "number \<Rightarrow> nat \<Rightarrow> string" where
  "formatCompact val decimals = compact val decimals"

definition formatVolume :: "int \<Rightarrow> string" where
  "formatVolume raw = ''$'' @ compact (amountToHuman raw) 2"

definition formatDuration :: "int \<Rightarrow> string" where
  "formatDuration ms =
    (let s = ms div 1000; m = s div 60; h = m div 60 in
     if s < 60 then show_int s @ ''s''
     else if m < 60 then show_int m @ ''m '' @ show_int (s mod 60) @ ''s''
     else show_int h @ ''h '' @ show_int (m mod 60) @ ''m'')"

definition formatChangePercent :: "number \<Rightarrow> nat \<Rightarrow> string" where
  "formatChangePercent pct decimals = plus_sign pct @ to_fixed decimals pct @ ''%''"

lemma loss_prints_without_minus: "formatPnl (- 15000000) = ''$1.50''"
  by code_simp

lemma leverage_is_ten_times_off: "formatLeverage (Fin 100000) = ''1000.0x''"
  by code_simp

end
