(* ===== verification/Trading_Stats.thy ===== *)
theory Trading_Stats
  imports Trading_Math
begin

text \<open>
  \<open>client/lib/stats.ts\<close> (realized profit of a fill and the events that book it) and
  \<open>client/scripts/stats-aggregator.ts\<close> (the roll-up of fills and events into \<open>TraderStat\<close>,
  \<open>LeaderboardSnapshot\<close> and \<open>AccountAnalytics\<close>), with the tables they keep. Two things the database
  chooses are parameters: \<open>grp\<close>, the order in which the groups of a \<open>GROUP BY\<close> or the rows of a join come,
  and \<open>ndiv\<close>, the numeric quotient of a notional by \<open>1e18\<close> (its scale depends on the operands). Surrogate
  identifiers and \<open>updatedAt\<close> are left out.
\<close>

subsection \<open>Tables\<close>

datatype pnl_kind = REALIZED_TRADE | FUNDING | LIQUIDATION | FEE

record pnl_event =
  pe_network :: string
  pe_address :: string
  pe_marketId :: int
  pe_kind :: pnl_kind
  pe_amount :: int
  pe_size :: int
  pe_price :: int
  pe_ledger :: int
  pe_txHash :: string
  pe_refKey :: string
  pe_createdAt :: int

datatype balance_kind = DEPOSIT | WITHDRAWAL | TRANSFER_IN | TRANSFER_OUT

record balance_change =
  bc_network :: string
  bc_address :: string
  bc_kind :: balance_kind
  bc_asset :: string
  bc_amount :: int
  bc_balanceAfter :: "int option"
  bc_txHash :: string
  bc_createdAt :: int

datatype stats_period = DAY | WEEK | MONTH | ALL_TIME

record trader_stat =
  ts_network :: string
  ts_address :: string
  ts_period :: stats_period
  ts_periodStart :: int
  ts_realizedPnl :: int
  ts_volume :: rat
  ts_tradeCount :: int
  ts_winningTrades :: int
  ts_losingTrades :: int
  ts_winRate :: string
  ts_roi :: string
  ts_feesPaid :: int
  ts_fundingPaid :: int
  ts_liquidationCount :: int
  ts_peakCollateral :: string
  ts_lastTradeAt :: "int option"

record ranking =
  rk_rank :: int
  rk_address :: string
  rk_pnl :: number
  rk_volume :: number
  rk_roi :: number

record leaderboard_snapshot =
  ls_network :: string
  ls_period :: stats_period
  ls_metric :: string
  ls_rankings :: "ranking list"
  ls_traderCount :: nat

record account_analytics =
  aa_network :: string
  aa_address :: string
  aa_realizedPnlAll :: int
  aa_volumeAll :: rat
  aa_tradeCountAll :: int
  aa_winRateAll :: string
  aa_totalDeposited :: int
  aa_totalWithdrawn :: int
  aa_totalFundingPaid :: int
  aa_totalFeesPaid :: int
  aa_liquidationCount :: int
  aa_firstTradeAt :: "int option"
  aa_lastTradeAt :: "int option"

text \<open>The statistics tables stand beside those of the exchange.\<close>

record stats_db = database +
  sd_pnl :: "pnl_event list"
  sd_balance :: "balance_change list"
  sd_stats :: "trader_stat list"
  sd_snapshots :: "leaderboard_snapshot list"
  sd_analytics :: "account_analytics list"

subsection \<open>Realized profit of a fill\<close>

record raw_pos =
  rw_marketId :: int
  rw_isLong :: bool
  rw_size :: int
  rw_entryPrice :: int

definition realizedPnlForFill :: "raw_pos list \<Rightarrow> int \<Rightarrow> bool \<Rightarrow> int \<Rightarrow> int \<Rightarrow> int" where
  "realizedPnlForFill positions mkt fillIsLong fsize fprice =
    (case find_row (\<lambda>p. rw_marketId p = mkt \<and> rw_isLong p \<noteq> fillIsLong \<and> 0 < rw_size p) positions of
       None \<Rightarrow> 0
     | Some opposite \<Rightarrow>
         (let closeSize = (if rw_size opposite < fsize then rw_size opposite else fsize) in
          if closeSize \<le> 0 then 0
          else (let priceDelta = (if rw_isLong opposite then fprice - rw_entryPrice opposite
                                  else rw_entryPrice opposite - fprice) in
            (closeSize * priceDelta) sdiv PRICE_PRECISION)))"

definition notional1e7 :: "int \<Rightarrow> int \<Rightarrow> int" where
  "notional1e7 sz price = (sz * price) sdiv PRICE_PRECISION"

text \<open>What a fill realizes is the unrealized profit of the part of the opposite position it closes.\<close>

lemma realized_is_unrealized_of_closed:
  assumes "find_row (\<lambda>p. rw_marketId p = mkt \<and> rw_isLong p \<noteq> l \<and> 0 < rw_size p) positions = Some p"
    and "0 < rw_entryPrice p" and "0 < fprice"
  shows "realizedPnlForFill positions mkt l fsize fprice
    = calcUnrealizedPnl (rw_isLong p) (min (rw_size p) fsize) (rw_entryPrice p) fprice"
  using assms find_row_Some [OF assms(1)]
  by (simp add: realizedPnlForFill_def calcUnrealizedPnl_def Let_def min_def)

text \<open>A fill that opens or increases realizes nothing.\<close>

lemma no_opposite_realizes_nothing:
  "\<forall>p \<in> set positions. rw_marketId p = mkt \<longrightarrow> rw_isLong p = l \<or> rw_size p \<le> 0 \<Longrightarrow>
   realizedPnlForFill positions mkt l fsize fprice = 0"
proof -
  assume "\<forall>p \<in> set positions. rw_marketId p = mkt \<longrightarrow> rw_isLong p = l \<or> rw_size p \<le> 0"
  then have "find_row (\<lambda>p. rw_marketId p = mkt \<and> rw_isLong p \<noteq> l \<and> 0 < rw_size p) positions = None"
    by (auto simp: find_row_None)
  then show ?thesis by (simp add: realizedPnlForFill_def)
qed

subsection \<open>Booking a fill\<close>

record fill_side =
  fs_address :: string
  fs_isLong :: bool
  fs_positionsBefore :: "raw_pos list"
  fs_fee :: int

record fill_args =
  fa_marketId :: int
  fa_txHash :: string
  fa_ledger :: int
  fa_fillSize :: int
  fa_fillPrice :: int
  fa_maker :: fill_side
  fa_taker :: fill_side

definition side_realized :: "fill_args \<Rightarrow> fill_side \<Rightarrow> int" where
  "side_realized a who = realizedPnlForFill (fs_positionsBefore who) (fa_marketId a) (fs_isLong who) (fa_fillSize a) (fa_fillPrice a)"

text \<open>The rows of one side, at the time of the statement.\<close>

definition side_events :: "string \<Rightarrow> int \<Rightarrow> fill_args \<Rightarrow> fill_side \<Rightarrow> string \<Rightarrow> pnl_event list" where
  "side_events net now a who tag =
    (let realized = side_realized a who; refKey = fa_txHash a @ '':'' @ tag in
     (if realized \<noteq> 0 then [\<lparr> pe_network = net, pe_address = fs_address who, pe_marketId = fa_marketId a, pe_kind = REALIZED_TRADE,
        pe_amount = realized, pe_size = fa_fillSize a, pe_price = fa_fillPrice a, pe_ledger = fa_ledger a, pe_txHash = fa_txHash a,
        pe_refKey = refKey, pe_createdAt = now \<rparr>] else []) @
     (if 0 < fs_fee who then [\<lparr> pe_network = net, pe_address = fs_address who, pe_marketId = fa_marketId a, pe_kind = FEE,
        pe_amount = - fs_fee who, pe_size = 0, pe_price = fa_fillPrice a, pe_ledger = fa_ledger a, pe_txHash = fa_txHash a,
        pe_refKey = refKey @ '':fee'', pe_createdAt = now \<rparr>] else []))"

definition fill_events :: "string \<Rightarrow> int \<Rightarrow> fill_args \<Rightarrow> pnl_event list" where
  "fill_events net now a = side_events net now a (fa_maker a) ''maker'' @ side_events net now a (fa_taker a) ''taker''"

text \<open>\<open>ON CONFLICT (network, address, kind, "refKey") DO NOTHING\<close>.\<close>

definition pe_key :: "pnl_event \<Rightarrow> string \<times> string \<times> pnl_kind \<times> string" where
  "pe_key e = (pe_network e, pe_address e, pe_kind e, pe_refKey e)"

definition insert_pnl :: "pnl_event list \<Rightarrow> pnl_event \<Rightarrow> pnl_event list" where
  "insert_pnl t e = snd (insert_unless (\<lambda>x. pe_key x = pe_key e) e t)"

text \<open>The first \<open>n\<close> statements of the call; it stops at the one that fails, a complete call runs all four.\<close>

definition recordFillPnl :: "string \<Rightarrow> int \<Rightarrow> fill_args \<Rightarrow> nat \<Rightarrow> stats_db \<Rightarrow> stats_db" where
  "recordFillPnl net now a n d = d\<lparr> sd_pnl := foldl insert_pnl (sd_pnl d) (take n (fill_events net now a)) \<rparr>"

definition periodStart :: "int \<Rightarrow> stats_period \<Rightarrow> int" where
  "periodStart now period = (case period of
     DAY \<Rightarrow> now - 24 * 3600 * 1000 | WEEK \<Rightarrow> now - 7 * 24 * 3600 * 1000 | MONTH \<Rightarrow> now - 30 * 24 * 3600 * 1000 | ALL_TIME \<Rightarrow> 0)"

subsection \<open>Queries of the aggregator\<close>

record vol_row =
  vr_address :: string
  vr_volume :: rat
  vr_count :: int
  vr_first :: int
  vr_last :: int

text \<open>\<open>UNION ALL\<close> of the makers and the takers of the fills since a time.\<close>

definition trade_legs :: "fill_row list \<Rightarrow> (string \<times> fill_row) list" where
  "trade_legs fs = map (\<lambda>f. (f_maker f, f)) fs @ map (\<lambda>f. (f_taker f, f)) fs"

definition vol_row_of :: "(int \<Rightarrow> rat) \<Rightarrow> string \<Rightarrow> fill_row list \<Rightarrow> vol_row" where
  "vol_row_of ndiv a fs = \<lparr> vr_address = a, vr_volume = sum_list (map (\<lambda>f. ndiv (f_size f * f_price f)) fs),
     vr_count = int (length fs), vr_first = foldl min (f_createdAt (hd fs)) (map f_createdAt fs),
     vr_last = foldl max (f_createdAt (hd fs)) (map f_createdAt fs) \<rparr>"

definition group_legs :: "(string list \<Rightarrow> string list) \<Rightarrow> (int \<Rightarrow> rat) \<Rightarrow> (string \<times> fill_row) list \<Rightarrow> vol_row list" where
  "group_legs grp ndiv legs = map (\<lambda>a. vol_row_of ndiv a (map snd (filter (\<lambda>l. fst l = a) legs))) (grp (map fst legs))"

definition volumeStats :: "(string list \<Rightarrow> string list) \<Rightarrow> (int \<Rightarrow> rat) \<Rightarrow> string \<Rightarrow> int \<Rightarrow> stats_db \<Rightarrow> vol_row list" where
  "volumeStats grp ndiv net since d =
     group_legs grp ndiv (trade_legs (filter (\<lambda>f. f_network f = net \<and> since \<le> f_createdAt f) (db_fills d)))"

record pnl_row =
  pr_address :: string
  pr_realized :: int
  pr_fees :: int
  pr_funding :: int
  pr_wins :: int
  pr_losses :: int
  pr_liqs :: int

definition sum_kind :: "pnl_kind \<Rightarrow> pnl_event list \<Rightarrow> int" where
  "sum_kind k es = sum_list (map (\<lambda>e. if pe_kind e = k then pe_amount e else 0) es)"

definition count_if :: "('a \<Rightarrow> bool) \<Rightarrow> 'a list \<Rightarrow> int" where
  "count_if P xs = int (length (filter P xs))"

definition pnl_row_of :: "string \<Rightarrow> pnl_event list \<Rightarrow> pnl_row" where
  "pnl_row_of a es = \<lparr> pr_address = a, pr_realized = sum_kind REALIZED_TRADE es, pr_fees = - sum_kind FEE es,
     pr_funding = sum_kind FUNDING es,
     pr_wins = count_if (\<lambda>e. pe_kind e = REALIZED_TRADE \<and> 0 < pe_amount e) es,
     pr_losses = count_if (\<lambda>e. pe_kind e = REALIZED_TRADE \<and> pe_amount e < 0) es,
     pr_liqs = count_if (\<lambda>e. pe_kind e = LIQUIDATION) es \<rparr>"

definition group_events :: "(string list \<Rightarrow> string list) \<Rightarrow> pnl_event list \<Rightarrow> pnl_row list" where
  "group_events grp es = map (\<lambda>a. pnl_row_of a (filter (\<lambda>e. pe_address e = a) es)) (grp (map pe_address es))"

definition pnlStats :: "(string list \<Rightarrow> string list) \<Rightarrow> string \<Rightarrow> int \<Rightarrow> stats_db \<Rightarrow> pnl_row list" where
  "pnlStats grp net since d = group_events grp (filter (\<lambda>e. pe_network e = net \<and> since \<le> pe_createdAt e) (sd_pnl d))"

record dep_row =
  dr_address :: string
  dr_deposited :: int
  dr_withdrawn :: int

definition sum_balance :: "balance_kind \<Rightarrow> balance_change list \<Rightarrow> int" where
  "sum_balance k cs = sum_list (map (\<lambda>c. if bc_kind c = k then bc_amount c else 0) cs)"

definition depositStats :: "(string list \<Rightarrow> string list) \<Rightarrow> string \<Rightarrow> stats_db \<Rightarrow> dep_row list" where
  "depositStats grp net d =
    (let cs = filter (\<lambda>c. bc_network c = net) (sd_balance d) in
     map (\<lambda>a. let own = filter (\<lambda>c. bc_address c = a) cs in
         \<lparr> dr_address = a, dr_deposited = sum_balance DEPOSIT own, dr_withdrawn = sum_balance WITHDRAWAL own \<rparr>)
       (grp (map bc_address cs)))"

subsection \<open>One period\<close>

text \<open>\<open>byAddr\<close>: the object of an address, with the fields of the two queries that were assigned to it.\<close>

type_synonym agg = "vol_row option \<times> pnl_row option"

definition agg_of :: "(string, agg) js_map \<Rightarrow> string \<Rightarrow> agg" where
  "agg_of m a = (case map_get m a of None \<Rightarrow> (None, None) | Some g \<Rightarrow> g)"

definition assign_vol :: "(string, agg) js_map \<Rightarrow> vol_row \<Rightarrow> (string, agg) js_map" where
  "assign_vol m r = map_set m (vr_address r) (Some r, snd (agg_of m (vr_address r)))"

definition assign_pnl :: "(string, agg) js_map \<Rightarrow> pnl_row \<Rightarrow> (string, agg) js_map" where
  "assign_pnl m r = map_set m (pr_address r) (fst (agg_of m (pr_address r)), Some r)"

definition byAddr :: "vol_row list \<Rightarrow> pnl_row list \<Rightarrow> (string, agg) js_map" where
  "byAddr vol pnl = foldl assign_pnl (foldl assign_vol [] vol) pnl"

definition or_zero :: "('a \<Rightarrow> 'b::zero) \<Rightarrow> 'a option \<Rightarrow> 'b" where
  "or_zero f x = (case x of None \<Rightarrow> 0 | Some r \<Rightarrow> f r)"

definition js_max :: "number \<Rightarrow> number \<Rightarrow> number" where
  "js_max x y = (if x = NaN \<or> y = NaN then NaN else if js_le x y then y else x)"

definition win_rate :: "int \<Rightarrow> int \<Rightarrow> string" where
  "win_rate wins losses = to_fixed 4
    (if 0 < wins + losses then js_div (number_of_bigint wins) (number_of_bigint (wins + losses)) else Fin 0)"

definition stat_row :: "string \<Rightarrow> stats_period \<Rightarrow> int \<Rightarrow> dep_row list \<Rightarrow> string \<Rightarrow> agg \<Rightarrow> trader_stat" where
  "stat_row net period since dep addr g =
    (let v = fst g; p = snd g;
         deposited = number_of_bigint (or_zero dr_deposited (find_row (\<lambda>r. dr_address r = addr) dep)) in
     \<lparr> ts_network = net, ts_address = addr, ts_period = period, ts_periodStart = since,
       ts_realizedPnl = or_zero pr_realized p, ts_volume = or_zero vr_volume v, ts_tradeCount = or_zero vr_count v,
       ts_winningTrades = or_zero pr_wins p, ts_losingTrades = or_zero pr_losses p,
       ts_winRate = win_rate (or_zero pr_wins p) (or_zero pr_losses p),
       ts_roi = to_fixed 4 (js_div (number_of_bigint (or_zero pr_realized p)) (js_max deposited (Fin 1))),
       ts_feesPaid = or_zero pr_fees p, ts_fundingPaid = or_zero pr_funding p, ts_liquidationCount = or_zero pr_liqs p,
       ts_peakCollateral = js_number_to_string deposited, ts_lastTradeAt = map_option vr_last v \<rparr>)"

text \<open>\<open>INSERT ... ON CONFLICT (key) DO UPDATE\<close>; the merge keeps the columns the update leaves out.\<close>

definition upsert :: "('r \<Rightarrow> 'k) \<Rightarrow> ('r \<Rightarrow> 'r \<Rightarrow> 'r) \<Rightarrow> 'r list \<Rightarrow> 'r \<Rightarrow> 'r list" where
  "upsert key merge t n =
    (if \<exists>r \<in> set t. key r = key n then update_where (\<lambda>r. key r = key n) (merge n) t else t @ [n])"

definition ts_key :: "trader_stat \<Rightarrow> string \<times> string \<times> stats_period" where
  "ts_key s = (ts_network s, ts_address s, ts_period s)"

definition ts_merge :: "trader_stat \<Rightarrow> trader_stat \<Rightarrow> trader_stat" where
  "ts_merge new old = new\<lparr> ts_periodStart := ts_periodStart old \<rparr>"

definition ranking_of :: "dep_row list \<Rightarrow> string \<times> agg \<Rightarrow> ranking" where
  "ranking_of dep e =
    (let deposited = number_of_bigint (or_zero dr_deposited (find_row (\<lambda>r. dr_address r = fst e) dep));
         pnl = number_of_bigint (or_zero pr_realized (snd (snd e))) in
     \<lparr> rk_rank = 0, rk_address = fst e, rk_pnl = pnl, rk_volume = to_number (or_zero vr_volume (fst (snd e))),
       rk_roi = (if js_lt (Fin 0) deposited then js_div pnl deposited else Fin 0) \<rparr>)"

definition ranked_traders :: "dep_row list \<Rightarrow> (string, agg) js_map \<Rightarrow> ranking list" where
  "ranked_traders dep m = map (\<lambda>(i, r). r\<lparr> rk_rank := int i + 1 \<rparr>)
     (enumerate 0 (take 50 (js_sort (\<lambda>a b. js_sign (js_sub (rk_pnl b) (rk_pnl a))) (map (ranking_of dep) m))))"

definition aggregatePeriod :: "(string list \<Rightarrow> string list) \<Rightarrow> (int \<Rightarrow> rat) \<Rightarrow> string \<Rightarrow> stats_period \<Rightarrow> int \<Rightarrow> stats_db \<Rightarrow> nat \<times> stats_db" where
  "aggregatePeriod grp ndiv net period since d =
    (let m = byAddr (volumeStats grp ndiv net since d) (pnlStats grp net since d); dep = depositStats grp net d;
         d1 = d\<lparr> sd_stats := foldl (upsert ts_key ts_merge) (sd_stats d) (map (\<lambda>(a, g). stat_row net period since dep a g) m) \<rparr> in
     (length m, if m = [] then d1
       else d1\<lparr> sd_snapshots := sd_snapshots d1 @ [\<lparr> ls_network = net, ls_period = period, ls_metric = ''pnl'',
         ls_rankings = ranked_traders dep m, ls_traderCount = length m \<rparr>] \<rparr>))"

subsection \<open>All-time analytics\<close>

text \<open>The rows of the two full outer joins: one for each address of any of the three groupings.\<close>

definition analytics_rows :: "(string list \<Rightarrow> string list) \<Rightarrow> (int \<Rightarrow> rat) \<Rightarrow> string \<Rightarrow> stats_db \<Rightarrow> account_analytics list" where
  "analytics_rows grp ndiv net d =
    (let v = group_legs grp ndiv (trade_legs (filter (\<lambda>f. f_network f = net) (db_fills d)));
         p = group_events grp (filter (\<lambda>e. pe_network e = net) (sd_pnl d));
         b = depositStats grp net d in
     map (\<lambda>a. let rv = find_row (\<lambda>r. vr_address r = a) v; rp = find_row (\<lambda>r. pr_address r = a) p; rb = find_row (\<lambda>r. dr_address r = a) b in
        \<lparr> aa_network = net, aa_address = a, aa_realizedPnlAll = or_zero pr_realized rp, aa_volumeAll = or_zero vr_volume rv,
          aa_tradeCountAll = or_zero vr_count rv, aa_winRateAll = win_rate (or_zero pr_wins rp) (or_zero pr_losses rp),
          aa_totalDeposited = or_zero dr_deposited rb, aa_totalWithdrawn = or_zero dr_withdrawn rb,
          aa_totalFundingPaid = or_zero pr_funding rp, aa_totalFeesPaid = or_zero pr_fees rp,
          aa_liquidationCount = or_zero pr_liqs rp, aa_firstTradeAt = map_option vr_first rv, aa_lastTradeAt = map_option vr_last rv \<rparr>)
      (grp (map vr_address v @ map pr_address p @ map dr_address b)))"

definition aa_key :: "account_analytics \<Rightarrow> string \<times> string" where
  "aa_key r = (aa_network r, aa_address r)"

definition aa_merge :: "account_analytics \<Rightarrow> account_analytics \<Rightarrow> account_analytics" where
  "aa_merge new old = new\<lparr> aa_firstTradeAt := aa_firstTradeAt old \<rparr>"

definition aggregateAnalytics :: "(string list \<Rightarrow> string list) \<Rightarrow> (int \<Rightarrow> rat) \<Rightarrow> string \<Rightarrow> stats_db \<Rightarrow> nat \<times> stats_db" where
  "aggregateAnalytics grp ndiv net d = (let rows = analytics_rows grp ndiv net d in
     (length rows, d\<lparr> sd_analytics := foldl (upsert aa_key aa_merge) (sd_analytics d) rows \<rparr>))"

text \<open>
  \<open>runAggregation\<close>; \<open>clock\<close> is the time at which each period computes its cutoff. All queries of a run read the
  state the run starts from and has written itself: fills and events that the matcher books while the run is going on,
  which the later of its statements would already see, are not part of the model.
\<close>

definition run_periods :: "(string list \<Rightarrow> string list) \<Rightarrow> (int \<Rightarrow> rat) \<Rightarrow> string \<Rightarrow> (stats_period \<Rightarrow> int) \<Rightarrow> stats_db \<Rightarrow> nat \<times> stats_db" where
  "run_periods grp ndiv net clock d = foldl (\<lambda>(n, d) period.
     let r = aggregatePeriod grp ndiv net period (periodStart (clock period) period) d in (n + fst r, snd r)) (0, d) [DAY, WEEK, MONTH, ALL_TIME]"

definition runAggregation :: "(string list \<Rightarrow> string list) \<Rightarrow> (int \<Rightarrow> rat) \<Rightarrow> string \<Rightarrow> (stats_period \<Rightarrow> int) \<Rightarrow> stats_db \<Rightarrow> (nat \<times> nat) \<times> stats_db" where
  "runAggregation grp ndiv net clock d =
    (let (n, d1) = run_periods grp ndiv net clock d; (k, d2) = aggregateAnalytics grp ndiv net d1 in ((n, k), d2))"

end
