(* ===== verification/State_Indexer.thy ===== *)
theory State_Indexer
  imports Chain_Views Trading_Stats
begin

text \<open>
  \<open>client/scripts/state-indexer.ts\<close>: the contract reads of a market, the SQL text of the upsert, which is
  built by hand with quotes doubled, and the tick that also rolls up the statistics every sixth time. The
  answers of the RPC server are a \<open>chain_reads\<close>. What PostgreSQL does with the text is stated apart, by a
  reader of its literals and the effect of the upsert on the rows of \<open>Market\<close>.
\<close>

subsection \<open>Reads\<close>

record indexer_market =
  im_id :: int
  im_symbol :: string
  im_oracleSymbol :: string
  im_settlementAsset :: string

definition INDEXER_MARKETS :: "config \<Rightarrow> indexer_market list" where
  "INDEXER_MARKETS cfg = map (\<lambda>e. \<lparr> im_id = mc_marketId (snd e), im_symbol = symbol (snd e),
     im_oracleSymbol = oracleSymbol (snd e), im_settlementAsset = settlementAsset (snd e) \<rparr>) (ACTIVE_MARKETS cfg)"

text \<open>A value that is not \<open>null\<close>; and what \<open>Promise.allSettled\<close> leaves of a read: a rejection is \<open>null\<close>.\<close>

definition non_null :: "native option \<Rightarrow> native option" where
  "non_null v = (if v = Some VNull then None else v)"

definition settled :: "native option option \<Rightarrow> native option" where
  "settled r = (case r of None \<Rightarrow> None | Some v \<Rightarrow> non_null v)"

text \<open>\<open>String(value[k] ?? "0")\<close> of a truthy value.\<close>

definition text_field :: "native \<Rightarrow> string \<Rightarrow> string" where
  "text_field v k = native_string (native_or (native_field v k) (VStr ''0''))"

definition when_read :: "native option \<Rightarrow> (native \<Rightarrow> (string \<times> string) list) \<Rightarrow> (string \<times> string) list" where
  "when_read v f = (case v of None \<Rightarrow> [] | Some x \<Rightarrow> f x)"

text \<open>
  The columns that were read, in the order of the object's keys; the reads of the open interest are
  awaited outside \<open>allSettled\<close>, so an exception there ends the market's turn (\<open>None\<close>).
\<close>

definition index_updates :: "chain_reads \<Rightarrow> config \<Rightarrow> indexer_market \<Rightarrow> (string \<times> string) list option" where
  "index_updates R cfg mkt =
    (let engine = engine (CONTRACTS_cfg cfg); args = [ScU32 (im_id mkt)];
         funding = settled (simulateRead R engine ''funding_state'' args);
         oraclePrice = settled (simulateRead R (oracleAdapter (CONTRACTS_cfg cfg)) ''get_price'' [ScSymbol (im_oracleSymbol mkt), ScVoid]) in
     case simulateRead R engine ''long_open_interest'' args of None \<Rightarrow> None | Some longOI \<Rightarrow>
     (case simulateRead R engine ''short_open_interest'' args of None \<Rightarrow> None | Some shortOI \<Rightarrow>
       Some (when_read (non_null longOI) (\<lambda>v. [(''longOpenInterest'', native_string v)]) @
         when_read (non_null shortOI) (\<lambda>v. [(''shortOpenInterest'', native_string v)]) @
         (if native_truthy funding then when_read funding (\<lambda>v. [(''fundingLongIndex'', text_field v ''long_index''),
            (''fundingShortIndex'', text_field v ''short_index'')]) else []) @
         (if native_truthy oraclePrice then when_read oraclePrice (\<lambda>v. [(''lastOraclePrice'', text_field v ''price'')]) else []))))"

subsection \<open>The statement\<close>

definition quote :: char where "quote = CHR 0x27"

fun double_quotes :: "string \<Rightarrow> string" where
  "double_quotes [] = []"
| "double_quotes (c # s) = (if c = quote then quote # quote # double_quotes s else c # double_quotes s)"

definition sql_quote :: "string \<Rightarrow> string" where
  "sql_quote s = quote # double_quotes s @ [quote]"

text \<open>Columns, the text between the parentheses of \<open>VALUES\<close>, and the columns set from \<open>EXCLUDED\<close>.\<close>

record upsert_stmt =
  us_cols :: "string list"
  us_values :: string
  us_set :: "string list"

definition index_stmt :: "indexer_market \<Rightarrow> (string \<times> string) list \<Rightarrow> upsert_stmt" where
  "index_stmt mkt updates =
     \<lparr> us_cols = [''id'', ''symbol'', ''settlementAsset'', ''active''] @ map fst updates @ [''updatedAt'', ''createdAt''],
       us_values = js_join '', '' ([show_int (im_id mkt), sql_quote (im_symbol mkt), sql_quote (im_settlementAsset mkt), ''true''] @
         map (\<lambda>e. sql_quote (snd e)) updates @ [''NOW()'', ''NOW()'']),
       us_set = map fst updates \<rparr>"

subsection \<open>What PostgreSQL reads\<close>

text \<open>A string literal ends at a quote that is not doubled; any other value ends at a comma.\<close>

datatype sql_value = SqlText string | SqlWord string

fun scan_text :: "string \<Rightarrow> (string \<times> string) option" where
  "scan_text [] = None"
| "scan_text [c] = (if c = quote then Some ([], []) else None)"
| "scan_text (c # c' # s) = (if c = quote then (if c' = quote then map_option (\<lambda>(t, r). (quote # t, r)) (scan_text s) else Some ([], c' # s))
     else map_option (\<lambda>(t, r). (c # t, r)) (scan_text (c' # s)))"

definition scan_value :: "string \<Rightarrow> (sql_value \<times> string) option" where
  "scan_value s = (if s = [] then None
     else if hd s = quote then map_option (\<lambda>(t, r). (SqlText t, r)) (scan_text (tl s))
     else (let w = takeWhile (\<lambda>c. c \<noteq> CHR '','') s in if w = [] then None else Some (SqlWord w, drop (length w) s)))"

lemma scan_text_length: "scan_text s = Some (t, r) \<Longrightarrow> length r < length s"
  by (induction s arbitrary: t r rule: scan_text.induct) (fastforce split: if_splits)+

lemma scan_value_length: "scan_value s = Some (v, r) \<Longrightarrow> length r < length s"
proof -
  assume a: "scan_value s = Some (v, r)"
  then have ne: "s \<noteq> []" by (auto simp: scan_value_def)
  show ?thesis
  proof (cases "hd s = quote")
    case True
    with a ne obtain t where "scan_text (tl s) = Some (t, r)" by (auto simp: scan_value_def)
    then show ?thesis using scan_text_length [of "tl s" t r] by simp
  next
    case False
    with a ne have "r = drop (length (takeWhile (\<lambda>c. c \<noteq> CHR '','') s)) s" "takeWhile (\<lambda>c. c \<noteq> CHR '','') s \<noteq> []"
      by (auto simp: scan_value_def Let_def split: if_splits)
    then show ?thesis using ne by (cases s) auto
  qed
qed

function scan_values :: "string \<Rightarrow> sql_value list option" where
  "scan_values s = (case scan_value s of None \<Rightarrow> None | Some (v, r) \<Rightarrow>
     if r = [] then Some [v] else if take 2 r = '', '' then map_option (Cons v) (scan_values (drop 2 r)) else None)"
  by pat_completeness auto
termination
  by (relation "measure length") (auto dest: scan_value_length)

declare scan_values.simps [simp del]

type_synonym market_table = "(string, string \<Rightarrow> string option) js_map"

fun value_text :: "string \<Rightarrow> sql_value \<Rightarrow> string" where
  "value_text now (SqlText t) = t"
| "value_text now (SqlWord w) = (if w = ''NOW()'' then now else w)"

text \<open>\<open>ON CONFLICT (id) DO UPDATE\<close> with the columns of \<open>us_set\<close> and \<open>updatedAt\<close>; \<open>None\<close> is a syntax
  error. A NUL byte, which the server refuses, is accepted here: the values are decimal numbers and names of the
  market configuration.\<close>

definition execute_upsert :: "string \<Rightarrow> upsert_stmt \<Rightarrow> market_table \<Rightarrow> market_table option" where
  "execute_upsert now st T = (case scan_values (us_values st) of
     None \<Rightarrow> None
   | Some vs \<Rightarrow> if length vs \<noteq> length (us_cols st) then None
       else (let excluded = map_of (zip (us_cols st) (map (value_text now) vs)) in
         case excluded ''id'' of None \<Rightarrow> None | Some ident \<Rightarrow>
         (case map_get T ident of
            None \<Rightarrow> Some (map_set T ident excluded)
          | Some row \<Rightarrow> Some (map_set T ident
              (\<lambda>c. if c \<in> set (us_set st) then excluded c else if c = ''updatedAt'' then Some now else row c)))))"

subsection \<open>The tick\<close>

text \<open>An exception, or a statement the server rejects, leaves the market as it is.\<close>

definition indexMarket :: "chain_reads \<Rightarrow> config \<Rightarrow> string \<Rightarrow> indexer_market \<Rightarrow> market_table \<Rightarrow> market_table option" where
  "indexMarket R cfg now mkt T = (case index_updates R cfg mkt of
     None \<Rightarrow> None | Some updates \<Rightarrow> execute_upsert now (index_stmt mkt updates) T)"

record indexer =
  ix_markets :: market_table
  ix_stats :: stats_db
  ix_tickCount :: nat

definition index_markets :: "chain_reads \<Rightarrow> config \<Rightarrow> string \<Rightarrow> indexer_market list \<Rightarrow> market_table \<Rightarrow> market_table" where
  "index_markets R cfg now mkts T = foldl (\<lambda>T mkt. case indexMarket R cfg now mkt T of None \<Rightarrow> T | Some T' \<Rightarrow> T') T mkts"

definition indexer_tick :: "chain_reads \<Rightarrow> config \<Rightarrow> string \<Rightarrow> (stats_db \<Rightarrow> stats_db option) \<Rightarrow> indexer \<Rightarrow> indexer" where
  "indexer_tick R cfg now aggregate s = s\<lparr> ix_markets := index_markets R cfg now (INDEXER_MARKETS cfg) (ix_markets s),
     ix_stats := (if ix_tickCount s mod 6 = 0 then (case aggregate (ix_stats s) of None \<Rightarrow> ix_stats s | Some d \<Rightarrow> d) else ix_stats s),
     ix_tickCount := ix_tickCount s + 1 \<rparr>"

subsection \<open>The text reads back\<close>

lemma scan_double_quotes: "(rest = [] \<or> hd rest \<noteq> quote) \<Longrightarrow> scan_text (double_quotes s @ quote # rest) = Some (s, rest)"
proof (induction s)
  case Nil
  then show ?case by (cases rest) auto
next
  case (Cons c s)
  then show ?case
  proof (cases "c = quote")
    case False
    have ne: "double_quotes s @ quote # rest \<noteq> []" by simp
    then obtain c' s' where "double_quotes s @ quote # rest = c' # s'" by (cases "double_quotes s @ quote # rest") auto
    then show ?thesis using False Cons by simp
  qed simp
qed

lemma scan_sql_quote: "(rest = [] \<or> hd rest = CHR '','') \<Longrightarrow> scan_value (sql_quote s @ rest) = Some (SqlText s, rest)"
  using scan_double_quotes [of rest s] by (auto simp: scan_value_def sql_quote_def quote_def)

lemma scan_word:
  assumes "w \<noteq> []" and "CHR '','' \<notin> set w" and "hd w \<noteq> quote" and "rest = [] \<or> hd rest = CHR '','' "
  shows "scan_value (w @ rest) = Some (SqlWord w, rest)"
proof -
  have "takeWhile (\<lambda>c. c \<noteq> CHR '','') (w @ rest) = w"
    using assms(2) by (induction w) (use assms(4) in \<open>cases rest; auto\<close>)+
  then show ?thesis using assms by (cases w) (auto simp: scan_value_def Let_def)
qed

text \<open>A text and the value it denotes, whatever follows it in a list.\<close>

definition denotes :: "string \<Rightarrow> sql_value \<Rightarrow> bool" where
  "denotes t v \<longleftrightarrow> (\<forall>rest. rest = [] \<or> hd rest = CHR '','' \<longrightarrow> scan_value (t @ rest) = Some (v, rest))"

lemma denotes_quote: "denotes (sql_quote s) (SqlText s)"
  using scan_sql_quote by (simp add: denotes_def)

lemma denotes_word: "w \<noteq> [] \<Longrightarrow> CHR '','' \<notin> set w \<Longrightarrow> hd w \<noteq> quote \<Longrightarrow> denotes w (SqlWord w)"
  using scan_word by (simp add: denotes_def)

lemma denotes_int: "denotes (show_int n) (SqlWord (show_int n))"
proof (rule denotes_word)
  show "show_int n \<noteq> []" using signed_digits_show_int [of n] by auto
  then have "hd (show_int n) \<in> set (show_int n)" by simp
  then show "hd (show_int n) \<noteq> quote" using show_int_chars [of "hd (show_int n)" n] by (auto simp: is_digit_def quote_def)
  show "CHR '','' \<notin> set (show_int n)" using show_int_chars [of "CHR '',''" n] by (auto simp: is_digit_def)
qed

lemma scan_joined: "ts \<noteq> [] \<Longrightarrow> list_all2 denotes ts vs \<Longrightarrow> scan_values (js_join '', '' ts) = Some vs"
proof (induction ts arbitrary: vs)
  case (Cons t ts)
  then obtain v vs' where vs: "vs = v # vs'" "denotes t v" "list_all2 denotes ts vs'" by (auto simp: list_all2_Cons1)
  show ?case
  proof (cases ts)
    case Nil
    have "scan_value (t @ []) = Some (v, [])" using vs(2) by (simp only: denotes_def) blast
    then show ?thesis using Nil vs by (simp add: scan_values.simps)
  next
    case (Cons u us)
    have j: "js_join '', '' (t # ts) = t @ '', '' @ js_join '', '' ts" using Cons by simp
    have "scan_value (t @ '', '' @ js_join '', '' ts) = Some (v, '', '' @ js_join '', '' ts)"
      using vs(2) by (simp add: denotes_def)
    moreover have "scan_values (js_join '', '' ts) = Some vs'" using Cons.IH vs(3) Cons by simp
    ultimately show ?thesis unfolding j by (subst scan_values.simps) (simp add: vs(1))
  qed
qed simp

subsection \<open>What a turn changes\<close>

definition read_columns :: "string list" where
  "read_columns = [''longOpenInterest'', ''shortOpenInterest'', ''fundingLongIndex'', ''fundingShortIndex'', ''lastOraclePrice'']"

lemma updates_columns: "index_updates R cfg mkt = Some updates \<Longrightarrow> distinct (map fst updates) \<and> set (map fst updates) \<subseteq> set read_columns"
  by (auto simp: index_updates_def Let_def when_read_def read_columns_def split: option.splits if_splits)

lemma stmt_values: "scan_values (us_values (index_stmt mkt updates)) = Some ([SqlWord (show_int (im_id mkt)), SqlText (im_symbol mkt),
   SqlText (im_settlementAsset mkt), SqlWord ''true''] @ map (\<lambda>e. SqlText (snd e)) updates @ [SqlWord ''NOW()'', SqlWord ''NOW()''])"
proof -
  have "list_all2 denotes (map (\<lambda>e. sql_quote (snd e)) us) (map (\<lambda>e. SqlText (snd e)) us)" for us :: "(string \<times> string) list"
    by (simp add: list_all2_conv_all_nth denotes_quote)
  moreover have "denotes ''true'' (SqlWord ''true'')" "denotes ''NOW()'' (SqlWord ''NOW()'')"
    by (rule denotes_word; simp add: quote_def)+
  ultimately show ?thesis
    unfolding index_stmt_def upsert_stmt.simps
    by (intro scan_joined) (simp_all add: denotes_int denotes_quote list_all2_appendI)
qed

text \<open>The value of a column a market has none of in the statement.\<close>

definition fresh_column :: "string \<Rightarrow> indexer_market \<Rightarrow> string \<Rightarrow> string option" where
  "fresh_column now mkt = map_of [(''id'', show_int (im_id mkt)), (''symbol'', im_symbol mkt),
     (''settlementAsset'', im_settlementAsset mkt), (''active'', ''true''), (''createdAt'', now)]"

text \<open>
  C23. The indexer writes what it read, and nothing else: when the open interest reads do not throw, the
  generated statement is accepted whatever characters the values contain (quotes, backslashes and separators; not
  a NUL byte, which only the server refuses and no number or market name has), the columns read get exactly the
  texts read, \<open>updatedAt\<close> the current time, every column whose read failed keeps its value (or the initial
  one of a missing row), and no other market changes.
\<close>

theorem index_writes_what_it_read:
  assumes "index_updates R cfg mkt = Some updates"
  shows "\<exists>T' row. indexMarket R cfg now mkt T = Some T' \<and> map_get T' (show_int (im_id mkt)) = Some row \<and>
    (\<forall>k. k \<noteq> show_int (im_id mkt) \<longrightarrow> map_get T' k = map_get T k) \<and>
    (\<forall>c. row c = (case map_of updates c of Some v \<Rightarrow> Some v | None \<Rightarrow>
       if c = ''updatedAt'' then Some now
       else (case map_get T (show_int (im_id mkt)) of Some old \<Rightarrow> old c | None \<Rightarrow> fresh_column now mkt c))) \<and>
    set (map fst updates) \<subseteq> set read_columns"
proof -
  let ?id = "show_int (im_id mkt)"
  let ?ex = "map_of (zip (us_cols (index_stmt mkt updates)) (map (value_text now) ([SqlWord ?id, SqlText (im_symbol mkt),
     SqlText (im_settlementAsset mkt), SqlWord ''true''] @ map (\<lambda>e. SqlText (snd e)) updates @ [SqlWord ''NOW()'', SqlWord ''NOW()''])))"
  have cols: "distinct (map fst updates)" "set (map fst updates) \<subseteq> set read_columns" using updates_columns [OF assms] by auto
  have id: "value_text now (SqlWord ?id) = ?id" using show_int_chars [of "CHR ''N''" "im_id mkt"] by (auto simp: is_digit_def)
  have zip: "zip (us_cols (index_stmt mkt updates)) (map (value_text now) ([SqlWord ?id, SqlText (im_symbol mkt),
     SqlText (im_settlementAsset mkt), SqlWord ''true''] @ map (\<lambda>e. SqlText (snd e)) updates @ [SqlWord ''NOW()'', SqlWord ''NOW()'']))
     = [(''id'', ?id), (''symbol'', im_symbol mkt), (''settlementAsset'', im_settlementAsset mkt), (''active'', ''true'')] @ updates @
       [(''updatedAt'', now), (''createdAt'', now)]"
    using id by (simp add: index_stmt_def comp_def zip_append zip_map_fst_snd del: value_text.simps(2)) (simp add: zip_map_fst_snd)
  have ex: "?ex c = (case map_of updates c of Some v \<Rightarrow> Some v | None \<Rightarrow> if c = ''updatedAt'' then Some now else fresh_column now mkt c)" for c
  proof -
    show ?thesis
    proof (cases "c \<in> set read_columns")
      case True
      then have "c \<noteq> ''id''" "c \<noteq> ''symbol''" "c \<noteq> ''settlementAsset''" "c \<noteq> ''active''" "c \<noteq> ''createdAt''" "c \<noteq> ''updatedAt''"
        by (auto simp: read_columns_def)
      then show ?thesis unfolding zip fresh_column_def by (simp add: map_add_def split: option.splits)
    next
      case False
      then have "map_of updates c = None" using cols(2) by (auto simp: map_of_eq_None_iff)
      then show ?thesis unfolding zip fresh_column_def by (cases "c = ''updatedAt''") (simp_all add: map_add_def)
    qed
  qed
  have step: "indexMarket R cfg now mkt T = Some (map_set T ?id (case map_get T ?id of None \<Rightarrow> ?ex
      | Some row \<Rightarrow> (\<lambda>c. if c \<in> set (map fst updates) then ?ex c else if c = ''updatedAt'' then Some now else row c)))"
  proof -
    have "''id'' \<notin> set read_columns" by (simp add: read_columns_def)
    then have "map_of updates ''id'' = None" using cols(2) by (auto simp: map_of_eq_None_iff)
    then have i: "?ex ''id'' = Some ?id" unfolding ex by (simp add: fresh_column_def)
    have len: "length ([SqlWord ?id, SqlText (im_symbol mkt), SqlText (im_settlementAsset mkt), SqlWord ''true''] @
        map (\<lambda>e. SqlText (snd e)) updates @ [SqlWord ''NOW()'', SqlWord ''NOW()'']) = length (us_cols (index_stmt mkt updates))"
      by (simp add: index_stmt_def)
    have set: "us_set (index_stmt mkt updates) = map fst updates" by (simp add: index_stmt_def)
    show ?thesis
      unfolding indexMarket_def assms option.case execute_upsert_def stmt_values len Let_def i set
      by (simp only: if_False not_True_eq_False option.case refl simp_thms split: option.split) auto
  qed
  define row where "row = (case map_get T ?id of None \<Rightarrow> ?ex
      | Some row \<Rightarrow> (\<lambda>c. if c \<in> set (map fst updates) then ?ex c else if c = ''updatedAt'' then Some now else row c))"
  have row: "row c = (case map_of updates c of Some v \<Rightarrow> Some v | None \<Rightarrow> if c = ''updatedAt'' then Some now
       else (case map_get T ?id of Some old \<Rightarrow> old c | None \<Rightarrow> fresh_column now mkt c))" for c
  proof (cases "map_get T ?id")
    case None
    then show ?thesis unfolding row_def by (simp only: option.case ex)
  next
    case (Some old)
    show ?thesis
    proof (cases "map_of updates c")
      case None
      then have "c \<notin> set (map fst updates)" by (simp add: map_of_eq_None_iff)
      then show ?thesis unfolding row_def Some using None by simp
    next
      case v: (Some v)
      then have "c \<in> set (map fst updates)" by (metis map_of_eq_None_iff option.distinct(1) set_map)
      then show ?thesis unfolding row_def Some option.case ex v by simp
    qed
  qed
  show ?thesis
    using step row cols(2) unfolding row_def [symmetric]
    by (intro exI [of _ "map_set T ?id row"] exI [of _ row]) (simp add: map_get_set)
qed

subsection \<open>Witness\<close>

text \<open>A chain whose open interest text holds a quote and whose oracle read fails.\<close>

definition example_reads :: chain_reads where
  "example_reads contract method args =
     (if method = ''get_price'' then ReadThrow else if method = ''funding_state'' then ReadError
      else ReadVal (Some (VStr (quote # ''); DROP''))))"

definition example_indexed :: indexer_market where
  "example_indexed = \<lparr> im_id = 1, im_symbol = ''XLM-PERP'', im_oracleSymbol = ''XLM'', im_settlementAsset = ''CA'' \<rparr>"

theorem index_writes_what_it_read_witness:
  "\<exists>T' row. indexMarket example_reads default_config ''t1'' example_indexed [(show_int 1, [''lastOraclePrice'' \<mapsto> ''7'', ''updatedAt'' \<mapsto> ''t0''])] = Some T' \<and>
     map_get T' (show_int 1) = Some row \<and> row ''longOpenInterest'' = Some (quote # ''); DROP'') \<and>
     row ''lastOraclePrice'' = Some ''7'' \<and> row ''updatedAt'' = Some ''t1''"
proof -
  have u: "index_updates example_reads default_config example_indexed =
      Some [(''longOpenInterest'', quote # ''); DROP''), (''shortOpenInterest'', quote # ''); DROP'')]"
    by (simp add: index_updates_def example_reads_def simulateRead_def settled_def non_null_def when_read_def Let_def)
  have g: "map_get [(show_int 1, m)] (show_int (im_id example_indexed)) = Some m" for m :: "string \<Rightarrow> string option"
    by (simp add: map_get_def example_indexed_def)
  obtain T' row where r: "indexMarket example_reads default_config ''t1'' example_indexed
      [(show_int 1, [''lastOraclePrice'' \<mapsto> ''7'', ''updatedAt'' \<mapsto> ''t0''])] = Some T'"
    "map_get T' (show_int (im_id example_indexed)) = Some row"
    "\<forall>c. row c = (case map_of [(''longOpenInterest'', quote # ''); DROP''), (''shortOpenInterest'', quote # ''); DROP'')] c of Some v \<Rightarrow> Some v
      | None \<Rightarrow> if c = ''updatedAt'' then Some ''t1'' else [''lastOraclePrice'' \<mapsto> ''7'', ''updatedAt'' \<mapsto> ''t0''] c)"
    using index_writes_what_it_read [OF u, of "''t1''" "[(show_int 1, [''lastOraclePrice'' \<mapsto> ''7'', ''updatedAt'' \<mapsto> ''t0''])]"]
    unfolding g option.case by metis
  show ?thesis using r(1,2) spec [OF r(3), of "''longOpenInterest''"] spec [OF r(3), of "''lastOraclePrice''"] spec [OF r(3), of "''updatedAt''"]
    by (simp add: example_indexed_def)
qed

end
