(* ===== verification/Account_Views.thy ===== *)
theory Account_Views
  imports State_Indexer
begin

text \<open>
  The read-only routes over the statistics: \<open>client/app/api/leaderboard\<close>, \<open>portfolio/[address]\<close>,
  \<open>funding\<close>, \<open>markets/[id]\<close> (the row the indexer writes), \<open>ready\<close> and \<open>health\<close>. \<open>db_fails\<close> stands for a
  query that fails. Rows with equal sort keys come in an order the database chooses; here it is the order
  of the table. A market number outside the integers of the database makes its query fail.
\<close>

subsection \<open>Leaderboard\<close>

definition num_or :: "int \<Rightarrow> string option \<Rightarrow> int" where
  "num_or d q = (case parse_int (case q of None \<Rightarrow> show_int d | Some s \<Rightarrow> s) of None \<Rightarrow> d | Some n \<Rightarrow> if n = 0 then d else n)"

definition period_param :: "string option \<Rightarrow> stats_period" where
  "period_param q = (case map_of [(''DAY'', DAY), (''WEEK'', WEEK), (''MONTH'', MONTH), (''ALL'', ALL_TIME)]
     (toUpperCase (case q of None \<Rightarrow> ''MONTH'' | Some s \<Rightarrow> s)) of None \<Rightarrow> MONTH | Some p \<Rightarrow> p)"

text \<open>
  The column a metric selects. \<open>VALID_METRICS\<close> is an object literal, so two lower-case names of its prototype are
  found in it as well; their values print as no column, and the query fails (\<open>None\<close>).
\<close>

datatype metric_col = ByPnl | ByVolume | ByRoi

definition metric_param :: "string option \<Rightarrow> metric_col option" where
  "metric_param q = (let m = map lower_char (case q of None \<Rightarrow> ''pnl'' | Some s \<Rightarrow> s) in
     if m = ''volume'' then Some ByVolume else if m = ''roi'' then Some ByRoi
     else if m = ''constructor'' \<or> m = ''__proto__'' then None else Some ByPnl)"

definition signed_decimal :: "string \<Rightarrow> rat option" where
  "signed_decimal s = (if s \<noteq> [] \<and> hd s = CHR ''-'' then map_option uminus (unsigned_decimal (tl s)) else unsigned_decimal s)"

definition metric_value :: "metric_col \<Rightarrow> trader_stat \<Rightarrow> rat option" where
  "metric_value c s = (case c of ByPnl \<Rightarrow> Some (of_int (ts_realizedPnl s)) | ByVolume \<Rightarrow> Some (ts_volume s)
     | ByRoi \<Rightarrow> signed_decimal (ts_roi s))"

text \<open>\<open>ILIKE\<close>: a percent sign stands for any text, an underscore for one character, a backslash escapes.\<close>

fun like :: "string \<Rightarrow> string \<Rightarrow> bool" where
  "like [] s = (s = [])"
| "like (c # p) s =
    (if c = CHR ''%'' then (case s of [] \<Rightarrow> like p [] | d # t \<Rightarrow> like p s \<or> like (c # p) t)
     else if c = CHR ''_'' then (case s of [] \<Rightarrow> False | d # t \<Rightarrow> like p t)
     else if c = CHR 0x5C then (case (p, s) of (e # p', d # t) \<Rightarrow> e = d \<and> like p' t | _ \<Rightarrow> False)
     else (case s of [] \<Rightarrow> False | d # t \<Rightarrow> c = d \<and> like p t))"

definition ilike :: "string \<Rightarrow> string \<Rightarrow> bool" where
  "ilike p s = like (map lower_char p) (map lower_char s)"

definition board_rows :: "string \<Rightarrow> stats_period \<Rightarrow> string option \<Rightarrow> stats_db \<Rightarrow> trader_stat list" where
  "board_rows net period search d = filter (\<lambda>s. ts_network s = net \<and> ts_period s = period \<and>
     (falsy_str search \<or> ilike (''%'' @ the search @ ''%'') (ts_address s))) (sd_stats d)"

record board_entry =
  be_rank :: nat
  be_address :: string
  be_pnl :: number
  be_volume :: number
  be_roi :: number
  be_winRate :: number
  be_tradeCount :: int
  be_liquidations :: int
  be_accountValue :: number

definition board_entry_of :: "nat \<Rightarrow> trader_stat \<Rightarrow> board_entry" where
  "board_entry_of rank s = \<lparr> be_rank = rank, be_address = ts_address s,
     be_pnl = js_div (number_of_bigint (ts_realizedPnl s)) AMOUNT_SCALE, be_volume = js_div (to_number (ts_volume s)) AMOUNT_SCALE,
     be_roi = string_to_number (ts_roi s), be_winRate = string_to_number (ts_winRate s), be_tradeCount = ts_tradeCount s,
     be_liquidations = ts_liquidationCount s, be_accountValue = js_div (string_to_number (ts_peakCollateral s)) AMOUNT_SCALE \<rparr>"

definition cmp_metric :: "metric_col \<Rightarrow> trader_stat \<Rightarrow> trader_stat \<Rightarrow> int" where
  "cmp_metric c a b = (let x = the (metric_value c a); y = the (metric_value c b) in if y < x then - 1 else if x < y then 1 else 0)"

text \<open>\<open>RANK()\<close>: one more than the rows with a greater value.\<close>

definition ranked_rows :: "metric_col \<Rightarrow> trader_stat list \<Rightarrow> (nat \<times> trader_stat) list" where
  "ranked_rows c rows = map (\<lambda>s. (length (filter (\<lambda>r. the (metric_value c s) < the (metric_value c r)) rows) + 1, s)) (js_sort (cmp_metric c) rows)"

record leaderboard =
  lb_period :: stats_period
  lb_metric :: string
  lb_total :: nat
  lb_limit :: int
  lb_offset :: int
  lb_traders :: "board_entry list"

definition GET_leaderboard :: "bool \<Rightarrow> string \<Rightarrow> (string \<Rightarrow> string option) \<Rightarrow> stats_db \<Rightarrow> leaderboard reply" where
  "GET_leaderboard db_fails net q d =
    (let period = period_param (q ''period''); limit = min (num_or 50 (q ''limit'')) 200; offset = max (num_or 0 (q ''offset'')) 0;
         rows = board_rows net period (map_option js_trim (q ''search'')) d in
     case metric_param (q ''metric'') of None \<Rightarrow> Refused 500
     | Some c \<Rightarrow> if db_fails \<or> limit < 0 \<or> (\<exists>s \<in> set rows. metric_value c s = None) then Refused 500
         else Reply 200 \<lparr> lb_period = period, lb_metric = map lower_char (case q ''metric'' of None \<Rightarrow> ''pnl'' | Some s \<Rightarrow> s), lb_total = length rows, lb_limit = limit, lb_offset = offset,
           lb_traders = map (\<lambda>(i, s). board_entry_of i s) (take (nat limit) (drop (nat offset) (ranked_rows c rows))) \<rparr>)"

subsection \<open>Portfolio and funding\<close>

record funding_payment =
  fp_network :: string
  fp_address :: string
  fp_marketId :: int
  fp_amount :: int
  fp_txHash :: string
  fp_createdAt :: int

record portfolio_snapshot =
  ps_network :: string
  ps_address :: string
  ps_equity :: int
  ps_unrealizedPnl :: int
  ps_realizedPnlCum :: int
  ps_capturedAt :: int

record account_db = stats_db +
  ad_funding :: "funding_payment list"
  ad_snapshots :: "portfolio_snapshot list"

definition newest :: "('r \<Rightarrow> int) \<Rightarrow> nat \<Rightarrow> 'r list \<Rightarrow> 'r list" where
  "newest tm n rows = take n (js_sort (\<lambda>a b. tm b - tm a) rows)"

definition money :: "int \<Rightarrow> number" where
  "money v = js_div (number_of_bigint v) AMOUNT_SCALE"

record analytics_view =
  av_realizedPnl :: number
  av_volume :: number
  av_tradeCount :: int
  av_winRate :: number
  av_totalDeposited :: number
  av_totalWithdrawn :: number
  av_totalFundingPaid :: number
  av_totalFeesPaid :: number
  av_liquidationCount :: int
  av_firstTradeAt :: "int option"
  av_lastTradeAt :: "int option"

definition analytics_view_of :: "account_analytics \<Rightarrow> analytics_view" where
  "analytics_view_of a = \<lparr> av_realizedPnl = money (aa_realizedPnlAll a), av_volume = js_div (to_number (aa_volumeAll a)) AMOUNT_SCALE,
     av_tradeCount = aa_tradeCountAll a, av_winRate = string_to_number (aa_winRateAll a),
     av_totalDeposited = money (aa_totalDeposited a), av_totalWithdrawn = money (aa_totalWithdrawn a),
     av_totalFundingPaid = money (aa_totalFundingPaid a), av_totalFeesPaid = money (aa_totalFeesPaid a),
     av_liquidationCount = aa_liquidationCount a, av_firstTradeAt = aa_firstTradeAt a, av_lastTradeAt = aa_lastTradeAt a \<rparr>"

record pnl_view =
  pv_kind :: pnl_kind
  pv_amount :: number
  pv_size :: number
  pv_price :: number
  pv_marketId :: int
  pv_txHash :: string
  pv_at :: int

definition pnl_view_of :: "pnl_event \<Rightarrow> pnl_view" where
  "pnl_view_of e = \<lparr> pv_kind = pe_kind e, pv_amount = money (pe_amount e), pv_size = money (pe_size e),
     pv_price = js_div (number_of_bigint (pe_price e)) PRICE_SCALE, pv_marketId = pe_marketId e, pv_txHash = pe_txHash e, pv_at = pe_createdAt e \<rparr>"

record balance_view =
  bv_kind :: balance_kind
  bv_asset :: string
  bv_amount :: number
  bv_balanceAfter :: "number option"
  bv_txHash :: string
  bv_at :: int

definition balance_view_of :: "balance_change \<Rightarrow> balance_view" where
  "balance_view_of c = \<lparr> bv_kind = bc_kind c, bv_asset = bc_asset c, bv_amount = money (bc_amount c),
     bv_balanceAfter = map_option money (bc_balanceAfter c), bv_txHash = bc_txHash c, bv_at = bc_createdAt c \<rparr>"

record funding_view =
  fdv_marketId :: int
  fdv_amount :: number
  fdv_txHash :: string
  fdv_at :: int

definition funding_view_of :: "funding_payment \<Rightarrow> funding_view" where
  "funding_view_of p = \<lparr> fdv_marketId = fp_marketId p, fdv_amount = money (fp_amount p), fdv_txHash = fp_txHash p, fdv_at = fp_createdAt p \<rparr>"

record equity_view =
  ev_equity :: number
  ev_unrealizedPnl :: number
  ev_realizedPnlCum :: number
  ev_at :: int

definition equity_view_of :: "portfolio_snapshot \<Rightarrow> equity_view" where
  "equity_view_of s = \<lparr> ev_equity = money (ps_equity s), ev_unrealizedPnl = money (ps_unrealizedPnl s),
     ev_realizedPnlCum = money (ps_realizedPnlCum s), ev_at = ps_capturedAt s \<rparr>"

record portfolio =
  pf_address :: string
  pf_analytics :: "analytics_view option"
  pf_pnlHistory :: "pnl_view list"
  pf_balanceHistory :: "balance_view list"
  pf_fundingHistory :: "funding_view list"
  pf_equityCurve :: "equity_view list"

definition portfolio_of :: "string \<Rightarrow> string \<Rightarrow> account_db \<Rightarrow> portfolio" where
  "portfolio_of net a d = \<lparr> pf_address = a,
     pf_analytics = map_option analytics_view_of (find_row (\<lambda>r. aa_key r = (net, a)) (sd_analytics d)),
     pf_pnlHistory = map pnl_view_of (newest pe_createdAt 100 (filter (\<lambda>e. pe_network e = net \<and> pe_address e = a) (sd_pnl d))),
     pf_balanceHistory = map balance_view_of (newest bc_createdAt 50 (filter (\<lambda>c. bc_network c = net \<and> bc_address c = a) (sd_balance d))),
     pf_fundingHistory = map funding_view_of (newest fp_createdAt 50 (filter (\<lambda>p. fp_network p = net \<and> fp_address p = a) (ad_funding d))),
     pf_equityCurve = map equity_view_of (rev (newest ps_capturedAt 200 (filter (\<lambda>s. ps_network s = net \<and> ps_address s = a) (ad_snapshots d)))) \<rparr>"

text \<open>A route with an address: the address is checked, then the limiter, then the query runs.\<close>

definition address_route :: "crypto \<Rightarrow> limiter_env \<Rightarrow> int \<Rightarrow> request \<Rightarrow> string option \<Rightarrow> buckets \<Rightarrow> (string \<Rightarrow> 'r reply) \<Rightarrow> 'r reply \<times> buckets" where
  "address_route cr L now req address bs run =
    (if falsy_str address \<or> \<not> isValidEd25519PublicKey cr (the address) then (Refused 400, bs)
     else (let (ok, bs1) = rateLimit L now (requestKey req (the address)) 120 bs in
       if \<not> ok then (Refused 429, bs1) else (run (the address), bs1)))"

definition GET_portfolio :: "crypto \<Rightarrow> limiter_env \<Rightarrow> int \<Rightarrow> bool \<Rightarrow> string \<Rightarrow> request \<Rightarrow> string \<Rightarrow> buckets \<times> account_db \<Rightarrow> portfolio reply \<times> buckets" where
  "GET_portfolio cr L now db_fails net req a s = address_route cr L now req (Some a) (fst s)
     (\<lambda>a. if db_fails then Refused 500 else Reply 200 (portfolio_of net a (snd s)))"

definition GET_funding :: "crypto \<Rightarrow> limiter_env \<Rightarrow> int \<Rightarrow> bool \<Rightarrow> string \<Rightarrow> request \<Rightarrow> string option \<Rightarrow> string option \<Rightarrow> buckets \<times> account_db \<Rightarrow>
    funding_view list reply \<times> buckets" where
  "GET_funding cr L now db_fails net req address limit s = address_route cr L now req address (fst s)
     (\<lambda>a. case limit_param limit 50 100 of None \<Rightarrow> Refused 500
        | Some n \<Rightarrow> if db_fails then Refused 500 else Reply 200 (map funding_view_of
            (newest fp_createdAt n (filter (\<lambda>p. fp_network p = net \<and> fp_address p = a) (ad_funding (snd s))))))"

subsection \<open>Market row, readiness, health\<close>

definition market_columns :: "(string \<times> string) list" where
  "market_columns = [(''market_id'', ''id''), (''symbol'', ''symbol''), (''last_price'', ''lastPrice''), (''volume'', ''volume''),
     (''long_open_interest'', ''longOpenInterest''), (''short_open_interest'', ''shortOpenInterest''),
     (''funding_long_index'', ''fundingLongIndex''), (''funding_short_index'', ''fundingShortIndex''),
     (''last_oracle_price'', ''lastOraclePrice''), (''active'', ''active'')]"

definition GET_market :: "bool \<Rightarrow> string \<Rightarrow> market_table \<Rightarrow> (string \<times> string option) list reply" where
  "GET_market db_fails ident T = (case market_param ident of
     None \<Rightarrow> Refused 400
   | Some m \<Rightarrow> if db_fails then Refused 500
       else (case map_get T (show_int m) of None \<Rightarrow> Refused 404
         | Some row \<Rightarrow> Reply 200 (map (\<lambda>(k, c). (k, row c)) market_columns)))"

record readiness =
  rd_network :: string
  rd_markets :: "string list"
  rd_websocketConfigured :: bool

text \<open>The probe is tried twice (\<open>withRetry\<close> with two attempts).\<close>

definition GET_ready :: "config \<Rightarrow> bool \<Rightarrow> (nat \<Rightarrow> string option) \<Rightarrow> readiness reply" where
  "GET_ready cfg has_url probe = (if \<not> has_url then Refused 503
     else (case fst (retry_from (\<lambda>i s. (case probe i of None \<Rightarrow> Returned () | Some msg \<Rightarrow> Failed msg, s)) 0 2 ()) of
       Failed msg \<Rightarrow> Refused 503
     | Returned _ \<Rightarrow> Reply 200 \<lparr> rd_network = net_name (NETWORK_cfg cfg), rd_markets = ACTIVE_MARKET_SYMBOLS cfg,
         rd_websocketConfigured = (WS_URL cfg \<noteq> []) \<rparr>))"

definition GET_health :: "unit reply" where "GET_health = Reply 200 ()"

subsection \<open>What the routes show\<close>

text \<open>The first row of the leaderboard has rank one, and equal values share a rank.\<close>

lemma rank_of_best: "ranked_rows c rows = (i, s) # rest \<Longrightarrow> i = 1"
proof -
  assume a: "ranked_rows c rows = (i, s) # rest"
  then obtain ys where srt: "js_sort (cmp_metric c) rows = s # ys"
    and i: "i = length (filter (\<lambda>r. the (metric_value c s) < the (metric_value c r)) rows) + 1"
    unfolding ranked_rows_def by (cases "js_sort (cmp_metric c) rows") auto
  have ok: "cmp_ok (cmp_metric c)" by (auto simp: cmp_ok_def cmp_metric_def Let_def split: if_splits)
  have "\<not> the (metric_value c s) < the (metric_value c r)" if "r \<in> set rows" for r
    using js_sorting.head_least [OF ok srt that] by (auto simp: cmp_metric_def Let_def split: if_splits)
  then show ?thesis using i by simp
qed

lemma equal_values_share_rank:
  assumes "(i, s) \<in> set (ranked_rows c rows)" and "(j, r) \<in> set (ranked_rows c rows)" and "metric_value c s = metric_value c r"
  shows "i = j"
  using assms by (auto simp: ranked_rows_def)

lemma prototype_metric_fails: "GET_leaderboard False net (\<lambda>k. if k = ''metric'' then Some ''constructor'' else None) d = Refused 500"
proof -
  have "metric_param (Some ''constructor'') = None" by code_simp
  then show ?thesis by (simp add: GET_leaderboard_def Let_def)
qed

text \<open>The readiness probe succeeds when one of its two attempts does, after a transient failure.\<close>

lemma ready_after_retry:
  "probe 0 = Some ''fetch failed'' \<Longrightarrow> probe 1 = None \<Longrightarrow> \<exists>v. GET_ready cfg True probe = Reply 200 v"
proof -
  assume p: "probe 0 = Some ''fetch failed''" "probe 1 = None"
  have "transient_error ''fetch failed''" by code_simp
  then show ?thesis using p by (simp add: GET_ready_def eval_nat_numeral)
qed

end
