(* ===== verification/Load_Test.thy ===== *)
theory Load_Test
  imports Order_Intake Account_Views
begin

text \<open>
  The load test (\<open>scripts/load-test.ts\<close>): how answers are counted and judged, and what it can find of the services
  modelled here. The workers of an endpoint are the sequence of their answers in the order they arrive.
\<close>

subsection \<open>Counting answers\<close>

text \<open>An answer: whether it counts as good, its status (zero when the request throws) and its time.\<close>

record hit =
  ht_ok :: bool
  ht_status :: int
  ht_ms :: int

definition hit_of :: "int option \<Rightarrow> int \<Rightarrow> hit" where
  "hit_of st ms = (case st of
     None \<Rightarrow> \<lparr> ht_ok = False, ht_status = 0, ht_ms = ms \<rparr>
   | Some s \<Rightarrow> \<lparr> ht_ok = ((200 \<le> s \<and> s < 300) \<or> s = 429), ht_status = s, ht_ms = ms \<rparr>)"

record endpoint_result =
  ep_ok :: nat
  ep_fail :: nat
  ep_latencies :: "int list"

definition count_hit :: "int list \<Rightarrow> hit \<Rightarrow> endpoint_result \<Rightarrow> endpoint_result" where
  "count_hit expected h r = (let r1 = r\<lparr> ep_latencies := ep_latencies r @ [ht_ms h] \<rparr> in
     if ht_status h \<in> set expected then r1\<lparr> ep_ok := ep_ok r1 + 1 \<rparr> else r1\<lparr> ep_fail := ep_fail r1 + 1 \<rparr>)"

definition runEndpoint :: "int list \<Rightarrow> hit list \<Rightarrow> endpoint_result" where
  "runEndpoint expected hs = fold (count_hit expected) hs \<lparr> ep_ok = 0, ep_fail = 0, ep_latencies = [] \<rparr>"

lemma fold_count_hit:
  "fold (count_hit expected) hs r = \<lparr> ep_ok = ep_ok r + List.length (filter (\<lambda>h. ht_status h \<in> set expected) hs),
     ep_fail = ep_fail r + List.length (filter (\<lambda>h. ht_status h \<notin> set expected) hs), ep_latencies = ep_latencies r @ map ht_ms hs \<rparr>"
  by (induction hs arbitrary: r) (simp_all add: count_hit_def Let_def)

lemma runEndpoint_counts [simp]:
  "ep_ok (runEndpoint expected hs) = List.length (filter (\<lambda>h. ht_status h \<in> set expected) hs)"
  "ep_fail (runEndpoint expected hs) = List.length (filter (\<lambda>h. ht_status h \<notin> set expected) hs)"
  "ep_latencies (runEndpoint expected hs) = map ht_ms hs"
  by (simp_all add: runEndpoint_def fold_count_hit)

subsection \<open>Judging an endpoint\<close>

definition percentile :: "rat \<Rightarrow> int list \<Rightarrow> int" where
  "percentile q xs = (let sorted = js_sort (\<lambda>a b. a - b) xs in
     case math_floor (js_mul (number_of_bigint (int (List.length sorted))) (to_number q)) of
       Fin i \<Rightarrow> if 0 \<le> i \<and> nat \<lfloor>i\<rfloor> < List.length sorted then sorted ! nat \<lfloor>i\<rfloor> else 0
     | _ \<Rightarrow> 0)"

definition errRate :: "endpoint_result \<Rightarrow> number" where
  "errRate r = js_mul (js_div (number_of_bigint (int (ep_fail r))) (number_of_bigint (int (ep_ok r + ep_fail r)))) (Fin 100)"

definition healthy :: "endpoint_result \<Rightarrow> bool" where
  "healthy r = js_lt (errRate r) (Fin 5)"

text \<open>The exit code of the test, from the results of its endpoints.\<close>

definition load_exit :: "endpoint_result list \<Rightarrow> int" where
  "load_exit rs = (if List.length (filter healthy rs) < List.length rs then 1 else 0)"

lemma load_exit_zero: "load_exit rs = 0 \<longleftrightarrow> (\<forall>r \<in> set rs. healthy r)"
proof -
  have "List.length (filter healthy rs) < List.length rs \<longleftrightarrow> (\<exists>r \<in> set rs. \<not> healthy r)"
    using length_filter_less [of _ rs healthy] filter_True [of rs healthy] by fastforce
  then show ?thesis by (auto simp: load_exit_def)
qed

text \<open>A rational between two Numbers is rounded between them.\<close>

lemma to_number_between:
  assumes "is_double a" and "is_double b" and "0 \<le> a" and "a \<le> x" and "x \<le> b"
  obtains y where "to_number x = Fin y" and "a \<le> y" and "y \<le> b"
proof -
  have y: "a \<le> fl x" "fl x \<le> b" using assms fl_mono [of a x] fl_mono [of x b] by (auto simp: is_double_def)
  then have "in_range (fl x)" using assms(2,3) by (intro in_range_mono [of "fl x" b]) (auto simp: is_double_def)
  then have "to_number x = Fin (fl x)" by (simp add: to_number_def Let_def)
  then show ?thesis using that y by blast
qed

lemma some_doubles: "is_double 0" "is_double 1" "is_double 100" "is_double (1 / 16)" "is_double (25 / 4)" "is_double (1 / 32)" "is_double (25 / 8)" "is_double (2 ^ 53)"
  by code_simp+

lemma number_of_count: "n < 2 ^ 53 \<Longrightarrow> number_of_bigint (int n) = Fin (of_nat n)"
proof -
  assume a: "n < 2 ^ 53"
  then have f: "fl (of_int (int n)) = of_int (int n)" by (intro fl_int) (simp flip: of_nat_power_eq_of_nat_cancel_iff)
  have "of_int (int n) \<le> (2 ^ 53 :: rat)" using a by (metis less_imp_le of_int_le_iff of_int_of_nat_eq of_nat_le_iff of_nat_numeral of_nat_power)
  then obtain y where "to_number (of_int (int n)) = Fin y"
    using to_number_between [OF some_doubles(1,8), of "of_int (int n)"] by auto
  then show ?thesis using f by (auto simp: number_of_bigint_def to_number_def Let_def split: if_splits)
qed

lemma errRate_between:
  assumes "0 < t" and "t < 2 ^ 53" and "f \<le> t" and "t = ep_ok r + ep_fail r" and "f = ep_fail r"
    and "is_double a" and "0 \<le> a" and "is_double (a * 100)" and "a \<le> of_nat f / of_nat t"
    and "is_double b" and "b \<le> 1" and "is_double (b * 100)" and "of_nat f / of_nat t \<le> b"
  obtains y where "errRate r = Fin y" and "a * 100 \<le> y" and "y \<le> b * 100"
proof -
  have n: "number_of_bigint (int (ep_fail r)) = Fin (of_nat f)" "number_of_bigint (int (ep_ok r + ep_fail r)) = Fin (of_nat t)"
    using assms(2-5) number_of_count [of f] number_of_count [of t] by auto
  obtain y1 where y1: "to_number (of_nat f / of_nat t) = Fin y1" "a \<le> y1" "y1 \<le> b"
    using to_number_between [OF assms(6,10,7,9,13)] by blast
  obtain y where y: "to_number (y1 * 100) = Fin y" "a * 100 \<le> y" "y \<le> b * 100"
    using to_number_between [OF assms(8,12), of "y1 * 100"] y1 assms(7) by auto
  have "errRate r = Fin y" using n y1(1) y(1) assms(1) by (simp add: errRate_def)
  then show ?thesis using that y by blast
qed

text \<open>An endpoint with a sixteenth of wrong answers is unhealthy, one with a thirty-second part at most is healthy.\<close>

lemma unhealthy:
  assumes "0 < ep_fail r" and "ep_ok r + ep_fail r < 2 ^ 53" and "ep_ok r + ep_fail r \<le> 16 * ep_fail r"
  shows "\<not> healthy r"
proof -
  let ?t = "ep_ok r + ep_fail r"
  have "(of_nat ?t :: rat) \<le> 16 * of_nat (ep_fail r)" using assms(3) by (metis of_nat_le_iff of_nat_mult of_nat_numeral)
  then have "1 / 16 \<le> (of_nat (ep_fail r) / of_nat ?t :: rat)" using assms(1) by (simp add: field_simps)
  moreover have "(of_nat (ep_fail r) / of_nat ?t :: rat) \<le> 1" using assms(1) by (simp add: field_simps)
  ultimately obtain y where "errRate r = Fin y" "1 / 16 * 100 \<le> y"
    using errRate_between [of ?t "ep_fail r" r "1 / 16" 1] assms some_doubles by auto
  then show ?thesis by (simp add: healthy_def)
qed

lemma healthy_few:
  assumes "0 < ep_ok r + ep_fail r" and "ep_ok r + ep_fail r < 2 ^ 53" and "32 * ep_fail r \<le> ep_ok r + ep_fail r"
  shows "healthy r"
proof -
  let ?t = "ep_ok r + ep_fail r"
  have "32 * of_nat (ep_fail r) \<le> (of_nat ?t :: rat)" using assms(3) by (metis of_nat_le_iff of_nat_mult of_nat_numeral)
  moreover have "(0 :: rat) < of_nat ?t" using assms(1) by (simp only: of_nat_0_less_iff)
  ultimately have "(of_nat (ep_fail r) / of_nat ?t :: rat) \<le> 1 / 32" by (simp only: divide_le_eq) simp
  then obtain y where "errRate r = Fin y" "y \<le> 1 / 32 * 100"
    using errRate_between [of ?t "ep_fail r" r 0 "1 / 32"] assms some_doubles by auto
  then show ?thesis by (simp add: healthy_def)
qed

text \<open>The endpoints of the test with the statuses each expects.\<close>

definition LOAD_ENDPOINTS :: "(string \<times> string \<times> int list) list" where
  "LOAD_ENDPOINTS =
    [(''GET'', ''/api/health'', [200]), (''GET'', ''/api/ready'', [200]), (''GET'', ''/api/markets/1'', [200]),
     (''GET'', ''/api/markets/1/orderbook'', [200]), (''GET'', ''/api/markets/1/trades'', [200]), (''GET'', ''/api/markets/1/candles'', [200]),
     (''GET'', ''/api/portfolio/GBTL7SKBHYAROO5CYGTQ4ITTEPTUUPIXDFDYZNDNAYQJ4J5XENX4TGDI'', [200]),
     (''GET'', ''/api/leaderboard?period=MONTH'', [200]),
     (''GET'', ''/api/fills?address=GBTL7SKBHYAROO5CYGTQ4ITTEPTUUPIXDFDYZNDNAYQJ4J5XENX4TGDI'', [200, 429]),
     (''GET'', ''/api/portfolio/not-a-key'', [400]), (''POST'', ''/api/orders'', [400]),
     (''GET'', ''/api/portfolio/not-a-stellar-address'', [400, 429])]"

definition load_main :: "(string \<times> string \<Rightarrow> hit list) \<Rightarrow> int" where
  "load_main answers = load_exit (map (\<lambda>(m, p, expected). runEndpoint expected (answers (m, p))) LOAD_ENDPOINTS)"

subsection \<open>A limited endpoint\<close>

text \<open>
  The verdicts of the limiter on a minute of requests for one key, from the one that opens its window: at most
  \<open>limit\<close> of them are admitted.
\<close>

lemma admitted_at_most:
  assumes "map_inv bs" and "\<nexists>b. live_bucket t0 k bs b" and "\<forall>t \<in> set ts. t < t0 + WINDOW_MS" and "1 \<le> limit"
  shows "int (List.length (filter id (fst (limiter_run limit (map (\<lambda>t. (t, k)) (t0 # ts)) bs)))) \<le> limit"
proof -
  define b where "b = \<lparr> b_count = 1, b_resetAt = t0 + WINDOW_MS \<rparr>"
  define bs1 where "bs1 = map_set (purge_expired t0 bs) k b"
  let ?cs = "map (\<lambda>t. (t, k)) ts" and ?n = "List.length ts"
  have all: "verdicts_for k ?cs vs = vs" if "List.length vs = ?n" for vs
    using that by (simp add: verdicts_for_def zip_map1 filter_map comp_def case_prod_beta)
  have len: "List.length (fst (limiter_run limit cs bs')) = List.length cs" for cs bs'
    by (induction cs arbitrary: bs') (auto simp: Let_def case_prod_beta)
  have "verdicts_for k ?cs (fst (limiter_run limit ?cs bs1)) = map (\<lambda>i. b_count b + int i + 1 \<le> limit) [0..<List.length (filter (\<lambda>c. snd c = k) ?cs)]"
    by (rule limiter_window) (use assms(3) in \<open>auto simp: bs1_def b_def map_get_set\<close>)
  then have rest: "fst (limiter_run limit ?cs bs1) = map (\<lambda>i. 2 + int i \<le> limit) [0..<?n]"
    by (simp add: all len b_def filter_map comp_def)
  have "int (List.length (filter id (map (\<lambda>i. 2 + int i \<le> limit) [0..<m]))) \<le> min (int m) (limit - 1)" for m
    using assms(4) by (induction m) auto
  then have "int (List.length (filter id (map (\<lambda>i. 2 + int i \<le> limit) [0..<?n]))) \<le> limit - 1" by (metis min.bounded_iff)
  then show ?thesis
    using limiter_opens [OF assms(1,2)] rest assms(4) by (simp add: case_prod_beta bs1_def b_def)
qed

text \<open>Whatever an endpoint answers to admitted requests: when the expected statuses leave out 429, it is unhealthy.\<close>

lemma limited_endpoint_unhealthy:
  assumes "map_inv bs" and "\<nexists>b. live_bucket t0 k bs b" and "\<forall>t \<in> set ts. t < t0 + WINDOW_MS" and "1 \<le> limit"
    and "map ht_status hs = map (\<lambda>v. if v then st else 429) (fst (limiter_run limit (map (\<lambda>t. (t, k)) (t0 # ts)) bs))"
    and "429 \<notin> set expected" and "16 * limit \<le> 15 * int (List.length hs)" and "List.length hs < 2 ^ 53"
  shows "\<not> healthy (runEndpoint expected hs)"
proof -
  let ?vs = "fst (limiter_run limit (map (\<lambda>t. (t, k)) (t0 # ts)) bs)" and ?r = "runEndpoint expected hs"
  have "ep_ok ?r = List.length (filter (\<lambda>s. s \<in> set expected) (map ht_status hs))" by (simp add: filter_map comp_def)
  moreover have "List.length (filter (\<lambda>s. s \<in> set expected) (map (\<lambda>v. if v then st else 429) vs)) \<le> List.length (filter id vs)" for vs
    using assms(6) by (induction vs) auto
  then have "List.length (filter (\<lambda>s. s \<in> set expected) (map ht_status hs)) \<le> List.length (filter id ?vs)" unfolding assms(5) .
  ultimately have ok: "int (ep_ok ?r) \<le> limit" using admitted_at_most [OF assms(1-4)] by linarith
  have sum: "ep_ok ?r + ep_fail ?r = List.length hs" by (simp add: sum_length_filter_compl)
  show ?thesis
    using ok sum assms(4,7,8) by (intro unhealthy) linarith+
qed

subsection \<open>What the load test can find\<close>

text \<open>Requests with the body \<open>{}\<close>, one after the other, at a route whose limiter is the local one: their statuses.\<close>

fun post_each :: "intake_env \<Rightarrow> request \<Rightarrow> int list \<Rightarrow> buckets \<times> database \<Rightarrow> int option list" where
  "post_each V req [] s = []"
| "post_each V req (t # ts) s = (case POST_order (V\<lparr> in_now := t \<rparr>) req s of (r, s1) \<Rightarrow> map_option resp_status r # post_each V req ts s1)"

definition local_limiter :: "limiter_env \<Rightarrow> bool" where
  "local_limiter L \<longleftrightarrow> falsy_str (le_env L ''UPSTASH_REDIS_REST_URL'') \<and> le_env L ''NODE_ENV'' \<noteq> Some ''production''"

lemma local_rateLimit: "local_limiter L \<Longrightarrow> rateLimit L t k limit bs = localRateLimit t k limit bs"
  by (simp add: rateLimit_def distributedRateLimit_def local_limiter_def)

lemma empty_order_status:
  assumes "local_limiter (in_limiter V)" and "req_body req = Some (JObj [])" and "\<not> bodyTooLarge req 4096"
  shows "post_each V req ts (bs, d) = map (\<lambda>v. Some (if v then 400 else 429)) (fst (limiter_run 30 (map (\<lambda>t. (t, requestKey req ''invalid'')) ts) bs))"
proof (induction ts arbitrary: bs)
  case (Cons t ts)
  obtain v bs1 where v: "localRateLimit t (requestKey req ''invalid'') 30 bs = (v, bs1)" by force
  have "POST_order (V\<lparr> in_now := t \<rparr>) req (bs, d) =
      (Some (if v then fail_resp 400 ''Invalid owner address'' else fail_resp 429 ''Too many order requests''), bs1, d)"
    using assms v by (simp add: POST_order_def claimed_owner_def local_rateLimit validateOrderIntent_def)
  then show ?case using Cons v by (simp add: case_prod_beta)
qed simp

lemma load_test_orders_unhealthy:
  assumes "local_limiter (in_limiter V)" and "req_body req = Some (JObj [])" and "\<not> bodyTooLarge req 4096"
    and "map_inv bs" and "\<nexists>b. live_bucket t0 (requestKey req ''invalid'') bs b" and "\<forall>t \<in> set ts. t < t0 + WINDOW_MS"
    and "map (\<lambda>h. Some (ht_status h)) hs = post_each V req (t0 # ts) (bs, d)" and "32 \<le> List.length hs" and "List.length hs < 2 ^ 53"
  shows "\<not> healthy (runEndpoint [400] hs)"
proof (rule limited_endpoint_unhealthy [OF assms(4-6), where limit = 30 and st = 400])
  have "map Some (map ht_status hs) = map Some (map (\<lambda>v. if v then 400 else 429) (fst (limiter_run 30 (map (\<lambda>t. (t, requestKey req ''invalid'')) (t0 # ts)) bs)))"
    using assms(7) unfolding empty_order_status [OF assms(1-3)] by (simp add: comp_def)
  then show "map ht_status hs = map (\<lambda>v. if v then 400 else 429) (fst (limiter_run 30 (map (\<lambda>t. (t, requestKey req ''invalid'')) (t0 # ts)) bs))"
    by (metis inj_Some inj_map_eq_map)
qed (use assms(8,9) in auto)

text \<open>So a run of the test that sends 32 such requests or more in that minute ends with exit code one.\<close>

lemma load_test_fails:
  assumes "\<not> healthy (runEndpoint [400] (answers (''POST'', ''/api/orders'')))"
  shows "load_main answers = 1"
proof -
  have "load_main answers \<noteq> 0" using assms by (simp add: load_main_def load_exit_zero LOAD_ENDPOINTS_def)
  then show ?thesis by (simp add: load_main_def load_exit_def split: if_splits)
qed

text \<open>The probe of the limiter never reaches it: an address that is not a key is refused first, however many requests there are.\<close>

lemma probe_misses_limiter:
  "\<not> isValidEd25519PublicKey cr a \<Longrightarrow> GET_portfolio cr L now db_fails net req a s = (Refused 400, fst s)"
  by (simp add: GET_portfolio_def address_route_def)

end
