(* ===== verification/Trade_Tests.thy ===== *)
theory Trade_Tests
  imports Exchange_Jobs Load_Test
begin

text \<open>
  The tests that trade (\<open>scripts/soak-test.ts\<close>, \<open>e2e-testnet.ts\<close>): they post a signed order for either of two wallets and
  wait for a queued job to sign. Each is given what it observes, and its verdict over the exchange follows.
\<close>

subsection \<open>Waiting for the job\<close>

text \<open>The newest queued jobs are searched; \<open>null\<close> as payload throws (\<open>None\<close>).\<close>

fun search_jobs :: "string \<Rightarrow> string \<Rightarrow> tx_job list \<Rightarrow> tx_job option option" where
  "search_jobs mk tk [] = Some None"
| "search_jobs mk tk (j # js) = (case payload j of
     JNull \<Rightarrow> None
   | data \<Rightarrow> if js_field data ''makerAddress'' = Some (JStr mk) \<and> js_field data ''takerAddress'' = Some (JStr tk) then Some (Some j)
       else search_jobs mk tk js)"

definition queued_rows :: "nat \<Rightarrow> database \<Rightarrow> tx_job list" where
  "queued_rows n d = take n (js_sort newest_first
     (filter (\<lambda>j. j_kind j = settle_kind \<and> j_status j = QUEUED \<and> j_unsignedXdr j \<noteq> None) (db_jobs d)))"

text \<open>The wait over the databases its polls find; the soak test polls twenty times.\<close>

fun wait_job :: "nat \<Rightarrow> string \<Rightarrow> string \<Rightarrow> database list \<Rightarrow> tx_job option option" where
  "wait_job n mk tk [] = Some None"
| "wait_job n mk tk (d # ds) = (case search_jobs mk tk (queued_rows n d) of
     None \<Rightarrow> None | Some (Some j) \<Rightarrow> Some (Some j) | Some None \<Rightarrow> wait_job n mk tk ds)"

definition waitForJob :: "string \<Rightarrow> string \<Rightarrow> database list \<Rightarrow> tx_job option option" where
  "waitForJob mk tk ds = wait_job 5 mk tk (take 20 ds)"

subsection \<open>Cycles and verdict\<close>

text \<open>
  What a cycle observes: whether the orders were accepted, the database at each poll, whether signing or sending throws,
  the status the network answers.
\<close>

record soak_cycle =
  cy_posted :: bool
  cy_polls :: "database list"
  cy_throws :: bool
  cy_status :: string

definition cycle_ok :: "string \<Rightarrow> string \<Rightarrow> soak_cycle \<Rightarrow> bool" where
  "cycle_ok mk tk c \<longleftrightarrow> cy_posted c \<and> (\<exists>j. waitForJob mk tk (cy_polls c) = Some (Some j)) \<and> \<not> cy_throws c"

definition successRate :: "nat \<Rightarrow> nat \<Rightarrow> number" where
  "successRate ok failed = js_mul (js_div (number_of_bigint (int ok)) (number_of_bigint (int (ok + failed)))) (Fin 100)"

definition soak_exit :: "string \<Rightarrow> string \<Rightarrow> soak_cycle list \<Rightarrow> int" where
  "soak_exit mk tk cs = (if js_lt (successRate (List.length (filter (cycle_ok mk tk) cs)) (List.length (filter (\<lambda>c. \<not> cycle_ok mk tk c) cs))) (Fin 90)
     then 1 else 0)"

text \<open>A submission the network rejects counts as a settled cycle.\<close>

lemma rejected_counts: "cycle_ok mk tk (c\<lparr> cy_status := ''ERROR'' \<rparr>) = cycle_ok mk tk c"
  by (simp add: cycle_ok_def)

text \<open>A test that runs no cycle, with \<open>SOAK_MINUTES=0\<close> say, passes: no success among no cycles is \<open>NaN\<close>.\<close>

lemma no_cycle_passes: "soak_exit mk tk [] = 0"
  by (simp add: soak_exit_def successRate_def number_of_bigint_def to_number_def Let_def in_range_def)

subsection \<open>The soak test against the exchange\<close>

lemma direct_no_job:
  assumes "direct_jobs d"
  shows "queued_rows n d = []"
proof -
  have "filter (\<lambda>j. j_kind j = settle_kind \<and> j_status j = QUEUED \<and> j_unsignedXdr j \<noteq> None) (db_jobs d) = []"
    using assms by (auto simp: filter_empty_conv direct_jobs_def)
  then show ?thesis by (simp only: queued_rows_def js_sort.simps take_Nil)
qed

lemma wait_empty: "\<forall>d \<in> set ds. queued_rows n d = [] \<Longrightarrow> wait_job n mk tk ds = Some None"
  by (induction ds) simp_all

text \<open>
  Every order the API accepts is signed, and a match of signed orders is never queued: no cycle ever finds its job, and
  the test fails however long it runs.
\<close>

lemma soak_always_fails:
  assumes "cs \<noteq> []" and "List.length cs < 2 ^ 53" and "base64_bytes cr [] = []"
    and "\<forall>c \<in> set cs. \<forall>d \<in> set (cy_polls c). \<exists>bs. exchange_reach cr cfg (bs, d)"
  shows "soak_exit mk tk cs = 1"
proof -
  have "\<not> cycle_ok mk tk c" if "c \<in> set cs" for c
  proof -
    have "queued_rows 5 d = []" if "d \<in> set (take 20 (cy_polls c))" for d
      using assms(4) \<open>c \<in> set cs\<close> that direct_reach [OF _ assms(3)] direct_no_job by (metis in_set_takeD snd_conv)
    then show ?thesis using wait_empty by (simp add: cycle_ok_def waitForJob_def)
  qed
  then have c: "filter (cycle_ok mk tk) cs = []" "filter (\<lambda>c. \<not> cycle_ok mk tk c) cs = cs"
    by (simp_all add: filter_empty_conv filter_id_conv)
  have n: "number_of_bigint (int (List.length cs)) = Fin (of_nat (List.length cs))" by (rule number_of_count [OF assms(2)])
  have z: "to_number 0 = Fin 0" by (simp add: to_number_def Let_def in_range_def)
  have "(of_nat (List.length cs) :: rat) \<noteq> 0" using assms(1) by simp
  then have "successRate 0 (List.length cs) = Fin 0"
    using n z by (simp add: successRate_def number_of_bigint_def [of 0])
  then show ?thesis by (simp add: soak_exit_def c)
qed

subsection \<open>The end-to-end test\<close>

text \<open>
  A step of the test records its outcome and goes on, records a failure and leaves \<open>main\<close>, or records nothing (the poll of
  the transaction when it runs out). The exit code is set only at the end of \<open>main\<close>.
\<close>

datatype e2e_outcome = Recorded bool | Leaves | Unrecorded

definition waitForTxJob :: "string \<Rightarrow> string \<Rightarrow> database list \<Rightarrow> tx_job option option" where
  "waitForTxJob mk tk ds = wait_job 10 mk tk ds"

definition fill_detected :: "string \<Rightarrow> string \<Rightarrow> database list \<Rightarrow> e2e_outcome" where
  "fill_detected mk tk ds = (case waitForTxJob mk tk ds of Some (Some j) \<Rightarrow> Recorded True | _ \<Rightarrow> Leaves)"

definition e2e_exit :: "e2e_outcome list \<Rightarrow> int" where
  "e2e_exit outs = (if Leaves \<in> set outs then 0 else if Recorded False \<in> set outs then 1 else 0)"

text \<open>The test: what comes before the wait for the job, the wait, and what comes after.\<close>

definition e2e_main :: "string \<Rightarrow> string \<Rightarrow> e2e_outcome list \<Rightarrow> database list \<Rightarrow> (tx_job \<Rightarrow> e2e_outcome list) \<Rightarrow> int" where
  "e2e_main mk tk before polls after = e2e_exit (before @ fill_detected mk tk polls #
     (case waitForTxJob mk tk polls of Some (Some j) \<Rightarrow> after j | _ \<Rightarrow> []))"

text \<open>The test first cancels what is open in the book, without a signature: the states it sees are those of the exchange with such steps.\<close>

definition clear_book :: "database \<Rightarrow> database" where
  "clear_book d = d\<lparr> db_orders := update_where (\<lambda>r. \<not> cancelled r \<and> filledSize r < size r) (\<lambda>r. r\<lparr> cancelled := True \<rparr>) (db_orders d) \<rparr>"

inductive tested_reach :: "crypto \<Rightarrow> config \<Rightarrow> buckets \<times> database \<Rightarrow> bool" for c cfg where
  start: "tested_reach c cfg ([], empty_db)"
| step: "tested_reach c cfg s \<Longrightarrow> shares c cfg a \<Longrightarrow> tested_reach c cfg (act a s)"
| clear: "tested_reach c cfg (bs, d) \<Longrightarrow> tested_reach c cfg (bs, clear_book d)"

lemma clear_book_ok: "exchange_ok c cfg d \<Longrightarrow> exchange_ok c cfg (clear_book d)"
proof -
  assume ok: "exchange_ok c cfg d"
  have "orders_ok (db_orders (clear_book d))"
    unfolding clear_book_def by simp (rule orders_ok_update, use ok in \<open>simp_all add: exchange_ok_def order_fill_ok_def\<close>)
  moreover have "signed_rows c cfg (clear_book d)"
    using ok all_signed_update [of "db_orders d" c cfg "\<lambda>r. r\<lparr> cancelled := True \<rparr>"] by (simp add: clear_book_def signed_rows_def exchange_ok_def)
  moreover have "jobs_ok (clear_book d)" using ok jobs_ok_cong [of "clear_book d" d] by (simp add: exchange_ok_def clear_book_def)
  ultimately show ?thesis by (simp add: exchange_ok_def)
qed

lemma tested_direct:
  assumes "tested_reach c cfg s" and "base64_bytes c [] = []"
  shows "exchange_ok c cfg (snd s) \<and> direct_jobs (snd s)"
  using assms(1)
proof (induction rule: tested_reach.induct)
  case start
  show ?case using exchange_ok_reach [OF exchange_reach.start] by (simp add: direct_jobs_def empty_db_def)
next
  case (step s a)
  then show ?case using exchange_ok_act direct_act assms(2) by blast
next
  case (clear bs d)
  then show ?case using clear_book_ok direct_jobs_cong [of "clear_book d" d] by (simp add: clear_book_def)
qed

text \<open>
  Over the exchange the wait never succeeds; the test then leaves at this step, and since it leaves without an exit code
  the process reports success.
\<close>

lemma e2e_fails_silently:
  assumes "base64_bytes cr [] = []" and "\<forall>d \<in> set polls. \<exists>bs. tested_reach cr cfg (bs, d)"
  shows "fill_detected mk tk polls = Leaves \<and> e2e_main mk tk before polls after = 0"
proof -
  have "\<forall>d \<in> set polls. queued_rows 10 d = []" using assms(2) tested_direct [OF _ assms(1)] direct_no_job by (metis snd_conv)
  then show ?thesis using wait_empty by (simp add: fill_detected_def e2e_main_def e2e_exit_def waitForTxJob_def)
qed

text \<open>Only failures that do not end the test early are reported.\<close>

lemma e2e_reports: "e2e_exit outs = 1 \<longleftrightarrow> Recorded False \<in> set outs \<and> Leaves \<notin> set outs"
  by (simp add: e2e_exit_def)

end
