(* ===== verification/Order_Client.thy ===== *)
theory Order_Client
  imports Order_Intake Trading_Math
begin

text \<open>
  The browser's side of an order: the wallet (\<open>client/lib/stellar/freighter.ts\<close>), submission and
  cancellation (\<open>client/lib/market/matcher.ts\<close>), the locally kept orders (\<open>client/stores/orders.ts\<close>)
  and their reconciliation (\<open>useOrderReconciliation.ts\<close>). What the extension answers and what a request
  returns are parameters; a request acts on a state, so that the server's handlers can be plugged in.
\<close>

subsection \<open>The wallet\<close>

text \<open>A call of the extension throws, answers with an error, or with a value.\<close>

datatype 'a ext = ExtThrow | ExtError string | ExtOk 'a

text \<open>A thrown error: its message, \<open>None\<close> where a library chooses it.\<close>

type_synonym 'a or_throw = "string option + 'a"

definition freighterIsInstalled :: "unit ext \<Rightarrow> bool" where
  "freighterIsInstalled r = (r = ExtOk ())"

definition ext_value :: "'a ext \<Rightarrow> 'a or_throw" where
  "ext_value r = (case r of ExtThrow \<Rightarrow> Inl None | ExtError e \<Rightarrow> Inl (Some e) | ExtOk v \<Rightarrow> Inr v)"

definition freighterConnect :: "unit ext \<Rightarrow> string ext \<Rightarrow> string or_throw" where
  "freighterConnect access addr = (case ext_value access of Inl e \<Rightarrow> Inl e | Inr _ \<Rightarrow> ext_value addr)"

definition freighterGetAddress :: "string ext \<Rightarrow> string option" where
  "freighterGetAddress addr = (case addr of ExtOk a \<Rightarrow> Some a | _ \<Rightarrow> None)"

definition freighterSignTx :: "string ext \<Rightarrow> string or_throw" where
  "freighterSignTx r = ext_value r"

definition freighterGetNetwork :: "string ext \<Rightarrow> string option" where
  "freighterGetNetwork r = (case r of ExtOk p \<Rightarrow> Some p | _ \<Rightarrow> None)"

definition isOnTestnet :: "config \<Rightarrow> string ext \<Rightarrow> bool" where
  "isOnTestnet cfg r \<longleftrightarrow> freighterGetNetwork r = Some (passphrase (NETWORK_cfg cfg))"

definition freighterSignAuthEntry :: "string option ext \<Rightarrow> string or_throw" where
  "freighterSignAuthEntry r = (case ext_value r of Inl e \<Rightarrow> Inl e
     | Inr v \<Rightarrow> if falsy_str v then Inl (Some ''Freighter returned empty auth entry'') else Inr (the v))"

text \<open>A signed message comes as text or as bytes, which are printed in base 64 (\<open>btoa\<close>).\<close>

datatype signed_message = NoMessage | MessageText string | MessageBytes bytes

definition b64_digit :: "int \<Rightarrow> char" where
  "b64_digit n = (if n < 26 then char_of (65 + n) else if n < 52 then char_of (71 + n)
     else if n < 62 then char_of (n - 4) else if n = 62 then CHR ''+'' else CHR ''/'')"

fun btoa :: "bytes \<Rightarrow> string" where
  "btoa [] = []"
| "btoa [a] = [b64_digit (a div 4), b64_digit (a mod 4 * 16), CHR ''='', CHR ''='']"
| "btoa [a, b] = [b64_digit (a div 4), b64_digit (a mod 4 * 16 + b div 16), b64_digit (b mod 16 * 4), CHR ''='']"
| "btoa (a # b # c # r) = b64_digit (a div 4) # b64_digit (a mod 4 * 16 + b div 16) # b64_digit (b mod 16 * 4 + c div 64) #
     b64_digit (c mod 64) # btoa r"

definition freighterSignMessage :: "signed_message ext \<Rightarrow> string or_throw" where
  "freighterSignMessage r = (case ext_value r of Inl e \<Rightarrow> Inl e
     | Inr NoMessage \<Rightarrow> Inl (Some ''Freighter returned empty signature'')
     | Inr (MessageText s) \<Rightarrow> if s = [] then Inl (Some ''Freighter returned empty signature'') else Inr s
     | Inr (MessageBytes b) \<Rightarrow> Inr (btoa b))"

subsection \<open>Submission and cancellation\<close>

text \<open>
  What the code calls: the wallet's answer to a message of an address, and a \<open>POST\<close> with a JSON body,
  which fails, or returns a status and a body that may not parse.
\<close>

record 's client_env =
  ce_cfg :: config
  ce_crypto :: crypto
  ce_sign :: "string \<Rightarrow> string \<Rightarrow> signed_message ext"
  ce_post :: "json \<Rightarrow> 's \<Rightarrow> (int \<times> json option) option \<times> 's"

text \<open>The error of a refused order: what the body says, or \<open>None\<close> for a message of a library.\<close>

datatype submit_result = Submitted | NotSubmitted "json option"

definition submit_answer :: "(int \<times> json option) option \<Rightarrow> submit_result" where
  "submit_answer r = (case r of None \<Rightarrow> NotSubmitted None
   | Some (status, body) \<Rightarrow>
       (let data = (case body of None \<Rightarrow> JObj [] | Some b \<Rightarrow> b); ok = (200 \<le> status \<and> status < 300) in
        if ok \<and> data \<noteq> JNull \<and> js_field data ''ok'' \<noteq> Some (JBool False) then Submitted
        else if data = JNull then NotSubmitted None
        else (case js_field data ''error'' of
            Some e \<Rightarrow> NotSubmitted (Some (if e = JNull then JStr (''HTTP '' @ show_int status) else e))
          | None \<Rightarrow> NotSubmitted (Some (JStr (''HTTP '' @ show_int status))))))"

definition submitOrder :: "'s client_env \<Rightarrow> order_intent \<Rightarrow> 's \<Rightarrow> submit_result \<times> 's" where
  "submitOrder E intent s = (case pubkeyHexFromAddress (ce_crypto E) (owner intent) of
     None \<Rightarrow> (NotSubmitted None, s)
   | Some hex \<Rightarrow>
       (let message = orderSettlementMessage (passphrase (NETWORK_cfg (ce_cfg E))) hex (orderIntentToJson intent) in
        case freighterSignMessage (ce_sign E message (owner intent)) of
          Inl e \<Rightarrow> (NotSubmitted (map_option JStr e), s)
        | Inr sig \<Rightarrow> (let (r, s1) = ce_post E (order_body intent sig) s in (submit_answer r, s1))))"

definition cancelOrderOnMatcher :: "'s client_env \<Rightarrow> string \<Rightarrow> int \<Rightarrow> 's \<Rightarrow> 's" where
  "cancelOrderOnMatcher E own n s =
    (case freighterSignMessage (ce_sign E (cancelSigningMessage (passphrase (NETWORK_cfg (ce_cfg E))) own (show_int n)) own) of
       Inl e \<Rightarrow> s
     | Inr sig \<Rightarrow> snd (ce_post E (JObj [(''owner'', JStr own), (''nonce'', JStr (show_int n)), (''signature'', JStr sig)]) s))"

subsection \<open>Locally kept orders\<close>

datatype local_status = Pending | Filled | Cancelled

record tracked_order = order_intent +
  tk_status :: local_status
  tk_addedAt :: int

definition tracked :: "order_intent \<Rightarrow> int \<Rightarrow> tracked_order" where
  "tracked o' now = order_intent.extend o' \<lparr> tk_status = Pending, tk_addedAt = now \<rparr>"

definition same_order :: "string \<Rightarrow> int \<Rightarrow> tracked_order \<Rightarrow> bool" where
  "same_order own n t \<longleftrightarrow> owner t = own \<and> nonce t = n"

definition addOrder :: "int \<Rightarrow> order_intent \<Rightarrow> tracked_order list \<Rightarrow> tracked_order list" where
  "addOrder now o' ts = tracked o' now # take 99 (filter (\<lambda>t. \<not> same_order (owner o') (nonce o') t) ts)"

text \<open>\<open>cancelOrder\<close> and \<open>markFilled\<close>; the owner is optional, and an empty one is no restriction.\<close>

definition set_local_status :: "local_status \<Rightarrow> int \<Rightarrow> string option \<Rightarrow> tracked_order list \<Rightarrow> tracked_order list" where
  "set_local_status st n own ts = update_where (\<lambda>t. nonce t = n \<and> (falsy_str own \<or> owner t = the own)) (\<lambda>t. t\<lparr> tk_status := st \<rparr>) ts"

definition cancelOrder_local :: "int \<Rightarrow> string option \<Rightarrow> tracked_order list \<Rightarrow> tracked_order list" where
  "cancelOrder_local = set_local_status Cancelled"

definition markFilled :: "int \<Rightarrow> string option \<Rightarrow> tracked_order list \<Rightarrow> tracked_order list" where
  "markFilled = set_local_status Filled"

definition clearCancelled :: "tracked_order list \<Rightarrow> tracked_order list" where
  "clearCancelled ts = filter (\<lambda>t. tk_status t \<noteq> Cancelled) ts"

definition clearAll :: "tracked_order list \<Rightarrow> tracked_order list" where
  "clearAll ts = []"

text \<open>The storage form of a value: a BigInt is a string with a prefix.\<close>

datatype stored = SVBig int | SVJson json

definition bigint_prefix :: string where "bigint_prefix = ''__bigint__''"

fun replacer :: "stored \<Rightarrow> json" where
  "replacer (SVBig n) = JStr (bigint_prefix @ show_int n)"
| "replacer (SVJson j) = j"

text \<open>\<open>reviver\<close>; the text after the prefix is one that \<open>replacer\<close> wrote.\<close>

fun reviver :: "json \<Rightarrow> stored" where
  "reviver (JStr s) = (if take 10 s = bigint_prefix then SVBig (read_int (drop 10 s)) else SVJson (JStr s))"
| "reviver j = SVJson j"

subsection \<open>Reconciliation\<close>

record db_order =
  do_intent :: order_intent
  do_cancelled :: bool
  do_filledSize :: int

text \<open>One order of the database list (looked up in the list as it was before), then one pending order against the contract (\<open>None\<close>: a read failed).\<close>

definition reconcile_db :: "int \<Rightarrow> string \<Rightarrow> tracked_order list \<Rightarrow> tracked_order list \<Rightarrow> db_order \<Rightarrow> tracked_order list" where
  "reconcile_db now own snapshot ts r = (let o' = do_intent r in
     if do_cancelled r then cancelOrder_local (nonce o') (Some own) ts
     else if 0 < size o' \<and> size o' \<le> do_filledSize r then markFilled (nonce o') (Some own) ts
     else if \<not> (\<exists>t \<in> set snapshot. same_order own (nonce o') t) then addOrder now o' ts else ts)"

definition reconcile_chain :: "string \<Rightarrow> (int \<Rightarrow> (int \<times> bool) option) \<Rightarrow> tracked_order list \<Rightarrow> tracked_order \<Rightarrow> tracked_order list" where
  "reconcile_chain own read ts t = (case read (nonce t) of
     None \<Rightarrow> ts
   | Some (filled, canc) \<Rightarrow> if canc then cancelOrder_local (nonce t) (Some own) ts
       else if 0 < size t \<and> size t \<le> filled then markFilled (nonce t) (Some own) ts else ts)"

definition reconcile :: "int \<Rightarrow> string \<Rightarrow> db_order list option \<Rightarrow> (int \<Rightarrow> (int \<times> bool) option) \<Rightarrow> tracked_order list \<Rightarrow> tracked_order list" where
  "reconcile now own db read ts =
    (let ts1 = (case db of None \<Rightarrow> ts | Some rows \<Rightarrow> foldl (reconcile_db now own ts) ts rows);
         pending = filter (\<lambda>t. tk_status t = Pending \<and> owner t = own) ts1 in
     foldl (reconcile_chain own read) ts1 (take 20 pending))"

subsection \<open>The local list\<close>

text \<open>At most a hundred orders, each identifier once.\<close>

definition local_ok :: "tracked_order list \<Rightarrow> bool" where
  "local_ok ts \<longleftrightarrow> length ts \<le> 100 \<and> distinct (map (\<lambda>t. (owner t, nonce t)) ts)"

lemma tracked_sel [simp]: "owner (tracked o' now) = owner o'" "nonce (tracked o' now) = nonce o'" "tk_status (tracked o' now) = Pending"
  by (simp_all add: tracked_def order_intent.defs)

lemma addOrder_ok: "local_ok ts \<Longrightarrow> local_ok (addOrder now o' ts)"
  by (auto simp: local_ok_def addOrder_def same_order_def distinct_map_filter distinct_take take_map [symmetric] dest!: in_set_takeD)

lemma set_local_status_keys: "map (\<lambda>t. (owner t, nonce t)) (set_local_status st n own ts) = map (\<lambda>t. (owner t, nonce t)) ts"
  unfolding set_local_status_def by (rule map_update_where) simp

lemma set_local_status_ok: "local_ok ts \<Longrightarrow> local_ok (set_local_status st n own ts)"
  by (simp add: local_ok_def set_local_status_keys) (simp add: set_local_status_def)

lemma reconcile_ok:
  assumes "local_ok ts"
  shows "local_ok (reconcile now own db read ts)"
proof -
  have db: "local_ok (foldl (reconcile_db now own snap) ts rows)" if "local_ok ts" for ts rows snap
    using that by (induction rows arbitrary: ts)
      (auto simp: reconcile_db_def Let_def cancelOrder_local_def markFilled_def intro: addOrder_ok set_local_status_ok)
  have chain: "local_ok (foldl (reconcile_chain own read) ts xs)" if "local_ok ts" for ts xs
    using that by (induction xs arbitrary: ts)
      (auto simp: reconcile_chain_def cancelOrder_local_def markFilled_def intro: set_local_status_ok split: option.splits)
  show ?thesis unfolding reconcile_def Let_def by (rule chain) (auto intro: assms db split: option.splits)
qed

text \<open>Every value survives storage, except a text that already carries the prefix.\<close>

lemma stored_roundtrip: "(\<And>s. v = SVJson (JStr s) \<Longrightarrow> take 10 s \<noteq> bigint_prefix) \<Longrightarrow> reviver (replacer v) = v"
proof (cases v)
  case (SVBig n)
  then show ?thesis by (simp add: bigint_prefix_def)
next
  case (SVJson j)
  assume "\<And>s. v = SVJson (JStr s) \<Longrightarrow> take 10 s \<noteq> bigint_prefix"
  then show ?thesis using SVJson by (cases j) auto
qed

subsection \<open>From the client to the book\<close>

text \<open>The request reaches the handler of the API; an unhandled exception is a 500 without a JSON body.\<close>

definition api_post :: "intake_env \<Rightarrow> (string \<Rightarrow> string option) \<Rightarrow> json \<Rightarrow> buckets \<times> database \<Rightarrow>
    (int \<times> json option) option \<times> (buckets \<times> database)" where
  "api_post V headers body s = (case POST_order V \<lparr> req_header = headers, req_body = Some body \<rparr> s of
     (None, s1) \<Rightarrow> (Some (500, None), s1) | (Some r, s1) \<Rightarrow> (Some (resp_status r, Some (resp_body r)), s1))"

definition api_client :: "intake_env \<Rightarrow> (string \<Rightarrow> string option) \<Rightarrow> (string \<Rightarrow> string \<Rightarrow> signed_message ext) \<Rightarrow> (buckets \<times> database) client_env" where
  "api_client V headers sign = \<lparr> ce_cfg = in_cfg V, ce_crypto = in_crypto V, ce_sign = sign, ce_post = api_post V headers \<rparr>"

text \<open>A database on which the insertion of an order works.\<close>

definition accepts_row :: "intake_env \<Rightarrow> order_intent \<Rightarrow> database \<Rightarrow> bool" where
  "accepts_row V o' d \<longleftrightarrow> \<not> falsy_str (in_dbUrl V) \<and> in_fail V 0 0 = None \<and> in_fail V 0 1 = None \<and>
     nonce o' \<le> MAX_BIGINT \<and> expiryTs o' \<le> MAX_BIGINT \<and>
     (\<forall>x \<in> set (db_orders d). oid x \<noteq> order_id (owner o') (nonce o') \<and> \<not> (owner x = owner o' \<and> nonce x = nonce o'))"

lemma accepts_row_place:
  "accepts_row V o' d \<Longrightarrow> \<exists>d1. withRetry (place_attempt V o' sig) d = (Returned (), d1) \<and> db_orders d1 = db_orders d @ [row_of (in_now V) o' sig]"
  by (auto simp: accepts_row_def withRetry_def eval_nat_numeral place_attempt_def insert_order_def Let_def)

lemma POST_order_accepts:
  assumes v: "validateOrderIntent (in_crypto V) (in_cfg V) (in_now V) (order_body o' sig) = Accepted o'" and d: "accepts_row V o' d"
    and r: "\<not> bodyTooLarge req 4096" "req_body req = Some (order_body o' sig)"
    and l: "fst (rateLimit (in_limiter V) (in_now V) (requestKey req (claimed_owner (order_body o' sig))) 30 bs)"
  shows "\<exists>bs1 d1. POST_order V req (bs, d) = (Some ok_resp, bs1, d1) \<and> db_orders d1 = db_orders d @ [row_of (in_now V) o' (Some sig)]"
proof -
  obtain bs1 where l': "rateLimit (in_limiter V) (in_now V) (requestKey req (claimed_owner (order_body o' sig))) 30 bs = (True, bs1)"
    using l by (cases "rateLimit (in_limiter V) (in_now V) (requestKey req (claimed_owner (order_body o' sig))) 30 bs") auto
  have b: "body_signature (order_body o' sig) = Some sig" by (simp add: body_signature_def)
  obtain d1 where "withRetry (place_attempt V o' (Some sig)) d = (Returned (), d1)" "db_orders d1 = db_orders d @ [row_of (in_now V) o' (Some sig)]"
    using accepts_row_place [OF d] by blast
  then show ?thesis using d r l' v b by (simp add: POST_order_def accepts_row_def)
qed

text \<open>
  C16. A signed order reaches the book: when the wallet signs an order within the bounds for its owner, the
  limiter admits the request and the database is available and has no order with its identifier, the
  client reports success and the table has gained exactly the order's row, open, carrying a settlement
  signature that verifies, and displayed in the book unless it has no limit price.
\<close>

theorem submitted_order_reaches_book:
  assumes "isValidEd25519PublicKey (in_crypto V) (owner o')" and "order_in_bounds (in_cfg V) (in_now V) o'"
    and "pubkeyHexFromAddress (in_crypto V) (owner o') = Some hex"
    and "freighterSignMessage (sign (orderSettlementMessage (passphrase (NETWORK_cfg (in_cfg V))) hex (orderIntentToJson o')) (owner o')) = Inr sig"
    and "settlement_signed (in_crypto V) (in_cfg V) o' sig" and "length sig \<le> 256"
    and "\<not> bodyTooLarge \<lparr> req_header = headers, req_body = Some (order_body o' sig) \<rparr> 4096"
    and "fst (rateLimit (in_limiter V) (in_now V) (requestKey \<lparr> req_header = headers, req_body = Some (order_body o' sig) \<rparr>
       (claimed_owner (order_body o' sig))) 30 bs)"
    and "accepts_row V o' d"
  shows "\<exists>bs1 d1 r. submitOrder (api_client V headers sign) o' (bs, d) = (Submitted, bs1, d1) \<and> db_orders d1 = db_orders d @ [r] \<and>
    order_intent.truncate r = o' \<and> row_signed (in_crypto V) (in_cfg V) r \<and> (book_order (marketId o') r \<longleftrightarrow> limitPrice o' \<noteq> 0)"
proof -
  have v: "validateOrderIntent (in_crypto V) (in_cfg V) (in_now V) (order_body o' sig) = Accepted o'"
    by (rule validate_body) (use assms in auto)
  obtain bs1 d1 where p: "POST_order V \<lparr> req_header = headers, req_body = Some (order_body o' sig) \<rparr> (bs, d) = (Some ok_resp, bs1, d1)"
    "db_orders d1 = db_orders d @ [row_of (in_now V) o' (Some sig)]"
    using POST_order_accepts [OF v assms(9,7) _ assms(8)] by auto
  have "submit_answer (Some (resp_status ok_resp, Some (resp_body ok_resp))) = Submitted"
    by (simp add: submit_answer_def ok_resp_def map_get_def)
  then have s: "submitOrder (api_client V headers sign) o' (bs, d) = (Submitted, bs1, d1)"
    using assms(3,4) p(1) by (simp add: submitOrder_def api_client_def api_post_def)
  let ?r = "row_of (in_now V) o' (Some sig)"
  have "row_signed (in_crypto V) (in_cfg V) ?r" using assms(5) by (simp add: row_signed_def)
  moreover have "book_order (marketId o') ?r \<longleftrightarrow> limitPrice o' \<noteq> 0"
    using assms(2) by (simp add: book_order_def row_of_def order_in_bounds_def)
  ultimately show ?thesis using s p(2) by (intro exI [of _ bs1] exI [of _ d1] exI [of _ ?r]) simp
qed

theorem submitted_order_reaches_book_witness:
  "\<exists>bs1 d1 r. submitOrder (api_client sample_intake (\<lambda>_. None) (\<lambda>m a. ExtOk (MessageText ''sig''))) sample_order ([], empty_db) = (Submitted, bs1, d1) \<and>
    db_orders d1 = [r] \<and> order_intent.truncate r = sample_order \<and> book_order 1 r"
proof -
  have k: "pubkeyHexFromAddress sample_crypto (owner sample_order) = Some (toHex [1, 2])"
    by (simp add: pubkeyHexFromAddress_def sample_crypto_def sample_order_def)
  have a: "accepts_row sample_intake sample_order empty_db"
    by (simp add: accepts_row_def sample_order_def empty_db_def MAX_BIGINT_def)
  have big: "\<not> bodyTooLarge \<lparr> req_header = \<lambda>_. None, req_body = Some (order_body sample_order ''sig'') \<rparr> 4096"
    by (simp add: bodyTooLarge_def Let_def)
  have "\<exists>bs1 d1 r. submitOrder (api_client sample_intake (\<lambda>_. None) (\<lambda>m a. ExtOk (MessageText ''sig''))) sample_order ([], empty_db) = (Submitted, bs1, d1) \<and>
    db_orders d1 = db_orders empty_db @ [r] \<and> order_intent.truncate r = sample_order \<and> row_signed (in_crypto sample_intake) (in_cfg sample_intake) r \<and>
    (book_order (marketId sample_order) r \<longleftrightarrow> limitPrice sample_order \<noteq> 0)"
    by (rule submitted_order_reaches_book [where hex = "toHex [1, 2]" and sig = "''sig''"])
      (use sample_order_ok sample_order_signed k a big sample_admitted in \<open>simp_all add: freighterSignMessage_def ext_value_def sample_crypto_def sample_order_def\<close>)
  then show ?thesis by (auto simp: empty_db_def sample_order_def)
qed

end
