(* ===== verification/Order_Ticket.thy ===== *)
theory Order_Ticket
  imports Order_Client Chain_Views
begin

text \<open>
  The decisions behind the trading screens, without their markup: the order ticket
  (\<open>OrderEntry.tsx\<close>: input cleaning, sizes, prices, the checks of \<open>handleSubmit\<close> and the intent it
  submits), closing and valuing a position (\<open>PositionsTable.tsx\<close>) and cancelling an order
  (\<open>OpenOrdersTable.tsx\<close>). A \<open>BigInt\<close> of a fraction or of \<open>NaN\<close> throws (\<open>None\<close>).
\<close>

subsection \<open>Inputs\<close>

text \<open>Digits and points only, no leading zeros before a digit, one point.\<close>

definition strip_zeros :: "string \<Rightarrow> string" where
  "strip_zeros s = (let z = takeWhile (\<lambda>c. c = CHR ''0'') s; r = drop (length z) s in
     if r \<noteq> [] \<and> is_digit (hd r) then r else if 2 \<le> length z then CHR ''0'' # r else s)"

definition one_point :: "string \<Rightarrow> string" where
  "one_point s = (let parts = js_split CHR ''.'' s in
     if 2 < length parts then hd parts @ ''.'' @ concat (tl parts) else s)"

definition sanitizeNumericInput :: "string \<Rightarrow> string" where
  "sanitizeNumericInput s = one_point (strip_zeros (filter (\<lambda>c. is_digit c \<or> c = CHR ''.'') s))"

text \<open>\<open>parseFloat(s) || 0\<close>.\<close>

definition float_or_zero :: "string \<Rightarrow> number" where
  "float_or_zero s = (let x = parse_float s in if js_truthy x then x else Fin 0)"

record ticket =
  tk_buy :: bool
  tk_market :: bool
  tk_size :: string
  tk_sizeInQuote :: bool
  tk_limitPrice :: string
  tk_leverage :: int
  tk_reduce :: bool
  tk_post :: bool

record ticket_env =
  te_market :: market_config
  te_mark :: "int option"
  te_book :: "order_book option"
  te_available :: int
  te_address :: "string option"
  te_connected :: bool
  te_network :: "string ext"
  te_orders :: "tracked_order list"

definition first_price :: "book_level list \<Rightarrow> number option" where
  "first_price ls = (case ls of [] \<Rightarrow> None | l # _ \<Rightarrow> Some (parse_float (bl_price l)))"

definition bestAsk :: "ticket_env \<Rightarrow> number option" where
  "bestAsk V = Option.bind (te_book V) (\<lambda>b. first_price (ob_asks b))"

definition bestBid :: "ticket_env \<Rightarrow> number option" where
  "bestBid V = Option.bind (te_book V) (\<lambda>b. first_price (ob_bids b))"

definition has_mark :: "ticket_env \<Rightarrow> int option" where
  "has_mark V = (case te_mark V of None \<Rightarrow> None | Some m \<Rightarrow> if 0 < m then Some m else None)"

definition midPriceHuman :: "ticket_env \<Rightarrow> number option" where
  "midPriceHuman V = (case has_mark V of Some m \<Rightarrow> Some (priceToHuman m)
   | None \<Rightarrow> (case (bestAsk V, bestBid V) of (Some a, Some b) \<Rightarrow> Some (js_div (js_add a b) (Fin 2)) | _ \<Rightarrow> None))"

definition execPrice :: "ticket_env \<Rightarrow> ticket \<Rightarrow> number" where
  "execPrice V t = (if tk_market t then (case midPriceHuman V of None \<Rightarrow> Fin 0 | Some p \<Rightarrow> p) else float_or_zero (tk_limitPrice t))"

definition baseSizeNum :: "ticket_env \<Rightarrow> ticket \<Rightarrow> number" where
  "baseSizeNum V t = (let n = float_or_zero (tk_size t) in
     if tk_sizeInQuote t \<and> js_lt (Fin 0) (execPrice V t) then js_div n (execPrice V t) else n)"

definition effectiveLeverage :: "ticket_env \<Rightarrow> ticket \<Rightarrow> number" where
  "effectiveLeverage V t = (let maxLev = math_round (js_div (number_of_bigint (maxLeverageBps (te_market V))) (Fin 10000));
     lev = number_of_bigint (tk_leverage t) in if js_le lev maxLev then lev else maxLev)"

definition orderValue :: "ticket_env \<Rightarrow> ticket \<Rightarrow> string" where
  "orderValue V t = (if js_lt (Fin 0) (baseSizeNum V t) \<and> js_lt (Fin 0) (execPrice V t)
     then to_fixed 2 (js_mul (baseSizeNum V t) (execPrice V t)) else ''0.00'')"

definition marginRequired :: "ticket_env \<Rightarrow> ticket \<Rightarrow> string" where
  "marginRequired V t = (if js_lt (Fin 0) (baseSizeNum V t) \<and> js_lt (Fin 0) (execPrice V t)
     then to_fixed 2 (js_div (js_mul (baseSizeNum V t) (execPrice V t)) (effectiveLeverage V t)) else ''0.00'')"

text \<open>The estimate shown as liquidation price: \<open>None\<close> when it throws, \<open>Some None\<close> for the dash.\<close>

definition liqPriceDisplay :: "ticket_env \<Rightarrow> ticket \<Rightarrow> string option option" where
  "liqPriceDisplay V t =
    (if js_le (baseSizeNum V t) (Fin 0) \<or> js_le (execPrice V t) (Fin 0) then Some None
     else (case big_scaled (execPrice V t) PRICE_PRECISION of None \<Rightarrow> None
     | Some entryRaw \<Rightarrow>
         map_option (\<lambda>liq. if liq \<le> 0 then None else Some (''$'' @ to_fixed 4 (priceToHuman liq)))
           (calcLiqPrice (tk_buy t) entryRaw (effectiveLeverage V t) (number_of_bigint (maintenanceMarginBps (te_market V))))))"

subsection \<open>Submitting a ticket\<close>

text \<open>The first check that fails, in the order of the code; \<open>showTpSl\<close> is constantly false.\<close>

definition crosses_book :: "ticket_env \<Rightarrow> ticket \<Rightarrow> bool" where
  "crosses_book V t = (let p = float_or_zero (tk_limitPrice t) in
     if tk_buy t then (case bestAsk V of None \<Rightarrow> False | Some a \<Rightarrow> js_le a p)
     else (case bestBid V of None \<Rightarrow> False | Some b \<Rightarrow> js_le p b))"

definition too_poor :: "ticket_env \<Rightarrow> ticket \<Rightarrow> bool" where
  "too_poor V t = (let m = parse_float (marginRequired V t) in
     js_lt (Fin 0) m \<and> js_lt (amountToHuman (te_available V)) m)"

datatype ticket_error = NotConnected | WrongNetwork | BadSize | NoPrice | NoConversion | PostNeedsLimit | PostWouldCross | Insufficient

definition ticket_checks :: "config \<Rightarrow> ticket_env \<Rightarrow> ticket \<Rightarrow> (bool \<times> ticket_error) list" where
  "ticket_checks cfg V t =
    [(falsy_str (te_address V) \<or> \<not> te_connected V, NotConnected),
     (\<not> isOnTestnet cfg (te_network V), WrongNetwork),
     (tk_size t = [] \<or> js_le (float_or_zero (tk_size t)) (Fin 0), BadSize),
     (js_le (execPrice V t) (Fin 0), NoPrice),
     (tk_sizeInQuote t \<and> js_le (baseSizeNum V t) (Fin 0), NoConversion),
     (tk_post t \<and> tk_market t, PostNeedsLimit),
     (tk_post t \<and> \<not> tk_market t \<and> crosses_book V t, PostWouldCross),
     (too_poor V t, Insufficient)]"

text \<open>The warning about the wallet's own resting orders does not stop the order.\<close>

definition wouldSelfCross :: "ticket_env \<Rightarrow> ticket \<Rightarrow> bool" where
  "wouldSelfCross V t = list_ex (\<lambda>r. tk_status r = Pending \<and> Some (owner r) = te_address V \<and> marketId r = mc_marketId (te_market V) \<and>
     isLong r \<noteq> tk_buy t \<and>
     (tk_market t \<or> (let p = float_or_zero (tk_limitPrice t) in
        if tk_buy t then js_le (priceToHuman (limitPrice r)) p else js_le p (priceToHuman (limitPrice r))))) (te_orders V)"

text \<open>A market order is a limit order at twice the mark price, or at half of it (at least one).\<close>

definition aggressive_price :: "bool \<Rightarrow> int \<Rightarrow> int" where
  "aggressive_price buy mark = (if buy then mark * 2 else if mark sdiv 2 = 0 then 1 else mark sdiv 2)"

definition rawPrice :: "ticket_env \<Rightarrow> ticket \<Rightarrow> int option" where
  "rawPrice V t = (if tk_market t then map_option (aggressive_price (tk_buy t))
       (case has_mark V of Some m \<Rightarrow> Some m | None \<Rightarrow> big_scaled (execPrice V t) PRICE_PRECISION)
     else big_scaled (float_or_zero (tk_limitPrice t)) PRICE_PRECISION)"

definition ticket_intent :: "ticket_env \<Rightarrow> ticket \<Rightarrow> int \<Rightarrow> order_intent option" where
  "ticket_intent V t now = (case (big_scaled (baseSizeNum V t) AMOUNT_PRECISION, rawPrice V t) of
     (Some sz, Some price) \<Rightarrow> Some (buildOrderIntent now (the (te_address V)) (mc_marketId (te_market V)) (tk_buy t) sz price (Some (tk_reduce t)) (Some 3600))
   | _ \<Rightarrow> None)"

datatype ticket_outcome = Stopped ticket_error | ConversionThrew | Sent order_intent submit_result

text \<open>\<open>handleSubmit\<close>: the outcome, the local orders and the state behind the API.\<close>

definition handleSubmit :: "'s client_env \<Rightarrow> ticket_env \<Rightarrow> ticket \<Rightarrow> int \<Rightarrow> 's \<Rightarrow> ticket_outcome \<times> tracked_order list \<times> 's" where
  "handleSubmit E V t now s = (case first_error (ticket_checks (ce_cfg E) V t) of
     Some e \<Rightarrow> (Stopped e, te_orders V, s)
   | None \<Rightarrow> (case ticket_intent V t now of
       None \<Rightarrow> (ConversionThrew, te_orders V, s)
     | Some o' \<Rightarrow> (let (r, s1) = submitOrder E o' s in
         (Sent o' r, if r = Submitted then addOrder now o' (te_orders V) else te_orders V, s1))))"

subsection \<open>Positions\<close>

text \<open>
  Closing: an opposite reduce-only order at the aggressive price, or at one when the mark is unknown; it
  is kept locally before it is submitted.
\<close>

definition close_intent :: "int option \<Rightarrow> string \<Rightarrow> int \<Rightarrow> raw_position \<Rightarrow> int \<Rightarrow> order_intent" where
  "close_intent mark address mkt pos now =
    buildOrderIntent now address mkt (\<not> rp_isLong pos) (rp_size pos)
      (case mark of None \<Rightarrow> 1 | Some m \<Rightarrow> if 0 < m then aggressive_price (\<not> rp_isLong pos) m else 1) (Some True) (Some 60)"

definition makeClose :: "'s client_env \<Rightarrow> int option \<Rightarrow> string \<Rightarrow> int \<Rightarrow> raw_position \<Rightarrow> int \<Rightarrow> tracked_order list \<Rightarrow> 's \<Rightarrow>
    submit_result \<times> tracked_order list \<times> 's" where
  "makeClose E mark address mkt pos now ts s = (let o' = close_intent mark address mkt pos now; (r, s1) = submitOrder E o' s in
     (r, addOrder now o' ts, s1))"

record position_figures =
  pf_pnl :: "number option"
  pf_margin :: number
  pf_pnlPct :: "number option"
  pf_leverage :: number
  pf_liqPrice :: "string option"

definition bps_rate :: "int option \<Rightarrow> number" where
  "bps_rate b = js_div (case b of None \<Rightarrow> Fin 0 | Some n \<Rightarrow> number_of_bigint n) (Fin 10000)"

definition est_liq :: "bool \<Rightarrow> number \<Rightarrow> number \<Rightarrow> number \<Rightarrow> number \<Rightarrow> number option" where
  "est_liq long sizeHuman refPrice equity mm =
    (if long then (let denom = js_mul sizeHuman (js_sub (Fin 1) mm) in
       if js_le denom (Fin 0) then None else Some (js_div (js_sub (js_mul sizeHuman refPrice) equity) denom))
     else Some (js_div (js_add equity (js_mul sizeHuman refPrice)) (js_mul sizeHuman (js_add (Fin 1) mm))))"

definition getPositionView :: "market_config option \<Rightarrow> raw_position \<Rightarrow> int option \<Rightarrow> number \<Rightarrow> position_figures" where
  "getPositionView mkt pos markPrice equity =
    (let mark = (case markPrice of None \<Rightarrow> None | Some m \<Rightarrow> if m = 0 then None else Some m);
         sizeHuman = amountToHuman (rp_size pos);
         refPrice = (case mark of None \<Rightarrow> priceToHuman (rp_entryPrice pos) | Some m \<Rightarrow> priceToHuman m);
         pnl = map_option (\<lambda>m. amountToHuman (calcUnrealizedPnl (rp_isLong pos) (rp_size pos) (rp_entryPrice pos) m)) mark;
         notional = js_mul sizeHuman refPrice;
         margin = js_mul notional (bps_rate (map_option initialMarginBps mkt));
         mm = bps_rate (map_option maintenanceMarginBps mkt) in
     \<lparr> pf_pnl = pnl, pf_margin = margin,
       pf_pnlPct = (case pnl of None \<Rightarrow> None | Some p \<Rightarrow> if js_lt (Fin 0) margin then Some (js_mul (js_div p margin) (Fin 100)) else None),
       pf_leverage = (if js_lt (Fin 0) equity \<and> js_lt (Fin 0) notional
         then (let l = math_round (js_div notional equity) in if js_le (Fin 1) l then l else Fin 1) else Fin 0),
       pf_liqPrice = (if mkt = None \<or> js_le sizeHuman (Fin 0) \<or> js_le equity (Fin 0) \<or> js_le refPrice (Fin 0) then None
         else (case est_liq (rp_isLong pos) sizeHuman refPrice equity mm of None \<Rightarrow> None
           | Some p \<Rightarrow> if \<not> is_finite p \<or> js_le p (Fin 0) then None else Some (''$'' @ to_fixed 4 p))) \<rparr>)"

subsection \<open>Open orders\<close>

text \<open>Cancelling: on chain, then at the API (whose failure is ignored), then locally.\<close>

definition makeCancel :: "'s client_env \<Rightarrow> invoke_io \<Rightarrow> contracts \<Rightarrow> string \<Rightarrow> tracked_order \<Rightarrow> tracked_order list \<Rightarrow> 's \<Rightarrow>
    (string + unit) \<times> tracked_order list \<times> 's" where
  "makeCancel E io C address t ts s = (case cancelOrder io C address (nonce t) (expiryTs t) of
     Inl e \<Rightarrow> (Inl e, ts, s)
   | Inr _ \<Rightarrow> (Inr (), cancelOrder_local (nonce t) (Some address) ts, cancelOrderOnMatcher E address (nonce t) s))"

definition visible_orders :: "string \<Rightarrow> int option \<Rightarrow> bool option \<Rightarrow> tracked_order list \<Rightarrow> tracked_order list" where
  "visible_orders address mkt side ts = filter (\<lambda>t. tk_status t = Pending \<and> owner t = address \<and>
     (case mkt of None \<Rightarrow> True | Some m \<Rightarrow> marketId t = m) \<and> (case side of None \<Rightarrow> True | Some l \<Rightarrow> isLong t = l)) ts"

subsection \<open>What a ticket submits\<close>

text \<open>Nothing reaches the API unless every check passed.\<close>

lemma stopped_changes_nothing:
  "first_error (ticket_checks (ce_cfg E) V t) = Some e \<Longrightarrow> handleSubmit E V t now s = (Stopped e, te_orders V, s)"
  by (simp add: handleSubmit_def)

lemma sent_was_checked:
  assumes "handleSubmit E V t now s = (Sent o' r, ts, s1)"
  shows "\<not> falsy_str (te_address V) \<and> te_connected V \<and> isOnTestnet (ce_cfg E) (te_network V) \<and> \<not> js_le (execPrice V t) (Fin 0) \<and>
    \<not> (tk_post t \<and> crosses_book V t) \<and> \<not> too_poor V t \<and> ticket_intent V t now = Some o'"
  using assms by (auto simp: handleSubmit_def first_error_None ticket_checks_def Let_def split: option.splits prod.splits)

text \<open>
  A market ticket with a known mark never has a limit price of zero, which is what the matcher takes as a
  market order: its row rests in the published book, at twice or at half the mark price.
\<close>

lemma aggressive_pos: "0 < m \<Longrightarrow> 0 < aggressive_price buy m"
  using sdiv_nonneg_nonneg [of m 2] by (auto simp: aggressive_price_def)

lemma market_ticket_rests:
  assumes "ticket_intent V t now = Some o'" and "tk_market t" and "has_mark V = Some m" and "0 < size o'"
  shows "book_order (mc_marketId (te_market V)) (row_of now o' sig)"
proof -
  have "0 < m" using assms(3) by (auto simp: has_mark_def split: option.splits if_splits)
  then have "aggressive_price (tk_buy t) m \<noteq> 0" using aggressive_pos [of m "tk_buy t"] by simp
  then show ?thesis using assms
    by (auto simp: ticket_intent_def rawPrice_def buildOrderIntent_def book_order_def row_of_def split: option.splits)
qed

text \<open>Without a mark price the order that closes a short offers the least price there is.\<close>

lemma close_without_mark: "\<not> rp_isLong pos \<Longrightarrow> isLong (close_intent None a mkt pos now) \<and> limitPrice (close_intent None a mkt pos now) = 1"
  by (simp add: close_intent_def buildOrderIntent_def)

end
