(* ===== verification/Ops_Scripts.thy ===== *)
theory Ops_Scripts
  imports Order_Ticket Account_Views
begin

text \<open>
  Operations: the start-up checks of the services (\<open>client/lib/secrets-check.ts\<close>), the configuration gate
  (\<open>production-gate.ts\<close>), seeding of the market table (\<open>seed-markets.ts\<close>), the splitter of migrations
  (\<open>apply-migration.ts\<close>), and the transfer of the admin role to governance with its verification
  (\<open>transfer-admin-to-governance.ts\<close>, \<open>verify-decentralization.ts\<close>). A script's result is its exit code.
\<close>

subsection \<open>Secrets\<close>

definition PLACEHOLDER_PREFIXES :: "string list" where
  "PLACEHOLDER_PREFIXES = [''change_me'', ''replace_me'', ''your_'', ''TODO'', ''FIXME'', ''<'', ''example'']"

definition KNOWN_TEST_KEYS :: "string list" where
  "KNOWN_TEST_KEYS = [''SCZANGBA'', ''SBGJMPZ'']"

definition looksLikePlaceholder :: "string \<Rightarrow> bool" where
  "looksLikePlaceholder v \<longleftrightarrow> list_ex (\<lambda>p. prefix (map lower_char p) (map lower_char v)) PLACEHOLDER_PREFIXES \<or> length v < 8"

definition looksLikeTestKey :: "string \<Rightarrow> bool" where
  "looksLikeTestKey v \<longleftrightarrow> list_ex (\<lambda>p. prefix p v) KNOWN_TEST_KEYS"

definition has_text :: "string \<Rightarrow> string \<Rightarrow> bool" where
  "has_text s p = list_ex (prefix p) (suffixes s)"

datatype suspicion = SuspectPlaceholder string | SuspectTestKey string

definition suspicions :: "env \<Rightarrow> string \<Rightarrow> suspicion list" where
  "suspicions env key = (case env key of None \<Rightarrow> [] | Some v \<Rightarrow>
     if v = [] then [] else if looksLikePlaceholder v then [SuspectPlaceholder key]
     else if has_text key ''SECRET'' \<and> looksLikeTestKey v then [SuspectTestKey key] else [])"

text \<open>The process exits with the missing variables, or goes on with the warnings.\<close>

definition assertRequiredSecrets :: "env \<Rightarrow> string list \<Rightarrow> string list + suspicion list" where
  "assertRequiredSecrets env required = (let missing = filter (\<lambda>k. falsy_str (env k)) required in
     if missing \<noteq> [] then Inl missing else Inr (concat (map (suspicions env) required)))"

definition assertNoPublicSecretLeak :: "string list \<Rightarrow> string list + unit" where
  "assertNoPublicSecretLeak keys = (let leaks = filter (\<lambda>k. prefix ''NEXT_PUBLIC_'' k \<and> contains_ci k ''secret'') keys in
     if leaks \<noteq> [] then Inl leaks else Inr ())"

lemma secrets_present: "assertRequiredSecrets env required = Inr w \<Longrightarrow> k \<in> set required \<Longrightarrow> \<exists>v. env k = Some v \<and> v \<noteq> []"
  by (cases "env k") (auto simp: assertRequiredSecrets_def Let_def filter_empty_conv split: if_splits)

subsection \<open>Production gate\<close>

text \<open>
  What the gate asks of the libraries: contract ids, public keys, and the protocol of a URL (\<open>None\<close>: it does
  not parse). A wrong protocol is reported as an invalid URL, since the failure is thrown inside the \<open>try\<close>.
\<close>

record gate_env =
  ge_env :: env
  ge_contract :: "string \<Rightarrow> bool"
  ge_publicKey :: "string \<Rightarrow> bool"
  ge_protocol :: "string \<Rightarrow> string option"

definition ends_with :: "string \<Rightarrow> string \<Rightarrow> bool" where
  "ends_with s e = suffix e s"

definition market_gate :: "int list \<Rightarrow> market_config \<Rightarrow> (bool \<times> string) list" where
  "market_gate ids m =
    [(mc_marketId m \<in> set ids, ''duplicate marketId '' @ show_int (mc_marketId m)),
     (mc_marketId m \<le> 0, symbol m @ '' has invalid marketId''),
     (\<not> ends_with (symbol m) ''-PERP'', symbol m @ '' must use -PERP naming''),
     (oracleSymbol m = [], symbol m @ '' missing oracleSymbol''),
     (priceSourceSymbol m = [], symbol m @ '' missing priceSourceSymbol''),
     (quoteAsset m \<noteq> ''USDC'', symbol m @ '' must be USDC settled for v1''),
     (maxLeverageBps m \<le> 0 \<or> 2000000 < maxLeverageBps m, symbol m @ '' maxLeverageBps outside allowed range''),
     (initialMarginBps m \<le> 0 \<or> maintenanceMarginBps m \<le> 0, symbol m @ '' margin bps must be positive''),
     (initialMarginBps m \<le> maintenanceMarginBps m, symbol m @ '' maintenance margin must be lower than initial margin'')]"

fun markets_gate :: "int list \<Rightarrow> market_config list \<Rightarrow> (bool \<times> string) list" where
  "markets_gate ids [] = []"
| "markets_gate ids (m # ms) = market_gate ids m @ markets_gate (mc_marketId m # ids) ms"

definition id_gate :: "gate_env \<Rightarrow> config \<Rightarrow> (bool \<times> string) list" where
  "id_gate G cfg = (let C = CONTRACTS_cfg cfg; A = ASSETS_cfg cfg in
     map (\<lambda>(l, v). (\<not> ge_contract G v, l @ '' is not a valid Stellar contract id''))
       [(''CONTRACTS.governance'', governance C), (''CONTRACTS.oracleAdapter'', oracleAdapter C), (''CONTRACTS.vault'', vault C),
        (''CONTRACTS.engine'', engine C), (''CONTRACTS.orderGateway'', orderGateway C), (''CONTRACTS.insurance'', insurance C),
        (''CONTRACTS.liquidation'', liquidation C), (''CONTRACTS.risk'', risk C), (''ASSETS.nativeXlm'', nativeXlm A), (''ASSETS.usdc'', usdc A)] @
     [(\<not> ge_publicKey G (usdcIssuer A), ''ASSETS.usdcIssuer is not a valid Stellar public key'')])"

definition network_gate :: "gate_env \<Rightarrow> config \<Rightarrow> (bool \<times> string) list" where
  "network_gate G cfg = (let N = NETWORK_cfg cfg; E = ge_env G; main = (net_name N = ''mainnet'') in
    [(\<not> prefix ''https://'' (rpcUrl N), ''NETWORK.rpcUrl must be HTTPS''),
     (main \<and> \<not> has_text (passphrase N) ''Public Global Stellar Network'', ''mainnet passphrase mismatch''),
     (main \<and> ge_protocol G (env_or E ''NEXT_PUBLIC_APP_URL'' []) \<noteq> Some ''https:'', ''NEXT_PUBLIC_APP_URL must be a valid HTTPS URL''),
     (main \<and> ge_protocol G (WS_URL cfg) \<noteq> Some ''wss:'', ''NEXT_PUBLIC_WS_URL must be a valid WSS URL''),
     (main \<and> falsy_str (E ''DATABASE_URL''), ''DATABASE_URL is required for mainnet API routes''),
     (main \<and> falsy_str (E ''MATCHER_OPERATOR_SECRET''), ''MATCHER_OPERATOR_SECRET is required for mainnet settlement signing''),
     (main \<and> (falsy_str (E ''UPSTASH_REDIS_REST_URL'') \<or> falsy_str (E ''UPSTASH_REDIS_REST_TOKEN'')),
       ''distributed rate limit Redis is required for mainnet'')])"

definition production_gate :: "gate_env \<Rightarrow> config \<Rightarrow> string option" where
  "production_gate G cfg = first_error
    ([(ACTIVE_MARKET_SYMBOLS cfg = [], ''no active markets configured''),
      (DEFAULT_MARKET_SYMBOL cfg = [] \<or> \<not> map_has (ACTIVE_MARKETS cfg) (DEFAULT_MARKET_SYMBOL cfg), ''default market is not active'')] @
     markets_gate [] (map snd (ACTIVE_MARKETS cfg)) @ id_gate G cfg @ network_gate G cfg)"

text \<open>A configuration that passes has markets with distinct positive ids and ordered margins.\<close>

lemma markets_gate_ok:
  "\<forall>c \<in> set (markets_gate ids ms). \<not> fst c \<Longrightarrow> distinct (map mc_marketId ms) \<and> set ids \<inter> mc_marketId ` set ms = {} \<and>
   (\<forall>m \<in> set ms. 0 < mc_marketId m \<and> 0 < maintenanceMarginBps m \<and> maintenanceMarginBps m < initialMarginBps m)"
proof (induction ms arbitrary: ids)
  case (Cons m ms)
  have g: "\<forall>c \<in> set (market_gate ids m). \<not> fst c" and r: "\<forall>c \<in> set (markets_gate (mc_marketId m # ids) ms). \<not> fst c"
    using Cons.prems by auto
  from g have "mc_marketId m \<notin> set ids" "0 < mc_marketId m" "0 < maintenanceMarginBps m" "maintenanceMarginBps m < initialMarginBps m"
    by (auto simp: market_gate_def)
  then show ?case using Cons.IH [OF r] by auto
qed simp

lemma gate_sound: "production_gate G cfg = None \<Longrightarrow> distinct (market_ids (ACTIVE_MARKETS cfg)) \<and>
   (\<forall>m \<in> set (map snd (ACTIVE_MARKETS cfg)). maintenanceMarginBps m < initialMarginBps m)"
proof -
  assume "production_gate G cfg = None"
  then have "\<forall>c \<in> set (markets_gate [] (map snd (ACTIVE_MARKETS cfg))). \<not> fst c"
    unfolding production_gate_def first_error_None by simp
  from markets_gate_ok [OF this] show ?thesis by (auto simp: market_ids_def comp_def)
qed

subsection \<open>Seeding the markets\<close>

definition seed_row :: "string \<Rightarrow> market_config \<Rightarrow> string \<Rightarrow> string option" where
  "seed_row now m = map_of [(''id'', show_int (mc_marketId m)), (''symbol'', symbol m), (''settlementAsset'', settlementAsset m),
     (''active'', ''true''), (''updatedAt'', now), (''createdAt'', now)]"

definition seed_market :: "string \<Rightarrow> market_config \<Rightarrow> market_table \<Rightarrow> market_table" where
  "seed_market now m T = (let k = show_int (mc_marketId m) in if map_has T k then T else map_set T k (seed_row now m))"

text \<open>The report gives, for every market, whether its row was created.\<close>

fun seed_all :: "string \<Rightarrow> market_config list \<Rightarrow> market_table \<Rightarrow> (int \<times> string \<times> bool) list \<times> market_table" where
  "seed_all now [] T = ([], T)"
| "seed_all now (m # ms) T = (let (rs, T') = seed_all now ms (seed_market now m T) in
     ((mc_marketId m, symbol m, \<not> map_has T (show_int (mc_marketId m))) # rs, T'))"

definition seedMarkets :: "string \<Rightarrow> config \<Rightarrow> market_table \<Rightarrow> (int \<times> string \<times> bool) list \<times> market_table" where
  "seedMarkets now cfg T = seed_all now (map snd (ACTIVE_MARKETS cfg)) T"

text \<open>Seeding keeps every row there is, and every market has a row afterwards.\<close>

lemma seed_market_keeps: "map_get T k = Some row \<Longrightarrow> map_get (seed_market now m T) k = Some row"
  by (cases "show_int (mc_marketId m) = k") (auto simp: seed_market_def Let_def map_has_def map_get_set)

lemma seed_all_keeps: "map_get T k = Some row \<Longrightarrow> map_get (snd (seed_all now ms T)) k = Some row"
  by (induction now ms T rule: seed_all.induct) (simp_all add: seed_market_keeps split_def Let_def)

lemma seed_all_covers: "m \<in> set ms \<Longrightarrow> \<exists>row. map_get (snd (seed_all now ms T)) (show_int (mc_marketId m)) = Some row"
proof (induction ms arbitrary: T)
  case (Cons a ms)
  have "\<exists>row. map_get (seed_market now a T) (show_int (mc_marketId a)) = Some row"
    by (auto simp: seed_market_def Let_def map_has_def map_get_set)
  then have "\<exists>row. map_get (snd (seed_all now ms (seed_market now a T))) (show_int (mc_marketId a)) = Some row"
    by (blast intro: seed_all_keeps)
  then show ?case using Cons by (auto simp: split_def Let_def)
qed simp

subsection \<open>Splitting a migration\<close>

text \<open>The statements and the rest, untrimmed; \<open>$$\<close> opens and closes a quoted body.\<close>

fun split_sql :: "bool \<Rightarrow> string \<Rightarrow> string \<Rightarrow> string list \<times> string" where
  "split_sql quoted buf [] = ([], buf)"
| "split_sql quoted buf (CHR ''$'' # CHR ''$'' # s) = split_sql (\<not> quoted) (buf @ ''$$'') s"
| "split_sql quoted buf (c # s) = (if c = CHR '';'' \<and> \<not> quoted
     then (let (ss, r) = split_sql quoted [] s in ((buf @ [c]) # ss, r)) else split_sql quoted (buf @ [c]) s)"

definition is_comment :: "string \<Rightarrow> bool" where
  "is_comment l = prefix ''--'' (js_trim l)"

definition has_code :: "string \<Rightarrow> bool" where
  "has_code s = (js_trim (js_join [NL] (filter (\<lambda>l. \<not> is_comment l) (js_split NL s))) \<noteq> [])"

definition splitStatements :: "string \<Rightarrow> string list" where
  "splitStatements sql = (let (ss, r) = split_sql False [] sql in
     filter has_code (map js_trim ss @ (if js_trim r \<noteq> [] then [js_trim r] else [])))"

lemma split_sql_parts: "concat (fst (split_sql quoted buf s)) @ snd (split_sql quoted buf s) = buf @ s"
  by (induction quoted buf s rule: split_sql.induct) (auto simp: Let_def split_def)

text \<open>A semicolon in a comment or in a string literal ends a statement.\<close>

lemma comment_semicolon_splits: "splitStatements (''-- a; b'' @ [NL] @ ''SELECT 1;'') = [''b'' @ [NL] @ ''SELECT 1;'']"
  by code_simp

subsection \<open>Transfer of the admin role\<close>

text \<open>How the network answers a submission; \<open>None\<close> is an exception.\<close>

record submit_rpc =
  sr_account :: bool
  sr_simError :: "string option option"
  sr_sendError :: "string option option"
  sr_hash :: string
  sr_poll :: "nat \<Rightarrow> poll_status option"

primrec submit_poll :: "string \<Rightarrow> string \<Rightarrow> (nat \<Rightarrow> poll_status option) \<Rightarrow> nat \<Rightarrow> nat \<Rightarrow> string + string" where
  "submit_poll method hash p i 0 = Inl (method @ '' confirmation timeout ('' @ hash @ '')'')"
| "submit_poll method hash p i (Suc n) = (case p i of
     None \<Rightarrow> Inl ''rpc error''
   | Some (PollSuccess _) \<Rightarrow> Inr hash
   | Some PollFailed \<Rightarrow> Inl (method @ '' tx failed on-chain ('' @ hash @ '')'')
   | Some PollPending \<Rightarrow> submit_poll method hash p (Suc i) n)"

definition admin_submit :: "string \<Rightarrow> submit_rpc \<Rightarrow> string + string" where
  "admin_submit method a = (if \<not> sr_account a then Inl ''rpc error''
     else case sr_simError a of None \<Rightarrow> Inl ''rpc error''
     | Some (Some e) \<Rightarrow> Inl (method @ '' sim failed: '' @ take 200 e)
     | Some None \<Rightarrow> (case sr_sendError a of None \<Rightarrow> Inl ''rpc error''
       | Some (Some e) \<Rightarrow> Inl (method @ '' submit failed: '' @ take 120 e)
       | Some None \<Rightarrow> submit_poll method (sr_hash a) (sr_poll a) 0 30))"

definition admin_targets :: "config \<Rightarrow> (string \<times> string) list" where
  "admin_targets cfg = (let C = CONTRACTS_cfg cfg in [(''oracle-adapter'', oracleAdapter C), (''vault'', vault C), (''engine'', engine C),
     (''order-gateway'', orderGateway C), (''liquidation'', liquidation C), (''insurance'', insurance C)])"

text \<open>A call of a contract, as the chain's state sees it, and the answer it gives. The drill of the
  verification has the same submission with shorter messages, which nothing reads.\<close>

type_synonym 's admin_chain = "string \<Rightarrow> string \<Rightarrow> scval list \<Rightarrow> 's \<Rightarrow> submit_rpc \<times> 's"

definition call_admin :: "'s admin_chain \<Rightarrow> string \<Rightarrow> string \<Rightarrow> scval list \<Rightarrow> 's \<Rightarrow> (string + string) \<times> 's" where
  "call_admin ch contract method args s = (let (a, s1) = ch contract method args s in (admin_submit method a, s1))"

text \<open>The calls of a phase in order; the first failure throws.\<close>

fun call_all :: "'s admin_chain \<Rightarrow> (string \<times> string \<times> scval list) list \<Rightarrow> 's \<Rightarrow> bool \<times> 's" where
  "call_all ch [] s = (True, s)"
| "call_all ch ((c, m, args) # cs) s = (case call_admin ch c m args s of
     (Inl e, s1) \<Rightarrow> (False, s1) | (Inr h, s1) \<Rightarrow> call_all ch cs s1)"

definition proposalId :: "(string \<Rightarrow> bytes) \<Rightarrow> config \<Rightarrow> string \<Rightarrow> bytes" where
  "proposalId sha cfg c = sha (''accept_admin|'' @ c @ ''|'' @ net_name (NETWORK_cfg cfg))"

definition readMinDelay :: "env \<Rightarrow> int option" where
  "readMinDelay env = bigint_of_string (env_or env ''GOVERNANCE_MIN_DELAY_SECS'' ''172800'')"

definition nominate_calls :: "config \<Rightarrow> (string \<times> string \<times> scval list) list" where
  "nominate_calls cfg = map (\<lambda>(n, c). (c, ''nominate_admin'', [ScAddress (governance (CONTRACTS_cfg cfg))])) (admin_targets cfg)"

definition queue_calls :: "(string \<Rightarrow> bytes) \<Rightarrow> config \<Rightarrow> int \<Rightarrow> (string \<times> string \<times> scval list) list" where
  "queue_calls sha cfg eta = map (\<lambda>(n, c). (governance (CONTRACTS_cfg cfg), ''queue'',
     [ScBytes (proposalId sha cfg c), ScAddress c, ScSymbol ''accept_admin'', ScVec [], ScBytes (replicate 32 0), ScU64 eta])) (admin_targets cfg)"

definition execute_calls :: "(string \<Rightarrow> bytes) \<Rightarrow> config \<Rightarrow> (string \<times> string \<times> scval list) list" where
  "execute_calls sha cfg = map (\<lambda>(n, c). (governance (CONTRACTS_cfg cfg), ''execute'', [ScBytes (proposalId sha cfg c)])) (admin_targets cfg)"

text \<open>
  The phases. \<open>ok\<close> says that the secret is one; an eta that is no \<open>u64\<close> is refused before the first
  submission, and one that is no date only in the last line, after the proposals are queued.
\<close>

definition queue_eta :: "int \<Rightarrow> int \<Rightarrow> int" where
  "queue_eta now d = now div 1000 + d + 600"

definition ceremony :: "(string \<Rightarrow> bytes) \<Rightarrow> (string \<Rightarrow> bool) \<Rightarrow> env \<Rightarrow> config \<Rightarrow> int \<Rightarrow> string option \<Rightarrow> 's admin_chain \<Rightarrow> 's \<Rightarrow> int \<times> 's" where
  "ceremony sha ok env cfg now phase ch s =
    (if phase \<notin> {Some ''nominate'', Some ''queue'', Some ''execute''} \<or> falsy_str (env ''ADMIN_SECRET'')
        \<or> \<not> ok (env_or env ''ADMIN_SECRET'' []) then (1, s)
     else if phase = Some ''nominate'' then (let (r, s1) = call_all ch (nominate_calls cfg) s in (if r then 0 else 1, s1))
     else if phase = Some ''queue'' then (case readMinDelay env of None \<Rightarrow> (1, s)
       | Some d \<Rightarrow> (let eta = queue_eta now d in
           if eta < 0 \<or> 2 ^ 64 \<le> eta then (1, s)
           else (let (r, s1) = call_all ch (queue_calls sha cfg eta) s in (if r \<and> eta \<le> 8640000000000 then 0 else 1, s1))))
     else (0, foldl (\<lambda>s (c, m, args). snd (call_admin ch c m args s)) s (execute_calls sha cfg)))"

text \<open>The verification: admin calls of the former key that still simulate, and the pause drill.\<close>

definition former_secret :: "env \<Rightarrow> string option" where
  "former_secret env = (case env ''ADMIN_SECRET'' of None \<Rightarrow> env ''ORACLE_PUBLISHER_SECRET'' | v \<Rightarrow> v)"

definition pause_calls :: "config \<Rightarrow> (string \<times> string \<times> scval list) list" where
  "pause_calls cfg = map (\<lambda>b. (governance (CONTRACTS_cfg cfg), ''emergency_pause'', [ScBool b])) [True, False]"

definition verifyDecentralization :: "(string \<Rightarrow> bool) \<Rightarrow> env \<Rightarrow> config \<Rightarrow> (string \<Rightarrow> bool option) \<Rightarrow> 's admin_chain \<Rightarrow> 's \<Rightarrow> int \<times> 's" where
  "verifyDecentralization ok env cfg sim ch s =
    (case former_secret env of None \<Rightarrow> (1, s)
     | Some secret \<Rightarrow> if secret = [] \<or> \<not> ok secret then (1, s)
     else if list_ex (\<lambda>t. sim (snd t) = None) (admin_targets cfg) then (1, s)
     else (let still = length (filter (\<lambda>t. sim (snd t) = Some True) (admin_targets cfg));
         (r, s1) = call_all ch (pause_calls cfg) s in
       (if 0 < still + (if r then 0 else 1) then 1 else 0, s1)))"

text \<open>
  Queued proposals mature only after the delay and ten minutes; the execution phase reports success
  whatever the chain answered, and success of the verification means that no former admin call simulates.
\<close>

lemma queue_calls_eta:
  assumes "(c, m, args) \<in> set (queue_calls sha cfg eta)"
  shows "c = governance (CONTRACTS_cfg cfg) \<and> last args = ScU64 eta"
  using assms by (auto simp: queue_calls_def)

lemma queue_eta_after: "now \<le> 1000 * (queue_eta now d - d - 600) + 999"
  by (simp add: queue_eta_def)

lemma execute_exits_zero:
  assumes "env ''ADMIN_SECRET'' = Some k" and "k \<noteq> []" and "ok k"
  shows "fst (ceremony sha ok env cfg now (Some ''execute'') ch s) = 0"
  using assms by (simp add: ceremony_def env_or_def)

lemma verified_no_admin_call:
  assumes "fst (verifyDecentralization ok env cfg sim ch s) = 0" and "t \<in> set (admin_targets cfg)"
  shows "sim (snd t) = Some False"
proof -
  have "\<not> list_ex (\<lambda>t. sim (snd t) = None) (admin_targets cfg) \<and> filter (\<lambda>t. sim (snd t) = Some True) (admin_targets cfg) = []"
    using assms(1) by (auto simp: verifyDecentralization_def Let_def split_def split: option.splits if_splits)
  then have "sim (snd t) \<noteq> None" "sim (snd t) \<noteq> Some True"
    using assms(2) by (auto simp: list_ex_iff filter_empty_conv)
  then show ?thesis by auto
qed

text \<open>A phase that ends well had every one of its calls confirmed.\<close>

lemma call_all_stops: "call_all ch cs s = (True, s') \<Longrightarrow> (c, m, args) \<in> set cs \<Longrightarrow> \<exists>s0 h. fst (call_admin ch c m args s0) = Inr h"
  by (induction cs arbitrary: s) (auto split: prod.splits sum.splits, metis fst_conv)

end
