(* ===== verification/Liquidation_Keeper.thy ===== *)
theory Liquidation_Keeper
  imports Chain_Views Exchange_Db
begin

text \<open>
  \<open>client/scripts/liquidation-keeper.ts\<close>: the on-chain views it reads, the ranking of an account's
  positions, the sequence of close proposals, the scan over the known accounts, and the keepalive of the
  contract instances. The answers of the RPC server are parameters; the state collects the liquidations
  that were submitted, in order.
\<close>

subsection \<open>Views\<close>

record health_view =
  hv_liquidatable :: bool
  hv_equity :: int
  hv_maintenance :: int

record position_view =
  pv_id :: int
  pv_marketId :: number
  pv_size :: int
  pv_entryPrice :: int
  pv_isLong :: bool

text \<open>\<open>typeof res === "object"\<close> on a value that is not \<open>null\<close>.\<close>

fun is_object :: "native \<Rightarrow> bool" where
  "is_object (VObj _) = True"
| "is_object (VArr _) = True"
| "is_object _ = False"

text \<open>\<open>BigInt(raw[k] ?? 0)\<close>.\<close>

definition bigint_or_zero :: "native \<Rightarrow> string \<Rightarrow> int option" where
  "bigint_or_zero raw k = Option.bind (raw_field raw k) (\<lambda>v. native_bigint (native_or v (VNum (Fin 0))))"

definition accountHealth :: "chain_reads \<Rightarrow> config \<Rightarrow> string \<Rightarrow> health_view option option" where
  "accountHealth R cfg user = do {
     res \<leftarrow> simulateRead R (vault (CONTRACTS_cfg cfg)) ''account_health'' [ScAddress user, ScAddress (usdc (ASSETS_cfg cfg))];
     (case res of None \<Rightarrow> Some None
      | Some raw \<Rightarrow> if \<not> is_object raw then Some None else do {
          lq \<leftarrow> bool_field raw ''liquidatable'';
          eq \<leftarrow> bigint_or_zero raw ''equity'';
          mm \<leftarrow> bigint_or_zero raw ''maintenance_margin_required'';
          Some (Some \<lparr> hv_liquidatable = lq, hv_equity = eq, hv_maintenance = mm \<rparr>) }) }"

definition position_view_of :: "native \<Rightarrow> position_view option" where
  "position_view_of p = do {
     pid \<leftarrow> bigint_or_zero p ''position_id'';
     mkt \<leftarrow> num_field p ''market_id'';
     sz \<leftarrow> bigint_or_zero p ''size'';
     ep \<leftarrow> bigint_or_zero p ''entry_price'';
     long \<leftarrow> bool_field p ''is_long'';
     Some \<lparr> pv_id = pid, pv_marketId = mkt, pv_size = sz, pv_entryPrice = ep, pv_isLong = long \<rparr> }"

definition positionsOf :: "chain_reads \<Rightarrow> config \<Rightarrow> string \<Rightarrow> position_view list option" where
  "positionsOf R cfg user = do {
     res \<leftarrow> simulateRead R (engine (CONTRACTS_cfg cfg)) ''positions'' [ScAddress user];
     (case res of Some (VArr ps) \<Rightarrow> map_opt position_view_of ps | _ \<Rightarrow> Some []) }"

definition oraclePrice :: "chain_reads \<Rightarrow> config \<Rightarrow> string \<Rightarrow> int option option" where
  "oraclePrice R cfg asset = do {
     res \<leftarrow> simulateRead R (oracleAdapter (CONTRACTS_cfg cfg)) ''get_price'' [ScSymbol asset, ScVoid];
     (case res of None \<Rightarrow> Some None
      | Some raw \<Rightarrow> if \<not> is_object raw then Some None
          else (case native_field raw ''price'' of
              None \<Rightarrow> Some None
            | Some v \<Rightarrow> if v = VNull then Some None else map_option Some (native_bigint v))) }"

text \<open>The \<open>Map\<close> from market ids to oracle symbols; an empty symbol counts as none.\<close>

definition ORACLE_SYMBOL_BY_MARKET :: "config \<Rightarrow> (int, string) js_map" where
  "ORACLE_SYMBOL_BY_MARKET cfg =
     foldl (\<lambda>m e. map_set m (mc_marketId (snd e)) (oracleSymbol (snd e))) [] (ACTIVE_MARKETS cfg)"

definition symbol_of_market :: "config \<Rightarrow> number \<Rightarrow> string option" where
  "symbol_of_market cfg x = (case number_int x of None \<Rightarrow> None
   | Some n \<Rightarrow> (case map_get (ORACLE_SYMBOL_BY_MARKET cfg) n of
       None \<Rightarrow> None | Some s \<Rightarrow> if s = [] then None else Some s))"

subsection \<open>Submitting a liquidation\<close>

text \<open>
  The RPC answers to one submission; \<open>None\<close> is an exception. A simulation error of any kind and a
  rejected submission give \<open>null\<close>; a poll reports success, failure or neither, fifteen times.
\<close>

record liq_rpc =
  lr_account :: bool
  lr_simError :: "bool option"
  lr_sendError :: "bool option"
  lr_hash :: string
  lr_poll :: "nat \<Rightarrow> poll_status option"

primrec liq_poll :: "string \<Rightarrow> (nat \<Rightarrow> poll_status option) \<Rightarrow> nat \<Rightarrow> nat \<Rightarrow> string option option" where
  "liq_poll hash p i 0 = Some None"
| "liq_poll hash p i (Suc n) = (case p i of
     None \<Rightarrow> None
   | Some (PollSuccess _) \<Rightarrow> Some (Some hash)
   | Some PollFailed \<Rightarrow> Some None
   | Some PollPending \<Rightarrow> liq_poll hash p (Suc i) n)"

definition submitLiquidate :: "liq_rpc \<Rightarrow> string option option" where
  "submitLiquidate a = (if \<not> lr_account a then None
     else case lr_simError a of None \<Rightarrow> None | Some True \<Rightarrow> Some None
     | Some False \<Rightarrow> (case lr_sendError a of None \<Rightarrow> None | Some True \<Rightarrow> Some None
       | Some False \<Rightarrow> liq_poll (lr_hash a) (lr_poll a) 0 15))"

text \<open>A proposal, and how the chain answers it.\<close>

record proposal =
  pr_user :: string
  pr_position :: int
  pr_size :: int
  pr_price :: int

type_synonym liq_chain = "proposal \<Rightarrow> liq_rpc"

datatype liq_outcome = LqThrow | LqNone | LqDone

subsection \<open>One account\<close>

definition notional_of :: "position_view \<Rightarrow> int" where
  "notional_of p = pv_size p * pv_entryPrice p"

definition by_notional :: "position_view \<Rightarrow> position_view \<Rightarrow> int" where
  "by_notional a b = (if notional_of a < notional_of b then 1 else if notional_of b < notional_of a then - 1 else 0)"

definition ranked :: "position_view list \<Rightarrow> position_view list" where
  "ranked ps = js_sort by_notional ps"

definition FRACTIONS :: "int list" where "FRACTIONS = [1, 2, 4]"

text \<open>The inner loop over the fractions of one position.\<close>

fun try_fractions :: "liq_chain \<Rightarrow> string \<Rightarrow> position_view \<Rightarrow> int \<Rightarrow> int list \<Rightarrow> proposal list \<Rightarrow> liq_outcome \<times> proposal list" where
  "try_fractions ch user pos price [] sent = (LqNone, sent)"
| "try_fractions ch user pos price (f # fs) sent =
    (let closeSize = pv_size pos sdiv f in
     if closeSize \<le> 0 then try_fractions ch user pos price fs sent
     else (let p = \<lparr> pr_user = user, pr_position = pv_id pos, pr_size = closeSize, pr_price = price \<rparr> in
       case submitLiquidate (ch p) of
         None \<Rightarrow> (LqThrow, sent @ [p])
       | Some None \<Rightarrow> try_fractions ch user pos price fs (sent @ [p])
       | Some (Some hash) \<Rightarrow> if hash = [] then try_fractions ch user pos price fs (sent @ [p]) else (LqDone, sent @ [p])))"

text \<open>The outer loop over the ranked positions.\<close>

fun try_positions :: "chain_reads \<Rightarrow> config \<Rightarrow> liq_chain \<Rightarrow> string \<Rightarrow> position_view list \<Rightarrow> proposal list \<Rightarrow> liq_outcome \<times> proposal list" where
  "try_positions R cfg ch user [] sent = (LqNone, sent)"
| "try_positions R cfg ch user (pos # ps) sent =
    (case symbol_of_market cfg (pv_marketId pos) of
       None \<Rightarrow> try_positions R cfg ch user ps sent
     | Some asset \<Rightarrow> (case oraclePrice R cfg asset of
         None \<Rightarrow> (LqThrow, sent)
       | Some None \<Rightarrow> try_positions R cfg ch user ps sent
       | Some (Some price) \<Rightarrow>
           if price \<le> 0 then try_positions R cfg ch user ps sent
           else (case try_fractions ch user pos price FRACTIONS sent of
               (LqNone, sent') \<Rightarrow> try_positions R cfg ch user ps sent'
             | res \<Rightarrow> res)))"

definition liquidateAccount :: "chain_reads \<Rightarrow> config \<Rightarrow> liq_chain \<Rightarrow> string \<Rightarrow> proposal list \<Rightarrow> liq_outcome \<times> proposal list" where
  "liquidateAccount R cfg ch user sent = (case positionsOf R cfg user of
     None \<Rightarrow> (LqThrow, sent)
   | Some positions \<Rightarrow> if positions = [] then (LqNone, sent) else try_positions R cfg ch user (ranked positions) sent)"

subsection \<open>The tick\<close>

definition candidates :: "nat \<Rightarrow> (string \<times> int) list \<Rightarrow> string list" where
  "candidates limit rows = map fst (take limit (js_sort (\<lambda>a b. snd b - snd a) rows))"

text \<open>One address: malformed ones are skipped, an exception ends only this account.\<close>

definition scan_account :: "crypto \<Rightarrow> chain_reads \<Rightarrow> config \<Rightarrow> liq_chain \<Rightarrow> string \<Rightarrow> proposal list \<Rightarrow> proposal list" where
  "scan_account cr R cfg ch address sent =
    (if \<not> isValidEd25519PublicKey cr address then sent
     else case accountHealth R cfg address of
       None \<Rightarrow> sent
     | Some None \<Rightarrow> sent
     | Some (Some h) \<Rightarrow> if \<not> hv_liquidatable h then sent else snd (liquidateAccount R cfg ch address sent))"

definition scan :: "crypto \<Rightarrow> chain_reads \<Rightarrow> config \<Rightarrow> liq_chain \<Rightarrow> string list \<Rightarrow> proposal list \<Rightarrow> proposal list" where
  "scan cr R cfg ch addresses sent = foldl (\<lambda>sent a. scan_account cr R cfg ch a sent) sent addresses"

text \<open>The instance keepalive: an exception or a simulation error on one contract goes on with the next; the
  result lists the contracts whose extension was sent.\<close>

definition ttl_targets :: "config \<Rightarrow> string list" where
  "ttl_targets cfg = [orderGateway (CONTRACTS_cfg cfg), engine (CONTRACTS_cfg cfg), vault (CONTRACTS_cfg cfg), oracleAdapter (CONTRACTS_cfg cfg)]"

record ttl_rpc =
  tr_account :: bool
  tr_simError :: "bool option"
  tr_send :: bool

definition bumpInstanceTtls :: "(string \<Rightarrow> ttl_rpc) \<Rightarrow> config \<Rightarrow> string list" where
  "bumpInstanceTtls rpc cfg =
     filter (\<lambda>c. tr_account (rpc c) \<and> tr_simError (rpc c) = Some False \<and> tr_send (rpc c)) (ttl_targets cfg)"

definition TTL_BUMP_INTERVAL_MS :: int where "TTL_BUMP_INTERVAL_MS = 24 * 3600 * 1000"

record liq_state =
  ls_sent :: "proposal list"
  ls_bumped :: "string list"
  ls_lastTtlBump :: int

text \<open>One iteration of the loop; \<open>None\<close> for the rows is a failed query, which ends the iteration.\<close>

definition liq_tick :: "crypto \<Rightarrow> chain_reads \<Rightarrow> config \<Rightarrow> liq_chain \<Rightarrow> (string \<Rightarrow> ttl_rpc) \<Rightarrow> nat \<Rightarrow>
    (string \<times> int) list option \<Rightarrow> int \<Rightarrow> liq_state \<Rightarrow> liq_state" where
  "liq_tick cr R cfg ch ttl limit rows now s = (case rows of
     None \<Rightarrow> s
   | Some rs \<Rightarrow>
       (let s1 = s\<lparr> ls_sent := scan cr R cfg ch (candidates limit rs) (ls_sent s) \<rparr> in
        if TTL_BUMP_INTERVAL_MS < now - ls_lastTtlBump s
        then s1\<lparr> ls_bumped := ls_bumped s1 @ bumpInstanceTtls ttl cfg, ls_lastTtlBump := now \<rparr> else s1))"

end
