(* ===== verification/Service_Runs.thy ===== *)
theory Service_Runs
  imports Ops_Scripts Matcher_Service Settlement_Jobs Liquidation_Keeper State_Indexer
begin

text \<open>
  How the services of \<open>client/scripts\<close> start, pause and read: the variables each asks for before it runs, what their
  \<open>run\<close> does before the loop, and the copies of \<open>simulateRead\<close> that the keepers have of their own.
\<close>

subsection \<open>Starting\<close>

definition matcher_secrets :: "string list" where "matcher_secrets = [''DATABASE_URL'']"
definition oracle_secrets :: "string list" where "oracle_secrets = [''DATABASE_URL'', ''ORACLE_PUBLISHER_SECRET'']"
definition liquidation_secrets :: "string list" where "liquidation_secrets = [''DATABASE_URL'', ''LIQUIDATOR_SECRET'']"
definition reconciler_secrets :: "string list" where "reconciler_secrets = [''DATABASE_URL'', ''MATCHER_OPERATOR_SECRET'']"

datatype start_error = MissingVariables "string list" | PublicSecrets "string list"

text \<open>The two checks at the head of a service; \<open>keys\<close> are the names of all its variables.\<close>

definition service_checks :: "env \<Rightarrow> string list \<Rightarrow> string list \<Rightarrow> start_error + suspicion list" where
  "service_checks env keys required = (case assertRequiredSecrets env required of
     Inl missing \<Rightarrow> Inl (MissingVariables missing)
   | Inr warnings \<Rightarrow> (case assertNoPublicSecretLeak keys of
       Inl leaks \<Rightarrow> Inl (PublicSecrets leaks) | Inr _ \<Rightarrow> Inr warnings))"

lemma service_started: "service_checks env keys required = Inr w \<Longrightarrow> k \<in> set required \<Longrightarrow> \<not> falsy_str (env k)"
  by (cases "env k") (auto simp: service_checks_def dest: secrets_present split: sum.splits)

lemma no_public_secret: "service_checks env keys required = Inr w \<Longrightarrow> k \<in> set keys \<Longrightarrow> prefix ''NEXT_PUBLIC_'' k \<Longrightarrow> \<not> contains_ci k ''secret''"
  by (auto simp: service_checks_def assertNoPublicSecretLeak_def Let_def filter_empty_conv split: sum.splits if_splits)

text \<open>
  The end of a run, or what its loop has reached. The matcher prints the books before its loop, and these reads are not
  guarded by the loop's handler.
\<close>

datatype 's run_state = ExitOne | RunRejected | Looping 's

definition matcher_main :: "env \<Rightarrow> string list \<Rightarrow> matcher_env \<Rightarrow> matcher_env list \<Rightarrow> database \<Rightarrow> (nat \<times> database) run_state" where
  "matcher_main env keys E Es d = (case service_checks env keys matcher_secrets of
     Inl _ \<Rightarrow> ExitOne
   | Inr _ \<Rightarrow> if falsy_str (env ''DATABASE_URL'') then ExitOne
       else if \<exists>k \<in> set (MATCHER_MARKETS (me_cfg E)). me_loadFails E k then RunRejected
       else Looping (run_ticks Es (0, d)))"

definition reconciler_main :: "env \<Rightarrow> string list \<Rightarrow> recon_env list \<Rightarrow> database \<Rightarrow> (bool \<times> database) run_state" where
  "reconciler_main env keys Rs d = (case service_checks env keys reconciler_secrets of
     Inl _ \<Rightarrow> ExitOne
   | Inr _ \<Rightarrow> if falsy_str (env ''DATABASE_URL'') then ExitOne else Looping (recon_run Rs 0 d))"

definition indexer_main :: "env \<Rightarrow> 's \<Rightarrow> 's run_state" where
  "indexer_main env s = (if falsy_str (env ''DATABASE_URL'') then ExitOne else Looping s)"

text \<open>The check of the database variable inside \<open>run\<close> never fires after the first ones.\<close>

lemma reconciler_main_checks:
  "reconciler_main env keys Rs d = (if isl (service_checks env keys reconciler_secrets) then ExitOne else Looping (recon_run Rs 0 d))"
  using service_started [of env keys reconciler_secrets _ "''DATABASE_URL''"]
  by (auto simp: reconciler_main_def reconciler_secrets_def split: sum.split)

text \<open>A failed query in the loop is retried for ever; the same failure before the loop ends the process.\<close>

lemma matcher_start_fragile:
  assumes "service_checks env keys matcher_secrets = Inr w" and "k \<in> set (MATCHER_MARKETS (me_cfg E))" and "me_loadFails E k"
  shows "matcher_main env keys E Es d = RunRejected"
proof -
  have "\<not> falsy_str (env ''DATABASE_URL'')" using service_started [OF assms(1)] by (simp add: matcher_secrets_def)
  then show ?thesis using assms by (auto simp: matcher_main_def)
qed

text \<open>
  The matcher does not ask for the operator's key, without which it settles nothing: it starts, and each match is recorded,
  undone and counted as a fill.
\<close>

lemma starts_without_operator:
  assumes "assertRequiredSecrets env matcher_secrets = Inr w" and "assertNoPublicSecretLeak keys = Inr ()"
    and "\<forall>k \<in> set (MATCHER_MARKETS (me_cfg E)). \<not> me_loadFails E k"
  shows "matcher_main env keys E Es d = Looping (run_ticks Es (0, d))"
proof -
  have ok: "service_checks env keys matcher_secrets = Inr w" using assms by (simp add: service_checks_def)
  have "\<not> falsy_str (env ''DATABASE_URL'')" using service_started [OF ok] by (simp add: matcher_secrets_def)
  then show ?thesis using assms ok by (auto simp: matcher_main_def)
qed

lemma no_operator_undoes:
  assumes "falsy_str (me_secret E)" and "persistFill E m d = (True, d1)"
  shows "fill_and_settle E m d = (True, rollbackFill E m d1)"
  using assms by (simp add: fill_and_settle_def executeSettlement_def)

text \<open>The key of the TTL keeper: \<open>TTL_KEEPER_SECRET ?? LIQUIDATOR_SECRET\<close>, so that an empty variable is not replaced.\<close>

definition ttl_key :: "env \<Rightarrow> string option" where
  "ttl_key env = (case env ''TTL_KEEPER_SECRET'' of Some s \<Rightarrow> Some s | None \<Rightarrow> env ''LIQUIDATOR_SECRET'')"

subsection \<open>Pausing\<close>

text \<open>\<open>Math.max(500, TICK_INTERVAL_MS - elapsed)\<close>.\<close>

definition liq_pause :: "int \<Rightarrow> int \<Rightarrow> int" where
  "liq_pause interval elapsed = max 500 (interval - elapsed)"

fun liq_starts :: "int \<Rightarrow> int \<Rightarrow> int list \<Rightarrow> int list" where
  "liq_starts interval t [] = [t]"
| "liq_starts interval t (e # es) = t # liq_starts interval (t + e + liq_pause interval e) es"

text \<open>Iterations start at least the interval apart, and never overlap.\<close>

lemma liq_starts_hd: "hd (liq_starts interval t es) = t"
  by (cases es) simp_all

lemma liq_starts_spaced:
  "Suc i < List.length (liq_starts interval t es) \<Longrightarrow>
     liq_starts interval t es ! i + max interval (es ! i + 500) \<le> liq_starts interval t es ! Suc i"
proof (induction es arbitrary: t i)
  case (Cons e es)
  show ?case
  proof (cases i)
    case 0
    have "liq_starts interval (t + e + liq_pause interval e) es ! 0 = t + e + liq_pause interval e"
      by (cases es) simp_all
    then show ?thesis using 0 by (simp add: liq_pause_def)
  next
    case (Suc j)
    then show ?thesis using Cons by simp
  qed
qed simp

subsection \<open>Reads of their own\<close>

text \<open>
  The server's answer before conversion; \<open>conv\<close> is \<open>scValToNative\<close>, \<open>None\<close> when it throws. The liquidation keeper takes a
  value that cannot be converted for \<open>null\<close>; in the indexer the exception escapes.
\<close>

datatype 'r sim_reply = SimThrow | SimError | SimValue "'r option"

definition liq_simulateRead :: "('r \<Rightarrow> native option) \<Rightarrow> 'r sim_reply \<Rightarrow> native option option" where
  "liq_simulateRead conv reply = (case reply of SimThrow \<Rightarrow> None | SimError \<Rightarrow> Some None
   | SimValue None \<Rightarrow> Some None | SimValue (Some v) \<Rightarrow> Some (conv v))"

definition ix_simulateRead :: "('r \<Rightarrow> native option) \<Rightarrow> 'r sim_reply \<Rightarrow> native option option" where
  "ix_simulateRead conv reply = (case reply of SimThrow \<Rightarrow> None | SimError \<Rightarrow> Some None
   | SimValue None \<Rightarrow> Some None | SimValue (Some v) \<Rightarrow> map_option Some (conv v))"

text \<open>Both are the read of the contract views on the answers they amount to.\<close>

definition liq_answer :: "('r \<Rightarrow> native option) \<Rightarrow> 'r sim_reply \<Rightarrow> read_answer" where
  "liq_answer conv reply = (case reply of SimThrow \<Rightarrow> ReadThrow | SimError \<Rightarrow> ReadError | SimValue v \<Rightarrow> ReadVal (Option.bind v conv))"

definition ix_answer :: "('r \<Rightarrow> native option) \<Rightarrow> 'r sim_reply \<Rightarrow> read_answer" where
  "ix_answer conv reply = (case reply of SimThrow \<Rightarrow> ReadThrow | SimError \<Rightarrow> ReadError | SimValue None \<Rightarrow> ReadVal None
   | SimValue (Some v) \<Rightarrow> (case conv v of None \<Rightarrow> ReadThrow | Some x \<Rightarrow> ReadVal (Some x)))"

lemma own_reads:
  "simulateRead (\<lambda>c m a. liq_answer conv (S c m a)) c m a = liq_simulateRead conv (S c m a)"
  "simulateRead (\<lambda>c m a. ix_answer conv (S c m a)) c m a = ix_simulateRead conv (S c m a)"
  by (simp_all add: simulateRead_def liq_answer_def liq_simulateRead_def ix_answer_def ix_simulateRead_def split: sim_reply.split option.split)

text \<open>So a keeper's scan only stops at an account when the server does not answer.\<close>

lemma liq_read_throws: "liq_simulateRead conv reply = None \<longleftrightarrow> reply = SimThrow"
  by (simp add: liq_simulateRead_def split: sim_reply.split option.split)

lemma ix_read_throws: "ix_simulateRead conv reply = None \<longleftrightarrow> reply = SimThrow \<or> (\<exists>v. reply = SimValue (Some v) \<and> conv v = None)"
  by (auto simp: ix_simulateRead_def split: sim_reply.split option.split)

end
