(* ===== verification/Stress_Test.thy ===== *)
theory Stress_Test
  imports Service_Runs
begin

text \<open>
  The stress and recovery tests (\<open>scripts/stress-test.ts\<close>, \<open>failure-recovery-test.ts\<close>): their retried calls and reads,
  and how their verdicts follow from what they observe. The network is a parameter that threads a state of its own.
\<close>

subsection \<open>Calls\<close>

text \<open>
  One attempt to send: it throws before, is rejected by the simulation, throws while it is sent (the transaction may
  have arrived), or is answered, with an error or with the hash.
\<close>

datatype call_try = ThrewBefore string | SimRejected string | SendThrew string | SendError | SendHash string

datatype poll_try = PollThrew string | Polled poll_status

record 's stress_net =
  sn_try :: "string \<Rightarrow> 's \<Rightarrow> call_try \<times> 's"
  sn_poll :: "string \<Rightarrow> 's \<Rightarrow> poll_try \<times> 's"
  sn_read :: "string \<Rightarrow> string \<Rightarrow> 's \<Rightarrow> native option \<times> 's"

definition call_transient :: "string \<Rightarrow> bool" where
  "call_transient msg = list_ex (contains_ci msg) [''ETIMEDOUT'', ''ECONNRESET'', ''fetch failed'', ''socket'', ''network'', ''timeout of'']"

definition try_error :: "string \<Rightarrow> call_try \<Rightarrow> string option" where
  "try_error meth r = (case r of ThrewBefore e \<Rightarrow> Some e | SimRejected e \<Rightarrow> Some (meth @ '' sim: '' @ take 120 e) | SendThrew e \<Rightarrow> Some e | _ \<Rightarrow> None)"

text \<open>At most \<open>k\<close> attempts: the message thrown, or the answer of the network.\<close>

primrec call_tries :: "'s stress_net \<Rightarrow> string \<Rightarrow> nat \<Rightarrow> 's \<Rightarrow> (string + string option) \<times> 's" where
  "call_tries N meth 0 s = (Inl [], s)"
| "call_tries N meth (Suc k) s = (let (r, s1) = sn_try N meth s in
     case try_error meth r of
       Some msg \<Rightarrow> if \<not> call_transient msg \<or> k = 0 then (Inl msg, s1) else call_tries N meth k s1
     | None \<Rightarrow> (Inr (case r of SendHash h \<Rightarrow> Some h | _ \<Rightarrow> None), s1))"

primrec call_confirm :: "'s stress_net \<Rightarrow> string \<Rightarrow> string \<Rightarrow> nat \<Rightarrow> 's \<Rightarrow> string option \<times> 's" where
  "call_confirm N meth h 0 s = (Some (meth @ '' confirm timeout''), s)"
| "call_confirm N meth h (Suc n) s = (let (r, s1) = sn_poll N h s in case r of
     Polled (PollSuccess l) \<Rightarrow> (None, s1)
   | Polled PollFailed \<Rightarrow> (Some (meth @ '' failed on-chain ('' @ h @ '')''), s1)
   | Polled PollPending \<Rightarrow> call_confirm N meth h n s1
   | PollThrew e \<Rightarrow> if has_text e ''failed on-chain'' then (Some e, s1) else call_confirm N meth h n s1)"

text \<open>\<open>callContract\<close>: what it throws, if anything.\<close>

definition stress_call :: "'s stress_net \<Rightarrow> string \<Rightarrow> 's \<Rightarrow> string option \<times> 's" where
  "stress_call N meth s = (let (r, s1) = call_tries N meth 5 s in case r of
     Inl e \<Rightarrow> (Some e, s1)
   | Inr None \<Rightarrow> (Some (meth @ '' submit failed''), s1)
   | Inr (Some h) \<Rightarrow> call_confirm N meth h 45 s1)"

primrec stress_price :: "'s stress_net \<Rightarrow> nat \<Rightarrow> string option \<Rightarrow> 's \<Rightarrow> string option \<times> 's" where
  "stress_price N 0 lastErr s = (lastErr, s)"
| "stress_price N (Suc k) lastErr s = (let (e, s1) = stress_call N ''write_price'' s in
     if e = None then (None, s1) else stress_price N k e s1)"

text \<open>A call returns only when the transaction it last sent has been seen to succeed.\<close>

lemma confirm_returns: "call_confirm N meth h n s = (None, s') \<Longrightarrow> \<exists>s0 l. sn_poll N h s0 = (Polled (PollSuccess l), s')"
  by (induction n arbitrary: s) (auto simp: Let_def split: prod.splits poll_try.splits poll_status.splits if_splits)

lemma tries_hash: "call_tries N meth k s = (Inr (Some h), s') \<Longrightarrow> \<exists>s0. sn_try N meth s0 = (SendHash h, s')"
  by (induction k arbitrary: s) (auto simp: Let_def try_error_def split: prod.splits call_try.splits if_splits)

lemma stress_call_returns:
  "stress_call N meth s = (None, s') \<Longrightarrow> \<exists>h s0 s1 s2 l. sn_try N meth s0 = (SendHash h, s1) \<and> sn_poll N h s2 = (Polled (PollSuccess l), s')"
  by (auto simp: stress_call_def Let_def split: prod.splits sum.splits option.splits dest!: tries_hash confirm_returns)

lemma stress_price_returns: "stress_price N (Suc k) lastErr s = (None, s') \<Longrightarrow> \<exists>s0. stress_call N ''write_price'' s0 = (None, s')"
  by (induction k arbitrary: lastErr s) (auto simp: Let_def split: prod.splits if_splits)

text \<open>
  The attempt that is repeated includes the sending, so a transaction whose answer is lost is sent again: here both arrive.
\<close>

definition lost_reply_net :: "nat stress_net" where
  "lost_reply_net = \<lparr> sn_try = (\<lambda>meth n. (if n = 0 then SendThrew ''read ETIMEDOUT'' else SendHash ''h'', Suc n)),
     sn_poll = (\<lambda>h n. (Polled (PollSuccess 1), n)), sn_read = (\<lambda>c m n. (None, n)) \<rparr>"

lemma lost_reply_sent_twice: "stress_call lost_reply_net ''deposit'' 0 = (None, 2)"
  by code_simp

subsection \<open>Reads\<close>

text \<open>Any failure of a read is \<open>null\<close>.\<close>

definition st_simulateRead :: "('r \<Rightarrow> native option) \<Rightarrow> 'r sim_reply \<Rightarrow> native option" where
  "st_simulateRead conv reply = (case reply of SimValue (Some v) \<Rightarrow> conv v | _ \<Rightarrow> None)"

lemma st_simulateRead_liq: "st_simulateRead conv reply = (case liq_simulateRead conv reply of None \<Rightarrow> None | Some v \<Rightarrow> v)"
  by (simp add: st_simulateRead_def liq_simulateRead_def split: sim_reply.split option.split)

primrec readWithRetry :: "'s stress_net \<Rightarrow> string \<Rightarrow> string \<Rightarrow> nat \<Rightarrow> 's \<Rightarrow> int option \<times> 's" where
  "readWithRetry N c meth 0 s = (None, s)"
| "readWithRetry N c meth (Suc k) s = (let (r, s1) = sn_read N c meth s in case r of
     None \<Rightarrow> readWithRetry N c meth k s1
   | Some v \<Rightarrow> (native_bigint v, s1))"

lemma readWithRetry_value: "readWithRetry N c meth k s = (Some n, s') \<Longrightarrow> \<exists>s0 v. sn_read N c meth s0 = (Some v, s') \<and> native_bigint v = Some n"
  by (induction k arbitrary: s) (auto simp: Let_def split: prod.splits option.splits)

subsection \<open>Verdicts\<close>

text \<open>The price after the crash and the size opened, from the price of the oracle; \<open>None\<close> when the conversion throws.\<close>

definition crashed_price :: "int \<Rightarrow> int" where
  "crashed_price price = (price * 90) sdiv 100"

definition opened_size :: "int \<Rightarrow> int option" where
  "opened_size price = map_option (\<lambda>n. n * AMOUNT_PRECISION)
     (bigint_of_number (math_floor (js_div (Fin 40) (js_div (number_of_bigint price) (number_of_bigint PRICE_PRECISION)))))"

text \<open>The sizes of the positions read, if they could be: an unknown state is not a closed one.\<close>

definition fully_closed :: "int list option \<Rightarrow> bool" where
  "fully_closed ps = (case ps of None \<Rightarrow> False | Some sizes \<Rightarrow> list_all (\<lambda>n. n = 0) sizes)"

definition was_liquidated :: "int list option list \<Rightarrow> bool" where
  "was_liquidated reads = list_ex fully_closed (take 24 reads)"

record reserves =
  rs_vault :: int
  rs_insurance :: int
  rs_wallet :: int

definition drift :: "reserves \<Rightarrow> reserves \<Rightarrow> int" where
  "drift pre post = (rs_vault post + rs_insurance post + rs_wallet post) - (rs_vault pre + rs_insurance pre + rs_wallet pre)"

definition conserved :: "reserves \<Rightarrow> reserves \<Rightarrow> bool" where
  "conserved pre post = ((if drift pre post < 0 then - drift pre post else drift pre post) \<le> AMOUNT_PRECISION sdiv 100)"

text \<open>Tokens that only move between the three places pass; a leak of more than a hundredth of a dollar is noticed wherever it is.\<close>

lemma moves_conserve: "conserved r (r\<lparr> rs_vault := rs_vault r - a + b, rs_insurance := rs_insurance r + a - c, rs_wallet := rs_wallet r + c - b \<rparr>)"
  by (simp add: conserved_def drift_def AMOUNT_PRECISION_def)

lemma leak_noticed:
  assumes "conserved pre mid" and "drift mid post \<le> - 200001"
  shows "\<not> conserved pre post"
proof -
  have "drift pre post = drift pre mid + drift mid post" by (simp add: drift_def)
  then show ?thesis using assms by (auto simp: conserved_def AMOUNT_PRECISION_def signed_divide_int_def split: if_splits)
qed

text \<open>The scenarios chosen and the exit code; an outcome is \<open>None\<close> when the scenario throws.\<close>

definition stress_scenarios :: "env \<Rightarrow> string list" where
  "stress_scenarios env = map js_trim (js_split CHR '','' (env_or env ''STRESS_SCENARIOS'' ''a,b,c''))"

definition stress_exit :: "string \<Rightarrow> bool \<Rightarrow> string list \<Rightarrow> (string \<Rightarrow> bool option) \<Rightarrow> int" where
  "stress_exit net configured chosen outcome =
    (if net \<noteq> ''testnet'' \<or> \<not> configured then 1
     else let results = map outcome (filter (\<lambda>x. x \<in> set chosen) [''a'', ''b'', ''c'']) in
       if list_all (\<lambda>r. r = Some True) results then 0 else 1)"

lemma stress_exit_zero:
  "stress_exit net configured chosen outcome = 0 \<longleftrightarrow>
     net = ''testnet'' \<and> configured \<and> (\<forall>x \<in> set chosen \<inter> {''a'', ''b'', ''c''}. outcome x = Some True)"
  by (auto simp: stress_exit_def Let_def list_all_iff)

text \<open>A choice that names no scenario, by a slip of the pen say, runs nothing and passes.\<close>

lemma nothing_run_passes: "stress_exit ''testnet'' True (stress_scenarios (\<lambda>_. Some ''oracle'')) outcome = 0"
proof -
  have "stress_scenarios (\<lambda>_. Some ''oracle'') = [''oracle'']" by code_simp
  then show ?thesis by (simp add: stress_exit_zero)
qed

subsection \<open>Recovery\<close>

datatype pm2_status = Online | Stopped_status | Unknown_status

text \<open>The processes \<open>pm2 jlist\<close> reports, by name; \<open>None\<close> when it cannot be run or read.\<close>

definition pm2Status :: "(string \<times> string) list option \<Rightarrow> string \<Rightarrow> pm2_status" where
  "pm2Status jlist name = (case jlist of None \<Rightarrow> Unknown_status
   | Some ps \<Rightarrow> (case find (\<lambda>p. fst p = name) ps of None \<Rightarrow> Unknown_status
     | Some p \<Rightarrow> if snd p = ''online'' then Online else Stopped_status))"

text \<open>\<open>waitFor\<close>: the answers of the condition with the time each is asked for.\<close>

fun waitFor :: "int \<Rightarrow> (int \<times> bool) list \<Rightarrow> bool" where
  "waitFor deadline [] = False"
| "waitFor deadline ((t, ok) # rest) = (t < deadline \<and> (ok \<or> waitFor deadline rest))"

definition concurrent_ok :: "bool list \<Rightarrow> bool" where
  "concurrent_ok rs = (18 \<le> List.length (filter id rs))"

definition recovery_exit :: "(string \<times> bool) list \<Rightarrow> int" where
  "recovery_exit rs = (if filter (\<lambda>r. \<not> snd r) rs \<noteq> [] then 1 else 0)"

lemma recovery_exit_zero: "recovery_exit rs = 0 \<longleftrightarrow> (\<forall>r \<in> set rs. snd r)"
  by (auto simp: recovery_exit_def filter_empty_conv)

lemma waitFor_asked: "waitFor deadline as \<Longrightarrow> \<exists>t. (t, True) \<in> set as \<and> t < deadline"
  by (induction as) fastforce+

text \<open>A service that pm2 does not know counts as stopped, but never as recovered.\<close>

lemma unknown_is_stopped: "pm2Status None name \<noteq> Online"
  by (simp add: pm2Status_def)

end
