(* ===== verification/Liquidation_Correct.thy ===== *)
theory Liquidation_Correct
  imports Liquidation_Keeper
begin

text \<open>
  What the liquidation keeper promises. The reference is the list of proposals of an account (positions
  by descending notional, each closed fully, by half, by a quarter): the keeper submits that list up to
  and including the first success. Every proposal it ever submits concerns an account the vault reports
  liquidatable, closes part of one of its positions, and is priced by the oracle.
\<close>

subsection \<open>The reference\<close>

text \<open>The price a position would be closed at: an exception, none, or the oracle's positive price.\<close>

definition execution_price :: "chain_reads \<Rightarrow> config \<Rightarrow> position_view \<Rightarrow> int option option" where
  "execution_price R cfg pos = (case symbol_of_market cfg (pv_marketId pos) of
     None \<Rightarrow> Some None
   | Some asset \<Rightarrow> (case oraclePrice R cfg asset of
       None \<Rightarrow> None
     | Some None \<Rightarrow> Some None
     | Some (Some price) \<Rightarrow> Some (if price \<le> 0 then None else Some price)))"

definition close_proposals :: "string \<Rightarrow> position_view \<Rightarrow> int \<Rightarrow> int list \<Rightarrow> proposal list" where
  "close_proposals user pos price fs =
     map (\<lambda>c. \<lparr> pr_user = user, pr_position = pv_id pos, pr_size = c, pr_price = price \<rparr>)
       (filter (\<lambda>c. 0 < c) (map (\<lambda>f. pv_size pos sdiv f) fs))"

definition position_proposals :: "chain_reads \<Rightarrow> config \<Rightarrow> string \<Rightarrow> position_view \<Rightarrow> proposal list" where
  "position_proposals R cfg user pos = (case execution_price R cfg pos of
     Some (Some price) \<Rightarrow> close_proposals user pos price FRACTIONS | _ \<Rightarrow> [])"

definition account_proposals :: "chain_reads \<Rightarrow> config \<Rightarrow> string \<Rightarrow> position_view list \<Rightarrow> proposal list" where
  "account_proposals R cfg user ps = concat (map (position_proposals R cfg user) (ranked ps))"

definition succeeds :: "liq_chain \<Rightarrow> proposal \<Rightarrow> bool" where
  "succeeds ch p \<longleftrightarrow> (case submitLiquidate (ch p) of Some (Some h) \<Rightarrow> h \<noteq> [] | _ \<Rightarrow> False)"

fun take_until :: "('a \<Rightarrow> bool) \<Rightarrow> 'a list \<Rightarrow> 'a list" where
  "take_until P [] = []"
| "take_until P (x # xs) = (if P x then [x] else x # take_until P xs)"

lemma take_until_append:
  "take_until P (xs @ ys) = (if \<exists>x \<in> set xs. P x then take_until P xs else xs @ take_until P ys)"
  by (induction xs) auto

lemma take_until_all: "\<forall>x \<in> set xs. \<not> P x \<Longrightarrow> take_until P xs = xs"
  by (induction xs) auto

lemma set_take_until: "set (take_until P xs) \<subseteq> set xs"
  by (induction xs) auto

lemma close_proposals_Cons:
  "close_proposals user pos price (f # fs) =
    (if 0 < pv_size pos sdiv f
     then \<lparr> pr_user = user, pr_position = pv_id pos, pr_size = pv_size pos sdiv f, pr_price = price \<rparr> # close_proposals user pos price fs
     else close_proposals user pos price fs)"
  by (simp add: close_proposals_def)

lemma close_proposals_Nil [simp]: "close_proposals user pos price [] = []"
  by (simp add: close_proposals_def)

subsection \<open>The loops against the reference\<close>

lemma try_fractions_spec:
  assumes "\<forall>p \<in> set (close_proposals user pos price fs). submitLiquidate (ch p) \<noteq> None"
  shows "try_fractions ch user pos price fs sent =
    (if \<exists>p \<in> set (close_proposals user pos price fs). succeeds ch p then LqDone else LqNone,
     sent @ take_until (succeeds ch) (close_proposals user pos price fs))"
  using assms
proof (induction fs arbitrary: sent)
  case (Cons f fs)
  let ?p = "\<lparr> pr_user = user, pr_position = pv_id pos, pr_size = pv_size pos sdiv f, pr_price = price \<rparr>"
  show ?case
  proof (cases "0 < pv_size pos sdiv f")
    case False
    with Cons show ?thesis by (simp add: close_proposals_Cons Let_def)
  next
    case True
    with Cons.prems obtain r where r: "submitLiquidate (ch ?p) = Some r" by (auto simp: close_proposals_Cons)
    show ?thesis
    proof (cases "succeeds ch ?p")
      case s: True
      with True r show ?thesis by (auto simp: close_proposals_Cons Let_def succeeds_def split: option.splits)
    next
      case s: False
      have IH: "try_fractions ch user pos price fs (sent @ [?p]) =
          (if \<exists>p \<in> set (close_proposals user pos price fs). succeeds ch p then LqDone else LqNone,
           (sent @ [?p]) @ take_until (succeeds ch) (close_proposals user pos price fs))"
        by (rule Cons.IH) (use Cons.prems True in \<open>simp add: close_proposals_Cons\<close>)
      have "try_fractions ch user pos price (f # fs) sent = try_fractions ch user pos price fs (sent @ [?p])"
        using True r s by (auto simp: Let_def succeeds_def split: option.splits)
      then show ?thesis using IH True s by (simp add: close_proposals_Cons)
    qed
  qed
qed simp

lemma try_positions_spec:
  assumes "\<forall>pos \<in> set ps. execution_price R cfg pos \<noteq> None"
    and "\<forall>p \<in> set (concat (map (position_proposals R cfg user) ps)). submitLiquidate (ch p) \<noteq> None"
  shows "try_positions R cfg ch user ps sent =
    (if \<exists>p \<in> set (concat (map (position_proposals R cfg user) ps)). succeeds ch p then LqDone else LqNone,
     sent @ take_until (succeeds ch) (concat (map (position_proposals R cfg user) ps)))"
  using assms
proof (induction ps arbitrary: sent)
  case (Cons pos ps)
  obtain e where e: "execution_price R cfg pos = Some e" using Cons.prems(1) by auto
  note IH = Cons.IH
  show ?case
  proof (cases e)
    case None
    have "try_positions R cfg ch user (pos # ps) sent = try_positions R cfg ch user ps sent"
      using e None by (auto simp: execution_price_def split: option.splits if_splits)
    moreover have "position_proposals R cfg user pos = []" using e None by (simp add: position_proposals_def)
    ultimately show ?thesis using IH [of sent] Cons.prems by simp
  next
    case (Some price)
    let ?c = "close_proposals user pos price FRACTIONS"
    have pp: "position_proposals R cfg user pos = ?c" using e Some by (simp add: position_proposals_def)
    have f: "try_fractions ch user pos price FRACTIONS sent =
        (if \<exists>p \<in> set ?c. succeeds ch p then LqDone else LqNone, sent @ take_until (succeeds ch) ?c)"
      by (rule try_fractions_spec) (use Cons.prems(2) pp in simp)
    have t: "try_positions R cfg ch user (pos # ps) sent =
        (case try_fractions ch user pos price FRACTIONS sent of
           (LqNone, sent') \<Rightarrow> try_positions R cfg ch user ps sent' | res \<Rightarrow> res)"
      using e Some by (auto simp: execution_price_def split: option.splits if_splits)
    show ?thesis
    proof (cases "\<exists>p \<in> set ?c. succeeds ch p")
      case True
      then show ?thesis unfolding t f by (auto simp: pp take_until_append)
    next
      case False
      then have c: "take_until (succeeds ch) ?c = ?c" by (intro take_until_all) simp
      have "try_positions R cfg ch user (pos # ps) sent = try_positions R cfg ch user ps (sent @ ?c)"
        unfolding t f using False by (simp add: c)
      then show ?thesis using IH [of "sent @ ?c"] Cons.prems False by (auto simp: pp take_until_append)
    qed
  qed
qed simp

lemma set_ranked [simp]: "set (ranked ps) = set ps"
  by (simp add: ranked_def)

lemma ranked_Nil: "ranked [] = []"
  by (simp add: ranked_def)

text \<open>The ranking is by descending notional.\<close>

lemma by_notional_ok: "cmp_ok by_notional"
  by (auto simp: cmp_ok_def by_notional_def split: if_splits)

lemma ranked_sorted: "sorted_wrt (\<lambda>a b. notional_of b \<le> notional_of a) (ranked ps)"
proof -
  have "sorted_wrt (\<lambda>a b. by_notional a b \<le> 0) (ranked ps)"
    unfolding ranked_def by (rule js_sorting.ordered [OF by_notional_ok])
  then show ?thesis by (rule sorted_wrt_mono_rel [rotated]) (auto simp: by_notional_def split: if_splits)
qed

text \<open>
  C8. Liquidating an account carries out the reference: as long as the chain answers, the proposals
  submitted are those of the account's positions by descending notional, each at full, half and quarter
  size, up to the first that is confirmed, and the account counts as liquidated exactly when one is.
\<close>

theorem liquidation_follows_proposals:
  assumes "positionsOf R cfg user = Some ps"
    and "\<forall>pos \<in> set ps. execution_price R cfg pos \<noteq> None"
    and "\<forall>p \<in> set (account_proposals R cfg user ps). submitLiquidate (ch p) \<noteq> None"
  shows "liquidateAccount R cfg ch user sent =
      (if \<exists>p \<in> set (account_proposals R cfg user ps). succeeds ch p then LqDone else LqNone,
       sent @ take_until (succeeds ch) (account_proposals R cfg user ps))
    \<and> sorted_wrt (\<lambda>a b. notional_of b \<le> notional_of a) (ranked ps)"
proof -
  have "try_positions R cfg ch user (ranked ps) sent =
      (if \<exists>p \<in> set (account_proposals R cfg user ps). succeeds ch p then LqDone else LqNone,
       sent @ take_until (succeeds ch) (account_proposals R cfg user ps))"
    unfolding account_proposals_def
    by (rule try_positions_spec) (use assms(2,3) in \<open>simp_all add: account_proposals_def\<close>)
  then show ?thesis
    using assms(1) ranked_sorted by (auto simp: liquidateAccount_def account_proposals_def ranked_Nil)
qed

subsection \<open>What is ever submitted\<close>

definition sound_proposal :: "chain_reads \<Rightarrow> config \<Rightarrow> string \<Rightarrow> position_view list \<Rightarrow> proposal \<Rightarrow> bool" where
  "sound_proposal R cfg user ps p \<longleftrightarrow> pr_user p = user \<and> (\<exists>pos \<in> set ps.
     pr_position p = pv_id pos \<and> 0 < pr_size p \<and> pr_size p \<le> pv_size pos \<and>
     (\<exists>asset. symbol_of_market cfg (pv_marketId pos) = Some asset \<and>
        oraclePrice R cfg asset = Some (Some (pr_price p)) \<and> 0 < pr_price p))"

lemma sdiv_le_self: "0 < (f::int) \<Longrightarrow> 0 < s sdiv f \<Longrightarrow> s sdiv f \<le> s"
proof -
  assume f: "0 < f" and p: "0 < s sdiv f"
  have s: "0 \<le> s"
  proof (rule ccontr)
    assume "\<not> 0 \<le> s"
    then have "0 \<le> (- s) sdiv f" using f by (intro sdiv_nonneg_nonneg) simp_all
    with p show False by (simp add: sdiv_minus_left)
  qed
  then show ?thesis using f zdiv_mono2 [of s 1 f] by (simp add: sdiv_nonneg)
qed

lemma try_fractions_sent:
  "\<forall>f \<in> set fs. 0 < f \<Longrightarrow> p \<in> set (snd (try_fractions ch user pos price fs sent)) \<Longrightarrow>
   p \<in> set sent \<or> (pr_user p = user \<and> pr_position p = pv_id pos \<and> 0 < pr_size p \<and> pr_size p \<le> pv_size pos \<and> pr_price p = price)"
proof (induction fs arbitrary: sent)
  case (Cons f fs)
  have sz: "0 < pv_size pos sdiv f \<Longrightarrow> pv_size pos sdiv f \<le> pv_size pos"
    using Cons.prems(1) by (intro sdiv_le_self) simp_all
  show ?case
    using Cons.prems Cons.IH [of sent] sz
      Cons.IH [of "sent @ [\<lparr> pr_user = user, pr_position = pv_id pos, pr_size = pv_size pos sdiv f, pr_price = price \<rparr>]"]
    by (auto simp: Let_def split: if_splits option.splits)
qed simp

lemma try_fractions_sound:
  assumes "pos \<in> set ps" and "symbol_of_market cfg (pv_marketId pos) = Some asset"
    and "oraclePrice R cfg asset = Some (Some price)" and "0 < price"
    and "p \<in> set (snd (try_fractions ch user pos price FRACTIONS sent))"
  shows "p \<in> set sent \<or> sound_proposal R cfg user ps p"
  using try_fractions_sent [OF _ assms(5)] assms(1-4) by (auto simp: FRACTIONS_def sound_proposal_def)

lemma try_positions_sound:
  "set qs \<subseteq> set ps \<Longrightarrow> p \<in> set (snd (try_positions R cfg ch user qs sent)) \<Longrightarrow>
   p \<in> set sent \<or> sound_proposal R cfg user ps p"
proof (induction qs arbitrary: sent)
  case (Cons pos qs)
  have q: "pos \<in> set ps" "set qs \<subseteq> set ps" using Cons.prems(1) by simp_all
  show ?case
  proof (cases "\<exists>asset price. symbol_of_market cfg (pv_marketId pos) = Some asset \<and>
      oraclePrice R cfg asset = Some (Some price) \<and> 0 < price")
    case False
    then have "snd (try_positions R cfg ch user (pos # qs) sent) = sent \<or>
        try_positions R cfg ch user (pos # qs) sent = try_positions R cfg ch user qs sent"
      by (auto split: option.splits)
    then show ?thesis using Cons.prems(2) Cons.IH [OF q(2), of sent] by metis
  next
    case True
    then obtain asset price where ap: "symbol_of_market cfg (pv_marketId pos) = Some asset"
      "oraclePrice R cfg asset = Some (Some price)" "0 < price" by blast
    obtain o1 s1 where f: "try_fractions ch user pos price FRACTIONS sent = (o1, s1)" by fastforce
    have s1: "p \<in> set s1 \<Longrightarrow> p \<in> set sent \<or> sound_proposal R cfg user ps p"
      using try_fractions_sound [OF q(1) ap, of p ch user sent] f by simp
    show ?thesis
    proof (cases o1)
      case LqNone
      then have "try_positions R cfg ch user (pos # qs) sent = try_positions R cfg ch user qs s1"
        using ap f by simp
      then show ?thesis using Cons.prems(2) Cons.IH [OF q(2), of s1] s1 by auto
    qed (use Cons.prems(2) ap f s1 in auto)
  qed
qed simp

lemma liquidateAccount_sound:
  assumes "p \<in> set (snd (liquidateAccount R cfg ch user sent))"
  shows "p \<in> set sent \<or> (\<exists>ps. positionsOf R cfg user = Some ps \<and> sound_proposal R cfg user ps p)"
  using assms try_positions_sound [of "ranked _" _ p R cfg ch user sent]
  by (auto simp: liquidateAccount_def split: option.splits if_splits)

definition underwater :: "crypto \<Rightarrow> chain_reads \<Rightarrow> config \<Rightarrow> string \<Rightarrow> bool" where
  "underwater cr R cfg user \<longleftrightarrow> isValidEd25519PublicKey cr user \<and>
     (\<exists>h. accountHealth R cfg user = Some (Some h) \<and> hv_liquidatable h)"

lemma scan_account_sound:
  assumes "p \<in> set (scan_account cr R cfg ch a sent)" and "p \<notin> set sent"
  shows "underwater cr R cfg a \<and> (\<exists>ps. positionsOf R cfg a = Some ps \<and> sound_proposal R cfg a ps p)"
  using assms liquidateAccount_sound [of p R cfg ch a sent]
  by (auto simp: scan_account_def underwater_def split: if_splits option.splits)

lemma scan_sound:
  assumes "p \<in> set (scan cr R cfg ch addresses sent)" and "p \<notin> set sent"
  shows "pr_user p \<in> set addresses \<and> underwater cr R cfg (pr_user p) \<and>
    (\<exists>ps. positionsOf R cfg (pr_user p) = Some ps \<and> sound_proposal R cfg (pr_user p) ps p)"
  using assms
proof (induction addresses arbitrary: sent)
  case (Cons a addresses)
  let ?s = "scan_account cr R cfg ch a sent"
  show ?case
  proof (cases "p \<in> set ?s")
    case True
    then have s: "underwater cr R cfg a" "\<exists>ps. positionsOf R cfg a = Some ps \<and> sound_proposal R cfg a ps p"
      using scan_account_sound Cons.prems(2) by blast+
    then have "pr_user p = a" by (auto simp: sound_proposal_def)
    with s show ?thesis by simp
  next
    case False
    then show ?thesis using Cons.IH [of ?s] Cons.prems(1) by (simp add: scan_def)
  qed
qed (simp add: scan_def)

text \<open>
  C7. Only underwater accounts are liquidated: every proposal a tick submits is for a candidate address
  that is a valid key and that the vault reports liquidatable, closes a positive part of at most the
  whole of one of its positions, at the positive on-chain oracle price of that position's market.
\<close>

theorem tick_liquidates_only_underwater:
  assumes "p \<in> set (ls_sent (liq_tick cr R cfg ch ttl limit (Some rows) now s))" and "p \<notin> set (ls_sent s)"
  shows "pr_user p \<in> fst ` set rows \<and> underwater cr R cfg (pr_user p) \<and>
    (\<exists>ps. positionsOf R cfg (pr_user p) = Some ps \<and> sound_proposal R cfg (pr_user p) ps p)"
proof -
  have "p \<in> set (scan cr R cfg ch (candidates limit rows) (ls_sent s))"
    using assms(1) by (simp add: liq_tick_def Let_def split: if_splits)
  moreover have "set (candidates limit rows) \<subseteq> fst ` set rows"
    unfolding candidates_def using set_take_subset by fastforce
  ultimately show ?thesis using scan_sound [OF _ assms(2)] by blast
qed

subsection \<open>Witnesses\<close>

definition example_reads :: chain_reads where
  "example_reads contract method args =
    (if method = ''account_health'' then ReadVal (Some (VObj [(''equity'', VBig 5), (''liquidatable'', VBool True), (''maintenance_margin_required'', VBig 9)]))
     else if method = ''positions'' then ReadVal (Some (VArr [VObj [(''entry_price'', VBig 100), (''is_long'', VBool True),
       (''market_id'', VNum (Fin 1)), (''position_id'', VBig 7), (''size'', VBig 40)]]))
     else if method = ''get_price'' then ReadVal (Some (VObj [(''price'', VBig 90)]))
     else ReadError)"

text \<open>A chain that rejects a full close in simulation and confirms anything smaller on the second poll.\<close>

definition example_chain :: liq_chain where
  "example_chain p = \<lparr> lr_account = True, lr_simError = Some (pr_size p = 40), lr_sendError = Some False, lr_hash = ''ab'',
     lr_poll = \<lambda>i. Some (if i = 0 then PollPending else PollSuccess 5) \<rparr>"

definition example_pos :: position_view where
  "example_pos = \<lparr> pv_id = 7, pv_marketId = Fin 1, pv_size = 40, pv_entryPrice = 100, pv_isLong = True \<rparr>"

definition example_proposal :: "int \<Rightarrow> proposal" where
  "example_proposal c = \<lparr> pr_user = ''GA'', pr_position = 7, pr_size = c, pr_price = 90 \<rparr>"

lemma example_positions: "positionsOf example_reads default_config ''GA'' = Some [example_pos]"
  by (simp add: positionsOf_def simulateRead_def example_reads_def position_view_of_def bigint_or_zero_def
      num_field_def bool_field_def raw_field_def native_or_def map_get_def example_pos_def)

lemma example_symbol: "symbol_of_market default_config (Fin 1) = Some ''XLM''"
  by (simp add: symbol_of_market_def number_int_def ORACLE_SYMBOL_BY_MARKET_def default_config_def active_markets_def
      map_get_def MARKETS_def)

lemma example_oracle: "oraclePrice example_reads default_config ''XLM'' = Some (Some 90)"
  by (simp add: oraclePrice_def simulateRead_def example_reads_def map_get_def)

lemma example_execution_price: "execution_price example_reads default_config example_pos = Some (Some 90)"
  by (simp add: execution_price_def example_symbol example_oracle example_pos_def)

lemma example_position_proposals:
  "position_proposals example_reads default_config ''GA'' example_pos = close_proposals ''GA'' example_pos 90 FRACTIONS"
  by (simp add: position_proposals_def example_execution_price)

lemma example_proposals:
  "account_proposals example_reads default_config ''GA'' [example_pos]
     = [example_proposal 40, example_proposal 20, example_proposal 10]"
  unfolding account_proposals_def
  by (simp add: ranked_def example_position_proposals)
     (simp add: close_proposals_def FRACTIONS_def example_pos_def example_proposal_def sdiv_nonneg)

lemma example_submit:
  "submitLiquidate (example_chain (example_proposal c)) = Some (if c = 40 then None else Some ''ab'')"
  by (simp add: submitLiquidate_def example_chain_def example_proposal_def eval_nat_numeral)

lemma example_succeeds: "succeeds example_chain (example_proposal c) \<longleftrightarrow> c \<noteq> 40"
  by (simp add: succeeds_def example_submit)

theorem liquidation_follows_proposals_witness:
  "liquidateAccount example_reads default_config example_chain ''GA'' [] = (LqDone, [example_proposal 40, example_proposal 20])"
  using liquidation_follows_proposals [OF example_positions, of example_chain "[]"]
  by (simp add: example_execution_price example_proposals example_submit example_succeeds)


lemma example_account: "liquidateAccount example_reads default_config example_chain ''GA'' [] = (LqDone, [example_proposal 40, example_proposal 20])"
  unfolding liquidateAccount_def example_positions
  by (simp add: ranked_def example_pos_def example_symbol example_oracle FRACTIONS_def Let_def sdiv_nonneg
      example_submit [unfolded example_proposal_def] example_proposal_def)

lemma example_health: "underwater sample_sig_crypto example_reads default_config ''GA''"
  by (simp add: underwater_def sample_sig_crypto_def accountHealth_def simulateRead_def example_reads_def bool_field_def
      bigint_or_zero_def raw_field_def native_or_def map_get_def)

lemma example_scan:
  "scan sample_sig_crypto example_reads default_config example_chain [''GA''] [] = [example_proposal 40, example_proposal 20]"
proof -
  obtain h where "accountHealth example_reads default_config ''GA'' = Some (Some h)" "hv_liquidatable h"
    "isValidEd25519PublicKey sample_sig_crypto ''GA''"
    using example_health by (auto simp: underwater_def)
  then show ?thesis by (simp add: scan_def scan_account_def example_account)
qed

definition example_state :: liq_state where
  "example_state = \<lparr> ls_sent = [], ls_bumped = [], ls_lastTtlBump = 0 \<rparr>"

theorem tick_liquidates_only_underwater_witness:
  "underwater sample_sig_crypto example_reads default_config ''GA'' \<and>
   (\<exists>ps. positionsOf example_reads default_config ''GA'' = Some ps \<and>
      sound_proposal example_reads default_config ''GA'' ps (example_proposal 20))"
proof -
  have i: "example_proposal 20 \<in> set (ls_sent (liq_tick sample_sig_crypto example_reads default_config example_chain
      (\<lambda>_. \<lparr> tr_account = True, tr_simError = Some False, tr_send = True \<rparr>) 500 (Some [(''GA'', 3)]) 1000 example_state))"
    by (simp add: liq_tick_def candidates_def Let_def example_state_def example_scan)
  have o: "example_proposal 20 \<notin> set (ls_sent example_state)" by (simp add: example_state_def)
  have u: "pr_user (example_proposal 20) = ''GA''" by (simp add: example_proposal_def)
  show ?thesis using tick_liquidates_only_underwater [OF i o] unfolding u by blast
qed

end
