(* ===== verification/Ttl_Keeper.thy ===== *)
theory Ttl_Keeper
  imports Liquidation_Keeper
begin

text \<open>
  \<open>client/scripts/ttl-keeper.ts\<close>: which ledger entries are near archival, and the one transaction that
  extends them, guarded by a simulation and a fee ceiling. Ledger keys are symbolic; the ledger, the
  simulation and the submission are parameters.
\<close>

subsection \<open>Constants and arguments\<close>

definition DAY_LEDGERS :: int where "DAY_LEDGERS = 17280"
definition THRESHOLD_LEDGERS :: int where "THRESHOLD_LEDGERS = 14 * DAY_LEDGERS"
definition EXTEND_TO_LEDGERS :: int where "EXTEND_TO_LEDGERS = 30 * DAY_LEDGERS"

definition dry_run :: "string list \<Rightarrow> bool" where
  "dry_run args \<longleftrightarrow> ''--dry-run'' \<in> set args"

definition starts_with :: "string \<Rightarrow> string \<Rightarrow> bool" where
  "starts_with pre s \<longleftrightarrow> take (length pre) s = pre"

text \<open>The ceiling in XLM, and in stroops (\<open>None\<close>: \<open>BigInt\<close> throws, the module does not load).\<close>

definition fee_ceiling_xlm :: "string list \<Rightarrow> number" where
  "fee_ceiling_xlm args = (case find (starts_with ''--fee-ceiling='') args of
     None \<Rightarrow> Fin 20
   | Some a \<Rightarrow> string_to_number (js_split (CHR ''='') a ! 1))"

definition fee_ceiling_stroops :: "string list \<Rightarrow> int option" where
  "fee_ceiling_stroops args = bigint_of_number (math_round (js_mul (fee_ceiling_xlm args) (Fin 10000000)))"

subsection \<open>Targets\<close>

datatype ledger_key = InstanceKey string | CodeKey string

record ttl_target =
  tt_label :: string
  tt_key :: ledger_key

definition contract_entries :: "contracts \<Rightarrow> (string \<times> string) list" where
  "contract_entries C = [(''governance'', governance C), (''oracleAdapter'', oracleAdapter C), (''vault'', vault C),
     (''engine'', engine C), (''orderGateway'', orderGateway C), (''insurance'', insurance C),
     (''liquidation'', liquidation C), (''risk'', risk C)]"

text \<open>The manifest of code hashes: only on mainnet and only when the file exists.\<close>

definition loadWasmHashes :: "config \<Rightarrow> (string \<times> string) list option \<Rightarrow> (string \<times> string) list" where
  "loadWasmHashes cfg manifest = (if net_name (NETWORK_cfg cfg) \<noteq> ''mainnet'' then []
     else case manifest of None \<Rightarrow> [] | Some hs \<Rightarrow> hs)"

definition ttl_targets_of :: "config \<Rightarrow> (string \<times> string) list option \<Rightarrow> ttl_target list" where
  "ttl_targets_of cfg manifest =
     map (\<lambda>(name, c). \<lparr> tt_label = ''instance:'' @ name, tt_key = InstanceKey c \<rparr>) (contract_entries (CONTRACTS_cfg cfg)) @
     map (\<lambda>(name, h). \<lparr> tt_label = ''code:'' @ name, tt_key = CodeKey h \<rparr>) (loadWasmHashes cfg manifest)"

text \<open>
  The entries the server returns, as key and live-until ledger; an entry that is missing is skipped, one
  without a live-until ledger compares as not a number.
\<close>

type_synonym ledger_view = "ledger_key \<Rightarrow> int option option"

definition needs_extension :: "ledger_view \<Rightarrow> int \<Rightarrow> ttl_target \<Rightarrow> bool" where
  "needs_extension L current t = (case L (tt_key t) of
     None \<Rightarrow> False
   | Some None \<Rightarrow> False
   | Some (Some liveUntil) \<Rightarrow> liveUntil - current < THRESHOLD_LEDGERS)"

subsection \<open>One run\<close>

datatype ttl_sim = TtlSimThrow | TtlSimError | TtlSimFee "int option"

record ttl_chain =
  tc_ledger :: ledger_view
  tc_current :: "int option"
  tc_account :: bool
  tc_sim :: "ledger_key list \<Rightarrow> int \<Rightarrow> ttl_sim"
  tc_send :: "bool option"
  tc_poll :: "nat \<Rightarrow> poll_status option"

datatype ttl_outcome =
    TtlThrow | TtlHealthy | TtlSimFailed | TtlRefused | TtlDryRun | TtlSubmitFailed | TtlExtended | TtlTxFailed | TtlTimeout

primrec ttl_poll :: "(nat \<Rightarrow> poll_status option) \<Rightarrow> nat \<Rightarrow> nat \<Rightarrow> ttl_outcome" where
  "ttl_poll p i 0 = TtlTimeout"
| "ttl_poll p i (Suc n) = (case p i of
     None \<Rightarrow> TtlThrow
   | Some (PollSuccess _) \<Rightarrow> TtlExtended
   | Some PollFailed \<Rightarrow> TtlTxFailed
   | Some PollPending \<Rightarrow> ttl_poll p (Suc i) n)"

text \<open>The outcome, and the transaction that was sent: the keys of its footprint and its target.\<close>

definition ttl_run :: "ttl_chain \<Rightarrow> config \<Rightarrow> (string \<times> string) list option \<Rightarrow> string list \<Rightarrow> int \<Rightarrow>
    ttl_outcome \<times> (ledger_key list \<times> int) option" where
  "ttl_run X cfg manifest args maxFee =
    (case tc_current X of None \<Rightarrow> (TtlThrow, None)
     | Some current \<Rightarrow>
      (let needs = filter (needs_extension (tc_ledger X) current) (ttl_targets_of cfg manifest);
           keys = map tt_key needs in
       if needs = [] then (TtlHealthy, None)
       else if \<not> tc_account X then (TtlThrow, None)
       else (case tc_sim X keys EXTEND_TO_LEDGERS of
           TtlSimThrow \<Rightarrow> (TtlThrow, None)
         | TtlSimError \<Rightarrow> (TtlSimFailed, None)
         | TtlSimFee minFee \<Rightarrow>
             (let resourceFee = (case minFee of None \<Rightarrow> 0 | Some f \<Rightarrow> f) in
              if maxFee < resourceFee then (TtlRefused, None)
              else if dry_run args then (TtlDryRun, None)
              else (case tc_send X of
                  None \<Rightarrow> (TtlThrow, Some (keys, EXTEND_TO_LEDGERS))
                | Some False \<Rightarrow> (TtlSubmitFailed, Some (keys, EXTEND_TO_LEDGERS))
                | Some True \<Rightarrow> (ttl_poll (tc_poll X) 0 20, Some (keys, EXTEND_TO_LEDGERS)))))))"

text \<open>\<open>process.exitCode\<close>: zero for a run that ends well.\<close>

definition ttl_exit :: "ttl_outcome \<Rightarrow> int" where
  "ttl_exit r = (if r \<in> {TtlHealthy, TtlDryRun, TtlExtended} then 0 else 1)"

text \<open>The module: the arguments are read first, and a ceiling that is no number ends it.\<close>

definition ttl_main :: "ttl_chain \<Rightarrow> config \<Rightarrow> (string \<times> string) list option \<Rightarrow> string list \<Rightarrow>
    ttl_outcome \<times> (ledger_key list \<times> int) option" where
  "ttl_main X cfg manifest args = (case fee_ceiling_stroops args of
     None \<Rightarrow> (TtlThrow, None) | Some maxFee \<Rightarrow> ttl_run X cfg manifest args maxFee)"

subsection \<open>What a run promises\<close>

text \<open>
  The promise in terms of the ledger: the entries to keep alive are the eight contract instances and, on
  mainnet, the code entries of the manifest; one is due when the ledger has it with fewer than fourteen
  days left, at 17280 ledgers a day; a transaction is confirmed when one of twenty polls answers with
  success and all before it with a pending status.
\<close>

definition kept_alive :: "config \<Rightarrow> (string \<times> string) list option \<Rightarrow> ledger_key list" where
  "kept_alive cfg manifest = (let C = CONTRACTS_cfg cfg in
     map InstanceKey [governance C, oracleAdapter C, vault C, engine C, orderGateway C, insurance C, liquidation C, risk C] @
     (if net_name (NETWORK_cfg cfg) = ''mainnet'' then map (\<lambda>(name, h). CodeKey h) (case manifest of None \<Rightarrow> [] | Some hs \<Rightarrow> hs) else []))"

definition due :: "ttl_chain \<Rightarrow> int \<Rightarrow> ledger_key \<Rightarrow> bool" where
  "due X current k \<longleftrightarrow> (\<exists>until. tc_ledger X k = Some (Some until) \<and> until < current + 14 * 17280)"

definition extension_confirmed :: "ttl_chain \<Rightarrow> bool" where
  "extension_confirmed X \<longleftrightarrow> tc_send X = Some True \<and>
     (\<exists>j < 20. (\<exists>l. tc_poll X j = Some (PollSuccess l)) \<and> (\<forall>i < j. tc_poll X i = Some PollPending))"

definition affordable :: "ttl_chain \<Rightarrow> ledger_key list \<Rightarrow> int \<Rightarrow> bool" where
  "affordable X keys maxFee \<longleftrightarrow> tc_account X \<and>
     (\<exists>fee. tc_sim X keys (30 * 17280) = TtlSimFee fee \<and> (case fee of None \<Rightarrow> 0 | Some f \<Rightarrow> f) \<le> maxFee)"

lemma ttl_poll_outcomes: "ttl_poll p i n \<noteq> TtlHealthy \<and> ttl_poll p i n \<noteq> TtlDryRun"
  by (induction n arbitrary: i) (auto split: option.splits poll_status.splits)

lemma ttl_poll_extended:
  "ttl_poll p i n = TtlExtended \<longleftrightarrow> (\<exists>j < n. (\<exists>l. p (i + j) = Some (PollSuccess l)) \<and> (\<forall>k < j. p (i + k) = Some PollPending))"
proof (induction n arbitrary: i)
  case (Suc n)
  show ?case
  proof (cases "p i = Some PollPending")
    case True
    have "(\<exists>j < Suc n. (\<exists>l. p (i + j) = Some (PollSuccess l)) \<and> (\<forall>k < j. p (i + k) = Some PollPending)) \<longleftrightarrow>
        (\<exists>j < n. (\<exists>l. p (Suc i + j) = Some (PollSuccess l)) \<and> (\<forall>k < j. p (Suc i + k) = Some PollPending))" (is "?L \<longleftrightarrow> ?R")
    proof
      assume ?L
      then obtain j l where j: "j < Suc n" "p (i + j) = Some (PollSuccess l)" "\<forall>k < j. p (i + k) = Some PollPending" by blast
      then obtain j' where "j = Suc j'" using True by (cases j) auto
      then show ?R using j by (intro exI [of _ j']) auto
    next
      assume ?R
      then obtain j l where j: "j < n" "p (Suc i + j) = Some (PollSuccess l)" "\<forall>k < j. p (Suc i + k) = Some PollPending" by blast
      have "p (i + k) = Some PollPending" if "k < Suc j" for k using that True j(3) by (cases k) auto
      then show ?L using j(1,2) by (intro exI [of _ "Suc j"]) auto
    qed
    then show ?thesis using True Suc.IH [of "Suc i"] by simp
  next
    case False
    then have "(\<exists>j < Suc n. (\<exists>l. p (i + j) = Some (PollSuccess l)) \<and> (\<forall>k < j. p (i + k) = Some PollPending)) \<longleftrightarrow> (\<exists>l. p i = Some (PollSuccess l))"
      by (metis add_0_right gr0I not_less0 zero_less_Suc)
    then show ?thesis using False by (auto split: option.splits poll_status.splits)
  qed
qed simp

lemma EXTEND_TO_value: "EXTEND_TO_LEDGERS = 30 * 17280"
  by (simp add: EXTEND_TO_LEDGERS_def DAY_LEDGERS_def)

lemma needs_due: "needs_extension (tc_ledger X) current t \<longleftrightarrow> due X current (tt_key t)"
  by (auto simp: needs_extension_def due_def THRESHOLD_LEDGERS_def DAY_LEDGERS_def split: option.splits)

lemma target_keys: "map tt_key (ttl_targets_of cfg manifest) = kept_alive cfg manifest"
  by (simp add: ttl_targets_of_def kept_alive_def contract_entries_def loadWasmHashes_def Let_def case_prod_beta split: option.split)

lemma due_keys:
  "map tt_key (filter (needs_extension (tc_ledger X) current) (ttl_targets_of cfg manifest)) = filter (due X current) (kept_alive cfg manifest)"
proof -
  have "needs_extension (tc_ledger X) current = due X current \<circ> tt_key" by (simp add: fun_eq_iff needs_due)
  then show ?thesis by (simp add: target_keys [symmetric] filter_map)
qed

text \<open>
  C26. A keepalive run is bounded and complete. With the entries that are due, it sends a transaction
  exactly when there are some, it is not a dry run, and a simulation of extending all of them succeeded
  at a fee within the ceiling; that transaction extends exactly those entries, to thirty days; the run
  reports them extended exactly when that transaction was sent and confirmed; and the exit code is
  zero exactly when nothing was due, when a dry run could have sent the transaction, or when it was
  sent and confirmed.
\<close>

theorem ttl_run_extends_exactly:
  "(snd (ttl_run X cfg manifest args maxFee) = Some (keys, extendTo) \<longleftrightarrow>
     (\<exists>current. tc_current X = Some current \<and> \<not> dry_run args \<and> keys = filter (due X current) (kept_alive cfg manifest) \<and>
        keys \<noteq> [] \<and> extendTo = 30 * 17280 \<and> affordable X keys maxFee))
   \<and> (fst (ttl_run X cfg manifest args maxFee) = TtlExtended \<longleftrightarrow>
     snd (ttl_run X cfg manifest args maxFee) \<noteq> None \<and> extension_confirmed X)
   \<and> (ttl_exit (fst (ttl_run X cfg manifest args maxFee)) = 0 \<longleftrightarrow>
     (\<exists>current. tc_current X = Some current \<and> (let keys = filter (due X current) (kept_alive cfg manifest) in
        keys = [] \<or> (affordable X keys maxFee \<and> (dry_run args \<or> extension_confirmed X)))))"
proof (cases "tc_current X")
  case None
  then show ?thesis by (simp add: ttl_run_def ttl_exit_def)
next
  case (Some current)
  let ?needs = "filter (needs_extension (tc_ledger X) current) (ttl_targets_of cfg manifest)"
  let ?keys = "filter (due X current) (kept_alive cfg manifest)"
  have k: "map tt_key ?needs = ?keys" and e: "?needs = [] \<longleftrightarrow> ?keys = []" using due_keys [of X current cfg manifest] by auto
  have c: "extension_confirmed X \<longleftrightarrow> tc_send X = Some True \<and> ttl_poll (tc_poll X) 0 20 = TtlExtended"
    by (simp add: extension_confirmed_def ttl_poll_extended)
  show ?thesis
    unfolding ttl_run_def Some option.case Let_def k e
    by (cases "?keys = []"; cases "tc_sim X ?keys (30 * 17280)"; cases "tc_send X")
       (auto simp: ttl_exit_def affordable_def c EXTEND_TO_value ttl_poll_outcomes split: bool.splits)
qed

subsection \<open>A concrete run\<close>

text \<open>The vault has thirteen days left, the other instances twenty; the second poll sees the extension.\<close>

definition example_ttl :: ttl_chain where
  "example_ttl = \<lparr> tc_ledger = (\<lambda>k. if k = InstanceKey (vault (CONTRACTS_cfg default_config)) then Some (Some (1000 + 13 * 17280)) else Some (Some (1000 + 20 * 17280))),
     tc_current = Some 1000, tc_account = True, tc_sim = (\<lambda>_ _. TtlSimFee (Some 5)), tc_send = Some True,
     tc_poll = (\<lambda>i. if i = 1 then Some (PollSuccess 1003) else Some PollPending) \<rparr>"

lemma example_due:
  "filter (due example_ttl 1000) (kept_alive default_config None) = [InstanceKey (vault (CONTRACTS_cfg default_config))]"
proof -
  have "due example_ttl 1000 = (\<lambda>k. k = InstanceKey (vault (CONTRACTS_cfg default_config)))"
    by (simp add: due_def example_ttl_def fun_eq_iff)
  moreover have "filter (\<lambda>k. k = InstanceKey (vault (CONTRACTS_cfg default_config))) (kept_alive default_config None) =
      [InstanceKey (vault (CONTRACTS_cfg default_config))]"
    by code_simp
  ultimately show ?thesis by simp
qed

theorem ttl_run_extends_exactly_witness:
  "ttl_run example_ttl default_config None [] 10 = (TtlExtended, Some ([InstanceKey (vault (CONTRACTS_cfg default_config))], 518400)) \<and>
   snd (ttl_run example_ttl default_config None [''--dry-run''] 10) = None \<and>
   ttl_exit (fst (ttl_run (example_ttl\<lparr> tc_poll := \<lambda>_. Some PollPending \<rparr>) default_config None [] 10)) \<noteq> 0"
proof -
  have sel: "tc_current example_ttl = Some 1000" "affordable example_ttl keys 10" "extension_confirmed example_ttl" for keys
    by (auto simp: example_ttl_def affordable_def extension_confirmed_def intro: exI [of _ 1])
  let ?late = "example_ttl\<lparr> tc_poll := \<lambda>_. Some PollPending \<rparr>"
  have d: "due ?late = due example_ttl" by (simp add: due_def fun_eq_iff)
  have late: "tc_current ?late = Some 1000" "\<not> extension_confirmed ?late" "\<not> dry_run []"
    by (simp_all add: example_ttl_def extension_confirmed_def dry_run_def)
  have "snd (ttl_run example_ttl default_config None [] 10) = Some ([InstanceKey (vault (CONTRACTS_cfg default_config))], 518400)"
    using ttl_run_extends_exactly [of example_ttl default_config None "[]" 10 "[InstanceKey (vault (CONTRACTS_cfg default_config))]" 518400] sel late
    by (simp add: example_due)
  moreover have "fst (ttl_run example_ttl default_config None [] 10) = TtlExtended"
    using ttl_run_extends_exactly [of example_ttl default_config None "[]" 10] sel calculation by simp
  moreover have "snd (ttl_run example_ttl default_config None [''--dry-run''] 10) = None"
    using ttl_run_extends_exactly [of example_ttl default_config None "[''--dry-run'']" 10]
    by (cases "snd (ttl_run example_ttl default_config None [''--dry-run''] 10)") (auto simp: dry_run_def)
  moreover have "ttl_exit (fst (ttl_run ?late default_config None [] 10)) \<noteq> 0"
    using ttl_run_extends_exactly [of ?late default_config None "[]" 10] late by (simp add: d example_due)
  ultimately show ?thesis by (simp add: prod_eq_iff)
qed

end
