(* ===== verification/Monitor.thy ===== *)
theory Monitor
  imports Oracle_Keeper Chain_Views
begin

text \<open>
  \<open>client/scripts/monitor.ts\<close>: the six liveness checks and the alerting. A check returns its detail
  (\<open>Inr\<close>) or the message of its exception (\<open>Inl\<close>). Alerts are values of \<open>alert\<close>; their rendering as text
  adds only an emoji and the wording.
\<close>

subsection \<open>Checks\<close>

type_synonym check = "string + string"

record check_result =
  cr_name :: string
  cr_ok :: bool
  cr_detail :: string

definition timed :: "string \<Rightarrow> check \<Rightarrow> check_result" where
  "timed name c = (case c of
     Inr detail \<Rightarrow> \<lparr> cr_name = name, cr_ok = True, cr_detail = detail \<rparr>
   | Inl msg \<Rightarrow> \<lparr> cr_name = name, cr_ok = False, cr_detail = take 120 msg \<rparr>)"

definition MATCHER_LAG_WARN_SECS :: int where "MATCHER_LAG_WARN_SECS = 60"
definition INDEXER_LAG_WARN_SECS :: int where "INDEXER_LAG_WARN_SECS = 60"
definition DB_LATENCY_WARN_MS :: int where "DB_LATENCY_WARN_MS = 2000"
definition ALERT_REMINDER_MS :: int where "ALERT_REMINDER_MS = 60 * 60 * 1000"

text \<open>The round trip of \<open>SELECT 1\<close>: an exception or the elapsed milliseconds.\<close>

definition checkDbLatency :: "string + int \<Rightarrow> check" where
  "checkDbLatency probe = (case probe of Inl e \<Rightarrow> Inl e
   | Inr ms \<Rightarrow> if DB_LATENCY_WARN_MS < ms
       then Inl (''DB latency '' @ show_int ms @ ''ms exceeds '' @ show_int DB_LATENCY_WARN_MS @ ''ms'')
       else Inr (show_int ms @ ''ms''))"

text \<open>The permissive guard the freshness check passes, so that a stale price is still reported.\<close>

definition permissiveGuard :: scval where
  "permissiveGuard = ScMap [(ScSymbol ''max_age_secs'', ScU64 18446744073709551615),
     (ScSymbol ''max_confidence_bps'', ScU32 10000)]"

text \<open>The age in seconds of one market's price: an exception, or a Number.\<close>

definition price_age :: "chain_reads \<Rightarrow> config \<Rightarrow> int \<Rightarrow> market_config \<Rightarrow> string + number" where
  "price_age R cfg now mkt =
    (case R (oracleAdapter (CONTRACTS_cfg cfg)) ''get_price'' [ScSymbol (oracleSymbol mkt), permissiveGuard] of
       ReadThrow \<Rightarrow> Inl ''rpc error''
     | ReadError \<Rightarrow> Inl ''oracle sim failed''
     | ReadVal None \<Rightarrow> Inl ''oracle returned no value''
     | ReadVal (Some snap) \<Rightarrow> (case num_field snap ''publish_time'' of
         None \<Rightarrow> Inl ''Cannot read properties of null''
       | Some publishTime \<Rightarrow> if \<not> js_truthy publishTime then Inl ''oracle snapshot has no publish_time''
           else Inr (math_round (js_sub (js_div (number_of_bigint now) (Fin 1000)) publishTime))))"

fun freshness_from :: "(market_config \<Rightarrow> string + number) \<Rightarrow> number \<Rightarrow> bool \<times> string list \<Rightarrow> market_config list \<Rightarrow> string list \<Rightarrow> check" where
  "freshness_from age max_age activity [] results = Inr (js_join '', '' results)"
| "freshness_from age max_age activity (mkt # ms) results =
    (case age mkt of Inl e \<Rightarrow> Inl e
     | Inr ageS \<Rightarrow>
         if js_lt max_age ageS then
           (if \<not> fst activity
            then freshness_from age max_age activity ms (results @ [oracleSymbol mkt @ ''=idle ('' @ js_number_to_string ageS @ ''s old, publishing suspended)''])
            else Inl (''oracle '' @ oracleSymbol mkt @ '' is '' @ js_number_to_string ageS @ ''s stale (max '' @
              js_number_to_string max_age @ ''s) while ACTIVE: '' @ js_join '','' (snd activity)))
         else freshness_from age max_age activity ms (results @ [oracleSymbol mkt @ ''='' @ js_number_to_string ageS @ ''s old'']))"

definition checkOracleFreshness :: "chain_reads \<Rightarrow> config \<Rightarrow> number \<Rightarrow> activity_env \<Rightarrow> int \<Rightarrow> database \<Rightarrow> check" where
  "checkOracleFreshness R cfg max_age A now d =
     freshness_from (price_age R cfg now) max_age (checkProtocolActivity A now d) (map snd (ACTIVE_MARKETS cfg)) []"

text \<open>\<open>EXTRACT(EPOCH FROM ...)::int\<close>: seconds, rounded half away from zero.\<close>

definition pg_secs :: "int \<Rightarrow> int" where
  "pg_secs ms = sgn ms * ((\<bar>ms\<bar> + 500) div 1000)"

definition lag_check :: "string \<Rightarrow> int \<Rightarrow> (int \<Rightarrow> string) \<Rightarrow> (int \<Rightarrow> string) \<Rightarrow> int list \<Rightarrow> int \<Rightarrow> check" where
  "lag_check none warn fail ok stamps now = (case js_sort (-) stamps of
     [] \<Rightarrow> Inr none
   | oldest # rest \<Rightarrow> (let ageS = pg_secs (now - oldest) in if warn < ageS then Inl (fail ageS) else Inr (ok ageS)))"

definition checkMatcherLag :: "int \<Rightarrow> database \<Rightarrow> check" where
  "checkMatcherLag now d = lag_check ''no resting orders'' MATCHER_LAG_WARN_SECS
     (\<lambda>a. ''oldest pending order is '' @ show_int a @ ''s old'') (\<lambda>a. ''oldest order '' @ show_int a @ ''s'')
     (map createdAt (filter (\<lambda>r. \<not> cancelled r \<and> filledSize r < size r \<and> limitPrice r \<noteq> 0 \<and> pg_secs now < expiryTs r) (db_orders d))) now"

text \<open>Rows of the market table as id and last update.\<close>

definition checkIndexerLag :: "config \<Rightarrow> int \<Rightarrow> (int \<times> int) list \<Rightarrow> check" where
  "checkIndexerLag cfg now rows = lag_check ''no active markets in DB'' INDEXER_LAG_WARN_SECS
     (\<lambda>a. ''indexer last synced '' @ show_int a @ ''s ago'') (\<lambda>a. ''last sync '' @ show_int a @ ''s ago'')
     (map snd (filter (\<lambda>r. fst r \<in> set (market_ids (ACTIVE_MARKETS cfg))) rows)) now"

definition checkAppHealth :: "string + int \<Rightarrow> check" where
  "checkAppHealth res = (case res of Inl e \<Rightarrow> Inl e
   | Inr status \<Rightarrow> if 200 \<le> status \<and> status \<le> 299 then Inr (''HTTP '' @ show_int status)
       else Inl (''/api/health returned '' @ show_int status))"

text \<open>The socket check settles on the first of a pong, an error and the five-second timer.\<close>

datatype probe_event = ProbeOpen | ProbeMessage json | ProbeError string | ProbeTimeout

fun checkWebSocket :: "probe_event list \<Rightarrow> check" where
  "checkWebSocket [] = Inl ''WS open timeout''"
| "checkWebSocket (ProbeTimeout # es) = Inl ''WS open timeout''"
| "checkWebSocket (ProbeError e # es) = Inl e"
| "checkWebSocket (ProbeMessage m # es) =
     (if js_field m ''type'' = Some (JStr ''pong'') then Inr ''connected + pong'' else checkWebSocket es)"
| "checkWebSocket (ProbeOpen # es) = checkWebSocket es"

subsection \<open>Alerting\<close>

record alert_state =
  al_failing :: bool
  al_since :: int
  al_lastAlertAt :: int
  al_lastDetail :: string

datatype alert =
    AlertFailing string string
  | AlertStill string string string
  | AlertRecovered string string string

definition fmtDuration :: "int \<Rightarrow> string" where
  "fmtDuration ms = (let mins = (ms + 30000) div 60000 in
     if mins < 60 then show_int mins @ ''m'' else show_int (mins div 60) @ ''h'' @ show_int (mins mod 60))"

type_synonym alert_states = "(string, alert_state) js_map"

text \<open>\<open>postAlert\<close> posts only when a webhook is configured, and never throws; the posts so far.\<close>

definition postAlert :: "string option \<Rightarrow> alert \<Rightarrow> alert list \<Rightarrow> alert list" where
  "postAlert hook a posts = (if falsy_str hook then posts else posts @ [a])"

definition process_result :: "string option \<Rightarrow> int \<Rightarrow> check_result \<Rightarrow> alert_states \<times> alert list \<Rightarrow> alert_states \<times> alert list" where
  "process_result hook now r s = (case s of (sts, posts) \<Rightarrow>
    (let prev = map_get sts (cr_name r) in
     if \<not> cr_ok r then
       (case prev of
          Some p \<Rightarrow>
            if \<not> al_failing p then
              (map_set sts (cr_name r) \<lparr> al_failing = True, al_since = now, al_lastAlertAt = now, al_lastDetail = cr_detail r \<rparr>,
               postAlert hook (AlertFailing (cr_name r) (cr_detail r)) posts)
            else if ALERT_REMINDER_MS \<le> now - al_lastAlertAt p then
              (map_set sts (cr_name r) (p\<lparr> al_lastAlertAt := now, al_lastDetail := cr_detail r \<rparr>),
               postAlert hook (AlertStill (cr_name r) (fmtDuration (now - al_since p)) (cr_detail r)) posts)
            else (map_set sts (cr_name r) (p\<lparr> al_lastDetail := cr_detail r \<rparr>), posts)
        | None \<Rightarrow>
            (map_set sts (cr_name r) \<lparr> al_failing = True, al_since = now, al_lastAlertAt = now, al_lastDetail = cr_detail r \<rparr>,
             postAlert hook (AlertFailing (cr_name r) (cr_detail r)) posts))
     else (case prev of
          Some p \<Rightarrow> if al_failing p
            then (map_delete sts (cr_name r), postAlert hook (AlertRecovered (cr_name r) (fmtDuration (now - al_since p)) (cr_detail r)) posts)
            else (sts, posts)
        | None \<Rightarrow> (sts, posts))))"

definition processAlerts :: "string option \<Rightarrow> int \<Rightarrow> check_result list \<Rightarrow> alert_states \<times> alert list \<Rightarrow> alert_states \<times> alert list" where
  "processAlerts hook now results s = foldl (\<lambda>s r. process_result hook now r s) s results"

text \<open>What one round observes, and the round.\<close>

record probes =
  pr_db :: "string + int"
  pr_reads :: chain_reads
  pr_activity :: activity_env
  pr_markets :: "(int \<times> int) list"
  pr_health :: "string + int"
  pr_socket :: "probe_event list"

definition round_results :: "config \<Rightarrow> number \<Rightarrow> int \<Rightarrow> database \<Rightarrow> probes \<Rightarrow> check_result list" where
  "round_results cfg max_age now d p =
    [timed ''db-latency'' (checkDbLatency (pr_db p)),
     timed ''oracle-freshness'' (checkOracleFreshness (pr_reads p) cfg max_age (pr_activity p) now d),
     timed ''matcher-lag'' (checkMatcherLag now d),
     timed ''indexer-lag'' (checkIndexerLag cfg now (pr_markets p)),
     timed ''app-health'' (checkAppHealth (pr_health p)),
     timed ''websocket'' (checkWebSocket (pr_socket p))]"

definition runChecks :: "string option \<Rightarrow> config \<Rightarrow> number \<Rightarrow> int \<Rightarrow> database \<Rightarrow> probes \<Rightarrow> alert_states \<times> alert list \<Rightarrow> alert_states \<times> alert list" where
  "runChecks hook cfg max_age now d p s = processAlerts hook now (round_results cfg max_age now d p) s"

end
