(* ===== verification/Monitor_Correct.thy ===== *)
theory Monitor_Correct
  imports Monitor
begin

text \<open>
  What the alerting promises. A round is refined to an independent automaton per check
  (\<open>alert_step\<close>); over a run, the log of one check is a sequence of outages, each a failure notice,
  reminders at least an hour apart, and a recovery notice, and no outage is silent for an hour.
\<close>

subsection \<open>The automaton of one check\<close>

definition failing_state :: "alert_state option \<Rightarrow> alert_state option" where
  "failing_state st = (case st of Some p \<Rightarrow> if al_failing p then Some p else None | None \<Rightarrow> None)"

definition alert_step :: "int \<Rightarrow> check_result \<Rightarrow> alert_state option \<Rightarrow> alert_state option \<times> alert list" where
  "alert_step now r st =
    (let n = cr_name r; d = cr_detail r in
     case (cr_ok r, failing_state st) of
       (True, None) \<Rightarrow> (st, [])
     | (True, Some p) \<Rightarrow> (None, [AlertRecovered n (fmtDuration (now - al_since p)) d])
     | (False, None) \<Rightarrow> (Some \<lparr> al_failing = True, al_since = now, al_lastAlertAt = now, al_lastDetail = d \<rparr>, [AlertFailing n d])
     | (False, Some p) \<Rightarrow>
         if ALERT_REMINDER_MS \<le> now - al_lastAlertAt p
         then (Some (p\<lparr> al_lastAlertAt := now, al_lastDetail := d \<rparr>), [AlertStill n (fmtDuration (now - al_since p)) d])
         else (Some (p\<lparr> al_lastDetail := d \<rparr>), []))"

lemma process_result_step:
  assumes "\<not> falsy_str hook"
  shows "snd (process_result hook now r (sts, posts)) = posts @ snd (alert_step now r (map_get sts (cr_name r)))"
    and "map_get (fst (process_result hook now r (sts, posts))) n =
      (if n = cr_name r then fst (alert_step now r (map_get sts n)) else map_get sts n)"
  using assms
  by (auto simp: process_result_def alert_step_def failing_state_def postAlert_def Let_def map_get_set map_get_delete
      split: option.splits)

lemma find_fresh: "n \<notin> f ` set xs \<Longrightarrow> find (\<lambda>x. f x = n) xs = None"
  by (induction xs) auto

text \<open>A round with distinct names acts on every check by its own automaton.\<close>

lemma processAlerts_refines:
  assumes "\<not> falsy_str hook" and "distinct (map cr_name results)"
  shows "snd (processAlerts hook now results (sts, posts)) =
      posts @ concat (map (\<lambda>r. snd (alert_step now r (map_get sts (cr_name r)))) results)
    \<and> map_get (fst (processAlerts hook now results (sts, posts))) n =
      (case find (\<lambda>r. cr_name r = n) results of None \<Rightarrow> map_get sts n | Some r \<Rightarrow> fst (alert_step now r (map_get sts n)))"
  using assms(2)
proof (induction results arbitrary: sts posts)
  case Nil
  then show ?case by (simp add: processAlerts_def)
next
  case (Cons r rs)
  obtain sts1 posts1 where p: "process_result hook now r (sts, posts) = (sts1, posts1)" by fastforce
  have step: "posts1 = posts @ snd (alert_step now r (map_get sts (cr_name r)))"
    "\<And>n. map_get sts1 n = (if n = cr_name r then fst (alert_step now r (map_get sts n)) else map_get sts n)"
    using process_result_step [OF assms(1), of now r sts posts] p by simp_all
  have d: "distinct (map cr_name rs)" "cr_name r \<notin> cr_name ` set rs" using Cons.prems by simp_all
  have c: "map (\<lambda>q. snd (alert_step now q (map_get sts1 (cr_name q)))) rs
      = map (\<lambda>q. snd (alert_step now q (map_get sts (cr_name q)))) rs"
    using d(2) by (intro map_cong refl) (auto simp: step(2) image_iff)
  have f: "find (\<lambda>q. cr_name q = cr_name r) rs = None" by (rule find_fresh [OF d(2)])
  have e: "processAlerts hook now (r # rs) (sts, posts) = processAlerts hook now rs (sts1, posts1)"
    by (simp add: processAlerts_def p)
  note IH = Cons.IH [OF d(1), of sts1 posts1]
  have "snd (processAlerts hook now (r # rs) (sts, posts)) =
      posts @ concat (map (\<lambda>q. snd (alert_step now q (map_get sts (cr_name q)))) (r # rs))"
    unfolding e conjunct1 [OF IH] c by (simp add: step(1))
  moreover have "map_get (fst (processAlerts hook now (r # rs) (sts, posts))) n =
      (case find (\<lambda>q. cr_name q = n) (r # rs) of None \<Rightarrow> map_get sts n | Some q \<Rightarrow> fst (alert_step now q (map_get sts n)))"
    unfolding e conjunct2 [OF IH] using f by (auto simp: step(2) split: option.splits)
  ultimately show ?case ..
qed

subsection \<open>The log of one check\<close>

fun alert_name :: "alert \<Rightarrow> string" where
  "alert_name (AlertFailing n _) = n"
| "alert_name (AlertStill n _ _) = n"
| "alert_name (AlertRecovered n _ _) = n"

fun is_recovery :: "alert \<Rightarrow> bool" where
  "is_recovery (AlertRecovered _ _ _) = True"
| "is_recovery _ = False"

fun is_notice :: "alert \<Rightarrow> bool" where
  "is_notice (AlertFailing _ _) = True"
| "is_notice _ = False"

text \<open>Which alert may follow which, with their times.\<close>

fun alert_follows :: "int \<times> alert \<Rightarrow> int \<times> alert \<Rightarrow> bool" where
  "alert_follows (t1, a1) (t2, AlertFailing _ _) = is_recovery a1"
| "alert_follows (t1, a1) (t2, AlertStill _ _ _) = (\<not> is_recovery a1 \<and> ALERT_REMINDER_MS \<le> t2 - t1)"
| "alert_follows (t1, a1) (t2, AlertRecovered _ _ _) = (\<not> is_recovery a1)"

definition log_of :: "string \<Rightarrow> (int \<times> alert) list \<Rightarrow> (int \<times> alert) list" where
  "log_of n l = filter (\<lambda>e. alert_name (snd e) = n) l"

text \<open>One round of the monitor, with its alerts stamped by the time of the round, and a run.\<close>

definition monitor_round :: "string option \<Rightarrow> int \<times> check_result list \<Rightarrow> alert_states \<times> (int \<times> alert) list \<Rightarrow> alert_states \<times> (int \<times> alert) list" where
  "monitor_round hook rnd s =
    (let (sts', posts) = processAlerts hook (fst rnd) (snd rnd) (fst s, []) in (sts', snd s @ map (Pair (fst rnd)) posts))"

definition monitor_run :: "string option \<Rightarrow> (int \<times> check_result list) list \<Rightarrow> alert_states \<times> (int \<times> alert) list" where
  "monitor_run hook rounds = foldl (\<lambda>s rnd. monitor_round hook rnd s) ([], []) rounds"

text \<open>What the automaton's state says about the log so far.\<close>

definition log_inv :: "alert_state option \<Rightarrow> (int \<times> alert) list \<Rightarrow> bool" where
  "log_inv st l \<longleftrightarrow> (l \<noteq> [] \<longrightarrow> is_notice (snd (hd l))) \<and> successively alert_follows l \<and>
     (case st of None \<Rightarrow> l = [] \<or> is_recovery (snd (last l))
      | Some p \<Rightarrow> al_failing p \<and> l \<noteq> [] \<and> \<not> is_recovery (snd (last l)) \<and> fst (last l) = al_lastAlertAt p)"

lemma alert_step_names: "a \<in> set (snd (alert_step now r st)) \<Longrightarrow> alert_name a = cr_name r"
  by (auto simp: alert_step_def Let_def split: option.splits bool.splits if_splits)

lemma successively_snoc:
  "successively P (l @ [x]) \<longleftrightarrow> successively P l \<and> (l = [] \<or> P (last l) x)"
  by (auto simp: successively_append_iff)

lemma log_inv_step:
  assumes "log_inv st l"
  shows "log_inv (fst (alert_step now r st)) (l @ map (Pair now) (snd (alert_step now r st)))"
proof (cases st)
  case None
  with assms show ?thesis
    by (cases "last l")
       (auto simp: log_inv_def alert_step_def failing_state_def Let_def successively_snoc hd_append split: bool.splits)
next
  case (Some p)
  then have p: "al_failing p" "l \<noteq> []" "\<not> is_recovery (snd (last l))" "fst (last l) = al_lastAlertAt p"
    "is_notice (snd (hd l))" "successively alert_follows l" using assms by (auto simp: log_inv_def)
  show ?thesis
    using p Some by (cases "last l")
      (auto simp: log_inv_def alert_step_def failing_state_def Let_def successively_snoc hd_append split: bool.splits)
qed

lemma filter_alerts_of:
  "filter (\<lambda>a. alert_name a = n) (snd (alert_step now r st)) = (if cr_name r = n then snd (alert_step now r st) else [])"
  using alert_step_names [of _ now r st] by (auto simp: filter_id_conv filter_empty_conv)

lemma round_posts_of:
  assumes "distinct (map cr_name results)"
  shows "filter (\<lambda>a. alert_name a = n) (concat (map (\<lambda>r. snd (alert_step now r (map_get sts (cr_name r)))) results)) =
    (case find (\<lambda>r. cr_name r = n) results of None \<Rightarrow> [] | Some r \<Rightarrow> snd (alert_step now r (map_get sts n)))"
  using assms
proof (induction results)
  case (Cons r rs)
  then have IH: "filter (\<lambda>a. alert_name a = n) (concat (map (\<lambda>r. snd (alert_step now r (map_get sts (cr_name r)))) rs)) =
    (case find (\<lambda>r. cr_name r = n) rs of None \<Rightarrow> [] | Some r \<Rightarrow> snd (alert_step now r (map_get sts n)))" by simp
  show ?case
  proof (cases "cr_name r = n")
    case True
    then have "find (\<lambda>r. cr_name r = n) rs = None" using Cons.prems by (intro find_fresh) auto
    then show ?thesis using True IH by (simp add: filter_alerts_of)
  next
    case False
    then show ?thesis using IH by (simp add: filter_alerts_of)
  qed
qed simp

lemma round_inv:
  assumes "\<not> falsy_str hook" and "distinct (map cr_name (snd rnd))"
    and "log_inv (map_get (fst s) n) (log_of n (snd s))"
  shows "log_inv (map_get (fst (monitor_round hook rnd s)) n) (log_of n (snd (monitor_round hook rnd s)))"
proof -
  obtain sts' posts where p: "processAlerts hook (fst rnd) (snd rnd) (fst s, []) = (sts', posts)" by fastforce
  let ?f = "find (\<lambda>r. cr_name r = n) (snd rnd)"
  have posts: "posts = concat (map (\<lambda>r. snd (alert_step (fst rnd) r (map_get (fst s) (cr_name r)))) (snd rnd))"
    and st: "map_get sts' n = (case ?f of None \<Rightarrow> map_get (fst s) n | Some r \<Rightarrow> fst (alert_step (fst rnd) r (map_get (fst s) n)))"
    using processAlerts_refines [OF assms(1,2), of "fst rnd" "fst s" "[]" n] p by simp_all
  have l: "log_of n (snd s @ map (Pair (fst rnd)) posts) = log_of n (snd s) @ map (Pair (fst rnd))
      (case ?f of None \<Rightarrow> [] | Some r \<Rightarrow> snd (alert_step (fst rnd) r (map_get (fst s) n)))"
    using round_posts_of [OF assms(2), of n "fst rnd" "fst s"] by (simp add: posts log_of_def filter_map o_def)
  show ?thesis
    unfolding monitor_round_def p using st l log_inv_step [OF assms(3), of "fst rnd"] assms(3)
    by (auto split: option.splits)
qed

lemma run_inv:
  assumes "\<not> falsy_str hook" and "\<forall>rnd \<in> set rounds. distinct (map cr_name (snd rnd))"
  shows "log_inv (map_get (fst (monitor_run hook rounds)) n) (log_of n (snd (monitor_run hook rounds)))"
  using assms(2)
proof (induction rounds rule: rev_induct)
  case Nil
  then show ?case by (simp add: monitor_run_def log_inv_def log_of_def)
next
  case (snoc rnd rounds)
  then show ?case using round_inv [OF assms(1), of rnd "monitor_run hook rounds" n] by (simp add: monitor_run_def)
qed

lemma round_names: "map cr_name (round_results cfg max_age now d p) =
   [''db-latency'', ''oracle-freshness'', ''matcher-lag'', ''indexer-lag'', ''app-health'', ''websocket'']"
  by (simp add: round_results_def timed_def split: sum.splits)

lemma alert_step_failing:
  "\<not> cr_ok r \<Longrightarrow> (\<forall>p. st = Some p \<longrightarrow> al_failing p) \<Longrightarrow>
   \<exists>p. fst (alert_step now r st) = Some p \<and> now - al_lastAlertAt p < ALERT_REMINDER_MS"
  by (auto simp: alert_step_def failing_state_def Let_def ALERT_REMINDER_MS_def split: option.splits)

text \<open>
  C24. Alerts are de-duplicated and never silent. Over any run of rounds with a webhook configured, the
  alerts of each check form outages: the log starts with a failure notice; a failure notice comes only
  first or after a recovery, a reminder at least an hour after the previous alert of the outage, a
  recovery only after an outage; and when a check fails in a round, an alert of its outage was posted
  less than an hour before, that round included.
\<close>

theorem alerts_follow_outages:
  assumes "\<not> falsy_str hook" and "\<forall>rnd \<in> set rounds. distinct (map cr_name (snd rnd))"
    and "distinct (map cr_name results)"
  shows "successively alert_follows (log_of n (snd (monitor_run hook (rounds @ [(now, results)]))))
    \<and> (\<forall>e \<in> set (take 1 (log_of n (snd (monitor_run hook (rounds @ [(now, results)]))))). is_notice (snd e))
    \<and> (\<forall>r \<in> set results. cr_name r = n \<and> \<not> cr_ok r \<longrightarrow>
         (\<exists>e \<in> set (log_of n (snd (monitor_run hook (rounds @ [(now, results)])))).
            \<not> is_recovery (snd e) \<and> now - fst e < ALERT_REMINDER_MS))"
proof -
  let ?R = "rounds @ [(now, results)]"
  let ?s = "monitor_run hook rounds" and ?s' = "monitor_run hook ?R"
  let ?l = "log_of n (snd ?s')"
  have inv: "log_inv (map_get (fst ?s') n) ?l" by (rule run_inv) (use assms in auto)
  have inv0: "log_inv (map_get (fst ?s) n) (log_of n (snd ?s))" by (rule run_inv) (use assms in auto)
  have "\<exists>e \<in> set ?l. \<not> is_recovery (snd e) \<and> now - fst e < ALERT_REMINDER_MS"
    if r: "r \<in> set results" "cr_name r = n" "\<not> cr_ok r" for r
  proof -
    have "find (\<lambda>q. cr_name q = n) results = Some r"
      using r(1,2) assms(3) by (induction results) (auto simp: image_iff)
    then have "map_get (fst ?s') n = fst (alert_step now r (map_get (fst ?s) n))"
      using processAlerts_refines [OF assms(1,3), of now "fst ?s" "[]" n]
      by (simp add: monitor_run_def monitor_round_def case_prod_beta)
    then obtain p where p: "map_get (fst ?s') n = Some p" "now - al_lastAlertAt p < ALERT_REMINDER_MS"
      using alert_step_failing [OF r(3), of "map_get (fst ?s) n" now] inv0 by (auto simp: log_inv_def split: option.splits)
    then have "?l \<noteq> []" "\<not> is_recovery (snd (last ?l))" "fst (last ?l) = al_lastAlertAt p"
      using inv by (auto simp: log_inv_def)
    then show ?thesis using p(2) by (intro bexI [of _ "last ?l"]) auto
  qed
  moreover have "\<forall>e \<in> set (take 1 ?l). is_notice (snd e)" using inv by (cases ?l) (auto simp: log_inv_def)
  ultimately show ?thesis using inv by (auto simp: log_inv_def)
qed

subsection \<open>Witness\<close>

definition example_down :: check_result where
  "example_down = \<lparr> cr_name = ''websocket'', cr_ok = False, cr_detail = ''WS open timeout'' \<rparr>"

theorem alerts_follow_outages_witness:
  "\<exists>e \<in> set (log_of ''websocket'' (snd (monitor_run (Some ''https'') [(0, [example_down]), (30000, [example_down])]))).
     \<not> is_recovery (snd e) \<and> 30000 - fst e < ALERT_REMINDER_MS"
  using alerts_follow_outages [of "Some ''https''" "[(0, [example_down])]" "[example_down]" "''websocket''" 30000]
  by (simp add: example_down_def)

end
