(* ===== verification/Book_Correct.thy ===== *)
theory Book_Correct
  imports Book_View
begin

text \<open>
  The public order book shows exactly the limit orders of the market that are neither cancelled nor
  filled, one level per displayed price with their remaining amounts, best first. The comparison goes through text (\<open>toFixed\<close>, then \<open>parseFloat\<close>), so the proof
  first shows that parsing a displayed price gives the rounded price back, and that this is monotone.
\<close>

subsection \<open>\<open>parseFloat\<close> after \<open>toFixed\<close>\<close>

lemma rev_prefixes: "\<exists>ps. rev (prefixes u) = u # ps"
  by (cases u rule: rev_cases) (simp_all add: prefixes_snoc)

lemma read_nat_zeros: "read_nat (replicate k (CHR ''0'') @ s) = read_nat s"
  by (induction k) (simp_all add: read_nat_def digit_val_def)

lemma read_exponent_Nil: "read_exponent [] = Some 0"
  by (simp add: read_exponent_def)

lemma takeWhile_digits: "list_all is_digit a \<Longrightarrow> \<not> is_digit c \<Longrightarrow> takeWhile is_digit (a @ c # b) = a \<and> dropWhile is_digit (a @ c # b) = c # b"
  by (induction a) auto

lemma unsigned_decimal_point:
  assumes "list_all is_digit a" and "list_all is_digit b" and "a \<noteq> []"
  shows "unsigned_decimal (a @ ''.'' @ b) = Some (of_nat (read_nat (a @ b)) * pow10 (- int (length b)))"
proof -
  have t: "takeWhile is_digit (a @ CHR ''.'' # b) = a" "dropWhile is_digit (a @ CHR ''.'' # b) = CHR ''.'' # b"
    using takeWhile_digits [OF assms(1), of "CHR ''.''" b] by (simp_all add: is_digit_def)
  have u: "takeWhile is_digit b = b" "dropWhile is_digit b = []"
    using assms(2) by (simp_all add: list_all_iff)
  show ?thesis using assms(3) by (simp add: unsigned_decimal_def t u read_exponent_Nil)
qed

lemma digits_no_space: "list_all is_digit s \<Longrightarrow> c \<in> set s \<Longrightarrow> \<not> is_space c"
  by (auto simp: list_all_iff is_digit_def is_space_def)

lemma parse_float_decimal:
  assumes "list_all is_digit a" and "list_all is_digit b" and "a \<noteq> []"
  shows "parse_float (a @ ''.'' @ b) = to_number (of_nat (read_nat (a @ b)) * pow10 (- int (length b)))"
proof -
  let ?s = "a @ ''.'' @ b"
  have trim: "js_trim ?s = ?s"
    by (rule js_trim_id) (use digits_no_space [OF assms(1)] digits_no_space [OF assms(2)] in \<open>auto simp: is_space_def\<close>)
  obtain c a' where a: "a = c # a'" using assms(3) by (cases a) auto
  then have c: "is_digit c" using assms(1) by simp
  then have hd: "hd ?s \<noteq> CHR ''-''" "hd ?s \<noteq> CHR ''+''" "take 8 ?s \<noteq> ''Infinity''"
    using a by (auto simp: is_digit_def)
  obtain ps where ps: "rev (prefixes ?s) = ?s # ps" using rev_prefixes by blast
  have "find (\<lambda>p. unsigned_decimal p \<noteq> None) (rev (prefixes ?s)) = Some ?s"
    unfolding ps using unsigned_decimal_point [OF assms] by simp
  then have f: "find (\<lambda>p. unsigned_decimal p \<noteq> None) (rev (prefixes ?s)) = Some ?s" .
  have u: "(if ?s \<noteq> [] \<and> hd ?s \<in> {CHR ''-'', CHR ''+''} then tl ?s else ?s) = ?s"
    and n: "(?s \<noteq> [] \<and> hd ?s = CHR ''-'') = False" using hd by auto
  show ?thesis
    unfolding parse_float_def trim Let_def u n f using hd(3) unsigned_decimal_point [OF assms] by (simp del: append.simps)
qed

lemma show_int_nonneg: "0 \<le> n \<Longrightarrow> list_all is_digit (show_int n) \<and> read_nat (show_int n) = nat n"
  by (simp add: show_int_def show_nat_digits)

lemma pad_left_props:
  assumes "list_all is_digit s"
  shows "list_all is_digit (pad_left n s)" and "n \<le> length (pad_left n s)" and "read_nat (pad_left n s) = read_nat s"
  using assms by (auto simp: pad_left_def read_nat_zeros list_all_iff is_digit_def)

lemma pow10_neg: "pow10 (- int f) = 1 / 10 ^ f"
  by (cases "f = 0") (simp_all add: pow10_def)

lemma parse_fixed_pos:
  assumes "0 \<le> x" and "0 < f"
  shows "parse_float (fixed_pos f x) = to_number (of_int \<lfloor>x * 10 ^ f + 1 / 2\<rfloor> / 10 ^ f)"
proof -
  let ?n = "\<lfloor>x * 10 ^ f + 1 / 2\<rfloor>"
  let ?p = "pad_left (f + 1) (show_int ?n)"
  have n: "0 \<le> ?n" using assms(1) by simp
  then have s: "list_all is_digit (show_int ?n)" "read_nat (show_int ?n) = nat ?n" using show_int_nonneg by auto
  note p = pad_left_props [OF s(1), of "f + 1"]
  let ?a = "take (length ?p - f) ?p" and ?b = "drop (length ?p - f) ?p"
  have "fixed_pos f x = ?a @ ''.'' @ ?b" using assms(2) by (simp add: fixed_pos_def Let_def)
  moreover have "list_all is_digit ?a" "list_all is_digit ?b" using p(1) by (auto simp: list_all_iff dest: in_set_takeD in_set_dropD)
  moreover have "?a \<noteq> []" using p(2) by auto
  ultimately have "parse_float (fixed_pos f x) = to_number (of_nat (read_nat (?a @ ?b)) * pow10 (- int (length ?b)))"
    using parse_float_decimal by metis
  moreover have "length ?b = f" using p(2) by simp
  moreover have "of_nat (read_nat (?a @ ?b)) = rat_of_int ?n" using p(3) s(2) n by simp
  ultimately show ?thesis by (simp only: pow10_neg times_divide_eq_right mult_1_right)
qed

subsection \<open>Displayed prices\<close>

text \<open>Values up to \<open>2 ^ 127\<close> stay finite.\<close>

lemma to_number_small:
  assumes "0 \<le> x" and "x \<le> 2 ^ 127"
  shows "to_number x = Fin (fl x) \<and> 0 \<le> fl x \<and> fl x \<le> 2 ^ 127"
proof -
  have p: "pow2 127 = 2 ^ 127" by (simp add: pow2_def)
  have f: "fl (2 ^ 127) = 2 ^ 127" using fl_scaled [of 1 127] by (simp add: p)
  have hi: "fl x \<le> 2 ^ 127" using fl_mono [OF assms(2)] f by simp
  have lo: "0 \<le> fl x" using assms(1) by (rule fl_nonneg)
  have "expo (2 ^ 127) = 127" by (rule expo_unique) (simp_all add: pow2_def)
  then have "in_range (2 ^ 127)" by (simp add: in_range_def)
  moreover have "\<bar>fl x\<bar> \<le> \<bar>2 ^ 127\<bar>" using lo hi by simp
  ultimately have "in_range (fl x)" using in_range_mono by blast
  then show ?thesis using lo hi by (simp add: to_number_def)
qed

definition shown_price :: "int \<Rightarrow> rat" where
  "shown_price n = fl (of_int \<lfloor>fl (fl (of_int n) / 10 ^ 18) * 10 ^ 4 + 1 / 2\<rfloor> / 10 ^ 4)"

lemma fl_int_le: "0 \<le> n \<Longrightarrow> n \<le> 2 ^ 127 \<Longrightarrow> fl (of_int n) \<le> 2 ^ 127"
proof -
  assume n: "0 \<le> n" "n \<le> 2 ^ 127"
  have "rat_of_int n \<le> of_int (2 ^ 127)" using n(2) by (simp only: of_int_le_iff)
  then show ?thesis using to_number_small [of "of_int n"] n(1) by simp
qed

lemma price_value_bounds:
  assumes "0 < n" and "n < 2 ^ 127"
  shows "0 \<le> fl (fl (of_int n) / 10 ^ 18) \<and> fl (fl (of_int n) / 10 ^ 18) < 10 ^ 21"
proof -
  have f: "0 \<le> fl (of_int n)" "fl (of_int n) \<le> 2 ^ 127" using assms fl_nonneg [of "of_int n"] fl_int_le [of n] by simp_all
  have "fl (of_int n) / 10 ^ 18 \<le> 2 ^ 127 / 10 ^ 18" using f(2) by (rule divide_right_mono) simp
  also have "\<dots> \<le> (2::rat) ^ 68" by simp
  finally have "fl (fl (of_int n) / 10 ^ 18) \<le> fl (2 ^ 68)" by (rule fl_mono)
  also have "fl (2 ^ 68) = 2 ^ 68" using fl_scaled [of 1 68] by (simp add: pow2_def)
  also have "(2::rat) ^ 68 < 10 ^ 21" by simp
  finally show ?thesis using f(1) fl_nonneg [of "fl (of_int n) / 10 ^ 18"] by simp
qed

lemma parse_price_human:
  assumes "0 < limitPrice r" and "limitPrice r < 2 ^ 127"
  shows "parse_float (price_human r) = Fin (shown_price (limitPrice r)) \<and> is_double (shown_price (limitPrice r))"
proof -
  let ?n = "limitPrice r"
  let ?x = "fl (fl (of_int ?n) / 10 ^ 18)"
  have i: "rat_of_int ?n \<le> 2 ^ 127" "0 \<le> rat_of_int ?n"
  proof -
    have "rat_of_int ?n \<le> of_int (2 ^ 127)" using assms(2) by (simp only: of_int_le_iff)
    then show "rat_of_int ?n \<le> 2 ^ 127" by simp
  qed (use assms(1) in simp)
  have "number_of_bigint ?n = Fin (fl (of_int ?n))" using to_number_small [OF i(2,1)] by (simp add: number_of_bigint_def)
  moreover have "0 \<le> fl (of_int ?n) / 10 ^ 18" "fl (of_int ?n) / 10 ^ 18 \<le> 2 ^ 127"
    using fl_int_le [of ?n] fl_nonneg [OF i(2)] assms by (auto simp: divide_le_eq)
  then have "to_number (fl (of_int ?n) / 10 ^ 18) = Fin ?x" using to_number_small by blast
  ultimately have d: "js_div (number_of_bigint ?n) PRICE_SCALE = Fin ?x" by (simp add: PRICE_SCALE_def)
  note b = price_value_bounds [OF assms]
  have ph: "price_human r = fixed_pos 4 ?x" using b by (simp add: price_human_def d)
  let ?y = "of_int \<lfloor>?x * 10 ^ 4 + 1 / 2\<rfloor> / (10 ^ 4 :: rat)"
  have y: "0 \<le> ?y" using b by simp
  have "?y \<le> (?x * 10 ^ 4 + 1 / 2) / 10 ^ 4" by (rule divide_right_mono) (simp_all add: of_int_floor_le)
  then have "?y \<le> 2 ^ 127" using b by simp
  then have t: "to_number ?y = Fin (fl ?y)" using to_number_small [OF y] by blast
  have e: "parse_float (price_human r) = Fin (fl ?y)"
    unfolding ph t [symmetric] by (rule parse_fixed_pos) (use b in simp_all)
  have "shown_price ?n = fl ?y" by (rule shown_price_def)
  then show ?thesis using e to_number_Fin [OF t] by simp
qed

lemma shown_price_mono: "m \<le> n \<Longrightarrow> shown_price m \<le> shown_price n"
proof -
  assume "m \<le> n"
  then have "rat_of_int m \<le> of_int n" by simp
  then have "fl (of_int m) \<le> fl (of_int n)" by (rule fl_mono)
  then have "fl (fl (of_int m) / 10 ^ 18) \<le> fl (fl (of_int n) / 10 ^ 18)" by (rule fl_mono [OF divide_right_mono]) simp
  then have "\<lfloor>fl (fl (of_int m) / 10 ^ 18) * 10 ^ 4 + 1 / 2\<rfloor> \<le> \<lfloor>fl (fl (of_int n) / 10 ^ 18) * 10 ^ 4 + 1 / 2\<rfloor>"
    by (intro floor_mono) simp
  then have "rat_of_int \<lfloor>fl (fl (of_int m) / 10 ^ 18) * 10 ^ 4 + 1 / 2\<rfloor> \<le> of_int \<lfloor>fl (fl (of_int n) / 10 ^ 18) * 10 ^ 4 + 1 / 2\<rfloor>"
    by (simp only: of_int_le_iff)
  then show ?thesis unfolding shown_price_def by (rule fl_mono [OF divide_right_mono]) simp
qed

subsection \<open>The book\<close>

lemma sorted_sort_insert_on:
  assumes total: "\<And>a b. a \<in> S \<Longrightarrow> b \<in> S \<Longrightarrow> cmp a b \<le> 0 \<or> cmp b a \<le> 0"
    and trans: "\<And>a b c. a \<in> S \<Longrightarrow> b \<in> S \<Longrightarrow> c \<in> S \<Longrightarrow> cmp a b \<le> 0 \<Longrightarrow> cmp b c \<le> 0 \<Longrightarrow> cmp a c \<le> 0"
    and "x \<in> S" and "set ys \<subseteq> S" and "sorted_wrt (\<lambda>a b. cmp a b \<le> 0) ys"
  shows "sorted_wrt (\<lambda>a b. cmp a b \<le> 0) (sort_insert cmp x ys)"
  using assms(3-5)
proof (induction ys)
  case (Cons y ys)
  then have "y \<in> S" "x \<in> S" "set ys \<subseteq> S" by simp_all
  moreover from this have "cmp x z \<le> 0" if "cmp x y \<le> 0" "z \<in> set ys" for z
    using that Cons.prems trans [of x y z] by auto
  ultimately show ?case using Cons total [of x y] by auto
qed simp

lemma sorted_js_sort_on:
  assumes "\<And>a b. a \<in> S \<Longrightarrow> b \<in> S \<Longrightarrow> cmp a b \<le> 0 \<or> cmp b a \<le> 0"
    and "\<And>a b c. a \<in> S \<Longrightarrow> b \<in> S \<Longrightarrow> c \<in> S \<Longrightarrow> cmp a b \<le> 0 \<Longrightarrow> cmp b c \<le> 0 \<Longrightarrow> cmp a c \<le> 0"
    and "set xs \<subseteq> S"
  shows "sorted_wrt (\<lambda>a b. cmp a b \<le> 0) (js_sort cmp xs)"
  using assms(3)
proof (induction xs)
  case (Cons x xs)
  show ?case unfolding js_sort.simps by (rule sorted_sort_insert_on [OF assms(1,2)]) (use Cons in auto)
qed simp

lemma side_levels_keys: "fst ` set (foldl add_level m rows) = fst ` set m \<union> price_human ` set rows"
  by (induction rows arbitrary: m) (auto simp: add_level_def fst_map_set)

lemma side_levels_inv: "map_inv m \<Longrightarrow> map_inv (foldl add_level m rows)"
  by (induction rows arbitrary: m) (simp_all add: add_level_def map_inv_set)

lemma book_rows_set: "set (book_rows mkt d) = {r \<in> set (db_orders d). book_order mkt r}"
  by (auto simp: book_rows_def)

lemma levels_of_side:
  "fst ` set (side_levels long (book_rows mkt d)) =
     price_human ` {r \<in> set (db_orders d). book_order mkt r \<and> isLong r = long}"
  by (auto simp: side_levels_def side_levels_keys book_rows_set)

text \<open>The amount of a level is the sum of the remaining amounts of its rows, in the order of the rows.\<close>

lemma side_levels_value:
  "map_get (foldl add_level m rows) p = (let rs = filter (\<lambda>r. price_human r = p) rows in
     if rs = [] then map_get m p
     else Some (foldl js_add (case map_get m p of None \<Rightarrow> Fin 0 | Some v \<Rightarrow> v) (map remaining_human rs)))"
proof (induction rows arbitrary: m)
  case (Cons r rows)
  show ?case
    unfolding foldl_Cons Cons.IH [of "add_level m r"]
    by (auto simp: add_level_def map_get_set Let_def)
qed simp

lemma level_amount:
  assumes "e \<in> set (side_levels long rows)"
  shows "snd e = foldl js_add (Fin 0) (map remaining_human (filter (\<lambda>r. isLong r = long \<and> price_human r = fst e) rows))"
proof -
  let ?L = "side_levels long rows" and ?rs = "filter (\<lambda>r. isLong r = long \<and> price_human r = fst e) rows"
  have "map_inv ?L" using side_levels_inv [of "[]"] by (simp add: side_levels_def)
  then have g: "map_get ?L (fst e) = Some (snd e)" using assms by (cases e) (simp add: map_inv_def map_get_def)
  have f: "filter (\<lambda>r. price_human r = fst e) (filter (\<lambda>r. isLong r = long) rows) = ?rs" by (simp add: conj_commute)
  have "map_get ?L (fst e) = (if ?rs = [] then None else Some (foldl js_add (Fin 0) (map remaining_human ?rs)))"
    using side_levels_value [of "[]" "filter (\<lambda>r. isLong r = long) rows" "fst e"]
    unfolding side_levels_def f Let_def by simp
  then show ?thesis using g by (simp split: if_splits)
qed

lemma level_value:
  assumes "\<forall>r \<in> set (db_orders d). 0 \<le> limitPrice r \<and> limitPrice r < 2 ^ 127"
    and "e \<in> set (side_levels long (book_rows mkt d))"
  shows "\<exists>x. parse_float (fst e) = Fin x \<and> is_double x"
proof -
  have "fst e \<in> fst ` set (side_levels long (book_rows mkt d))" using assms(2) by simp
  then obtain r where r: "r \<in> set (db_orders d)" "fst e = price_human r" "limitPrice r \<noteq> 0"
    unfolding levels_of_side by (auto simp: book_order_def)
  then have "0 < limitPrice r" using assms(1) by (metis order_le_less)
  then show ?thesis using parse_price_human [of r] assms(1) r by auto
qed

lemma cmp_numbers_le: "is_double x \<Longrightarrow> is_double y \<Longrightarrow> cmp_numbers (Fin x) (Fin y) \<le> 0 \<longleftrightarrow> js_le (Fin x) (Fin y)"
  by (simp add: cmp_numbers_Fin)

text \<open>Both sides at once: the key of an entry, ascending for asks and descending for bids.\<close>

lemma side_sorted:
  assumes "\<forall>r \<in> set (db_orders d). 0 \<le> limitPrice r \<and> limitPrice r < 2 ^ 127"
  shows "sorted_wrt (\<lambda>a b. js_le (parse_float (fst b)) (parse_float (fst a))) (js_sort cmp_best_bid (side_levels long (book_rows mkt d)))"
    and "sorted_wrt (\<lambda>a b. js_le (parse_float (fst a)) (parse_float (fst b))) (js_sort cmp_best_ask (side_levels long (book_rows mkt d)))"
proof -
  let ?L = "side_levels long (book_rows mkt d)"
  have v: "\<And>e. e \<in> set ?L \<Longrightarrow> \<exists>x. parse_float (fst e) = Fin x \<and> is_double x" using level_value [OF assms] .
  have bid: "cmp_best_bid a b \<le> 0 \<longleftrightarrow> js_le (parse_float (fst b)) (parse_float (fst a))"
    and ask: "cmp_best_ask a b \<le> 0 \<longleftrightarrow> js_le (parse_float (fst a)) (parse_float (fst b))"
    if "a \<in> set ?L" "b \<in> set ?L" for a b
    using v [OF that(1)] v [OF that(2)] by (auto simp: cmp_best_bid_def cmp_best_ask_def cmp_numbers_Fin)
  have total: "js_le (parse_float (fst a)) (parse_float (fst b)) \<or> js_le (parse_float (fst b)) (parse_float (fst a))"
    if "a \<in> set ?L" "b \<in> set ?L" for a b using v [OF that(1)] v [OF that(2)] by auto
  have trans: "js_le (parse_float (fst a)) (parse_float (fst c))"
    if "a \<in> set ?L" "b \<in> set ?L" "c \<in> set ?L" "js_le (parse_float (fst a)) (parse_float (fst b))"
      "js_le (parse_float (fst b)) (parse_float (fst c))" for a b c
    using v [OF that(1)] v [OF that(2)] v [OF that(3)] that(4,5) by auto
  have "sorted_wrt (\<lambda>a b. cmp_best_bid a b \<le> 0) (js_sort cmp_best_bid ?L)"
    by (rule sorted_js_sort_on [of "set ?L"]) (auto simp: bid intro: trans dest: total)
  then show "sorted_wrt (\<lambda>a b. js_le (parse_float (fst b)) (parse_float (fst a))) (js_sort cmp_best_bid ?L)"
    by (rule sorted_wrt_mono_rel [rotated]) (auto simp: bid)
  have "sorted_wrt (\<lambda>a b. cmp_best_ask a b \<le> 0) (js_sort cmp_best_ask ?L)"
    by (rule sorted_js_sort_on [of "set ?L"]) (auto simp: ask intro: trans dest: total)
  then show "sorted_wrt (\<lambda>a b. js_le (parse_float (fst a)) (parse_float (fst b))) (js_sort cmp_best_ask ?L)"
    by (rule sorted_wrt_mono_rel [rotated]) (auto simp: ask)
qed

lemma distinct_levels: "distinct (map fst (js_sort cmp (side_levels long rows)))"
proof -
  have "distinct (map fst (side_levels long rows))"
    using side_levels_inv [of "[]"] by (simp add: side_levels_def map_inv_def)
  moreover have "mset (map fst (js_sort cmp (side_levels long rows))) = mset (map fst (side_levels long rows))"
    by (simp add: mset_js_sort)
  ultimately show ?thesis by (metis mset_eq_imp_distinct_iff)
qed

text \<open>
  What one side of a book shows: the displayed prices of the side's open limit orders, each once, and at
  each the displayed sum of the remaining amounts of the orders there (a sum of Numbers, in some order).
  Open means neither cancelled nor filled; whether an order has expired does not matter.
\<close>

definition open_limit :: "int \<Rightarrow> bool \<Rightarrow> order_row \<Rightarrow> bool" where
  "open_limit mkt long r \<longleftrightarrow> marketId r = mkt \<and> isLong r = long \<and> \<not> cancelled r \<and> filledSize r < size r \<and> limitPrice r \<noteq> 0"

definition shows_side :: "int \<Rightarrow> bool \<Rightarrow> database \<Rightarrow> book_level list \<Rightarrow> bool" where
  "shows_side mkt long d L \<longleftrightarrow> bl_price ` set L = price_human ` {r \<in> set (db_orders d). open_limit mkt long r} \<and>
     distinct (map bl_price L) \<and>
     (\<forall>l \<in> set L. \<exists>rs. mset rs = mset (filter (\<lambda>r. open_limit mkt long r \<and> price_human r = bl_price l) (db_orders d)) \<and>
        bl_size l = to_fixed 4 (foldl js_add (Fin 0) (map remaining_human rs)))"

lemma side_shown: "shows_side mkt long d (map level_of (js_sort cmp (side_levels long (book_rows mkt d))))"
proof -
  let ?L = "side_levels long (book_rows mkt d)"
  have k: "bl_price (level_of e) = fst e" "bl_size (level_of e) = to_fixed 4 (snd e)" for e by (simp_all add: level_of_def)
  have o: "book_order mkt r \<and> isLong r = long \<longleftrightarrow> open_limit mkt long r" for r by (auto simp: book_order_def open_limit_def)
  have rs: "mset (filter (\<lambda>r. isLong r = long \<and> price_human r = p) (book_rows mkt d)) =
      mset (filter (\<lambda>r. open_limit mkt long r \<and> price_human r = p) (db_orders d))" for p
  proof -
    have P: "(\<lambda>r. open_limit mkt long r \<and> price_human r = p) = (\<lambda>r. book_order mkt r \<and> isLong r = long \<and> price_human r = p)"
      by (auto simp: book_order_def open_limit_def)
    show ?thesis unfolding P by (simp add: book_rows_def mset_js_sort filter_filter_mset conj_commute conj_left_commute)
  qed
  have "\<exists>rs. mset rs = mset (filter (\<lambda>r. open_limit mkt long r \<and> price_human r = fst e) (db_orders d)) \<and>
      to_fixed 4 (snd e) = to_fixed 4 (foldl js_add (Fin 0) (map remaining_human rs))" if "e \<in> set ?L" for e
    using level_amount [OF that] rs by metis
  moreover have "bl_price ` set (map level_of (js_sort cmp ?L)) = price_human ` {r \<in> set (db_orders d). open_limit mkt long r}"
    using levels_of_side [of long mkt d] by (simp add: o image_image k)
  moreover have "map bl_price (map level_of es) = map fst es" for es by (simp add: k)
  ultimately show ?thesis by (simp add: shows_side_def distinct_levels k del: map_map)
qed

text \<open>
  C18. The published order book shows the open limit orders: with prices in the range of the contracts (a
  market order has the price zero), the bid levels carry exactly the displayed prices of the market's
  open buy orders and the ask levels those of its sell orders - no market order, none that is cancelled
  or filled, but expired ones too - each price once, with the sum of what remains of the orders there; bids
  are listed from the highest price down, asks from the lowest up.
\<close>

theorem order_book_shows_live_orders:
  assumes "\<forall>r \<in> set (db_orders d). 0 \<le> limitPrice r \<and> limitPrice r < 2 ^ 127"
  shows "shows_side mkt True d (ob_bids (fetchOrderBook now mkt d)) \<and> shows_side mkt False d (ob_asks (fetchOrderBook now mkt d))
    \<and> sorted_wrt (\<lambda>a b. js_le (parse_float (bl_price b)) (parse_float (bl_price a))) (ob_bids (fetchOrderBook now mkt d))
    \<and> sorted_wrt (\<lambda>a b. js_le (parse_float (bl_price a)) (parse_float (bl_price b))) (ob_asks (fetchOrderBook now mkt d))"
proof -
  have k: "bl_price (level_of e) = fst e" for e by (simp add: level_of_def)
  show ?thesis
    using side_sorted [OF assms, of True mkt] side_sorted [OF assms, of False mkt]
    by (simp add: fetchOrderBook_def Let_def side_shown sorted_wrt_map k)
qed

text \<open>A higher limit price is never displayed below a lower one, so the first bid shows the highest.\<close>

lemma displayed_price_mono:
  assumes "0 < limitPrice q" and "limitPrice q \<le> limitPrice r" and "limitPrice r < 2 ^ 127"
  shows "js_le (parse_float (price_human q)) (parse_float (price_human r))"
  using parse_price_human [of q] parse_price_human [of r] shown_price_mono [OF assms(2)] assms by simp

subsection \<open>Witness\<close>

text \<open>Two bids at one price, one of them expired, and a market order.\<close>

definition example_bid :: "int \<Rightarrow> int \<Rightarrow> int \<Rightarrow> order_row" where
  "example_bid n price expiry = \<lparr> owner = ''GA'', marketId = 1, isLong = True, size = 30000000, limitPrice = price, reduceOnly = False,
     nonce = n, expiryTs = expiry, oid = order_id ''GA'' n, filledSize = 0, createdAt = 1000, signature = Some ''sig'', cancelled = False \<rparr>"

definition example_book_db :: database where
  "example_book_db = empty_db\<lparr> db_orders := [example_bid 1 2000000000000000000 0, example_bid 2 0 0, example_bid 3 2000000000000000000 1] \<rparr>"

theorem order_book_shows_live_orders_witness:
  "bl_price ` set (ob_bids (fetchOrderBook 5000000 1 example_book_db)) = {price_human (example_bid 1 2000000000000000000 0)} \<and>
   map (\<lambda>l. (bl_price l, bl_size l)) (ob_bids (fetchOrderBook 5000000 1 example_book_db)) = [(''2.0000'', ''6.0000'')]"
proof
  have h: "\<forall>r \<in> set (db_orders example_book_db). 0 \<le> limitPrice r \<and> limitPrice r < 2 ^ 127"
    by (simp add: example_book_db_def example_bid_def)
  have "{r \<in> set (db_orders example_book_db). open_limit 1 True r} = {example_bid 1 2000000000000000000 0, example_bid 3 2000000000000000000 1}"
    by (auto simp: example_book_db_def open_limit_def example_bid_def)
  moreover have "price_human (example_bid 3 2000000000000000000 1) = price_human (example_bid 1 2000000000000000000 0)"
    by (simp add: price_human_def example_bid_def)
  ultimately show "bl_price ` set (ob_bids (fetchOrderBook 5000000 1 example_book_db)) = {price_human (example_bid 1 2000000000000000000 0)}"
    using order_book_shows_live_orders [OF h, of 1 5000000] by (simp add: shows_side_def)
  show "map (\<lambda>l. (bl_price l, bl_size l)) (ob_bids (fetchOrderBook 5000000 1 example_book_db)) = [(''2.0000'', ''6.0000'')]"
    by code_simp
qed

end
