(* ===== verification/Stream_Client.thy ===== *)
theory Stream_Client
  imports Js_Json Kryon_Config
begin

text \<open>
  \<open>client/lib/market/websocket.ts\<close>, the streaming client as a state machine. The module variables are a
  record; a \<open>WebSocket\<close> object is a number with a ready state, because handlers of an older socket can
  run after a newer one was created. The events are those the browser delivers (open, message, close, the
  reconnect timer, the ping timer) and the calls of the public functions; \<open>ws_do\<close> is \<open>None\<close> for an
  event that cannot occur in a state.
\<close>

datatype ready_state = CONNECTING | OPEN | CLOSING | CLOSED

datatype client_msg = MSubscribe "string list" | MUnsubscribe "string list" | MPing

datatype notice = NStatus bool | NBook json | NTrade json

record ws_client =
  wc_ws :: "nat option"
  wc_state :: "nat \<Rightarrow> ready_state"
  wc_next :: nat
  wc_timer :: "int option"
  wc_delay :: int
  wc_destroyed :: bool
  wc_ping :: bool
  wc_channels :: "string list"
  wc_handlers :: bool
  wc_sent :: "(nat \<times> client_msg) list"
  wc_notices :: "notice list"

definition MAX_RECONNECT_DELAY :: int where "MAX_RECONNECT_DELAY = 30000"

definition ws_init :: ws_client where
  "ws_init = \<lparr> wc_ws = None, wc_state = (\<lambda>_. CLOSED), wc_next = 0, wc_timer = None, wc_delay = 1000,
     wc_destroyed = False, wc_ping = False, wc_channels = [], wc_handlers = False, wc_sent = [], wc_notices = [] \<rparr>"

subsection \<open>Helpers\<close>

definition is_open :: "ws_client \<Rightarrow> bool" where
  "is_open s = (case wc_ws s of None \<Rightarrow> False | Some i \<Rightarrow> wc_state s i = OPEN)"

definition ws_send :: "client_msg \<Rightarrow> ws_client \<Rightarrow> ws_client" where
  "ws_send m s = (case wc_ws s of
     None \<Rightarrow> s | Some i \<Rightarrow> if wc_state s i = OPEN then s\<lparr> wc_sent := wc_sent s @ [(i, m)] \<rparr> else s)"

definition sendSubscribe :: "string list \<Rightarrow> ws_client \<Rightarrow> ws_client" where
  "sendSubscribe cs s = (if cs = [] then s else ws_send (MSubscribe cs) s)"

definition notify :: "notice \<Rightarrow> ws_client \<Rightarrow> ws_client" where
  "notify n s = (if wc_handlers s then s\<lparr> wc_notices := wc_notices s @ [n] \<rparr> else s)"

text \<open>The pending timer holds the delay before the jitter of a fifth either way.\<close>

definition scheduleReconnect :: "ws_client \<Rightarrow> ws_client" where
  "scheduleReconnect s = (if wc_destroyed s then s
     else s\<lparr> wc_timer := Some (wc_delay s), wc_delay := min (wc_delay s * 2) MAX_RECONNECT_DELAY \<rparr>)"

text \<open>\<open>connect()\<close>; \<open>throws\<close> says whether the \<open>WebSocket\<close> constructor throws.\<close>

definition connect :: "string \<Rightarrow> bool \<Rightarrow> ws_client \<Rightarrow> ws_client" where
  "connect url throws s =
    (if wc_destroyed s \<or> url = [] then s
     else if throws then scheduleReconnect s
     else s\<lparr> wc_ws := Some (wc_next s), wc_state := (wc_state s)(wc_next s := CONNECTING), wc_next := Suc (wc_next s) \<rparr>)"

subsection \<open>Handlers of a socket\<close>

definition on_open :: "nat \<Rightarrow> ws_client \<Rightarrow> ws_client" where
  "on_open i s0 =
    (let s = notify (NStatus True) (s0\<lparr> wc_state := (wc_state s0)(i := OPEN), wc_delay := 1000 \<rparr>) in
     sendSubscribe (wc_channels s) (s\<lparr> wc_ping := True \<rparr>))"

text \<open>A message that parses; one that does not is ignored, as is any other type.\<close>

definition handleMessage :: "json \<Rightarrow> ws_client \<Rightarrow> ws_client" where
  "handleMessage msg s =
    (if js_field msg ''type'' = Some (JStr ''orderbook'') then notify (NBook msg) s
     else if js_field msg ''type'' = Some (JStr ''trade'') then notify (NTrade msg) s else s)"

definition on_message :: "json option \<Rightarrow> ws_client \<Rightarrow> ws_client" where
  "on_message data s = (case data of None \<Rightarrow> s | Some msg \<Rightarrow> handleMessage msg s)"

definition on_close :: "nat \<Rightarrow> ws_client \<Rightarrow> ws_client" where
  "on_close i s = scheduleReconnect (notify (NStatus False)
     (s\<lparr> wc_state := (wc_state s)(i := CLOSED), wc_ws := None, wc_ping := False \<rparr>))"

subsection \<open>Public functions\<close>

definition channels_of :: "int \<Rightarrow> string list" where
  "channels_of mkt = [''orderbook:'' @ show_int mkt, ''trades:'' @ show_int mkt]"

definition set_add :: "'a \<Rightarrow> 'a list \<Rightarrow> 'a list" where
  "set_add x xs = (if x \<in> set xs then xs else xs @ [x])"

definition wsSubscribe :: "string \<Rightarrow> int \<Rightarrow> bool \<Rightarrow> ws_client \<Rightarrow> ws_client" where
  "wsSubscribe url mkt throws s0 =
    (if url = [] then s0
     else (let s = s0\<lparr> wc_channels := fold set_add (channels_of mkt) (wc_channels s0) \<rparr> in
       if is_open s then sendSubscribe (channels_of mkt) s
       else if wc_ws s = None then connect url throws (s\<lparr> wc_destroyed := False \<rparr>) else s))"

definition wsUnsubscribe :: "int \<Rightarrow> ws_client \<Rightarrow> ws_client" where
  "wsUnsubscribe mkt s = ws_send (MUnsubscribe (channels_of mkt))
     (s\<lparr> wc_channels := filter (\<lambda>c. c \<notin> set (channels_of mkt)) (wc_channels s) \<rparr>)"

definition wsDisconnect :: "ws_client \<Rightarrow> ws_client" where
  "wsDisconnect s = s\<lparr> wc_destroyed := True, wc_ping := False, wc_timer := None,
     wc_state := (case wc_ws s of None \<Rightarrow> wc_state s
       | Some i \<Rightarrow> (if wc_state s i = CLOSED then wc_state s else (wc_state s)(i := CLOSING))),
     wc_ws := None \<rparr>"

definition wsReset :: "ws_client \<Rightarrow> ws_client" where
  "wsReset s = s\<lparr> wc_destroyed := False, wc_delay := 1000 \<rparr>"

definition wsSetHandlers :: "ws_client \<Rightarrow> ws_client" where
  "wsSetHandlers s = s\<lparr> wc_handlers := True \<rparr>"

subsection \<open>Events\<close>

datatype ws_event =
    EvOpen nat
  | EvMessage nat "json option"
  | EvClose nat
  | EvTimer bool
  | EvPing
  | CallSubscribe int bool
  | CallUnsubscribe int
  | CallDisconnect
  | CallReset
  | CallHandlers

fun ws_do :: "string \<Rightarrow> ws_event \<Rightarrow> ws_client \<Rightarrow> ws_client option" where
  "ws_do url (EvOpen i) s = (if wc_state s i = CONNECTING then Some (on_open i s) else None)"
| "ws_do url (EvMessage i data) s = (if wc_state s i = OPEN then Some (on_message data s) else None)"
| "ws_do url (EvClose i) s = (if wc_state s i \<noteq> CLOSED then Some (on_close i s) else None)"
| "ws_do url (EvTimer throws) s = (if wc_timer s \<noteq> None then Some (connect url throws (s\<lparr> wc_timer := None \<rparr>)) else None)"
| "ws_do url EvPing s = (if wc_ping s then Some (ws_send MPing s) else None)"
| "ws_do url (CallSubscribe mkt throws) s = Some (wsSubscribe url mkt throws s)"
| "ws_do url (CallUnsubscribe mkt) s = Some (wsUnsubscribe mkt s)"
| "ws_do url CallDisconnect s = Some (wsDisconnect s)"
| "ws_do url CallReset s = Some (wsReset s)"
| "ws_do url CallHandlers s = Some (wsSetHandlers s)"

inductive ws_reach :: "string \<Rightarrow> ws_client \<Rightarrow> bool" for url where
  start: "ws_reach url ws_init"
| step: "ws_reach url s \<Longrightarrow> ws_do url e s = Some s' \<Longrightarrow> ws_reach url s'"

fun ws_run :: "string \<Rightarrow> ws_event list \<Rightarrow> ws_client \<Rightarrow> ws_client option" where
  "ws_run url [] s = Some s"
| "ws_run url (e # es) s = (case ws_do url e s of None \<Rightarrow> None | Some s' \<Rightarrow> ws_run url es s')"

lemma ws_run_reach: "ws_reach url s \<Longrightarrow> ws_run url es s = Some s' \<Longrightarrow> ws_reach url s'"
  by (induction es arbitrary: s) (auto split: option.splits intro: ws_reach.step)

text \<open>The messages as JSON texts, and as the values the server parses from them.\<close>

fun client_json :: "client_msg \<Rightarrow> json" where
  "client_json (MSubscribe cs) = JObj [(''type'', JStr ''subscribe''), (''channels'', JArr (map JStr cs))]"
| "client_json (MUnsubscribe cs) = JObj [(''type'', JStr ''unsubscribe''), (''channels'', JArr (map JStr cs))]"
| "client_json MPing = JObj [(''type'', JStr ''ping'')]"

lemmas ws_defs = ws_send_def sendSubscribe_def notify_def scheduleReconnect_def connect_def on_open_def on_message_def
  handleMessage_def on_close_def wsSubscribe_def wsUnsubscribe_def wsDisconnect_def wsReset_def wsSetHandlers_def

subsection \<open>Back-off\<close>

text \<open>The delay and every pending timer stay between one and thirty seconds.\<close>

definition backoff_ok :: "ws_client \<Rightarrow> bool" where
  "backoff_ok s \<longleftrightarrow> 1000 \<le> wc_delay s \<and> wc_delay s \<le> MAX_RECONNECT_DELAY \<and>
     (case wc_timer s of None \<Rightarrow> True | Some t \<Rightarrow> 1000 \<le> t \<and> t \<le> MAX_RECONNECT_DELAY)"

lemma backoff_step: "backoff_ok s \<Longrightarrow> ws_do url e s = Some s' \<Longrightarrow> backoff_ok s'"
  by (cases e) (auto simp: backoff_ok_def ws_defs MAX_RECONNECT_DELAY_def Let_def split: if_splits option.splits)

lemma backoff_bounded: "ws_reach url s \<Longrightarrow> backoff_ok s"
proof (induction rule: ws_reach.induct)
  case start
  show ?case by (simp add: backoff_ok_def ws_init_def MAX_RECONNECT_DELAY_def)
qed (rule backoff_step)

text \<open>
  A subscription while the reconnect timer is pending opens a socket at once without cancelling the
  timer, which then opens a second one: two sockets are open, and the module has lost the first.
\<close>

lemma duplicate_connection:
  "\<exists>s. ws_reach ''wss'' s \<and> wc_state s 1 = OPEN \<and> wc_state s 2 = OPEN \<and> wc_ws s = Some 2"
proof -
  have "ws_reach ''wss'' s" if "ws_run ''wss'' es ws_init = Some s" for es s
    using ws_run_reach [OF ws_reach.start that] .
  moreover have "\<exists>s. ws_run ''wss'' [CallSubscribe 1 False, EvClose 0, CallSubscribe 1 False, EvOpen 1, EvTimer False, EvOpen 2] ws_init = Some s
      \<and> wc_state s 1 = OPEN \<and> wc_state s 2 = OPEN \<and> wc_ws s = Some 2"
    by (simp add: ws_defs ws_init_def is_open_def Let_def channels_of_def set_add_def)
  ultimately show ?thesis by blast
qed

end
