(* ===== verification/Stream_Server.thy ===== *)
theory Stream_Server
  imports Stream_Client Book_View
begin

text \<open>
  \<open>client/scripts/ws-server.ts\<close>: the subscription map, the messages of a client, and the broadcast of
  books and of new trades. A client socket is a number; which sockets are open is a parameter of a
  broadcast, and what was sent is a log.
\<close>

subsection \<open>Subscriptions\<close>

type_synonym subscriptions = "(string, nat list) js_map"

definition subscribers :: "subscriptions \<Rightarrow> string \<Rightarrow> nat list" where
  "subscribers m c = (case map_get m c of None \<Rightarrow> [] | Some ws \<Rightarrow> ws)"

definition subscribe :: "nat \<Rightarrow> string \<Rightarrow> subscriptions \<Rightarrow> subscriptions" where
  "subscribe w c m = map_set m c (set_add w (subscribers m c))"

definition unsubscribe :: "nat \<Rightarrow> string \<Rightarrow> subscriptions \<Rightarrow> subscriptions" where
  "unsubscribe w c m = (case map_get m c of None \<Rightarrow> m | Some ws \<Rightarrow> map_set m c (filter (\<lambda>x. x \<noteq> w) ws))"

definition unsubscribeAll :: "nat \<Rightarrow> subscriptions \<Rightarrow> subscriptions" where
  "unsubscribeAll w m = map (\<lambda>(c, ws). (c, filter (\<lambda>x. x \<noteq> w) ws)) m"

datatype server_msg = SPong | SSubscribed "json list" | SBook int order_book | STrade int trade

record ws_server =
  sv_subs :: subscriptions
  sv_lastTs :: "(int, int) js_map"
  sv_sent :: "(nat \<times> string \<times> server_msg) list"

text \<open>The test \<open>/^(orderbook|trades):\d+$/\<close>.\<close>

definition after_prefix :: "string \<Rightarrow> string \<Rightarrow> string option" where
  "after_prefix pre s = (if take (length pre) s = pre then Some (drop (length pre) s) else None)"

definition valid_channel :: "string \<Rightarrow> bool" where
  "valid_channel s \<longleftrightarrow> (\<exists>pre \<in> set [''orderbook:'', ''trades:'']. case after_prefix pre s of None \<Rightarrow> False | Some r \<Rightarrow> all_digits r)"

text \<open>
  The test on an element of any JSON type, which it first turns into a text: that of an array of one element is
  the element's, that of a longer one has a comma, and no number, truth value, null or object passes.
\<close>

fun valid_element :: "json \<Rightarrow> bool" where
  "valid_element (JStr s) = valid_channel s"
| "valid_element (JArr [x]) = valid_element x"
| "valid_element _ = False"

text \<open>
  The channels of a message. An array among them that passes the test is reported back as subscribed, but the map
  would hold it as a key of its own that no broadcast and no other message ever looks up; only the texts are kept.
\<close>

definition json_strings :: "json list \<Rightarrow> string list" where
  "json_strings = List.map_filter (\<lambda>x. case x of JStr s \<Rightarrow> Some s | _ \<Rightarrow> None)"

definition on_client_message :: "nat \<Rightarrow> json \<Rightarrow> ws_server \<Rightarrow> ws_server" where
  "on_client_message w msg sv =
    (if js_field msg ''type'' = Some (JStr ''ping'') then sv\<lparr> sv_sent := sv_sent sv @ [(w, [], SPong)] \<rparr>
     else (case js_field msg ''channels'' of
         Some (JArr xs) \<Rightarrow> (let cs = json_strings xs in
           if js_field msg ''type'' = Some (JStr ''subscribe'') then
             (let valid = filter valid_channel cs in
              sv\<lparr> sv_subs := foldl (\<lambda>m c. subscribe w c m) (sv_subs sv) valid,
                  sv_sent := sv_sent sv @ [(w, [], SSubscribed (filter valid_element xs))] \<rparr>)
           else if js_field msg ''type'' = Some (JStr ''unsubscribe'') then
             sv\<lparr> sv_subs := foldl (\<lambda>m c. unsubscribe w c m) (sv_subs sv) cs \<rparr>
           else sv)
       | _ \<Rightarrow> sv))"

definition on_client_gone :: "nat \<Rightarrow> ws_server \<Rightarrow> ws_server" where
  "on_client_gone w sv = sv\<lparr> sv_subs := unsubscribeAll w (sv_subs sv) \<rparr>"

subsection \<open>The queries of the server\<close>

text \<open>The server has its own copies of the routes' queries; one pass over the rows fills both sides.\<close>

definition ws_add_row :: "levels \<times> levels \<Rightarrow> order_row \<Rightarrow> levels \<times> levels" where
  "ws_add_row m r = (let (bidMap, askMap) = m in
     if isLong r then (add_level bidMap r, askMap) else (bidMap, add_level askMap r))"

definition ws_fetchOrderBook :: "int \<Rightarrow> int \<Rightarrow> database \<Rightarrow> order_book" where
  "ws_fetchOrderBook now mkt d = (let (bidMap, askMap) = foldl ws_add_row ([], []) (book_rows mkt d) in
     \<lparr> ob_bids = map level_of (js_sort cmp_best_bid bidMap), ob_asks = map level_of (js_sort cmp_best_ask askMap), ob_timestamp = now \<rparr>)"

definition ws_trade_of :: "fill_row \<Rightarrow> trade" where
  "ws_trade_of r = (let raw = number_of_bigint (f_size r);
       sz = (if js_le (Fin (10 ^ 12)) raw then js_div raw PRICE_SCALE else js_div raw AMOUNT_SCALE) in
     \<lparr> t_price = to_fixed 4 (js_div (number_of_bigint (f_price r)) PRICE_SCALE), t_size = to_fixed 4 sz,
       t_buy = js_even (number_of_bigint (f_makerNonce r)), t_timestamp = f_createdAt r \<rparr>)"

definition ws_fetchRecentTrades :: "int \<Rightarrow> nat \<Rightarrow> database \<Rightarrow> trade list" where
  "ws_fetchRecentTrades mkt limit d = map ws_trade_of (recent_fills mkt limit d)"

lemma ws_levels: "foldl ws_add_row (b, a) rows = (foldl add_level b (filter isLong rows), foldl add_level a (filter (\<lambda>r. \<not> isLong r) rows))"
  by (induction rows arbitrary: b a) (simp_all add: ws_add_row_def)

text \<open>The stream publishes the book and the trades of the routes.\<close>

lemma ws_book_is_route_book [simp]: "ws_fetchOrderBook now mkt d = fetchOrderBook now mkt d"
  by (simp add: ws_fetchOrderBook_def fetchOrderBook_def ws_levels side_levels_def Let_def)

lemma ws_trades_are_route_trades [simp]: "ws_fetchRecentTrades mkt limit d = fetchRecentTrades mkt limit d"
proof -
  have "ws_trade_of = trade_of" by (rule ext) (simp add: ws_trade_of_def trade_of_def normaliseSize_def Let_def)
  then show ?thesis by (simp add: ws_fetchRecentTrades_def fetchRecentTrades_def)
qed

subsection \<open>Broadcasts\<close>

text \<open>A subscribed socket that is open gets the message, one that is not is dropped from the channel.\<close>

definition broadcast_to :: "(nat \<Rightarrow> bool) \<Rightarrow> string \<Rightarrow> server_msg \<Rightarrow> ws_server \<Rightarrow> ws_server" where
  "broadcast_to alive c m sv = (case map_get (sv_subs sv) c of
     None \<Rightarrow> sv
   | Some ws \<Rightarrow> if ws = [] then sv
       else sv\<lparr> sv_sent := sv_sent sv @ map (\<lambda>w. (w, c, m)) (filter alive ws),
                sv_subs := map_set (sv_subs sv) c (filter alive ws) \<rparr>)"

definition ob_channel :: "int \<Rightarrow> string" where "ob_channel mkt = ''orderbook:'' @ show_int mkt"
definition tr_channel :: "int \<Rightarrow> string" where "tr_channel mkt = ''trades:'' @ show_int mkt"

definition broadcast_trades :: "(nat \<Rightarrow> bool) \<Rightarrow> int \<Rightarrow> trade list \<Rightarrow> ws_server \<Rightarrow> ws_server" where
  "broadcast_trades alive mkt trades sv =
    (let lastTs = (case map_get (sv_lastTs sv) mkt of None \<Rightarrow> 0 | Some t \<Rightarrow> t);
         newTrades = filter (\<lambda>t. lastTs < t_timestamp t) trades in
     if newTrades = [] then sv
     else foldl (\<lambda>sv t. broadcast_to alive (tr_channel mkt) (STrade mkt t) sv)
       (sv\<lparr> sv_lastTs := map_set (sv_lastTs sv) mkt (t_timestamp (hd newTrades)) \<rparr>) (rev newTrades))"

text \<open>
  One market of the broadcast loop; a failing query (\<open>None\<close>) skips the rest. Both queries see the
  database of the tick.
\<close>

definition broadcastMarket :: "(nat \<Rightarrow> bool) \<Rightarrow> int \<Rightarrow> bool \<Rightarrow> bool \<Rightarrow> database \<Rightarrow> int \<Rightarrow> ws_server \<Rightarrow> ws_server" where
  "broadcastMarket alive now book_fails trades_fail d mkt sv =
    (let hasOb = subscribers (sv_subs sv) (ob_channel mkt) \<noteq> []; hasTr = subscribers (sv_subs sv) (tr_channel mkt) \<noteq> [] in
     if \<not> hasOb \<and> \<not> hasTr then sv
     else if hasOb \<and> book_fails then sv
     else (let sv1 = (if hasOb then broadcast_to alive (ob_channel mkt) (SBook mkt (ws_fetchOrderBook now mkt d)) sv else sv) in
       if \<not> hasTr \<or> trades_fail then sv1
       else broadcast_trades alive mkt (ws_fetchRecentTrades mkt 10 d) sv1))"

definition broadcast_tick :: "(nat \<Rightarrow> bool) \<Rightarrow> int \<Rightarrow> bool \<Rightarrow> bool \<Rightarrow> database \<Rightarrow> int list \<Rightarrow> ws_server \<Rightarrow> ws_server" where
  "broadcast_tick alive now book_fails trades_fail d markets sv =
     foldl (\<lambda>sv mkt. broadcastMarket alive now book_fails trades_fail d mkt sv) sv markets"

definition sv_init :: ws_server where
  "sv_init = \<lparr> sv_subs = [], sv_lastTs = [], sv_sent = [] \<rparr>"

subsection \<open>Client and server agree\<close>

definition holds :: "ws_server \<Rightarrow> nat \<Rightarrow> string \<Rightarrow> bool" where
  "holds sv w c \<longleftrightarrow> w \<in> set (subscribers (sv_subs sv) c)"

definition server_after :: "(nat \<times> client_msg) list \<Rightarrow> ws_server" where
  "server_after l = foldl (\<lambda>sv (w, m). on_client_message w (client_json m) sv) sv_init l"

lemma set_set_add [simp]: "set (set_add x xs) = insert x (set xs)"
  by (auto simp: set_add_def)

lemma holds_subscribe: "w' \<in> set (subscribers (subscribe w c m) c') \<longleftrightarrow> (w' = w \<and> c' = c) \<or> w' \<in> set (subscribers m c')"
  by (auto simp: subscribe_def subscribers_def map_get_set)

lemma holds_unsubscribe: "w' \<in> set (subscribers (unsubscribe w c m) c') \<longleftrightarrow> w' \<in> set (subscribers m c') \<and> \<not> (w' = w \<and> c' = c)"
  by (auto simp: unsubscribe_def subscribers_def map_get_set split: option.splits)

lemma holds_subscribes:
  "w' \<in> set (subscribers (foldl (\<lambda>m c. subscribe w c m) m cs) c') \<longleftrightarrow> (w' = w \<and> c' \<in> set cs) \<or> w' \<in> set (subscribers m c')"
  by (induction cs arbitrary: m) (auto simp: holds_subscribe)

lemma holds_unsubscribes:
  "w' \<in> set (subscribers (foldl (\<lambda>m c. unsubscribe w c m) m cs) c') \<longleftrightarrow> w' \<in> set (subscribers m c') \<and> \<not> (w' = w \<and> c' \<in> set cs)"
  by (induction cs arbitrary: m) (auto simp: holds_unsubscribe)

lemma json_strings_map: "json_strings (map JStr cs) = cs"
  by (induction cs) (simp_all add: json_strings_def)

text \<open>The texts that are reported back are the channels subscribed to.\<close>

lemma reported_channels: "json_strings (filter valid_element xs) = filter valid_channel (json_strings xs)"
  by (induction xs) (auto simp: json_strings_def split: json.split)

lemma holds_message:
  "holds (on_client_message w (client_json m) sv) w' c \<longleftrightarrow>
    (case m of MSubscribe cs \<Rightarrow> holds sv w' c \<or> (w' = w \<and> c \<in> set cs \<and> valid_channel c)
     | MUnsubscribe cs \<Rightarrow> holds sv w' c \<and> \<not> (w' = w \<and> c \<in> set cs)
     | MPing \<Rightarrow> holds sv w' c)"
  by (cases m) (auto simp: on_client_message_def holds_def map_get_def json_strings_map holds_subscribes holds_unsubscribes Let_def)

lemma server_after_snoc: "server_after (l @ [(w, m)]) = on_client_message w (client_json m) (server_after l)"
  by (simp add: server_after_def)

lemma holds_after_snoc:
  "holds (server_after (l @ [(w, m)])) w' c \<longleftrightarrow>
    (case m of MSubscribe cs \<Rightarrow> holds (server_after l) w' c \<or> (w' = w \<and> c \<in> set cs \<and> valid_channel c)
     | MUnsubscribe cs \<Rightarrow> holds (server_after l) w' c \<and> \<not> (w' = w \<and> c \<in> set cs)
     | MPing \<Rightarrow> holds (server_after l) w' c)"
  unfolding server_after_snoc by (rule holds_message)

lemma server_after_Nil: "\<not> holds (server_after []) w c"
  by (simp add: server_after_def sv_init_def holds_def subscribers_def)

text \<open>Channels of a socket nothing was sent on are empty.\<close>

lemma holds_sent: "holds (server_after l) w c \<Longrightarrow> w \<in> fst ` set l"
proof (induction l rule: rev_induct)
  case Nil
  then show ?case by (simp add: server_after_Nil)
next
  case (snoc x l)
  obtain w0 m where x: "x = (w0, m)" by fastforce
  show ?case
    using snoc by (cases m) (auto simp: x holds_after_snoc)
qed

text \<open>
  The invariant: sockets are numbered in order, the current one is alive, nothing was sent on a socket
  that is not open yet, and on the current open socket the server holds the valid ones of the client's
  channels.
\<close>

definition agree_inv :: "ws_client \<Rightarrow> bool" where
  "agree_inv s \<longleftrightarrow> (\<forall>i. wc_next s \<le> i \<longrightarrow> wc_state s i = CLOSED) \<and>
     (\<forall>i. wc_ws s = Some i \<longrightarrow> i < wc_next s \<and> wc_state s i \<in> {CONNECTING, OPEN}) \<and>
     (\<forall>i. wc_next s \<le> i \<or> wc_state s i = CONNECTING \<longrightarrow> i \<notin> fst ` set (wc_sent s)) \<and>
     (\<forall>i. wc_ws s = Some i \<longrightarrow> wc_state s i = OPEN \<longrightarrow>
        (\<forall>c. holds (server_after (wc_sent s)) i c \<longleftrightarrow> c \<in> set (wc_channels s) \<and> valid_channel c))"

lemma set_fold_add: "set (fold set_add cs xs) = set cs \<union> set xs"
  by (induction cs arbitrary: xs) auto

text \<open>Sending on the current open socket keeps the other parts; what the server then holds follows the message.\<close>

lemma agree_send:
  assumes "\<forall>i. wc_next s \<le> i \<longrightarrow> wc_state s i = CLOSED"
    and "\<forall>i. wc_ws s = Some i \<longrightarrow> i < wc_next s \<and> wc_state s i \<in> {CONNECTING, OPEN}"
    and "\<forall>i. wc_next s \<le> i \<or> wc_state s i = CONNECTING \<longrightarrow> i \<notin> fst ` set (wc_sent s)"
    and "\<And>i c. wc_ws s = Some i \<Longrightarrow> wc_state s i = OPEN \<Longrightarrow>
      (case m of MSubscribe cs \<Rightarrow> holds (server_after (wc_sent s)) i c \<or> (c \<in> set cs \<and> valid_channel c)
       | MUnsubscribe cs \<Rightarrow> holds (server_after (wc_sent s)) i c \<and> c \<notin> set cs
       | MPing \<Rightarrow> holds (server_after (wc_sent s)) i c) \<longleftrightarrow> c \<in> set (wc_channels s) \<and> valid_channel c"
  shows "agree_inv (ws_send m s)"
proof (cases "is_open s")
  case False
  then have "ws_send m s = s" by (auto simp: ws_send_def is_open_def split: option.splits)
  then show ?thesis using assms False by (auto simp: agree_inv_def is_open_def split: option.splits)
next
  case True
  then obtain i where i: "wc_ws s = Some i" "wc_state s i = OPEN" by (auto simp: is_open_def split: option.splits)
  then have e: "ws_send m s = s\<lparr> wc_sent := wc_sent s @ [(i, m)] \<rparr>" by (simp add: ws_send_def)
  have "holds (server_after (wc_sent s @ [(i, m)])) i c \<longleftrightarrow> c \<in> set (wc_channels s) \<and> valid_channel c" for c
    unfolding holds_after_snoc using assms(4) [OF i, of c] by (auto split: client_msg.splits)
  then show ?thesis using assms(1-3) i unfolding e agree_inv_def by auto
qed

lemma agree_same:
  "agree_inv s \<Longrightarrow> wc_ws s' = wc_ws s \<Longrightarrow> wc_state s' = wc_state s \<Longrightarrow> wc_next s' = wc_next s \<Longrightarrow>
   wc_sent s' = wc_sent s \<Longrightarrow> wc_channels s' = wc_channels s \<Longrightarrow> agree_inv s'"
  by (simp add: agree_inv_def)

lemma notify_fields [simp]:
  "wc_ws (notify n s) = wc_ws s" "wc_state (notify n s) = wc_state s" "wc_next (notify n s) = wc_next s"
  "wc_sent (notify n s) = wc_sent s" "wc_channels (notify n s) = wc_channels s"
  by (simp_all add: notify_def)

lemma scheduleReconnect_fields [simp]:
  "wc_ws (scheduleReconnect s) = wc_ws s" "wc_state (scheduleReconnect s) = wc_state s" "wc_next (scheduleReconnect s) = wc_next s"
  "wc_sent (scheduleReconnect s) = wc_sent s" "wc_channels (scheduleReconnect s) = wc_channels s"
  by (simp_all add: scheduleReconnect_def)

lemma agree_connect:
  assumes "agree_inv s"
  shows "agree_inv (connect url throws s)"
proof (cases "wc_destroyed s \<or> url = [] \<or> throws")
  case True
  then show ?thesis using assms by (auto simp: connect_def intro: agree_same [OF assms])
next
  case False
  then show ?thesis using assms by (auto simp: connect_def agree_inv_def)
qed

lemma agree_ping: "agree_inv s \<Longrightarrow> agree_inv (ws_send MPing s)"
  by (rule agree_send) (auto simp: agree_inv_def)

lemma agree_open:
  assumes inv: "agree_inv s0" and c: "wc_state s0 i = CONNECTING"
  shows "agree_inv (on_open i s0)"
proof -
  let ?s = "(notify (NStatus True) (s0\<lparr> wc_state := (wc_state s0)(i := OPEN), wc_delay := 1000 \<rparr>))\<lparr> wc_ping := True \<rparr>"
  have lt: "i < wc_next s0" using inv c by (force simp: agree_inv_def not_le)
  have new: "\<not> holds (server_after (wc_sent s0)) i ch" for ch
  proof -
    have "i \<notin> fst ` set (wc_sent s0)" using inv c by (simp add: agree_inv_def)
    then show ?thesis using holds_sent by blast
  qed
  have old: "holds (server_after (wc_sent s0)) j ch \<longleftrightarrow> ch \<in> set (wc_channels s0) \<and> valid_channel ch"
    if "wc_ws s0 = Some j" "wc_state s0 j = OPEN" for j ch using inv that by (simp add: agree_inv_def)
  have 1: "\<forall>j. wc_next ?s \<le> j \<longrightarrow> wc_state ?s j = CLOSED" using inv lt by (auto simp: agree_inv_def)
  have 2: "\<forall>j. wc_ws ?s = Some j \<longrightarrow> j < wc_next ?s \<and> wc_state ?s j \<in> {CONNECTING, OPEN}" using inv by (auto simp: agree_inv_def)
  have 3: "\<forall>j. wc_next ?s \<le> j \<or> wc_state ?s j = CONNECTING \<longrightarrow> j \<notin> fst ` set (wc_sent ?s)"
    using inv by (auto simp: agree_inv_def)
  show ?thesis
  proof (cases "wc_channels s0 = []")
    case True
    have "on_open i s0 = ?s" using True by (simp add: on_open_def sendSubscribe_def Let_def)
    moreover have "\<forall>j. wc_ws ?s = Some j \<longrightarrow> wc_state ?s j = OPEN \<longrightarrow>
        (\<forall>ch. holds (server_after (wc_sent ?s)) j ch \<longleftrightarrow> ch \<in> set (wc_channels ?s) \<and> valid_channel ch)"
      using new old True by (auto split: if_splits)
    ultimately show ?thesis using 1 2 3 unfolding agree_inv_def by metis
  next
    case False
    have e: "on_open i s0 = ws_send (MSubscribe (wc_channels s0)) ?s"
      using False by (simp add: on_open_def sendSubscribe_def Let_def)
    show ?thesis
      unfolding e by (rule agree_send [OF 1 2 3]) (use new old in \<open>auto split: if_splits\<close>)
  qed
qed

lemma agree_subscribe:
  assumes inv: "agree_inv s"
  shows "agree_inv (wsSubscribe url mkt throws s)"
proof -
  let ?s = "s\<lparr> wc_channels := fold set_add (channels_of mkt) (wc_channels s) \<rparr>"
  consider (idle) "url = []" | (opened) "url \<noteq> []" "is_open ?s" | (none) "url \<noteq> []" "\<not> is_open ?s" "wc_ws s = None"
    | (wait) "url \<noteq> []" "\<not> is_open ?s" "wc_ws s \<noteq> None" by blast
  then show ?thesis
  proof cases
    case idle
    with inv show ?thesis by (simp add: wsSubscribe_def)
  next
    case opened
    then have e: "wsSubscribe url mkt throws s = ws_send (MSubscribe (channels_of mkt)) ?s"
      by (simp add: wsSubscribe_def Let_def sendSubscribe_def channels_of_def)
    show ?thesis unfolding e
      by (rule agree_send) (use inv in \<open>auto simp: agree_inv_def set_fold_add\<close>)
  next
    case none
    then have e: "wsSubscribe url mkt throws s = connect url throws (?s\<lparr> wc_destroyed := False \<rparr>)"
      by (simp add: wsSubscribe_def Let_def)
    show ?thesis unfolding e
      by (rule agree_connect) (use inv none in \<open>auto simp: agree_inv_def\<close>)
  next
    case wait
    then have e: "wsSubscribe url mkt throws s = ?s" by (auto simp: wsSubscribe_def Let_def)
    show ?thesis unfolding e using inv wait by (auto simp: agree_inv_def is_open_def split: option.splits)
  qed
qed

lemma agree_unsubscribe:
  assumes inv: "agree_inv s"
  shows "agree_inv (wsUnsubscribe mkt s)"
  unfolding wsUnsubscribe_def by (rule agree_send) (use inv in \<open>auto simp: agree_inv_def\<close>)

lemma agree_close: "agree_inv s \<Longrightarrow> agree_inv (on_close i s)"
  by (auto simp: agree_inv_def on_close_def)

lemma agree_disconnect: "agree_inv s \<Longrightarrow> agree_inv (wsDisconnect s)"
  by (auto simp: agree_inv_def wsDisconnect_def split: option.splits)

lemma agree_timer: "agree_inv s \<Longrightarrow> agree_inv (s\<lparr> wc_timer := None \<rparr>)"
  by (simp add: agree_inv_def)

lemma agree_step:
  assumes "agree_inv s" and "ws_do url e s = Some s'"
  shows "agree_inv s'"
  using assms
  by (cases e) (auto simp: on_message_def handleMessage_def wsReset_def wsSetHandlers_def split: if_splits option.splits
      intro: agree_open agree_close agree_connect agree_timer agree_ping agree_subscribe agree_unsubscribe agree_disconnect agree_same)

lemma agree_reach: "ws_reach url s \<Longrightarrow> agree_inv s"
proof (induction rule: ws_reach.induct)
  case start
  show ?case by (simp add: agree_inv_def ws_init_def)
qed (rule agree_step)

text \<open>
  C19. Client and server agree on the subscriptions: in every state the streaming client can reach, when
  its current socket is open, the server that has processed everything sent to it holds for that socket
  exactly the valid ones of the channels the client wants, through any number of reconnections.
\<close>

theorem stream_subscriptions_agree:
  assumes "ws_reach url s" and "wc_ws s = Some i" and "wc_state s i = OPEN"
  shows "{c. holds (server_after (wc_sent s)) i c} = {c \<in> set (wc_channels s). valid_channel c}"
  using agree_reach [OF assms(1)] assms(2,3) by (auto simp: agree_inv_def)

end
