(* ===== verification/Stream_Correct.thy ===== *)
theory Stream_Correct
  imports Stream_Server
begin

text \<open>
  The trades channel delivers every trade at most once and in time order: over any interleaving of client
  messages, disconnections and broadcasts, what a broadcast sends to a socket is newer than everything
  sent to it before. Together with \<open>stream_subscriptions_agree\<close> this is what a subscriber may rely on.
\<close>

subsection \<open>What was sent\<close>

definition trades_of :: "nat \<Rightarrow> int \<Rightarrow> (nat \<times> string \<times> server_msg) list \<Rightarrow> trade list" where
  "trades_of w mkt l = List.map_filter (\<lambda>(w', c, m). case m of STrade mkt' t \<Rightarrow> if w' = w \<and> mkt' = mkt then Some t else None | _ \<Rightarrow> None) l"

lemma trades_of_append [simp]: "trades_of w mkt (l @ l') = trades_of w mkt l @ trades_of w mkt l'"
  by (simp add: trades_of_def map_filter_def)

lemma trades_of_Nil [simp]: "trades_of w mkt [] = []"
  by (simp add: trades_of_def)

lemma trades_of_Cons: "trades_of w mkt ((x, c, m) # l) = (case m of
     STrade mkt' t \<Rightarrow> if x = w \<and> mkt' = mkt then t # trades_of w mkt l else trades_of w mkt l | _ \<Rightarrow> trades_of w mkt l)"
  by (simp add: trades_of_def map_filter_def split: server_msg.splits)

lemma trades_of_other: "(\<And>t. m \<noteq> STrade mkt t) \<Longrightarrow> trades_of w mkt (map (\<lambda>x. (x, c, m)) ws) = []"
  by (induction ws) (auto simp: trades_of_Cons split: server_msg.splits)

lemma trades_of_one: "set (trades_of w mkt (map (\<lambda>x. (x, c, STrade mkt' t)) ws)) \<subseteq> {t} \<and>
   sorted (map t_timestamp (trades_of w mkt (map (\<lambda>x. (x, c, STrade mkt' t)) ws)))"
proof (induction ws)
  case (Cons x ws)
  then show ?case by (auto simp: trades_of_Cons)
qed simp

lemma broadcast_to_sent:
  "\<exists>ws. sv_sent (broadcast_to alive c m sv) = sv_sent sv @ map (\<lambda>w. (w, c, m)) ws \<and>
     sv_lastTs (broadcast_to alive c m sv) = sv_lastTs sv"
  by (auto simp: broadcast_to_def split: option.splits intro: exI [of _ "[]"])

text \<open>Broadcasting a list of trades in time order sends each socket trades of the list, in time order.\<close>

lemma broadcast_list:
  assumes "sorted (map t_timestamp ts)"
  shows "\<exists>new. trades_of w mkt (sv_sent (foldl (\<lambda>sv t. broadcast_to alive c (STrade mkt' t) sv) sv ts)) = trades_of w mkt (sv_sent sv) @ new \<and>
     set new \<subseteq> set ts \<and> sorted (map t_timestamp new) \<and> (mkt' \<noteq> mkt \<longrightarrow> new = []) \<and>
     sv_lastTs (foldl (\<lambda>sv t. broadcast_to alive c (STrade mkt' t) sv) sv ts) = sv_lastTs sv"
  using assms
proof (induction ts arbitrary: sv)
  case (Cons t ts)
  let ?sv1 = "broadcast_to alive c (STrade mkt' t) sv"
  obtain ws where ws: "sv_sent ?sv1 = sv_sent sv @ map (\<lambda>w. (w, c, STrade mkt' t)) ws" "sv_lastTs ?sv1 = sv_lastTs sv"
    using broadcast_to_sent by blast
  let ?one = "trades_of w mkt (map (\<lambda>w. (w, c, STrade mkt' t)) ws)"
  obtain new where new: "trades_of w mkt (sv_sent (foldl (\<lambda>sv t. broadcast_to alive c (STrade mkt' t) sv) ?sv1 ts)) = trades_of w mkt (sv_sent ?sv1) @ new"
    "set new \<subseteq> set ts" "sorted (map t_timestamp new)" "mkt' \<noteq> mkt \<longrightarrow> new = []"
    "sv_lastTs (foldl (\<lambda>sv t. broadcast_to alive c (STrade mkt' t) sv) ?sv1 ts) = sv_lastTs ?sv1"
    using Cons.IH [of ?sv1] Cons.prems by auto
  have one: "set ?one \<subseteq> {t}" "sorted (map t_timestamp ?one)" "mkt' \<noteq> mkt \<longrightarrow> ?one = []"
    using trades_of_one [of w mkt c mkt' t ws] trades_of_other [of "STrade mkt' t" mkt w c ws] by auto
  have "sorted (map t_timestamp (?one @ new))"
    using one new(2,3) Cons.prems by (fastforce simp: sorted_append)
  then show ?case
    using one new ws by (intro exI [of _ "?one @ new"]) auto
qed simp

subsection \<open>Recent trades\<close>

lemma recent_sorted: "sorted_wrt (\<lambda>a b. t_timestamp b \<le> t_timestamp a) (fetchRecentTrades mkt n d)"
proof -
  have ok: "cmp_ok (\<lambda>a b. f_createdAt b - f_createdAt a)" by (auto simp: cmp_ok_def)
  have "sorted_wrt (\<lambda>a b. f_createdAt b - f_createdAt a \<le> 0) (recent_fills mkt n d)"
    unfolding recent_fills_def by (intro sorted_wrt_take js_sorting.ordered [OF ok])
  then show ?thesis by (simp add: fetchRecentTrades_def sorted_wrt_map trade_of_def)
qed

lemma sorted_wrt_filter_rev:
  "sorted_wrt (\<lambda>a b. t_timestamp b \<le> t_timestamp a) ts \<Longrightarrow> sorted (map t_timestamp (rev (filter P ts)))"
  by (induction ts) (auto simp: sorted_append)

definition last_ts :: "ws_server \<Rightarrow> int \<Rightarrow> int" where
  "last_ts sv mkt = (case map_get (sv_lastTs sv) mkt of None \<Rightarrow> 0 | Some t \<Rightarrow> t)"

text \<open>One broadcast: what it adds for a socket, and the high-water mark of the market.\<close>

lemma broadcast_trades_new:
  assumes "sorted_wrt (\<lambda>a b. t_timestamp b \<le> t_timestamp a) ts"
  shows "\<exists>new. trades_of w mkt (sv_sent (broadcast_trades alive mkt' ts sv)) = trades_of w mkt (sv_sent sv) @ new \<and>
    sorted (map t_timestamp new) \<and> (mkt' \<noteq> mkt \<longrightarrow> new = []) \<and>
    (\<forall>t \<in> set new. last_ts sv mkt < t_timestamp t \<and> t_timestamp t \<le> last_ts (broadcast_trades alive mkt' ts sv) mkt) \<and>
    last_ts sv mkt \<le> last_ts (broadcast_trades alive mkt' ts sv) mkt"
proof -
  let ?new = "filter (\<lambda>t. last_ts sv mkt' < t_timestamp t) ts"
  show ?thesis
  proof (cases "?new = []")
    case True
    then show ?thesis by (intro exI [of _ "[]"]) (simp add: broadcast_trades_def last_ts_def [symmetric] Let_def)
  next
    case False
    let ?sv1 = "sv\<lparr> sv_lastTs := map_set (sv_lastTs sv) mkt' (t_timestamp (hd ?new)) \<rparr>"
    have b: "broadcast_trades alive mkt' ts sv = foldl (\<lambda>sv t. broadcast_to alive (tr_channel mkt') (STrade mkt' t) sv) ?sv1 (rev ?new)"
      using False by (simp add: broadcast_trades_def last_ts_def [symmetric] Let_def)
    obtain new where new: "trades_of w mkt (sv_sent (broadcast_trades alive mkt' ts sv)) = trades_of w mkt (sv_sent ?sv1) @ new"
      "set new \<subseteq> set (rev ?new)" "sorted (map t_timestamp new)" "mkt' \<noteq> mkt \<longrightarrow> new = []"
      "sv_lastTs (broadcast_trades alive mkt' ts sv) = sv_lastTs ?sv1"
      using broadcast_list [OF sorted_wrt_filter_rev [OF assms], of w mkt alive "tr_channel mkt'" mkt' ?sv1] unfolding b by blast
    have "sorted_wrt (\<lambda>a b. t_timestamp b \<le> t_timestamp a) ?new" using assms by (rule sorted_wrt_filter)
    then have hd: "\<forall>t \<in> set ?new. t_timestamp t \<le> t_timestamp (hd ?new)" by (cases ?new) auto
    have hd_in: "last_ts sv mkt' < t_timestamp (hd ?new)" using False hd_in_set [of ?new] by auto
    have l: "last_ts (broadcast_trades alive mkt' ts sv) m = (if m = mkt' then t_timestamp (hd ?new) else last_ts sv m)" for m
      by (simp add: last_ts_def new(5) map_get_set)
    show ?thesis
      using new hd hd_in by (intro exI [of _ new]) (auto simp: l)
  qed
qed

lemma broadcastMarket_new:
  "\<exists>new. trades_of w mkt (sv_sent (broadcastMarket alive now bf tf d mkt' sv)) = trades_of w mkt (sv_sent sv) @ new \<and>
    sorted (map t_timestamp new) \<and>
    (\<forall>t \<in> set new. last_ts sv mkt < t_timestamp t \<and> t_timestamp t \<le> last_ts (broadcastMarket alive now bf tf d mkt' sv) mkt) \<and>
    last_ts sv mkt \<le> last_ts (broadcastMarket alive now bf tf d mkt' sv) mkt"
proof -
  define sv1 where "sv1 = (if subscribers (sv_subs sv) (ob_channel mkt') \<noteq> []
    then broadcast_to alive (ob_channel mkt') (SBook mkt' (fetchOrderBook now mkt' d)) sv else sv)"
  have s1: "trades_of w mkt (sv_sent sv1) = trades_of w mkt (sv_sent sv)" "last_ts sv1 mkt = last_ts sv mkt"
    using broadcast_to_sent [of alive "ob_channel mkt'" "SBook mkt' (fetchOrderBook now mkt' d)" sv]
    by (auto simp: sv1_def trades_of_other last_ts_def)
  have "broadcastMarket alive now bf tf d mkt' sv =
      (if subscribers (sv_subs sv) (ob_channel mkt') = [] \<and> subscribers (sv_subs sv) (tr_channel mkt') = [] then sv
       else if subscribers (sv_subs sv) (ob_channel mkt') \<noteq> [] \<and> bf then sv
       else if subscribers (sv_subs sv) (tr_channel mkt') = [] \<or> tf then sv1
       else broadcast_trades alive mkt' (fetchRecentTrades mkt' 10 d) sv1)"
    by (simp add: broadcastMarket_def Let_def sv1_def)
  then consider "broadcastMarket alive now bf tf d mkt' sv = sv" | "broadcastMarket alive now bf tf d mkt' sv = sv1"
    | "broadcastMarket alive now bf tf d mkt' sv = broadcast_trades alive mkt' (fetchRecentTrades mkt' 10 d) sv1"
    by metis
  then show ?thesis
  proof cases
    case 1
    then show ?thesis by (intro exI [of _ "[]"]) simp
  next
    case 2
    then show ?thesis using s1 by (intro exI [of _ "[]"]) simp
  next
    case 3
    then show ?thesis
      using broadcast_trades_new [OF recent_sorted, of w mkt alive mkt' mkt' 10 d sv1] s1 by auto
  qed
qed

subsection \<open>Runs of the server\<close>

inductive sv_reach :: "ws_server \<Rightarrow> bool" where
  start: "sv_reach sv_init"
| message: "sv_reach sv \<Longrightarrow> sv_reach (on_client_message w msg sv)"
| gone: "sv_reach sv \<Longrightarrow> sv_reach (on_client_gone w sv)"
| broadcast: "sv_reach sv \<Longrightarrow> sv_reach (broadcastMarket alive now bf tf d mkt sv)"

lemma message_trades: "trades_of w mkt (sv_sent (on_client_message w' msg sv)) = trades_of w mkt (sv_sent sv)
   \<and> sv_lastTs (on_client_message w' msg sv) = sv_lastTs sv"
proof -
  have o: "trades_of w mkt [(w', [], m)] = []" if "\<And>t. m \<noteq> STrade mkt t" for m
    using trades_of_other [OF that, of w "[]" "[w']"] by simp
  show ?thesis by (auto simp: on_client_message_def Let_def o split: option.splits json.splits)
qed

lemma sent_below_mark: "sv_reach sv \<Longrightarrow> \<forall>t \<in> set (trades_of w mkt (sv_sent sv)). t_timestamp t \<le> last_ts sv mkt"
proof (induction rule: sv_reach.induct)
  case start
  show ?case by (simp add: sv_init_def)
next
  case (message sv w' msg)
  then show ?case using message_trades [of w mkt w' msg sv] by (simp add: last_ts_def)
next
  case (gone sv w')
  then show ?case by (simp add: on_client_gone_def last_ts_def)
next
  case (broadcast sv alive now bf tf d mkt')
  obtain new where n: "trades_of w mkt (sv_sent (broadcastMarket alive now bf tf d mkt' sv)) = trades_of w mkt (sv_sent sv) @ new"
    "\<forall>t \<in> set new. t_timestamp t \<le> last_ts (broadcastMarket alive now bf tf d mkt' sv) mkt"
    "last_ts sv mkt \<le> last_ts (broadcastMarket alive now bf tf d mkt' sv) mkt"
    using broadcastMarket_new [of w mkt alive now bf tf d mkt' sv] by blast
  then show ?case using broadcast.IH by fastforce
qed

text \<open>
  C20. Trades are streamed once and in order: in every reachable state of the server, the trades a
  broadcast adds for a socket and a market come in time order, and each is newer than every trade of the
  market sent to that socket before.
\<close>

theorem trades_streamed_once:
  assumes "sv_reach sv"
  shows "\<exists>new. trades_of w mkt (sv_sent (broadcastMarket alive now bf tf d mkt' sv)) = trades_of w mkt (sv_sent sv) @ new \<and>
    sorted (map t_timestamp new) \<and> (\<forall>t \<in> set new. \<forall>t' \<in> set (trades_of w mkt (sv_sent sv)). t_timestamp t' < t_timestamp t)"
proof -
  obtain new where n: "trades_of w mkt (sv_sent (broadcastMarket alive now bf tf d mkt' sv)) = trades_of w mkt (sv_sent sv) @ new"
    "sorted (map t_timestamp new)" "\<forall>t \<in> set new. last_ts sv mkt < t_timestamp t"
    using broadcastMarket_new [of w mkt alive now bf tf d mkt' sv] by blast
  then show ?thesis using sent_below_mark [OF assms, of w mkt] by (intro exI [of _ new]) fastforce
qed

subsection \<open>Witnesses\<close>

theorem stream_subscriptions_agree_witness:
  "\<exists>s. ws_reach ''wss'' s \<and> wc_ws s = Some 0 \<and> {c. holds (server_after (wc_sent s)) 0 c} = {c \<in> set (wc_channels s). valid_channel c}"
proof -
  have "\<exists>s. ws_run ''wss'' [CallSubscribe 1 False, EvOpen 0, CallUnsubscribe 1, CallSubscribe 2 False] ws_init = Some s
      \<and> wc_ws s = Some 0 \<and> wc_state s 0 = OPEN"
    by (simp add: ws_defs ws_init_def is_open_def Let_def channels_of_def set_add_def)
  then obtain s where r: "ws_run ''wss'' [CallSubscribe 1 False, EvOpen 0, CallUnsubscribe 1, CallSubscribe 2 False] ws_init = Some s"
    and i: "wc_ws s = Some 0" "wc_state s 0 = OPEN" by blast
  have "ws_reach ''wss'' s" using ws_run_reach [OF ws_reach.start r] .
  then show ?thesis using stream_subscriptions_agree [of "''wss''" s 0] i by blast
qed

definition example_fill :: "int \<Rightarrow> fill_row" where
  "example_fill t = \<lparr> f_network = ''testnet'', f_marketId = 1, f_maker = ''GA'', f_makerNonce = 2, f_taker = ''GB'',
     f_takerNonce = 3, f_size = 5, f_price = 7, f_txHash = ''h'', f_ledger = 0, f_createdAt = t \<rparr>"

definition example_streaming :: "int list \<Rightarrow> ws_server \<Rightarrow> ws_server" where
  "example_streaming ts sv = broadcastMarket (\<lambda>_. True) 0 False False (empty_db\<lparr> db_fills := map example_fill ts \<rparr>) 1 sv"

theorem trades_streamed_once_witness:
  "\<exists>new. trades_of 4 1 (sv_sent (example_streaming [10, 20, 30] (example_streaming [10, 20] (on_client_message 4 (client_json (MSubscribe [''trades:1''])) sv_init))))
     = trades_of 4 1 (sv_sent (example_streaming [10, 20] (on_client_message 4 (client_json (MSubscribe [''trades:1''])) sv_init))) @ new
     \<and> sorted (map t_timestamp new)"
proof -
  have "sv_reach (example_streaming [10, 20] (on_client_message 4 (client_json (MSubscribe [''trades:1''])) sv_init))"
    unfolding example_streaming_def by (intro sv_reach.intros)
  from trades_streamed_once [OF this, of 4 1 "\<lambda>_. True" 0 False False "empty_db\<lparr> db_fills := map example_fill [10, 20, 30] \<rparr>" 1]
  show ?thesis unfolding example_streaming_def [of "[10, 20, 30]"] by blast
qed

text \<open>
  The other direction fails: a fill that arrives later with the same timestamp as the last one sent is
  never streamed.
\<close>

lemma equal_timestamp_skipped:
  "filter (\<lambda>t. last_ts sv mkt < t_timestamp t) [trade_of (example_fill (last_ts sv mkt))] = []"
  by (simp add: trade_of_def example_fill_def)

end
