(* ===== verification/Stats_Correct.thy ===== *)
theory Stats_Correct
  imports Trading_Stats
begin

text \<open>
  What the statistics rest on: a fill is booked exactly once however often its booking is retried, and the
  two independent roll-ups of the all-time figures of an account agree with each other and with the fills
  and events they summarize.
\<close>

subsection \<open>Booking a fill\<close>

definition undated :: "pnl_event \<Rightarrow> pnl_event" where
  "undated e = e\<lparr> pe_createdAt := 0 \<rparr>"

lemma pe_key_undated [simp]: "pe_key (undated e) = pe_key e"
  by (simp add: pe_key_def undated_def)

lemma fill_events_undated: "map undated (fill_events net now a) = map undated (fill_events net 0 a)"
  by (simp add: fill_events_def side_events_def Let_def undated_def)

lemma fill_events_keys: "distinct (map pe_key (fill_events net now a))"
  by (auto simp: fill_events_def side_events_def Let_def pe_key_def)

lemma fill_events_length: "length (fill_events net now a) \<le> 4"
  by (simp add: fill_events_def side_events_def Let_def)

text \<open>The reference keys of a fill's events.\<close>

definition fill_refs :: "fill_args \<Rightarrow> string set" where
  "fill_refs a = (\<lambda>t. fa_txHash a @ t) ` {'':maker'', '':maker:fee'', '':taker'', '':taker:fee''}"

lemma fill_events_refs: "e \<in> set (fill_events net now a) \<Longrightarrow> pe_network e = net \<and> pe_refKey e \<in> fill_refs a"
  by (auto simp: fill_events_def side_events_def Let_def fill_refs_def split: if_splits)

lemma insert_pnl_rows: "insert_pnl t e = (if pe_key e \<in> pe_key ` set t then t else t @ [e])"
proof -
  have "(\<exists>x \<in> set t. pe_key x = pe_key e) \<longleftrightarrow> pe_key e \<in> pe_key ` set t" by (metis imageE imageI)
  then show ?thesis by (simp add: insert_pnl_def insert_unless_rows)
qed

lemma insert_prefix:
  assumes d: "distinct (map pe_key es)" and b: "\<forall>e \<in> set es. pe_key e \<notin> pe_key ` set base"
    and m: "map undated added = take m (map undated es)"
  shows "\<exists>added'. foldl insert_pnl (base @ added) (take n es) = base @ added' \<and> map undated added' = take (max m n) (map undated es)"
proof (induction n)
  case 0
  then show ?case using m by auto
next
  case (Suc n)
  then obtain added' where ad: "foldl insert_pnl (base @ added) (take n es) = base @ added'"
    "map undated added' = take (max m n) (map undated es)" by blast
  have keys: "pe_key ` set added' = pe_key ` set (take (max m n) es)"
    using arg_cong [OF ad(2), of "\<lambda>l. pe_key ` set l"] by (simp add: image_image take_map)
  show ?case
  proof (cases "n < length es")
    case False
    then show ?thesis using ad by auto
  next
    case True
    then have f: "foldl insert_pnl (base @ added) (take (Suc n) es) = insert_pnl (base @ added') (es ! n)"
      using ad(1) by (simp add: take_Suc_conv_app_nth)
    have nb: "pe_key (es ! n) \<notin> pe_key ` set base" using b True by simp
    show ?thesis
    proof (cases "n < m")
      case less: True
      have "es ! n \<in> set (take (max m n) es)" using True less by (auto simp: in_set_conv_nth intro!: exI [of _ n])
      then have "pe_key (es ! n) \<in> pe_key ` set added'" unfolding keys by blast
      then have "insert_pnl (base @ added') (es ! n) = base @ added'" by (simp add: insert_pnl_rows image_Un)
      then show ?thesis using f ad(2) less by (intro exI [of _ added']) simp
    next
      case ge: False
      have "pe_key (es ! n) \<notin> pe_key ` set (take n es)"
      proof
        assume "pe_key (es ! n) \<in> pe_key ` set (take n es)"
        then obtain i where "i < n" "pe_key (es ! n) = pe_key (es ! i)" by (auto simp: in_set_conv_nth)
        then show False using d True by (auto simp: distinct_conv_nth)
      qed
      then have "pe_key (es ! n) \<notin> pe_key ` set (base @ added')" using nb keys ge by (auto simp: max_def)
      then have "insert_pnl (base @ added') (es ! n) = base @ (added' @ [es ! n])" by (simp add: insert_pnl_rows)
      then show ?thesis
        using f ad(2) ge True by (intro exI [of _ "added' @ [es ! n]"]) (simp add: max_def take_Suc_conv_app_nth)
    qed
  qed
qed

definition attempts :: "string \<Rightarrow> fill_args \<Rightarrow> (int \<times> nat) list \<Rightarrow> stats_db \<Rightarrow> stats_db" where
  "attempts net a ts d = foldl (\<lambda>d (now, n). recordFillPnl net now a n d) d ts"

lemma attempts_prefix:
  assumes "\<forall>e \<in> set (sd_pnl d). pe_network e = net \<longrightarrow> pe_refKey e \<notin> fill_refs a"
    and "base = sd_pnl d" and "map undated added = take m (map undated (fill_events net 0 a))" and "sd_pnl d' = base @ added"
  shows "\<exists>added' m'. sd_pnl (attempts net a ts d') = base @ added' \<and> map undated added' = take m' (map undated (fill_events net 0 a))"
  using assms(3,4)
proof (induction ts arbitrary: d' added m)
  case Nil
  then show ?case by (auto simp: attempts_def)
next
  case (Cons x ts)
  obtain now n where x: "x = (now, n)" by force
  have "\<forall>e \<in> set (fill_events net now a). pe_key e \<notin> pe_key ` set base"
    using assms(1,2) fill_events_refs [of _ net now a] by (fastforce simp: pe_key_def)
  then obtain added' where ad: "foldl insert_pnl (base @ added) (take n (fill_events net now a)) = base @ added'"
    "map undated added' = take (max m n) (map undated (fill_events net now a))"
    using insert_prefix [OF fill_events_keys, of net now a base added m n] Cons.prems(1) fill_events_undated [of net now a] by auto
  have "sd_pnl (recordFillPnl net now a n d') = base @ added'" using Cons.prems(2) ad(1) by (simp add: recordFillPnl_def)
  moreover have "map undated added' = take (max m n) (map undated (fill_events net 0 a))"
    using ad(2) fill_events_undated [of net now a] by simp
  moreover have "attempts net a (x # ts) d' = attempts net a ts (recordFillPnl net now a n d')" by (simp add: attempts_def x)
  ultimately show ?case using Cons.IH by metis
qed

definition booked :: "string \<Rightarrow> string \<Rightarrow> pnl_kind \<Rightarrow> stats_db \<Rightarrow> int" where
  "booked net addr k d = sum_kind k (filter (\<lambda>e. pe_network e = net \<and> pe_address e = addr) (sd_pnl d))"

lemma sum_kind_append [simp]: "sum_kind k (xs @ ys) = sum_kind k xs + sum_kind k ys"
  by (simp add: sum_kind_def)

lemma sum_kind_undated: "sum_kind k (filter (\<lambda>e. pe_network e = net \<and> pe_address e = addr) es)
   = sum_kind k (filter (\<lambda>e. pe_network e = net \<and> pe_address e = addr) (map undated es))"
  by (induction es) (auto simp: sum_kind_def undated_def)

text \<open>
  C21. A fill is booked exactly once: after any number of attempts that stopped at any statement, a
  complete call leaves the realized profit and the fees booked for every account exactly what they were
  before plus what this fill realizes and costs it, provided the fill's reference keys were unused.
\<close>

theorem fill_booked_once:
  fixes ts :: "(int \<times> nat) list" and now :: int
  assumes fresh: "\<forall>e \<in> set (sd_pnl d). pe_network e = net \<longrightarrow> pe_refKey e \<notin> fill_refs a"
  defines "d' \<equiv> recordFillPnl net now a 4 (attempts net a ts d)"
  shows "booked net addr REALIZED_TRADE d' = booked net addr REALIZED_TRADE d
      + (if fs_address (fa_maker a) = addr then side_realized a (fa_maker a) else 0)
      + (if fs_address (fa_taker a) = addr then side_realized a (fa_taker a) else 0) \<and>
    booked net addr FEE d' = booked net addr FEE d
      - (if fs_address (fa_maker a) = addr then max 0 (fs_fee (fa_maker a)) else 0)
      - (if fs_address (fa_taker a) = addr then max 0 (fs_fee (fa_taker a)) else 0)"
proof -
  obtain added m where ad: "sd_pnl (attempts net a ts d) = sd_pnl d @ added" "map undated added = take m (map undated (fill_events net 0 a))"
    using attempts_prefix [OF fresh refl, of "[]" 0 d ts] by auto
  have "\<forall>e \<in> set (fill_events net now a). pe_key e \<notin> pe_key ` set (sd_pnl d)"
    using fresh fill_events_refs [of _ net now a] by (fastforce simp: pe_key_def)
  then obtain added' where ad': "foldl insert_pnl (sd_pnl d @ added) (take 4 (fill_events net now a)) = sd_pnl d @ added'"
    "map undated added' = take (max m 4) (map undated (fill_events net now a))"
    using insert_prefix [OF fill_events_keys, of net now a "sd_pnl d" added m 4] ad(2) fill_events_undated [of net now a] by auto
  have "map undated added' = map undated (fill_events net now a)"
    using ad'(2) fill_events_length [of net now a] by simp
  then have sums: "booked net addr k d' = booked net addr k d
      + sum_kind k (filter (\<lambda>e. pe_network e = net \<and> pe_address e = addr) (fill_events net now a))" for k
    using ad(1) ad'(1) sum_kind_undated [of k net addr added'] sum_kind_undated [of k net addr "fill_events net now a"]
    by (simp add: booked_def d'_def recordFillPnl_def)
  show ?thesis unfolding sums
    by (auto simp: fill_events_def side_events_def Let_def sum_kind_def)
qed

subsection \<open>Upserts\<close>

text \<open>A table written by upserts that keep the key and the columns \<open>view\<close> looks at.\<close>

locale upsert_table =
  fixes key :: "'r \<Rightarrow> 'k" and merge :: "'r \<Rightarrow> 'r \<Rightarrow> 'r" and view :: "'r \<Rightarrow> 'v"
  assumes key_merge: "key (merge n r) = key n" and view_merge: "view (merge n r) = view n"
begin

lemma find_upsert_other: "key n \<noteq> k \<Longrightarrow> find_row (\<lambda>r. key r = k) (upsert key merge t n) = find_row (\<lambda>r. key r = k) t"
proof (cases "\<exists>r \<in> set t. key r = key n")
  case True
  assume k: "key n \<noteq> k"
  have "find_row (\<lambda>r. key r = k) (update_where (\<lambda>r. key r = key n) (merge n) t) = find_row (\<lambda>r. key r = k) t"
    using k by (induction t) (auto simp: key_merge)
  then show ?thesis using True by (simp add: upsert_def)
next
  case False
  assume k: "key n \<noteq> k"
  have "find_row (\<lambda>r. key r = k) (t @ [n]) = find_row (\<lambda>r. key r = k) t" using k by (induction t) auto
  then show ?thesis using False by (simp add: upsert_def)
qed

lemma find_upsert_self: "\<exists>r. find_row (\<lambda>r. key r = key n) (upsert key merge t n) = Some r \<and> view r = view n"
proof -
  have "\<exists>r. find_row (\<lambda>r. key r = key n) (update_where (\<lambda>r. key r = key n) (merge n) t) = Some r \<and> view r = view n"
    if "\<exists>r \<in> set t. key r = key n" using that by (induction t) (auto simp: key_merge view_merge)
  moreover have "find_row (\<lambda>r. key r = key n) (t @ [n]) = Some n" if "\<not> (\<exists>r \<in> set t. key r = key n)"
    using that by (induction t) auto
  ultimately show ?thesis by (auto simp: upsert_def)
qed

lemma find_upserts_other:
  "k \<notin> key ` set ns \<Longrightarrow> find_row (\<lambda>r. key r = k) (foldl (upsert key merge) t ns) = find_row (\<lambda>r. key r = k) t"
  by (induction ns arbitrary: t) (auto simp: find_upsert_other)

lemma find_upserts:
  assumes "distinct (map key ns)" and "n \<in> set ns"
  shows "\<exists>r. find_row (\<lambda>r. key r = key n) (foldl (upsert key merge) t ns) = Some r \<and> view r = view n"
  using assms
proof (induction ns arbitrary: t)
  case (Cons m ns)
  show ?case
  proof (cases "n = m")
    case True
    then have "find_row (\<lambda>r. key r = key n) (foldl (upsert key merge) t (m # ns)) = find_row (\<lambda>r. key r = key n) (upsert key merge t n)"
      using Cons.prems(1) find_upserts_other [of "key n" ns] by simp
    then show ?thesis using find_upsert_self by simp
  next
    case False
    then show ?thesis using Cons by simp
  qed
qed simp

end

definition ts_view :: "trader_stat \<Rightarrow> trader_stat" where
  "ts_view s = s\<lparr> ts_periodStart := 0 \<rparr>"

definition aa_view :: "account_analytics \<Rightarrow> account_analytics" where
  "aa_view r = r\<lparr> aa_firstTradeAt := None \<rparr>"

interpretation stats: upsert_table ts_key ts_merge ts_view
  by unfold_locales (simp_all add: ts_key_def ts_merge_def ts_view_def)

interpretation analytics: upsert_table aa_key aa_merge aa_view
  by unfold_locales (simp_all add: aa_key_def aa_merge_def aa_view_def)

subsection \<open>Grouped rows\<close>

text \<open>What the database promises of a grouping: each value once.\<close>

definition groups_ok :: "(string list \<Rightarrow> string list) \<Rightarrow> bool" where
  "groups_ok grp \<longleftrightarrow> (\<forall>xs. set (grp xs) = set xs \<and> distinct (grp xs))"

lemma groups_okD: "groups_ok grp \<Longrightarrow> set (grp xs) = set xs" "groups_ok grp \<Longrightarrow> distinct (grp xs)"
  by (simp_all add: groups_ok_def)

lemma find_row_map: "distinct as \<Longrightarrow> (\<And>a. key (f a) = a) \<Longrightarrow>
   find_row (\<lambda>r. key r = a) (map f as) = (if a \<in> set as then Some (f a) else None)"
  by (induction as) auto

lemma vol_address [simp]: "vr_address (vol_row_of ndiv a fs) = a"
  by (simp add: vol_row_of_def)

lemma pnl_address [simp]: "pr_address (pnl_row_of a es) = a"
  by (simp add: pnl_row_of_def)

lemma group_legs_find: "groups_ok grp \<Longrightarrow> find_row (\<lambda>r. vr_address r = a) (group_legs grp ndiv legs) =
   (if a \<in> fst ` set legs then Some (vol_row_of ndiv a (map snd (filter (\<lambda>l. fst l = a) legs))) else None)"
  unfolding group_legs_def by (subst find_row_map) (auto simp: groups_okD)

lemma group_events_find: "groups_ok grp \<Longrightarrow> find_row (\<lambda>r. pr_address r = a) (group_events grp es) =
   (if a \<in> pe_address ` set es then Some (pnl_row_of a (filter (\<lambda>e. pe_address e = a) es)) else None)"
  unfolding group_events_def by (subst find_row_map) (auto simp: groups_okD)

lemma group_legs_keys: "groups_ok grp \<Longrightarrow> distinct (map vr_address (group_legs grp ndiv legs)) \<and>
   vr_address ` set (group_legs grp ndiv legs) = fst ` set legs"
  by (simp add: group_legs_def groups_okD comp_def image_image)

lemma group_events_keys: "groups_ok grp \<Longrightarrow> distinct (map pr_address (group_events grp es)) \<and>
   pr_address ` set (group_events grp es) = pe_address ` set es"
  by (simp add: group_events_def groups_okD comp_def image_image)

subsection \<open>The object of an address\<close>

lemma agg_assign_vol: "agg_of (assign_vol m r) a = (if a = vr_address r then (Some r, snd (agg_of m a)) else agg_of m a)"
  by (simp add: agg_of_def assign_vol_def map_get_set)

lemma agg_assign_pnl: "agg_of (assign_pnl m r) a = (if a = pr_address r then (fst (agg_of m a), Some r) else agg_of m a)"
  by (simp add: agg_of_def assign_pnl_def map_get_set)

lemma agg_vols: "distinct (map vr_address vol) \<Longrightarrow> agg_of (foldl assign_vol m vol) a =
   (case find_row (\<lambda>r. vr_address r = a) vol of None \<Rightarrow> agg_of m a | Some r \<Rightarrow> (Some r, snd (agg_of m a)))"
proof (induction vol arbitrary: m)
  case (Cons r vol)
  have "find_row (\<lambda>x. vr_address x = vr_address r) vol = None" using Cons.prems by (simp add: find_row_None image_iff) metis
  then show ?case using Cons by (auto simp: agg_assign_vol split: option.splits)
qed simp

lemma agg_pnls: "distinct (map pr_address pnl) \<Longrightarrow> agg_of (foldl assign_pnl m pnl) a =
   (case find_row (\<lambda>r. pr_address r = a) pnl of None \<Rightarrow> agg_of m a | Some r \<Rightarrow> (fst (agg_of m a), Some r))"
proof (induction pnl arbitrary: m)
  case (Cons r pnl)
  have "find_row (\<lambda>x. pr_address x = pr_address r) pnl = None" using Cons.prems by (simp add: find_row_None image_iff) metis
  then show ?case using Cons by (auto simp: agg_assign_pnl split: option.splits)
qed simp

lemma agg_byAddr:
  assumes "distinct (map vr_address vol)" and "distinct (map pr_address pnl)"
  shows "agg_of (byAddr vol pnl) a = (find_row (\<lambda>r. vr_address r = a) vol, find_row (\<lambda>r. pr_address r = a) pnl)"
proof -
  have "agg_of [] a = (None, None)" by (simp add: agg_of_def)
  then show ?thesis by (simp add: byAddr_def agg_vols [OF assms(1)] agg_pnls [OF assms(2)] split: option.splits)
qed

lemma byAddr_inv: "map_inv (byAddr vol pnl)"
proof -
  have "map_inv (foldl assign_vol m vol)" if "map_inv m" for m
    using that by (induction vol arbitrary: m) (simp_all add: assign_vol_def map_inv_set)
  moreover have "map_inv (foldl assign_pnl m pnl)" if "map_inv m" for m
    using that by (induction pnl arbitrary: m) (simp_all add: assign_pnl_def map_inv_set)
  ultimately show ?thesis by (simp add: byAddr_def)
qed

lemma byAddr_entry:
  assumes "distinct (map vr_address vol)" and "distinct (map pr_address pnl)"
    and "find_row (\<lambda>r. vr_address r = a) vol \<noteq> None \<or> find_row (\<lambda>r. pr_address r = a) pnl \<noteq> None"
  shows "(a, find_row (\<lambda>r. vr_address r = a) vol, find_row (\<lambda>r. pr_address r = a) pnl) \<in> set (byAddr vol pnl)"
proof -
  have g: "agg_of (byAddr vol pnl) a = (find_row (\<lambda>r. vr_address r = a) vol, find_row (\<lambda>r. pr_address r = a) pnl)"
    using agg_byAddr [OF assms(1,2)] .
  then have "map_get (byAddr vol pnl) a \<noteq> None"
    using assms(3) by (cases "map_get (byAddr vol pnl) a") (auto simp: agg_of_def)
  then have "map_get (byAddr vol pnl) a = Some (agg_of (byAddr vol pnl) a)" by (simp add: agg_of_def split: option.splits)
  then show ?thesis unfolding g map_get_def by (rule map_of_SomeD)
qed

subsection \<open>A run of the aggregator\<close>

lemma aggregatePeriod_keeps:
  "db_fills (snd (aggregatePeriod grp ndiv net p t d)) = db_fills d"
  "sd_pnl (snd (aggregatePeriod grp ndiv net p t d)) = sd_pnl d"
  "sd_balance (snd (aggregatePeriod grp ndiv net p t d)) = sd_balance d"
  "sd_analytics (snd (aggregatePeriod grp ndiv net p t d)) = sd_analytics d"
  by (simp_all add: aggregatePeriod_def Let_def)

lemma aggregatePeriod_stats: "sd_stats (snd (aggregatePeriod grp ndiv net p t d)) = foldl (upsert ts_key ts_merge) (sd_stats d)
    (map (\<lambda>(a, g). stat_row net p t (depositStats grp net d) a g) (byAddr (volumeStats grp ndiv net t d) (pnlStats grp net t d)))"
  by (simp add: aggregatePeriod_def Let_def)

lemma ts_key_stat_row: "ts_key (stat_row net p t dep a g) = (net, a, p)"
  by (simp add: ts_key_def stat_row_def Let_def)

definition fill_legs :: "string \<Rightarrow> stats_db \<Rightarrow> (string \<times> fill_row) list" where
  "fill_legs net d = trade_legs (filter (\<lambda>f. f_network f = net) (db_fills d))"

definition net_events :: "string \<Rightarrow> stats_db \<Rightarrow> pnl_event list" where
  "net_events net d = filter (\<lambda>e. pe_network e = net) (sd_pnl d)"

text \<open>The volume and event rows of an account, if it has any.\<close>

definition vol_of :: "(int \<Rightarrow> rat) \<Rightarrow> string \<Rightarrow> stats_db \<Rightarrow> string \<Rightarrow> vol_row option" where
  "vol_of ndiv net d a = (if a \<in> fst ` set (fill_legs net d)
     then Some (vol_row_of ndiv a (map snd (filter (\<lambda>l. fst l = a) (fill_legs net d)))) else None)"

definition pnl_of :: "string \<Rightarrow> stats_db \<Rightarrow> string \<Rightarrow> pnl_row option" where
  "pnl_of net d a = (if a \<in> pe_address ` set (net_events net d)
     then Some (pnl_row_of a (filter (\<lambda>e. pe_address e = a) (net_events net d))) else None)"

definition dated :: "stats_db \<Rightarrow> bool" where
  "dated d \<longleftrightarrow> (\<forall>f \<in> set (db_fills d). 0 \<le> f_createdAt f) \<and> (\<forall>e \<in> set (sd_pnl d). 0 \<le> pe_createdAt e)"

lemma all_time_queries:
  assumes "dated d"
  shows "volumeStats grp ndiv net 0 d = group_legs grp ndiv (fill_legs net d)"
    and "pnlStats grp net 0 d = group_events grp (net_events net d)"
proof -
  have "filter (\<lambda>f. f_network f = net \<and> 0 \<le> f_createdAt f) (db_fills d) = filter (\<lambda>f. f_network f = net) (db_fills d)"
    "filter (\<lambda>e. pe_network e = net \<and> 0 \<le> pe_createdAt e) (sd_pnl d) = filter (\<lambda>e. pe_network e = net) (sd_pnl d)"
    using assms by (auto simp: dated_def intro: filter_cong)
  then show "volumeStats grp ndiv net 0 d = group_legs grp ndiv (fill_legs net d)"
    "pnlStats grp net 0 d = group_events grp (net_events net d)"
    by (simp_all add: volumeStats_def pnlStats_def fill_legs_def net_events_def)
qed

lemma all_time_stat:
  assumes g: "groups_ok grp" and d: "dated d" and active: "vol_of ndiv net d a \<noteq> None \<or> pnl_of net d a \<noteq> None"
  shows "\<exists>s. find_row (\<lambda>s. ts_key s = (net, a, ALL_TIME)) (sd_stats (snd (aggregatePeriod grp ndiv net ALL_TIME 0 d))) = Some s \<and>
    ts_view s = ts_view (stat_row net ALL_TIME 0 (depositStats grp net d) a (vol_of ndiv net d a, pnl_of net d a))"
proof -
  let ?v = "volumeStats grp ndiv net 0 d" and ?p = "pnlStats grp net 0 d" and ?dep = "depositStats grp net d"
  let ?rows = "map (\<lambda>(a, g). stat_row net ALL_TIME 0 ?dep a g) (byAddr ?v ?p)"
  have keys: "map ts_key ?rows = map (\<lambda>a. (net, a, ALL_TIME)) (map fst (byAddr ?v ?p))"
    by (simp add: ts_key_stat_row split_def)
  have "inj_on (\<lambda>a. (net, a, ALL_TIME)) A" for A by (simp add: inj_on_def)
  then have dist: "distinct (map ts_key ?rows)"
    unfolding keys distinct_map using byAddr_inv [of ?v ?p] by (simp add: map_inv_def distinct_map)
  have v: "find_row (\<lambda>r. vr_address r = a) ?v = vol_of ndiv net d a" and p: "find_row (\<lambda>r. pr_address r = a) ?p = pnl_of net d a"
    unfolding all_time_queries [OF d] vol_of_def pnl_of_def by (simp_all add: group_legs_find [OF g] group_events_find [OF g])
  have dv: "distinct (map vr_address ?v)" and dp: "distinct (map pr_address ?p)"
    unfolding all_time_queries [OF d] using group_legs_keys [OF g] group_events_keys [OF g] by blast+
  have "(a, vol_of ndiv net d a, pnl_of net d a) \<in> set (byAddr ?v ?p)"
    using byAddr_entry [OF dv dp, of a] active unfolding v p by blast
  then have "stat_row net ALL_TIME 0 ?dep a (vol_of ndiv net d a, pnl_of net d a) \<in> set ?rows" by force
  from stats.find_upserts [OF dist this, of "sd_stats d"] show ?thesis
    unfolding aggregatePeriod_stats ts_key_stat_row .
qed

lemma run_periods_last:
  "\<exists>d3. db_fills d3 = db_fills d \<and> sd_pnl d3 = sd_pnl d \<and> sd_balance d3 = sd_balance d \<and> sd_analytics d3 = sd_analytics d \<and>
     snd (run_periods grp ndiv net clock d) = snd (aggregatePeriod grp ndiv net ALL_TIME 0 d3)"
  by (rule exI [of _ "snd (aggregatePeriod grp ndiv net MONTH (periodStart (clock MONTH) MONTH)
      (snd (aggregatePeriod grp ndiv net WEEK (periodStart (clock WEEK) WEEK)
      (snd (aggregatePeriod grp ndiv net DAY (periodStart (clock DAY) DAY) d)))))"])
    (simp add: run_periods_def Let_def split_def aggregatePeriod_keeps periodStart_def)

lemma analytics_row:
  assumes g: "groups_ok grp" and active: "vol_of ndiv net d a \<noteq> None \<or> pnl_of net d a \<noteq> None"
  shows "\<exists>r. find_row (\<lambda>r. aa_key r = (net, a)) (sd_analytics (snd (aggregateAnalytics grp ndiv net d))) = Some r \<and>
    aa_realizedPnlAll r = or_zero pr_realized (pnl_of net d a) \<and> aa_volumeAll r = or_zero vr_volume (vol_of ndiv net d a) \<and>
    aa_tradeCountAll r = or_zero vr_count (vol_of ndiv net d a) \<and>
    aa_winRateAll r = win_rate (or_zero pr_wins (pnl_of net d a)) (or_zero pr_losses (pnl_of net d a)) \<and>
    aa_totalFundingPaid r = or_zero pr_funding (pnl_of net d a) \<and> aa_totalFeesPaid r = or_zero pr_fees (pnl_of net d a) \<and>
    aa_liquidationCount r = or_zero pr_liqs (pnl_of net d a) \<and> aa_lastTradeAt r = map_option vr_last (vol_of ndiv net d a)"
proof -
  let ?v = "group_legs grp ndiv (fill_legs net d)" and ?p = "group_events grp (net_events net d)" and ?b = "depositStats grp net d"
  have v: "find_row (\<lambda>r. vr_address r = x) ?v = vol_of ndiv net d x" and p: "find_row (\<lambda>r. pr_address r = x) ?p = pnl_of net d x" for x
    unfolding vol_of_def pnl_of_def by (simp_all add: group_legs_find [OF g] group_events_find [OF g])
  define row where "row = (\<lambda>x. let rb = find_row (\<lambda>r. dr_address r = x) ?b in
     \<lparr> aa_network = net, aa_address = x, aa_realizedPnlAll = or_zero pr_realized (pnl_of net d x), aa_volumeAll = or_zero vr_volume (vol_of ndiv net d x),
       aa_tradeCountAll = or_zero vr_count (vol_of ndiv net d x),
       aa_winRateAll = win_rate (or_zero pr_wins (pnl_of net d x)) (or_zero pr_losses (pnl_of net d x)),
       aa_totalDeposited = or_zero dr_deposited rb, aa_totalWithdrawn = or_zero dr_withdrawn rb,
       aa_totalFundingPaid = or_zero pr_funding (pnl_of net d x), aa_totalFeesPaid = or_zero pr_fees (pnl_of net d x),
       aa_liquidationCount = or_zero pr_liqs (pnl_of net d x), aa_firstTradeAt = map_option vr_first (vol_of ndiv net d x),
       aa_lastTradeAt = map_option vr_last (vol_of ndiv net d x) \<rparr>)"
  define addrs where "addrs = grp (map vr_address ?v @ map pr_address ?p @ map dr_address ?b)"
  have rows: "analytics_rows grp ndiv net d = map row addrs"
    unfolding analytics_rows_def addrs_def row_def Let_def fill_legs_def [symmetric] net_events_def [symmetric] v p ..
  have key: "aa_key (row x) = (net, x)" for x by (simp add: row_def aa_key_def Let_def)
  have dist: "distinct (map aa_key (map row addrs))"
    using groups_okD(2) [OF g] by (simp add: key comp_def distinct_map inj_on_def addrs_def)
  have "a \<in> set addrs"
    using active group_legs_keys [OF g, of ndiv "fill_legs net d"] group_events_keys [OF g, of "net_events net d"]
    unfolding addrs_def groups_okD(1) [OF g] vol_of_def pnl_of_def by (auto split: if_splits)
  then have "row a \<in> set (map row addrs)" by simp
  from analytics.find_upserts [OF dist this, of "sd_analytics d"]
  obtain r where f: "find_row (\<lambda>r. aa_key r = (net, a)) (sd_analytics (snd (aggregateAnalytics grp ndiv net d))) = Some r"
    and r: "aa_view r = aa_view (row a)" by (auto simp: aggregateAnalytics_def rows key)
  have sel: "aa_realizedPnlAll (aa_view x) = aa_realizedPnlAll x" "aa_volumeAll (aa_view x) = aa_volumeAll x"
    "aa_tradeCountAll (aa_view x) = aa_tradeCountAll x" "aa_winRateAll (aa_view x) = aa_winRateAll x"
    "aa_totalFundingPaid (aa_view x) = aa_totalFundingPaid x" "aa_totalFeesPaid (aa_view x) = aa_totalFeesPaid x"
    "aa_liquidationCount (aa_view x) = aa_liquidationCount x" "aa_lastTradeAt (aa_view x) = aa_lastTradeAt x" for x
    by (simp_all add: aa_view_def)
  show ?thesis
    by (rule exI [of _ r], unfold sel(1-8) [of r, symmetric] r, unfold sel) (simp add: f row_def Let_def)
qed

lemma stat_view:
  assumes "ts_view s = ts_view (stat_row net p t dep a (v, q))"
  shows "ts_realizedPnl s = or_zero pr_realized q" "ts_volume s = or_zero vr_volume v" "ts_tradeCount s = or_zero vr_count v"
    "ts_winRate s = win_rate (or_zero pr_wins q) (or_zero pr_losses q)" "ts_feesPaid s = or_zero pr_fees q"
    "ts_fundingPaid s = or_zero pr_funding q" "ts_liquidationCount s = or_zero pr_liqs q" "ts_lastTradeAt s = map_option vr_last v"
  using arg_cong [OF assms, of ts_realizedPnl] arg_cong [OF assms, of ts_volume] arg_cong [OF assms, of ts_tradeCount]
    arg_cong [OF assms, of ts_winRate] arg_cong [OF assms, of ts_feesPaid] arg_cong [OF assms, of ts_fundingPaid]
    arg_cong [OF assms, of ts_liquidationCount] arg_cong [OF assms, of ts_lastTradeAt]
  by (simp_all add: ts_view_def stat_row_def Let_def)

text \<open>What the figures of an account are, from its fills and events.\<close>

definition own_volume :: "(int \<Rightarrow> rat) \<Rightarrow> string \<Rightarrow> stats_db \<Rightarrow> string \<Rightarrow> rat" where
  "own_volume ndiv net d a =
     sum_list (map (\<lambda>f. ndiv (f_size f * f_price f)) (filter (\<lambda>f. f_network f = net \<and> f_maker f = a) (db_fills d))) +
     sum_list (map (\<lambda>f. ndiv (f_size f * f_price f)) (filter (\<lambda>f. f_network f = net \<and> f_taker f = a) (db_fills d)))"

lemma own_legs: "map snd (filter (\<lambda>l. fst l = a) (fill_legs net d)) =
   filter (\<lambda>f. f_network f = net \<and> f_maker f = a) (db_fills d) @ filter (\<lambda>f. f_network f = net \<and> f_taker f = a) (db_fills d)"
proof -
  have "map snd (filter (\<lambda>l. fst l = a) (map (\<lambda>f. (g f, f)) (filter P fs))) = filter (\<lambda>f. P f \<and> g f = a) fs"
    for g :: "fill_row \<Rightarrow> string" and P fs by (induction fs) auto
  then show ?thesis by (simp add: fill_legs_def trade_legs_def)
qed

lemma vol_of_volume: "or_zero vr_volume (vol_of ndiv net d a) = own_volume ndiv net d a"
proof (cases "a \<in> fst ` set (fill_legs net d)")
  case True
  then show ?thesis by (simp add: vol_of_def or_zero_def vol_row_of_def own_legs own_volume_def)
next
  case False
  then have "filter (\<lambda>l. fst l = a) (fill_legs net d) = []" by (force simp: filter_empty_conv)
  then have "own_volume ndiv net d a = 0" using own_legs [of a net d] by (simp add: own_volume_def)
  then show ?thesis using False by (simp add: vol_of_def or_zero_def)
qed

lemma pnl_of_booked: "or_zero pr_realized (pnl_of net d a) = booked net a REALIZED_TRADE d"
proof -
  have f: "filter (\<lambda>e. pe_network e = net \<and> pe_address e = a) (sd_pnl d) = filter (\<lambda>e. pe_address e = a) (net_events net d)"
    by (auto simp: net_events_def intro: filter_cong)
  show ?thesis
  proof (cases "a \<in> pe_address ` set (net_events net d)")
    case True
    then show ?thesis by (simp add: pnl_of_def or_zero_def pnl_row_of_def booked_def f)
  next
    case False
    then have "filter (\<lambda>e. pe_address e = a) (net_events net d) = []" by (force simp: filter_empty_conv)
    then show ?thesis using False by (simp add: pnl_of_def or_zero_def booked_def f sum_kind_def)
  qed
qed

lemma active_rows:
  assumes "(\<exists>f \<in> set (db_fills d). f_network f = net \<and> (f_maker f = a \<or> f_taker f = a)) \<or>
    (\<exists>e \<in> set (sd_pnl d). pe_network e = net \<and> pe_address e = a)"
  shows "vol_of ndiv net d a \<noteq> None \<or> pnl_of net d a \<noteq> None"
proof -
  have "a \<in> fst ` set (fill_legs net d) \<longleftrightarrow> (\<exists>f \<in> set (db_fills d). f_network f = net \<and> (f_maker f = a \<or> f_taker f = a))"
    unfolding fill_legs_def trade_legs_def set_append image_Un set_map image_image by auto
  moreover have "a \<in> pe_address ` set (net_events net d) \<longleftrightarrow> (\<exists>e \<in> set (sd_pnl d). pe_network e = net \<and> pe_address e = a)"
    unfolding net_events_def by auto
  ultimately show ?thesis using assms unfolding vol_of_def pnl_of_def by (metis option.distinct(1))
qed

text \<open>
  C22. The two roll-ups of the all-time figures agree: after a run of the aggregator every account with a
  fill or a profit event has an all-time row in \<open>TraderStat\<close> and a row in \<open>AccountAnalytics\<close> with the
  same realized profit, volume, number of trades, win rate, fees, funding, liquidations and last trade;
  the profit is what is booked for the account and the volume what it traded as maker plus as taker.
\<close>

theorem all_time_statistics_agree:
  fixes ndiv :: "int \<Rightarrow> rat" and clock :: "stats_period \<Rightarrow> int"
  assumes "groups_ok grp" and "dated d"
    and "(\<exists>f \<in> set (db_fills d). f_network f = net \<and> (f_maker f = a \<or> f_taker f = a)) \<or>
      (\<exists>e \<in> set (sd_pnl d). pe_network e = net \<and> pe_address e = a)"
  defines "d' \<equiv> snd (runAggregation grp ndiv net clock d)"
  shows "\<exists>s r. find_row (\<lambda>s. ts_key s = (net, a, ALL_TIME)) (sd_stats d') = Some s \<and>
    find_row (\<lambda>r. aa_key r = (net, a)) (sd_analytics d') = Some r \<and>
    ts_realizedPnl s = aa_realizedPnlAll r \<and> ts_volume s = aa_volumeAll r \<and> ts_tradeCount s = aa_tradeCountAll r \<and>
    ts_winRate s = aa_winRateAll r \<and> ts_feesPaid s = aa_totalFeesPaid r \<and> ts_fundingPaid s = aa_totalFundingPaid r \<and>
    ts_liquidationCount s = aa_liquidationCount r \<and> ts_lastTradeAt s = aa_lastTradeAt r \<and>
    ts_realizedPnl s = booked net a REALIZED_TRADE d \<and> ts_volume s = own_volume ndiv net d a"
proof -
  obtain d3 where k: "db_fills d3 = db_fills d" "sd_pnl d3 = sd_pnl d" "sd_analytics d3 = sd_analytics d"
    and last: "snd (run_periods grp ndiv net clock d) = snd (aggregatePeriod grp ndiv net ALL_TIME 0 d3)"
    using run_periods_last by blast
  let ?d4 = "snd (aggregatePeriod grp ndiv net ALL_TIME 0 d3)"
  have same: "vol_of ndiv net d3 a = vol_of ndiv net d a" "pnl_of net d3 a = pnl_of net d a"
    "vol_of ndiv net ?d4 a = vol_of ndiv net d a" "pnl_of net ?d4 a = pnl_of net d a" "dated d3"
    using assms(2) by (simp_all add: vol_of_def pnl_of_def fill_legs_def net_events_def aggregatePeriod_keeps k dated_def)
  note act = active_rows [OF assms(3), of ndiv]
  obtain s where s: "find_row (\<lambda>s. ts_key s = (net, a, ALL_TIME)) (sd_stats ?d4) = Some s"
    "ts_view s = ts_view (stat_row net ALL_TIME 0 (depositStats grp net d3) a (vol_of ndiv net d a, pnl_of net d a))"
    using all_time_stat [OF assms(1) same(5), of ndiv net a] act unfolding same by blast
  obtain r where r: "find_row (\<lambda>r. aa_key r = (net, a)) (sd_analytics (snd (aggregateAnalytics grp ndiv net ?d4))) = Some r"
    "aa_realizedPnlAll r = or_zero pr_realized (pnl_of net d a)" "aa_volumeAll r = or_zero vr_volume (vol_of ndiv net d a)"
    "aa_tradeCountAll r = or_zero vr_count (vol_of ndiv net d a)"
    "aa_winRateAll r = win_rate (or_zero pr_wins (pnl_of net d a)) (or_zero pr_losses (pnl_of net d a))"
    "aa_totalFundingPaid r = or_zero pr_funding (pnl_of net d a)" "aa_totalFeesPaid r = or_zero pr_fees (pnl_of net d a)"
    "aa_liquidationCount r = or_zero pr_liqs (pnl_of net d a)" "aa_lastTradeAt r = map_option vr_last (vol_of ndiv net d a)"
    using analytics_row [OF assms(1), of ndiv net ?d4 a] act unfolding same by blast
  have d': "sd_stats d' = sd_stats ?d4" "sd_analytics d' = sd_analytics (snd (aggregateAnalytics grp ndiv net ?d4))"
    by (simp_all add: d'_def runAggregation_def split_def Let_def last aggregateAnalytics_def)
  note fs = stat_view [OF s(2)]
  show ?thesis using s(1) r unfolding d' by (intro exI [of _ s] exI [of _ r]) (simp add: fs vol_of_volume pnl_of_booked)
qed

text \<open>
  A row is only written while its account is active in the window: when its fills and events have left
  the window, the row keeps the figures of the last run that saw them, whatever the period.
\<close>

lemma inactive_row_stays:
  assumes "\<forall>f \<in> set (db_fills d). f_maker f \<noteq> a \<and> f_taker f \<noteq> a \<or> f_createdAt f < t"
    and "\<forall>e \<in> set (sd_pnl d). pe_address e \<noteq> a \<or> pe_createdAt e < t" and g: "groups_ok grp"
  shows "find_row (\<lambda>s. ts_key s = (net, a, p)) (sd_stats (snd (aggregatePeriod grp ndiv net p t d))) =
    find_row (\<lambda>s. ts_key s = (net, a, p)) (sd_stats d)"
proof -
  let ?v = "volumeStats grp ndiv net t d" and ?q = "pnlStats grp net t d"
  have "a \<notin> vr_address ` set ?v" "a \<notin> pr_address ` set ?q"
    using assms(1,2) group_legs_keys [OF g] group_events_keys [OF g]
    by (auto simp: volumeStats_def pnlStats_def trade_legs_def)
  then have "find_row (\<lambda>r. vr_address r = a) ?v = None" "find_row (\<lambda>r. pr_address r = a) ?q = None"
    by (auto simp: find_row_None)
  moreover have "agg_of (byAddr ?v ?q) a = (find_row (\<lambda>r. vr_address r = a) ?v, find_row (\<lambda>r. pr_address r = a) ?q)"
    using group_legs_keys [OF g] group_events_keys [OF g] by (intro agg_byAddr) (simp_all add: volumeStats_def pnlStats_def)
  moreover have "fst ` set (byAddr vol pnl) = vr_address ` set vol \<union> pr_address ` set pnl" for vol pnl
  proof -
    have "fst ` set (foldl assign_vol m vol) = fst ` set m \<union> vr_address ` set vol" for m
      by (induction vol arbitrary: m) (auto simp: assign_vol_def fst_map_set)
    moreover have "fst ` set (foldl assign_pnl m pnl) = fst ` set m \<union> pr_address ` set pnl" for m
      by (induction pnl arbitrary: m) (auto simp: assign_pnl_def fst_map_set)
    ultimately show ?thesis by (simp add: byAddr_def)
  qed
  ultimately have "a \<notin> fst ` set (byAddr ?v ?q)" using \<open>a \<notin> vr_address ` set ?v\<close> \<open>a \<notin> pr_address ` set ?q\<close> by simp
  then have "(net, a, p) \<notin> ts_key ` set (map (\<lambda>(a, g). stat_row net p t (depositStats grp net d) a g) (byAddr ?v ?q))"
    by (force simp: ts_key_stat_row)
  then show ?thesis unfolding aggregatePeriod_stats by (rule stats.find_upserts_other)
qed

subsection \<open>Witnesses\<close>

text \<open>A long of 3 closed by a sale of 2 at a profit, with a maker fee; the taker opens.\<close>

definition example_args :: fill_args where
  "example_args = \<lparr> fa_marketId = 1, fa_txHash = ''h'', fa_ledger = 5, fa_fillSize = 20000000, fa_fillPrice = 6 * PRICE_PRECISION,
     fa_maker = \<lparr> fs_address = ''GA'', fs_isLong = False, fs_positionsBefore = [\<lparr> rw_marketId = 1, rw_isLong = True,
        rw_size = 30000000, rw_entryPrice = 5 * PRICE_PRECISION \<rparr>], fs_fee = 7 \<rparr>,
     fa_taker = \<lparr> fs_address = ''GB'', fs_isLong = True, fs_positionsBefore = [], fs_fee = 0 \<rparr> \<rparr>"

definition example_stats :: stats_db where
  "example_stats = database.extend
     \<lparr> db_orders = [], db_fills = [\<lparr> f_network = ''testnet'', f_marketId = 1, f_maker = ''GA'', f_makerNonce = 2, f_taker = ''GB'',
       f_takerNonce = 3, f_size = 5, f_price = 7, f_txHash = ''h'', f_ledger = 0, f_createdAt = 9 \<rparr>],
       db_markets = [], db_jobs = [], db_accounts = [] \<rparr>
     \<lparr> sd_pnl = [], sd_balance = [], sd_stats = [], sd_snapshots = [], sd_analytics = [] \<rparr>"

lemma example_realized: "side_realized example_args (fa_maker example_args) = 20000000"
  by (simp add: side_realized_def realizedPnlForFill_def example_args_def PRICE_PRECISION_def)

theorem fill_booked_once_witness:
  "booked ''testnet'' ''GA'' REALIZED_TRADE
     (recordFillPnl ''testnet'' 30 example_args 4 (attempts ''testnet'' example_args [(10, 1), (20, 0), (25, 2)] example_stats)) = 20000000"
proof -
  have "\<forall>e \<in> set (sd_pnl example_stats). pe_network e = ''testnet'' \<longrightarrow> pe_refKey e \<notin> fill_refs example_args"
    by (simp add: example_stats_def database.defs)
  from fill_booked_once [OF this, where now = 30 and ts = "[(10, 1), (20, 0), (25, 2)]" and addr = "''GA''"] show ?thesis
    unfolding example_realized by (simp add: example_args_def booked_def example_stats_def database.defs sum_kind_def)
qed

theorem all_time_statistics_agree_witness:
  "\<exists>s r. find_row (\<lambda>s. ts_key s = (''testnet'', ''GB'', ALL_TIME)) (sd_stats (snd (runAggregation uniq of_int ''testnet'' (\<lambda>_. 0) example_stats))) = Some s \<and>
    find_row (\<lambda>r. aa_key r = (''testnet'', ''GB'')) (sd_analytics (snd (runAggregation uniq of_int ''testnet'' (\<lambda>_. 0) example_stats))) = Some r \<and>
    ts_volume s = aa_volumeAll r \<and> ts_volume s = 35"
proof -
  have "groups_ok uniq" "dated example_stats" by (simp_all add: groups_ok_def dated_def example_stats_def database.defs)
  moreover have "own_volume of_int ''testnet'' example_stats ''GB'' = 35"
    by (simp add: own_volume_def example_stats_def database.defs)
  moreover have "\<exists>f \<in> set (db_fills example_stats). f_network f = ''testnet'' \<and> (f_maker f = ''GB'' \<or> f_taker f = ''GB'')"
    by (simp add: example_stats_def database.defs)
  ultimately show ?thesis
    using all_time_statistics_agree [of uniq example_stats "''testnet''" "''GB''" of_int "\<lambda>_. 0"] by fastforce
qed

end
