(* ===== verification/Deploy_Common.thy ===== *)
theory Deploy_Common
  imports Ops_Scripts Ttl_Keeper
begin

text \<open>
  What the deployment scripts share: the network they talk to (a parameter that threads a state of its own,
  so that answers may depend on everything sent before; \<open>None\<close> and the constructors named \<open>Throws\<close> are
  exceptions), polling for a confirmation, and steps that run in order until one throws.
\<close>

subsection \<open>Network\<close>

record call_rq =
  cq_contract :: string
  cq_method :: string
  cq_args :: "scval list"

datatype simulation = SimThrows | SimRejects string | SimPasses
datatype submission = SendThrows | SendRejected string | SendAccepted string
datatype awaited = AwaitThrows | AwaitFailed | AwaitTimeout | AwaitConfirmed

record 's deploy_net =
  dn_account :: "'s \<Rightarrow> string option \<times> 's"
  dn_balance :: "'s \<Rightarrow> number option \<times> 's"
  dn_simulate :: "call_rq \<Rightarrow> 's \<Rightarrow> simulation \<times> 's"
  dn_submit :: "call_rq \<Rightarrow> 's \<Rightarrow> submission \<times> 's"
  dn_poll :: "string \<Rightarrow> 's \<Rightarrow> poll_status option \<times> 's"
  dn_entry :: "nat \<Rightarrow> ledger_key \<Rightarrow> 's \<Rightarrow> bool option \<times> 's"
  dn_cli :: "string list \<Rightarrow> 's \<Rightarrow> string option \<times> 's"
  dn_keypair :: "'s \<Rightarrow> (string \<times> string) \<times> 's"
  dn_create :: "(string \<times> string) list \<Rightarrow> 's \<Rightarrow> string option \<times> 's"
  dn_write_secrets :: "string \<Rightarrow> 's \<Rightarrow> 's"
  dn_seed :: "'s \<Rightarrow> bool \<times> 's"

text \<open>Polls of one transaction, at most \<open>n\<close> of them.\<close>

primrec await_tx :: "'s deploy_net \<Rightarrow> string \<Rightarrow> nat \<Rightarrow> 's \<Rightarrow> awaited \<times> 's" where
  "await_tx N h 0 s = (AwaitTimeout, s)"
| "await_tx N h (Suc n) s = (let (p, s1) = dn_poll N h s in case p of
     None \<Rightarrow> (AwaitThrows, s1)
   | Some (PollSuccess l) \<Rightarrow> (AwaitConfirmed, s1)
   | Some PollFailed \<Rightarrow> (AwaitFailed, s1)
   | Some PollPending \<Rightarrow> await_tx N h n s1)"

text \<open>Waiting until two reads of the account's sequence number agree; a read that throws ends the script.\<close>

primrec waitForSequenceStable :: "'s deploy_net \<Rightarrow> nat \<Rightarrow> string \<Rightarrow> 's \<Rightarrow> bool \<times> 's" where
  "waitForSequenceStable N 0 prev s = (True, s)"
| "waitForSequenceStable N (Suc n) prev s = (let (q, s1) = dn_account N s in case q of
     None \<Rightarrow> (False, s1)
   | Some sq \<Rightarrow> if sq = prev then (True, s1) else waitForSequenceStable N n sq s1)"

subsection \<open>Steps in order\<close>

text \<open>A step says whether it returned (\<open>True\<close>) or threw; what it changed before it threw is kept.\<close>

fun seq_run :: "('d \<Rightarrow> bool \<times> 'd) list \<Rightarrow> 'd \<Rightarrow> bool \<times> 'd" where
  "seq_run [] d = (True, d)"
| "seq_run (f # fs) d = (let (ok, d1) = f d in if ok then seq_run fs d1 else (False, d1))"

lemma seq_run_append: "seq_run (fs @ gs) d = (let (ok, d1) = seq_run fs d in if ok then seq_run gs d1 else (False, d1))"
  by (induction fs arbitrary: d) (auto simp: Let_def split: prod.splits)

text \<open>A step keeps a property of the state whether it returns or throws.\<close>

definition keeps :: "('d \<Rightarrow> bool) \<Rightarrow> ('d \<Rightarrow> bool \<times> 'd) \<Rightarrow> bool" where
  "keeps I f \<longleftrightarrow> (\<forall>d. I d \<longrightarrow> I (snd (f d)))"

lemma keepsI: "(\<And>d. I d \<Longrightarrow> I (snd (f d))) \<Longrightarrow> keeps I f"
  by (simp add: keeps_def)

lemma keepsD: "keeps I f \<Longrightarrow> I d \<Longrightarrow> I (snd (f d))"
  by (simp add: keeps_def)

lemma keeps_run: "(\<And>f. f \<in> set fs \<Longrightarrow> keeps I f) \<Longrightarrow> keeps I (seq_run fs)"
proof (induction fs)
  case (Cons f fs)
  then have "keeps I f" "keeps I (seq_run fs)" by simp_all
  then show ?case by (simp add: keeps_def Let_def split_def)
qed (simp add: keeps_def)

text \<open>What one step establishes and the others keep holds when all of them have returned.\<close>

lemma run_reaches:
  assumes "f \<in> set fs" and "I d" and "fst (seq_run fs d)"
    and "\<And>g. g \<in> set fs \<Longrightarrow> keeps I g" and "\<And>g. g \<in> set fs \<Longrightarrow> keeps (\<lambda>d. I d \<and> Q d) g"
    and est: "\<And>d. I d \<Longrightarrow> fst (f d) \<Longrightarrow> Q (snd (f d))"
  shows "Q (snd (seq_run fs d))"
  using assms(1-5)
proof (induction fs arbitrary: d)
  case (Cons g gs)
  have g: "fst (g d)" "fst (seq_run gs (snd (g d)))" "I (snd (g d))"
    using Cons.prems by (auto simp: Let_def split_def keepsD split: if_splits)
  have "Q (snd (seq_run gs (snd (g d))))"
  proof (cases "f = g")
    case True
    have "keeps (\<lambda>d. I d \<and> Q d) (seq_run gs)" using Cons.prems(5) by (intro keeps_run) simp
    then show ?thesis using est [OF Cons.prems(2)] True g by (auto dest: keepsD)
  next
    case False
    then show ?thesis using Cons g by simp
  qed
  then show ?case using g by (simp add: Let_def split_def)
qed simp

subsection \<open>Market of a deployment\<close>

definition PRECISION_1E18 :: int where "PRECISION_1E18 = 1000000000000000000"

text \<open>The market of XLM that every script configures, by settlement asset and open interest.\<close>

definition coreMarketConfig :: "string \<Rightarrow> int \<Rightarrow> scval" where
  "coreMarketConfig asset maxOi = ScMap
    [mapEntry ''active'' (ScBool True), mapEntry ''base_asset'' (ScSymbol ''XLM''),
     mapEntry ''initial_margin_bps'' (ScU32 1000), mapEntry ''liquidation_fee_bps'' (ScU32 50),
     mapEntry ''maintenance_margin_bps'' (ScU32 500), mapEntry ''market_id'' (ScU32 1),
     mapEntry ''max_leverage_bps'' (ScU32 100000), mapEntry ''max_open_interest'' (ScI128 maxOi),
     mapEntry ''max_oracle_age_secs'' (ScU64 120), mapEntry ''max_oracle_confidence_bps'' (ScU32 1000),
     mapEntry ''settlement_asset'' (ScAddress asset)]"

definition engineMarketConfig :: "scval \<Rightarrow> int \<Rightarrow> scval" where
  "engineMarketConfig market deviation = ScMap [mapEntry ''market'' market, mapEntry ''max_execution_deviation_bps'' (ScU32 deviation)]"

definition feed_guard :: "int \<Rightarrow> int \<Rightarrow> scval" where
  "feed_guard age conf = ScMap [mapEntry ''max_age_secs'' (ScU64 age), mapEntry ''max_confidence_bps'' (ScU32 conf)]"

text \<open>An argument is built when every address in it parses; otherwise its construction throws.\<close>

fun scval_ok :: "(string \<Rightarrow> bool) \<Rightarrow> scval \<Rightarrow> bool" where
  "scval_ok ok (ScAddress a) = ok a"
| "scval_ok ok (ScVec vs) = list_all (scval_ok ok) vs"
| "scval_ok ok (ScMap es) = list_all (\<lambda>e. scval_ok ok (fst e) \<and> scval_ok ok (snd e)) es"
| "scval_ok ok v = True"

end
