(* ===== verification/Mainnet_Deploy.thy ===== *)
theory Mainnet_Deploy
  imports Deploy_Common
begin

text \<open>
  \<open>client/scripts/mainnet-deploy.ts\<close>: the resumable deployment. Its checkpoint file is the record
  \<open>deployment\<close>; every change of it is written at once, so the record a run leaves behind is the file, also
  when the run throws. The artifacts' digests, the key, the derivation of a contract id and the parsing of
  addresses are fields of \<open>deploy_par\<close>.
\<close>

subsection \<open>Constants and checkpoint\<close>

definition MAINNET_PASSPHRASE :: string where "MAINNET_PASSPHRASE = ''Public Global Stellar Network ; September 2015''"

definition USDC_CONTRACT :: string where "USDC_CONTRACT = ''CCW67TSZV3SSS2HXMBQ5JFGCKJNXKZM7UQUWUZPUTHXSTZLEO7SJMI75''"

definition EXPECTED_SHA256 :: "(string \<times> string) list" where
  "EXPECTED_SHA256 =
    [(''perp_vault'', ''063b932fb6b953a685bcb66b189b2143eda715650979095e39eb36c92ec7eaa2''),
     (''perp_engine'', ''bc054afff1d44565a17381250e3a52127ee3d39b95c5eae582f43f0f6077e577''),
     (''perp_order_gateway'', ''0ba8f9707e2e70b35267da7ab9718e4cae2c3ba2917e90aa625d413e02fe4d6d''),
     (''perp_risk'', ''87226639ea86545d54eaa2c81bf0658647434151ef2688179d76654307549f9d''),
     (''perp_oracle_adapter'', ''887b08be75d275a9760e796f6e96bc297223d7a8018cedc70e0f46d9086ebae8''),
     (''perp_insurance'', ''26e0506ebf3e5954906ddd5ac80ed6f57c95d79480da56be9edc9a629ba79368''),
     (''perp_liquidation'', ''08168a26fa82d64ed906c4e6d839508f70b7ac32c02595cfe3a3e64946e53cdb''),
     (''perp_governance'', ''90f9b22631a09ec921847b3cfdf68a0734e4c7b9e7c1730f53bdf74515723220'')]"

definition DEPOSIT_CAP_USDC :: int where "DEPOSIT_CAP_USDC = 5000000000"

definition GOV_MIN_DELAY_SECS :: int where "GOV_MIN_DELAY_SECS = 172800"

type_synonym names = "(string, string) js_map"

record deployment =
  dy_ops :: names
  dy_wasm :: names
  dy_contracts :: names
  dy_steps :: "(string, bool) js_map"

definition empty_deployment :: deployment where
  "empty_deployment = \<lparr> dy_ops = [], dy_wasm = [], dy_contracts = [], dy_steps = [] \<rparr>"

record deploy_par =
  dp_dry :: bool
  dp_secret :: "string option"
  dp_secret_ok :: bool
  dp_admin :: string
  dp_rpc_url :: "string option"
  dp_artifacts :: string
  dp_artifact :: "string \<Rightarrow> string option"
  dp_sha256_hex :: "string \<Rightarrow> string"
  dp_contractId :: "string \<Rightarrow> string \<Rightarrow> string"
  dp_address_ok :: "string \<Rightarrow> bool"
  dp_contract_ok :: "string \<Rightarrow> bool"
  dp_has_db :: bool

definition RPC_POOL :: "deploy_par \<Rightarrow> string list" where
  "RPC_POOL P = [case dp_rpc_url P of None \<Rightarrow> ''https://mainnet.sorobanrpc.com'' | Some u \<Rightarrow> u,
     ''https://soroban-rpc.mainnet.stellar.gateway.fm'', ''https://mainnet.sorobanrpc.com'']"

definition step_done :: "deployment \<Rightarrow> string \<Rightarrow> bool" where
  "step_done D k \<longleftrightarrow> map_get (dy_steps D) k = Some True"

definition mark :: "string \<Rightarrow> deployment \<Rightarrow> deployment" where
  "mark k D = D\<lparr> dy_steps := map_set (dy_steps D) k True \<rparr>"

definition recorded :: "names \<Rightarrow> string \<Rightarrow> bool" where
  "recorded m n \<longleftrightarrow> \<not> falsy_str (map_get m n)"

subsection \<open>A call\<close>

definition tolerated :: "int list \<Rightarrow> string \<Rightarrow> bool" where
  "tolerated codes err = list_ex (\<lambda>c. has_text err (''Error(Contract, #'' @ show_int c @ '')'')) codes"

text \<open>
  The attempts of a call, \<open>k\<close> of them left; before a retry the sequence number has to settle. A rejected
  submission and a confirmation that does not come are retried, everything else ends the call.
\<close>

primrec call_attempts :: "'s deploy_net \<Rightarrow> int list \<Rightarrow> call_rq \<Rightarrow> bool \<Rightarrow> nat \<Rightarrow> 's \<Rightarrow> bool \<times> 's" where
  "call_attempts N codes rq retry 0 s = (False, s)"
| "call_attempts N codes rq retry (Suc k) s =
    (let (ok, s1) = if retry then waitForSequenceStable N 24 [] s else (True, s) in
     if \<not> ok then (False, s1)
     else (let (acct, s2) = dn_account N s1 in
       if acct = None then (False, s2)
       else (let (sim, s3) = dn_simulate N rq s2 in case sim of
           SimThrows \<Rightarrow> (False, s3)
         | SimRejects err \<Rightarrow> (tolerated codes err, s3)
         | SimPasses \<Rightarrow> (let (sent, s4) = dn_submit N rq s3 in case sent of
               SendThrows \<Rightarrow> (False, s4)
             | SendRejected e \<Rightarrow> call_attempts N codes rq True k s4
             | SendAccepted h \<Rightarrow> (let (w, s5) = await_tx N h 60 s4 in case w of
                   AwaitConfirmed \<Rightarrow> (True, s5)
                 | AwaitTimeout \<Rightarrow> call_attempts N codes rq True k s5
                 | _ \<Rightarrow> (False, s5))))))"

definition deploy_call :: "deploy_par \<Rightarrow> 's deploy_net \<Rightarrow> int list \<Rightarrow> call_rq \<Rightarrow> 's \<Rightarrow> bool \<times> 's" where
  "deploy_call P N codes rq s = (if dp_dry P then (True, s)
     else if \<not> dp_contract_ok P (cq_contract rq) then (False, s) else call_attempts N codes rq False 3 s)"

subsection \<open>Uploads and instances\<close>

text \<open>Whether a ledger entry is there: the first server of the pool that answers.\<close>

fun entry_probe :: "'s deploy_net \<Rightarrow> ledger_key \<Rightarrow> nat list \<Rightarrow> 's \<Rightarrow> bool option \<times> 's" where
  "entry_probe N key [] s = (None, s)"
| "entry_probe N key (i # is) s = (let (r, s1) = dn_entry N i key s in
     case r of Some b \<Rightarrow> (Some b, s1) | None \<Rightarrow> entry_probe N key is s1)"

text \<open>
  The attempts to land something whose id is known: when the command fails or prints another id, the ledger
  decides. In a dry run the command only prints.
\<close>

fun land_attempts :: "'s deploy_net \<Rightarrow> bool \<Rightarrow> (nat \<Rightarrow> string list) \<Rightarrow> string \<Rightarrow> ledger_key \<Rightarrow> nat list \<Rightarrow> 's \<Rightarrow> bool \<times> 's" where
  "land_attempts N dry args want key [] s = (False, s)"
| "land_attempts N dry args want key (i # is) s =
    (if dry then (True, s)
     else (let (out, s1) = dn_cli N (args i) s in
       if out = Some want then (True, s1)
       else (let (there, s2) = entry_probe N key [0, 1, 2] s1 in case there of
           None \<Rightarrow> (False, s2)
         | Some True \<Rightarrow> (True, s2)
         | Some False \<Rightarrow> land_attempts N dry args want key is s2)))"

text \<open>\<open>None\<close>: it threw; otherwise whether the id is to be recorded.\<close>

definition place :: "'s deploy_net \<Rightarrow> bool \<Rightarrow> bool \<Rightarrow> (nat \<Rightarrow> string list) \<Rightarrow> string \<Rightarrow> ledger_key \<Rightarrow> 's \<Rightarrow> bool option \<times> 's" where
  "place N dry already args want key s =
    (if already then (Some False, s)
     else (let (there, s1) = if dry then (Some False, s) else entry_probe N key [0, 1, 2] s in case there of
         None \<Rightarrow> (None, s1)
       | Some True \<Rightarrow> (Some True, s1)
       | Some False \<Rightarrow> (let (ok, s2) = land_attempts N dry args want key [0, 1, 2] s1 in
           (if ok then Some (\<not> dry) else None, s2))))"

definition upload_args :: "deploy_par \<Rightarrow> string \<Rightarrow> nat \<Rightarrow> string list" where
  "upload_args P name i = [''contract'', ''upload'', ''--wasm'', dp_artifacts P @ ''/'' @ name @ ''.wasm'',
     ''--source-account'', the (dp_secret P), ''--rpc-url'', RPC_POOL P ! (i mod 3), ''--network-passphrase'', MAINNET_PASSPHRASE,
     ''--fee'', ''800000000'', ''--no-cache'']"

definition upload_step :: "deploy_par \<Rightarrow> 's deploy_net \<Rightarrow> string \<times> string \<Rightarrow> deployment \<times> 's \<Rightarrow> bool \<times> deployment \<times> 's" where
  "upload_step P N = (\<lambda>(name, want) (D, s).
    (let (r, s1) = place N (dp_dry P) (recorded (dy_wasm D) name) (upload_args P name) want (CodeKey want) s in case r of
       None \<Rightarrow> (False, D, s1)
     | Some rec \<Rightarrow> (True, if rec then D\<lparr> dy_wasm := map_set (dy_wasm D) name want \<rparr> else D, s1)))"

definition deploy_order :: "string list" where
  "deploy_order = [''perp_oracle_adapter'', ''perp_vault'', ''perp_risk'', ''perp_engine'',
     ''perp_order_gateway'', ''perp_insurance'', ''perp_liquidation'', ''perp_governance'']"

definition saltFor :: "deploy_par \<Rightarrow> string \<Rightarrow> string" where
  "saltFor P name = dp_sha256_hex P (''kryon-mainnet-v1:'' @ name)"

definition predictedId :: "deploy_par \<Rightarrow> string \<Rightarrow> string" where
  "predictedId P name = dp_contractId P (dp_admin P) (saltFor P name)"

definition instance_args :: "deploy_par \<Rightarrow> string \<Rightarrow> nat \<Rightarrow> string list" where
  "instance_args P name i = [''contract'', ''deploy'', ''--wasm-hash'', the (map_of EXPECTED_SHA256 name), ''--salt'', saltFor P name,
     ''--source-account'', the (dp_secret P), ''--rpc-url'', RPC_POOL P ! (i mod 3), ''--network-passphrase'', MAINNET_PASSPHRASE,
     ''--fee'', ''50000000'', ''--no-cache'']"

definition instance_step :: "deploy_par \<Rightarrow> 's deploy_net \<Rightarrow> string \<Rightarrow> deployment \<times> 's \<Rightarrow> bool \<times> deployment \<times> 's" where
  "instance_step P N name = (\<lambda>(D, s).
    (let (r, s1) = place N (dp_dry P) (recorded (dy_contracts D) name) (instance_args P name) (predictedId P name)
        (InstanceKey (predictedId P name)) s in case r of
       None \<Rightarrow> (False, D, s1)
     | Some rec \<Rightarrow> (True, if rec then D\<lparr> dy_contracts := map_set (dy_contracts D) name (predictedId P name) \<rparr> else D, s1)))"

subsection \<open>Preflight and operator accounts\<close>

definition preflight :: "deploy_par \<Rightarrow> 's deploy_net \<Rightarrow> deployment \<times> 's \<Rightarrow> bool \<times> deployment \<times> 's" where
  "preflight P N = (\<lambda>(D, s).
    (if \<not> list_all (\<lambda>(n, want). dp_artifact P n = Some want) EXPECTED_SHA256 then (False, D, s)
     else (let (a, s1) = dn_account N s in
       if a = None then (False, D, s1)
       else (let (b, s2) = dn_balance N s1 in case b of
           None \<Rightarrow> (False, D, s2)
         | Some bal \<Rightarrow> (let left = length (filter (\<lambda>e. \<not> recorded (dy_wasm D) (fst e)) EXPECTED_SHA256) in
             (dp_dry P \<or> \<not> js_lt bal (Fin (of_nat (left * 40 + 15))), D, s2))))))"

definition OPS_ROLES :: "string list" where
  "OPS_ROLES = [''oracle-publisher'', ''matcher-operator'', ''liquidator'', ''guardian'']"

definition role_env :: "string \<Rightarrow> string" where
  "role_env r = map (\<lambda>c. if c = CHR ''-'' then CHR ''_'' else c) (toUpperCase r)"

fun draw_keys :: "'s deploy_net \<Rightarrow> string list \<Rightarrow> 's \<Rightarrow> (string \<times> string \<times> string) list \<times> 's" where
  "draw_keys N [] s = ([], s)"
| "draw_keys N (r # rs) s = (let (k, s1) = dn_keypair N s; (ks, s2) = draw_keys N rs s1 in ((r, k) # ks, s2))"

definition secret_lines :: "(string \<times> string \<times> string) list \<Rightarrow> string" where
  "secret_lines ks = js_join [NL] (map (\<lambda>(r, pub, sec). ''# '' @ r @ [NL] @ role_env r @ ''_PUBLIC='' @ pub @ [NL] @
     role_env r @ ''_SECRET='' @ sec) ks) @ [NL]"

definition starting_balance :: "string \<Rightarrow> string" where
  "starting_balance role = (if role = ''guardian'' then ''2'' else ''3'')"

definition create_ops :: "(string \<times> string \<times> string) list \<Rightarrow> (string \<times> string) list" where
  "create_ops ks = map (\<lambda>(r, pub, sec). (pub, starting_balance r)) ks"

definition record_ops :: "names \<Rightarrow> (string \<times> string \<times> string) list \<Rightarrow> names" where
  "record_ops m ks = foldl (\<lambda>m (r, pub, sec). map_set m r pub) m ks"

text \<open>
  The accounts are created in one transaction. Only a reported failure throws: after thirty polls without an
  answer the secrets are written and the accounts recorded as well.
\<close>

definition ops_step :: "deploy_par \<Rightarrow> 's deploy_net \<Rightarrow> deployment \<times> 's \<Rightarrow> bool \<times> deployment \<times> 's" where
  "ops_step P N = (\<lambda>(D, s).
    (if step_done D ''ops_accounts'' then (True, D, s)
     else (let (a, s1) = dn_account N s in
       if a = None then (False, D, s1)
       else (let (ks, s2) = draw_keys N OPS_ROLES s1 in
         if dp_dry P then (True, D, s2)
         else (let (h, s3) = dn_create N (create_ops ks) s2 in case h of
             None \<Rightarrow> (False, D, s3)
           | Some hash \<Rightarrow> (let (w, s4) = await_tx N hash 30 s3 in
               if w \<in> {AwaitThrows, AwaitFailed} then (False, D, s4)
               else (True, mark ''ops_accounts'' (D\<lparr> dy_ops := record_ops (dy_ops D) ks \<rparr>),
                 dn_write_secrets N (secret_lines ks) s4)))))))"

subsection \<open>The calls of the plan\<close>

record deploy_step =
  st_key :: string
  st_rq :: call_rq
  st_codes :: "int list"

definition step_of :: "int list \<Rightarrow> string \<times> string \<times> string \<times> scval list \<Rightarrow> deploy_step" where
  "step_of codes = (\<lambda>(key, contract, method, args).
     \<lparr> st_key = key, st_rq = \<lparr> cq_contract = contract, cq_method = method, cq_args = args \<rparr>, st_codes = codes \<rparr>)"

text \<open>The id of a contract and the account of a role, with the defaults of a dry run.\<close>

definition cid :: "names \<Rightarrow> string \<Rightarrow> string" where
  "cid C n = (case map_get C n of None \<Rightarrow> ''DRY'' | Some c \<Rightarrow> c)"

definition ops_pub :: "deploy_par \<Rightarrow> names \<Rightarrow> string \<Rightarrow> string" where
  "ops_pub P O' role = (case map_get O' role of None \<Rightarrow> dp_admin P | Some a \<Rightarrow> a)"

definition init_steps :: "deploy_par \<Rightarrow> names \<Rightarrow> names \<Rightarrow> deploy_step list" where
  "init_steps P O' C = (let admin = ScAddress (dp_admin P); oracle = cid C ''perp_oracle_adapter''; vault = cid C ''perp_vault'';
      engine = cid C ''perp_engine''; insurance = cid C ''perp_insurance''; liq = cid C ''perp_liquidation'' in
    map (step_of [3])
     [(''init_oracle'', oracle, ''initialize'', [admin]),
      (''init_vault'', vault, ''initialize'', [admin, ScAddress oracle, admin]),
      (''init_risk'', cid C ''perp_risk'', ''initialize'', [admin]),
      (''init_engine'', engine, ''initialize'', [admin, ScAddress oracle, ScAddress vault, ScAddress USDC_CONTRACT]),
      (''init_gateway'', cid C ''perp_order_gateway'', ''initialize'', [admin, ScAddress engine]),
      (''init_insurance'', insurance, ''initialize'', [admin, ScAddress liq]),
      (''init_liquidation'', liq, ''initialize'',
        [admin, ScAddress engine, ScAddress vault, ScAddress insurance, ScAddress USDC_CONTRACT, ScU32 50]),
      (''init_governance'', cid C ''perp_governance'', ''initialize'',
        [admin, ScAddress (ops_pub P O' ''guardian''), ScU64 GOV_MIN_DELAY_SECS])])"

definition wire_steps :: "deploy_par \<Rightarrow> names \<Rightarrow> names \<Rightarrow> deploy_step list" where
  "wire_steps P O' C = (let vault = cid C ''perp_vault''; engine = cid C ''perp_engine''; gw = cid C ''perp_order_gateway'';
      insurance = cid C ''perp_insurance''; liq = cid C ''perp_liquidation'' in
    map (step_of [])
     [(''wire_vault_engine'', vault, ''set_engine'', [ScAddress engine]),
      (''wire_engine_gateway'', engine, ''set_order_gateway'', [ScAddress gw]),
      (''wire_gw_operator'', gw, ''set_operator'', [ScAddress (ops_pub P O' ''matcher-operator'')]),
      (''wire_gw_domain'', gw, ''set_domain'', [ScBytes (utf8 MAINNET_PASSPHRASE)]),
      (''wire_vault_collateral'', vault, ''set_collateral'', [ScAddress USDC_CONTRACT, ScSymbol ''USDC'', ScU32 0, ScBool True]),
      (''wire_engine_insurance'', engine, ''set_insurance'', [ScAddress insurance]),
      (''wire_engine_liq'', engine, ''set_liquidation'', [ScAddress liq]),
      (''wire_vault_insurance'', vault, ''set_insurance'', [ScAddress insurance]),
      (''wire_vault_liq'', vault, ''set_liquidation'', [ScAddress liq]),
      (''wire_ins_vault'', insurance, ''set_vault'', [ScAddress vault])])"

definition feed_steps :: "deploy_par \<Rightarrow> names \<Rightarrow> names \<Rightarrow> deploy_step list" where
  "feed_steps P O' C = map (step_of []) [(''oracle_feed'', cid C ''perp_oracle_adapter'', ''set_feed'',
     [ScSymbol ''XLM'', ScAddress (ops_pub P O' ''oracle-publisher''), ScVec [ScSymbol ''RedStone''], feed_guard 120 1000, ScBool True])]"

definition market_steps :: "names \<Rightarrow> deploy_step list" where
  "market_steps C = (let core = coreMarketConfig USDC_CONTRACT (PRECISION_1E18 * 100000) in map (step_of [])
     [(''market_engine'', cid C ''perp_engine'', ''set_market'', [engineMarketConfig core 1000]),
      (''market_vault'', cid C ''perp_vault'', ''set_market_config'', [core])])"

definition guard_steps :: "deploy_par \<Rightarrow> names \<Rightarrow> names \<Rightarrow> deploy_step list" where
  "guard_steps P O' C = (let guardian = ScAddress (ops_pub P O' ''guardian'') in map (step_of [])
     [(''guardian_vault'', cid C ''perp_vault'', ''set_guardian'', [guardian]),
      (''guardian_gw'', cid C ''perp_order_gateway'', ''set_guardian'', [guardian]),
      (''cap_usdc'', cid C ''perp_vault'', ''set_deposit_cap'', [ScAddress USDC_CONTRACT, ScI128 DEPOSIT_CAP_USDC])])"

definition ttl_steps :: "names \<Rightarrow> deploy_step list" where
  "ttl_steps C = map (\<lambda>(k, n). step_of [] (k, cid C n, ''extend_instance_ttl'', []))
     [(''ttl_oracle'', ''perp_oracle_adapter''), (''ttl_vault'', ''perp_vault''), (''ttl_engine'', ''perp_engine''),
      (''ttl_gw'', ''perp_order_gateway'')]"

definition args_ok :: "deploy_par \<Rightarrow> deploy_step \<Rightarrow> bool" where
  "args_ok P st = list_all (scval_ok (dp_address_ok P)) (cq_args (st_rq st))"

definition keyed_step :: "deploy_par \<Rightarrow> 's deploy_net \<Rightarrow> deploy_step \<Rightarrow> deployment \<times> 's \<Rightarrow> bool \<times> deployment \<times> 's" where
  "keyed_step P N st = (\<lambda>(D, s).
    (if step_done D (st_key st) then (True, D, s)
     else if \<not> args_ok P st then (False, D, s)
     else (let (ok, s1) = deploy_call P N (st_codes st) (st_rq st) s in (ok, if ok then mark (st_key st) D else D, s1))))"

text \<open>A phase builds the arguments of all its steps first.\<close>

definition phase :: "deploy_par \<Rightarrow> 's deploy_net \<Rightarrow> (names \<Rightarrow> names \<Rightarrow> deploy_step list) \<Rightarrow> deployment \<times> 's \<Rightarrow> bool \<times> deployment \<times> 's" where
  "phase P N mk d = (let sts = mk (dy_ops (fst d)) (dy_contracts (fst d)) in
     if \<not> list_all (args_ok P) sts then (False, d) else seq_run (map (keyed_step P N) sts) d)"

text \<open>A phase whose steps build their arguments when they are due.\<close>

definition lazy_phase :: "deploy_par \<Rightarrow> 's deploy_net \<Rightarrow> (names \<Rightarrow> names \<Rightarrow> deploy_step list) \<Rightarrow> deployment \<times> 's \<Rightarrow> bool \<times> deployment \<times> 's" where
  "lazy_phase P N mk d = seq_run (map (keyed_step P N) (mk (dy_ops (fst d)) (dy_contracts (fst d)))) d"

definition seed_step :: "deploy_par \<Rightarrow> 's deploy_net \<Rightarrow> deployment \<times> 's \<Rightarrow> bool \<times> deployment \<times> 's" where
  "seed_step P N = (\<lambda>(D, s).
    (if step_done D ''seed_markets'' \<or> \<not> dp_has_db P then (True, D, s)
     else (let (ok, s1) = dn_seed N s in (ok, if ok then mark ''seed_markets'' D else D, s1))))"

subsection \<open>The script\<close>

definition landing :: "deploy_par \<Rightarrow> 's deploy_net \<Rightarrow> (deployment \<times> 's \<Rightarrow> bool \<times> deployment \<times> 's) list" where
  "landing P N = preflight P N # ops_step P N # map (upload_step P N) EXPECTED_SHA256 @ map (instance_step P N) deploy_order"

definition wiring :: "deploy_par \<Rightarrow> 's deploy_net \<Rightarrow> (deployment \<times> 's \<Rightarrow> bool \<times> deployment \<times> 's) list" where
  "wiring P N = [phase P N (init_steps P), phase P N (wire_steps P), lazy_phase P N (feed_steps P),
     lazy_phase P N (\<lambda>O' C. market_steps C), phase P N (guard_steps P), phase P N (\<lambda>O' C. ttl_steps C), seed_step P N]"

definition mainnet_deploy :: "deploy_par \<Rightarrow> 's deploy_net \<Rightarrow> deployment \<times> 's \<Rightarrow> int \<times> deployment \<times> 's" where
  "mainnet_deploy P N d =
    (if falsy_str (dp_secret P) \<or> \<not> dp_secret_ok P then (1, d)
     else (let (ok, d1) = seq_run (landing P N @ wiring P N) d in (if ok then 0 else 1, d1)))"

end
