(* ===== verification/Mainnet_Correct.thy ===== *)
theory Mainnet_Correct
  imports Mainnet_Deploy
begin

text \<open>
  What makes the deployment resumable: the checkpoint never claims more than the network has done, whatever
  fails in whatever run, and a run that ends well leaves nothing to do. The network is unknown; what is assumed
  of it (\<open>network_truthful\<close>) is that nothing that landed goes away and that its positive answers are true.
\<close>

subsection \<open>A truthful network\<close>

record 's chain_facts =
  cf_code :: "'s \<Rightarrow> string \<Rightarrow> bool"
  cf_instance :: "'s \<Rightarrow> string \<Rightarrow> bool"
  cf_applied :: "'s \<Rightarrow> call_rq \<Rightarrow> bool"
  cf_sent :: "'s \<Rightarrow> string \<Rightarrow> call_rq \<Rightarrow> bool"

definition facts_le :: "'s chain_facts \<Rightarrow> 's \<Rightarrow> 's \<Rightarrow> bool" where
  "facts_le F s s' \<longleftrightarrow> (\<forall>h. cf_code F s h \<longrightarrow> cf_code F s' h) \<and> (\<forall>c. cf_instance F s c \<longrightarrow> cf_instance F s' c) \<and>
     (\<forall>r. cf_applied F s r \<longrightarrow> cf_applied F s' r) \<and>
     (\<forall>h r. cf_sent F s h r \<longrightarrow> cf_sent F s' h r)"

fun entry_fact :: "'s chain_facts \<Rightarrow> ledger_key \<Rightarrow> 's \<Rightarrow> bool" where
  "entry_fact F (CodeKey h) s = cf_code F s h"
| "entry_fact F (InstanceKey c) s = cf_instance F s c"

text \<open>A contract is initialized when some initialization of it has been applied, whoever sent it with whatever arguments.\<close>

definition initialized :: "'s chain_facts \<Rightarrow> 's \<Rightarrow> string \<Rightarrow> bool" where
  "initialized F s c \<longleftrightarrow> (\<exists>r. cf_applied F s r \<and> cq_contract r = c \<and> cq_method r = ''initialize'')"

definition initialized_otherwise :: "'s chain_facts \<Rightarrow> 's \<Rightarrow> call_rq \<Rightarrow> bool" where
  "initialized_otherwise F s r \<longleftrightarrow> (\<exists>r'. cf_applied F s r' \<and> cq_contract r' = cq_contract r \<and> cq_method r' = ''initialize'' \<and> r' \<noteq> r)"

text \<open>Nothing that landed goes away.\<close>

definition facts_grow :: "'s deploy_net \<Rightarrow> 's chain_facts \<Rightarrow> bool" where
  "facts_grow N F \<longleftrightarrow> (\<forall>s. facts_le F s (snd (dn_account N s)) \<and> facts_le F s (snd (dn_balance N s)) \<and>
     (\<forall>r. facts_le F s (snd (dn_simulate N r s)) \<and> facts_le F s (snd (dn_submit N r s))) \<and>
     (\<forall>h. facts_le F s (snd (dn_poll N h s))) \<and> (\<forall>i k. facts_le F s (snd (dn_entry N i k s))) \<and>
     (\<forall>a. facts_le F s (snd (dn_cli N a s))) \<and> facts_le F s (snd (dn_keypair N s)) \<and>
     (\<forall>a. facts_le F s (snd (dn_create N a s))) \<and> (\<forall>t. facts_le F s (dn_write_secrets N t s)) \<and> facts_le F s (snd (dn_seed N s)))"

text \<open>Positive answers are true; a refusal with the tolerated code says that the contract is initialized.\<close>

definition answers_true :: "'s deploy_net \<Rightarrow> 's chain_facts \<Rightarrow> bool" where
  "answers_true N F \<longleftrightarrow>
     (\<forall>i k s. fst (dn_entry N i k s) = Some True \<longrightarrow> entry_fact F k (snd (dn_entry N i k s))) \<and>
     (\<forall>a s h. fst (dn_cli N (''contract'' # ''upload'' # a) s) = Some h \<longrightarrow> cf_code F (snd (dn_cli N (''contract'' # ''upload'' # a) s)) h) \<and>
     (\<forall>a s c. fst (dn_cli N (''contract'' # ''deploy'' # a) s) = Some c \<longrightarrow> cf_instance F (snd (dn_cli N (''contract'' # ''deploy'' # a) s)) c) \<and>
     (\<forall>r s h. fst (dn_submit N r s) = SendAccepted h \<longrightarrow> cf_sent F (snd (dn_submit N r s)) h r) \<and>
     (\<forall>h s l r. fst (dn_poll N h s) = Some (PollSuccess l) \<and> cf_sent F s h r \<longrightarrow> cf_applied F (snd (dn_poll N h s)) r) \<and>
     (\<forall>r s e. fst (dn_simulate N r s) = SimRejects e \<and> tolerated [3] e \<longrightarrow> initialized F (snd (dn_simulate N r s)) (cq_contract r))"

definition network_truthful :: "'s deploy_net \<Rightarrow> 's chain_facts \<Rightarrow> bool" where
  "network_truthful N F \<longleftrightarrow> facts_grow N F \<and> answers_true N F"

text \<open>
  What a marked step stands for: its call was applied, or it is an initialization and the contract was found
  initialized, which the code takes for its own call landing late.
\<close>

definition achieved :: "'s chain_facts \<Rightarrow> 's \<Rightarrow> call_rq \<Rightarrow> bool" where
  "achieved F s r \<longleftrightarrow> (if cq_method r = ''initialize'' then initialized F s (cq_contract r) else cf_applied F s r)"

lemma achieved_applied: "achieved F s r \<Longrightarrow> cf_applied F s r \<or> cq_method r = ''initialize'' \<and> initialized_otherwise F s r"
  by (auto simp: achieved_def initialized_def initialized_otherwise_def split: if_split_asm)

lemma applied_achieved: "cf_applied F s r \<Longrightarrow> achieved F s r"
  by (auto simp: achieved_def initialized_def)

lemma facts_le_refl [intro, simp]: "facts_le F s s"
  by (simp add: facts_le_def)

lemma facts_le_trans [trans]: "facts_le F s s' \<Longrightarrow> facts_le F s' s'' \<Longrightarrow> facts_le F s s''"
  by (simp add: facts_le_def)

lemma achieved_mono: "facts_le F s s' \<Longrightarrow> achieved F s r \<Longrightarrow> achieved F s' r"
  by (auto simp: achieved_def initialized_def facts_le_def split: if_split_asm)

lemma entry_fact_mono: "facts_le F s s' \<Longrightarrow> entry_fact F k s \<Longrightarrow> entry_fact F k s'"
  by (cases k) (auto simp: facts_le_def)

subsection \<open>The building blocks\<close>

lemma grow:
  assumes "network_truthful N F"
  shows "facts_le F s (snd (dn_account N s))" "facts_le F s (snd (dn_balance N s))" "facts_le F s (snd (dn_simulate N r s))"
    "facts_le F s (snd (dn_submit N r s))" "facts_le F s (snd (dn_poll N h s))" "facts_le F s (snd (dn_entry N i k s))"
    "facts_le F s (snd (dn_cli N a s))" "facts_le F s (snd (dn_keypair N s))" "facts_le F s (snd (dn_create N b s))"
    "facts_le F s (dn_write_secrets N t s)" "facts_le F s (snd (dn_seed N s))"
  using assms by (simp_all add: network_truthful_def facts_grow_def)

lemma grow_stable: "network_truthful N F \<Longrightarrow> facts_le F s (snd (waitForSequenceStable N n p s))"
proof (induction n arbitrary: p s)
  case (Suc n)
  show ?case
  proof (cases "fst (dn_account N s)")
    case None
    then show ?thesis using grow(1) [OF Suc.prems] by (simp add: Let_def split_def)
  next
    case (Some q)
    have "facts_le F s (snd (waitForSequenceStable N n q (snd (dn_account N s))))"
      by (rule facts_le_trans [OF grow(1) [OF Suc.prems] Suc.IH [OF Suc.prems]])
    then show ?thesis using Some grow(1) [OF Suc.prems] by (simp add: Let_def split_def)
  qed
qed simp

lemma await_tx_grows: "network_truthful N F \<Longrightarrow> facts_le F s (snd (await_tx N h n s))"
proof (induction n arbitrary: s)
  case (Suc n)
  have p: "facts_le F s (snd (dn_poll N h s))" by (rule grow(5) [OF Suc.prems])
  have "facts_le F s (snd (await_tx N h n (snd (dn_poll N h s))))" by (rule facts_le_trans [OF p Suc.IH [OF Suc.prems]])
  then show ?case using p by (auto simp: Let_def split_def split: option.splits poll_status.splits)
qed simp

lemma await_tx_confirmed:
  assumes "network_truthful N F" and "fst (await_tx N h n s) = AwaitConfirmed" and "cf_sent F s h r"
  shows "cf_applied F (snd (await_tx N h n s)) r"
  using assms(2,3)
proof (induction n arbitrary: s)
  case (Suc n)
  have sent: "cf_sent F (snd (dn_poll N h s)) h r" using grow(5) [OF assms(1)] Suc.prems(2) by (auto simp: facts_le_def)
  have "cf_applied F (snd (dn_poll N h s)) r" if "fst (dn_poll N h s) = Some (PollSuccess l)" for l
    using assms(1) that Suc.prems(2) by (auto simp: network_truthful_def answers_true_def)
  then show ?case using Suc.prems Suc.IH [OF _ sent]
    by (auto simp: Let_def split_def split: option.splits poll_status.splits)
qed simp

lemma call_attempts_grows: "network_truthful N F \<Longrightarrow> facts_le F s (snd (call_attempts N codes rq retry n s))"
proof (induction n arbitrary: retry s)
  case (Suc n)
  note g = grow [OF Suc.prems]
  define s1 where "s1 = snd (if retry then waitForSequenceStable N 24 [] s else (True, s))"
  define s2 where "s2 = snd (dn_account N s1)"
  define s3 where "s3 = snd (dn_simulate N rq s2)"
  define s4 where "s4 = snd (dn_submit N rq s3)"
  have le1: "facts_le F s s1" by (auto simp: s1_def grow_stable [OF Suc.prems])
  have le2: "facts_le F s s2" using le1 g(1) unfolding s2_def by (rule facts_le_trans)
  have le3: "facts_le F s s3" using le2 g(3) unfolding s3_def by (rule facts_le_trans)
  have le4: "facts_le F s s4" using le3 g(4) unfolding s4_def by (rule facts_le_trans)
  have le5: "facts_le F s (snd (await_tx N h 60 s4))" for h
    using le4 await_tx_grows [OF Suc.prems] by (rule facts_le_trans)
  have again: "facts_le F s s' \<Longrightarrow> facts_le F s (snd (call_attempts N codes rq True n s'))" for s'
    by (rule facts_le_trans [OF _ Suc.IH [OF Suc.prems]])
  show ?case
    using le1 le2 le3 le4 le5 again
    by (simp add: Let_def split_def s1_def [symmetric] s2_def [symmetric] s3_def [symmetric] s4_def [symmetric]
        split: simulation.split submission.split awaited.split)
qed simp

lemma call_attempts_achieves:
  assumes "network_truthful N F" and codes: "codes = [] \<or> codes = [3] \<and> cq_method rq = ''initialize''"
    and "fst (call_attempts N codes rq retry n s)"
  shows "achieved F (snd (call_attempts N codes rq retry n s)) rq"
  using assms(3)
proof (induction n arbitrary: retry s)
  case (Suc n)
  define s1 where "s1 = snd (if retry then waitForSequenceStable N 24 [] s else (True, s))"
  define s2 where "s2 = snd (dn_account N s1)"
  define s3 where "s3 = snd (dn_simulate N rq s2)"
  define s4 where "s4 = snd (dn_submit N rq s3)"
  have rejected: "achieved F s3 rq" if "fst (dn_simulate N rq s2) = SimRejects e" "tolerated codes e" for e
  proof -
    have "codes = [3]" "cq_method rq = ''initialize''" using codes that(2) by (auto simp: tolerated_def)
    then show ?thesis using assms(1) that by (auto simp: achieved_def network_truthful_def answers_true_def s3_def)
  qed
  have confirmed: "achieved F (snd (await_tx N h 60 s4)) rq"
    if "fst (dn_submit N rq s3) = SendAccepted h" "fst (await_tx N h 60 s4) = AwaitConfirmed" for h
  proof -
    have "cf_sent F s4 h rq" using assms(1) that(1) by (auto simp: network_truthful_def answers_true_def s4_def)
    then have "cf_applied F (snd (await_tx N h 60 s4)) rq" by (rule await_tx_confirmed [OF assms(1) that(2)])
    then show ?thesis by (rule applied_achieved)
  qed
  show ?case
    using Suc.prems rejected confirmed Suc.IH
    by (simp add: Let_def split_def s1_def [symmetric] s2_def [symmetric] s3_def [symmetric] s4_def [symmetric]
        split: simulation.split_asm submission.split_asm awaited.split_asm if_split_asm)
qed simp

lemma entry_probe_grows: "network_truthful N F \<Longrightarrow> facts_le F s (snd (entry_probe N k is s))"
proof (induction "is" arbitrary: s)
  case (Cons i "is")
  have "facts_le F s (snd (entry_probe N k is (snd (dn_entry N i k s))))"
    by (rule facts_le_trans [OF grow(6) [OF Cons.prems] Cons.IH [OF Cons.prems]])
  then show ?case using grow(6) [OF Cons.prems] by (simp add: Let_def split_def split: option.split)
qed simp

lemma entry_probe_true:
  assumes "network_truthful N F" and "fst (entry_probe N k is s) = Some True"
  shows "entry_fact F k (snd (entry_probe N k is s))"
  using assms(2)
proof (induction "is" arbitrary: s)
  case (Cons i "is")
  have "entry_fact F k (snd (dn_entry N i k s))" if "fst (dn_entry N i k s) = Some True"
    using assms(1) that by (auto simp: network_truthful_def answers_true_def)
  then show ?case using Cons by (auto simp: Let_def split_def split: option.split_asm)
qed simp

text \<open>A command whose printed id is true.\<close>

definition prints_true :: "'s deploy_net \<Rightarrow> 's chain_facts \<Rightarrow> (nat \<Rightarrow> string list) \<Rightarrow> string \<Rightarrow> ledger_key \<Rightarrow> bool" where
  "prints_true N F args want k \<longleftrightarrow> (\<forall>i s. fst (dn_cli N (args i) s) = Some want \<longrightarrow> entry_fact F k (snd (dn_cli N (args i) s)))"

lemma upload_prints_true: "network_truthful N F \<Longrightarrow> prints_true N F (upload_args P name) want (CodeKey want)"
  by (auto simp: prints_true_def upload_args_def network_truthful_def answers_true_def)

lemma deploy_prints_true: "network_truthful N F \<Longrightarrow> prints_true N F (instance_args P name) want (InstanceKey want)"
  by (auto simp: prints_true_def instance_args_def network_truthful_def answers_true_def)

lemma land_attempts_grows: "network_truthful N F \<Longrightarrow> facts_le F s (snd (land_attempts N dry args want k is s))"
proof (induction "is" arbitrary: s)
  case (Cons i "is")
  note N = Cons.prems
  define s1 where "s1 = snd (dn_cli N (args i) s)"
  have le1: "facts_le F s s1" unfolding s1_def by (rule grow(7) [OF N])
  have le2: "facts_le F s (snd (entry_probe N k [0, 1, 2] s1))" by (rule facts_le_trans [OF le1 entry_probe_grows [OF N]])
  have "facts_le F s (snd (land_attempts N dry args want k is (snd (entry_probe N k [0, 1, 2] s1))))"
    by (rule facts_le_trans [OF le2 Cons.IH [OF N]])
  then show ?case using le1 le2
    by (cases dry) (simp_all del: entry_probe.simps add: Let_def split_def s1_def [symmetric] split: option.split bool.split)
qed simp

lemma land_attempts_true:
  assumes "network_truthful N F" and "prints_true N F args want k" and "\<not> dry" and "fst (land_attempts N dry args want k is s)"
  shows "entry_fact F k (snd (land_attempts N dry args want k is s))"
  using assms(4)
proof (induction "is" arbitrary: s)
  case (Cons i "is")
  define s1 where "s1 = snd (dn_cli N (args i) s)"
  have "fst (dn_cli N (args i) s) = Some want \<Longrightarrow> entry_fact F k s1"
    using assms(2) by (auto simp: prints_true_def s1_def)
  moreover note entry_probe_true [OF assms(1), of k "[0, 1, 2]" s1]
  ultimately show ?case using Cons assms(3)
    by (simp del: entry_probe.simps add: Let_def split_def s1_def [symmetric] split: option.split_asm bool.split_asm if_split_asm)
qed simp

lemma place_grows: "network_truthful N F \<Longrightarrow> facts_le F s (snd (place N dry already args want k s))"
proof -
  assume N: "network_truthful N F"
  have "facts_le F s (snd (land_attempts N dry args want k [0, 1, 2] (snd (entry_probe N k [0, 1, 2] s))))"
    by (rule facts_le_trans [OF entry_probe_grows [OF N] land_attempts_grows [OF N]])
  then show ?thesis using entry_probe_grows [OF N] land_attempts_grows [OF N]
    by (cases dry) (simp_all del: entry_probe.simps land_attempts.simps add: place_def Let_def split_def split: option.split bool.split)
qed

lemma place_true:
  assumes "network_truthful N F" and "prints_true N F args want k" and "\<not> dry"
    and "fst (place N dry already args want k s) = Some True"
  shows "entry_fact F k (snd (place N dry already args want k s))"
  using assms(3,4) entry_probe_true [OF assms(1), of k "[0, 1, 2]" s]
    land_attempts_true [OF assms(1-3), of "[0, 1, 2]" "snd (entry_probe N k [0, 1, 2] s)"]
  by (auto simp del: entry_probe.simps land_attempts.simps simp add: place_def Let_def split_def
      split: option.split_asm bool.split_asm if_split_asm)

lemma place_already: "\<not> dry \<Longrightarrow> fst (place N dry already args want k s) = Some False \<Longrightarrow> already"
  by (auto simp del: entry_probe.simps land_attempts.simps simp add: place_def Let_def split_def
      split: option.split_asm bool.split_asm if_split_asm)

subsection \<open>The checkpoint\<close>

definition deploy_plan :: "deploy_par \<Rightarrow> names \<Rightarrow> names \<Rightarrow> deploy_step list" where
  "deploy_plan P O' C = init_steps P O' C @ wire_steps P O' C @ feed_steps P O' C @ market_steps C @ guard_steps P O' C @ ttl_steps C"

text \<open>The accounts of the operators and all instances are recorded: from here on the plan is fixed.\<close>

definition landed :: "deployment \<Rightarrow> bool" where
  "landed D \<longleftrightarrow> step_done D ''ops_accounts'' \<and> (\<forall>n \<in> set deploy_order. recorded (dy_contracts D) n)"

definition wasm_true :: "'s chain_facts \<Rightarrow> names \<Rightarrow> 's \<Rightarrow> bool" where
  "wasm_true F W s \<longleftrightarrow> (\<forall>(n, want) \<in> set EXPECTED_SHA256. recorded W n \<longrightarrow> map_get W n = Some want \<and> cf_code F s want)"

definition instances_true :: "deploy_par \<Rightarrow> 's chain_facts \<Rightarrow> names \<Rightarrow> 's \<Rightarrow> bool" where
  "instances_true P F C s \<longleftrightarrow> (\<forall>n \<in> set deploy_order. recorded C n \<longrightarrow>
     map_get C n = Some (predictedId P n) \<and> cf_instance F s (predictedId P n))"

definition steps_true :: "deploy_par \<Rightarrow> 's chain_facts \<Rightarrow> deployment \<Rightarrow> 's \<Rightarrow> bool" where
  "steps_true P F D s \<longleftrightarrow> (\<forall>st \<in> set (deploy_plan P (dy_ops D) (dy_contracts D)). step_done D (st_key st) \<longrightarrow>
     landed D \<and> achieved F s (st_rq st))"

definition checkpoint_true :: "deploy_par \<Rightarrow> 's chain_facts \<Rightarrow> deployment \<times> 's \<Rightarrow> bool" where
  "checkpoint_true P F = (\<lambda>(D, s). wasm_true F (dy_wasm D) s \<and> instances_true P F (dy_contracts D) s \<and> steps_true P F D s)"

definition plan_keys :: "string list" where
  "plan_keys = map st_key (deploy_plan undefined [] [])"

lemmas plan_defs = deploy_plan_def init_steps_def wire_steps_def feed_steps_def market_steps_def guard_steps_def ttl_steps_def step_of_def

lemma plan_keys: "map st_key (deploy_plan P O' C) = plan_keys"
  by (simp add: plan_keys_def plan_defs Let_def)

lemma plan_keys_facts: "distinct plan_keys" "''ops_accounts'' \<notin> set plan_keys" "''seed_markets'' \<notin> set plan_keys"
  by (simp_all add: plan_keys_def plan_defs Let_def)

lemma plan_key_unique: "st \<in> set (deploy_plan P O' C) \<Longrightarrow> st' \<in> set (deploy_plan P O' C) \<Longrightarrow> st_key st = st_key st' \<Longrightarrow> st = st'"
  using plan_keys_facts(1) plan_keys [of P O' C] by (metis distinct_map inj_onD)

lemma plan_key_in: "st \<in> set (deploy_plan P O' C) \<Longrightarrow> st_key st \<in> set plan_keys"
  using plan_keys [of P O' C] by (metis image_eqI list.set_map)

lemma plan_codes: "st \<in> set (deploy_plan P O' C) \<Longrightarrow> st_codes st = [] \<or> st_codes st = [3] \<and> cq_method (st_rq st) = ''initialize''"
  by (auto simp: plan_defs Let_def)

lemma step_done_mark: "step_done (mark k D) k' \<longleftrightarrow> k' = k \<or> step_done D k'"
  by (simp add: step_done_def mark_def map_get_set)

lemma mark_fields [simp]: "dy_ops (mark k D) = dy_ops D" "dy_wasm (mark k D) = dy_wasm D" "dy_contracts (mark k D) = dy_contracts D"
  by (simp_all add: mark_def)

lemma recorded_set: "recorded (map_set m n v) n' \<longleftrightarrow> (if n' = n then v \<noteq> [] else recorded m n')"
  by (simp add: recorded_def map_get_set)

lemma wasm_grow: "wasm_true F W s \<Longrightarrow> facts_le F s s' \<Longrightarrow> wasm_true F W s'"
  unfolding wasm_true_def facts_le_def by blast

lemma instances_grow: "instances_true P F C s \<Longrightarrow> facts_le F s s' \<Longrightarrow> instances_true P F C s'"
  unfolding instances_true_def facts_le_def by blast

lemma steps_grow: "steps_true P F D s \<Longrightarrow> facts_le F s s' \<Longrightarrow> steps_true P F D s'"
  unfolding steps_true_def by (blast intro: achieved_mono)

lemma checkpoint_grow: "checkpoint_true P F (D, s) \<Longrightarrow> facts_le F s s' \<Longrightarrow> checkpoint_true P F (D, s')"
  by (auto simp: checkpoint_true_def intro: wasm_grow instances_grow steps_grow)

text \<open>Before everything has landed no step of the plan is marked.\<close>

lemma steps_true_before: "\<not> landed D \<Longrightarrow> steps_true P F D s \<longleftrightarrow> (\<forall>k \<in> set plan_keys. \<not> step_done D k)"
  by (auto simp: steps_true_def simp flip: plan_keys [of P "dy_ops D" "dy_contracts D"])

subsection \<open>Every step keeps the checkpoint true\<close>

lemma preflight_keeps: "network_truthful N F \<Longrightarrow> keeps (checkpoint_true P F) (preflight P N)"
proof (rule keepsI)
  fix d assume N: "network_truthful N F" and d: "checkpoint_true P F d"
  obtain D s where ds: "d = (D, s)" by (cases d)
  have le1: "facts_le F s (snd (dn_account N s))" by (rule grow(1) [OF N])
  have le2: "facts_le F s (snd (dn_balance N (snd (dn_account N s))))" by (rule facts_le_trans [OF le1 grow(2) [OF N]])
  show "checkpoint_true P F (snd (preflight P N d))"
    using d le1 le2 unfolding ds
    by (simp add: preflight_def Let_def split_def checkpoint_grow split: option.split)
qed

lemma draw_keys_grows: "network_truthful N F \<Longrightarrow> facts_le F s (snd (draw_keys N rs s))"
proof (induction rs arbitrary: s)
  case (Cons r rs)
  have "facts_le F s (snd (draw_keys N rs (snd (dn_keypair N s))))"
    by (rule facts_le_trans [OF grow(8) [OF Cons.prems] Cons.IH [OF Cons.prems]])
  then show ?case by (simp add: Let_def split_def)
qed simp

lemma ops_changes: "dy_wasm (D\<lparr> dy_ops := x \<rparr>) = dy_wasm D" "dy_contracts (D\<lparr> dy_ops := x \<rparr>) = dy_contracts D"
    "step_done (D\<lparr> dy_ops := x \<rparr>) k = step_done D k"
  by (simp_all add: step_done_def)

text \<open>Recording the operators, while they are not: no step of the plan was marked.\<close>

lemma checkpoint_ops:
  assumes "checkpoint_true P F (D, s)" and "\<not> step_done D ''ops_accounts''"
  shows "checkpoint_true P F (mark ''ops_accounts'' (D\<lparr> dy_ops := x \<rparr>), s)"
proof -
  have "\<not> landed D" using assms(2) by (simp add: landed_def)
  then have none: "\<forall>k \<in> set plan_keys. \<not> step_done D k"
    using assms(1) by (simp add: checkpoint_true_def steps_true_before)
  have "steps_true P F (mark ''ops_accounts'' (D\<lparr> dy_ops := x \<rparr>)) s"
    unfolding steps_true_def using none plan_key_in plan_keys_facts(2)
    by (auto simp: step_done_mark ops_changes) (metis plan_key_in)+
  then show ?thesis using assms(1) by (simp add: checkpoint_true_def ops_changes)
qed

lemma ops_keeps: "network_truthful N F \<Longrightarrow> keeps (checkpoint_true P F) (ops_step P N)"
proof (rule keepsI)
  fix d assume N: "network_truthful N F" and d: "checkpoint_true P F d"
  obtain D s where ds: "d = (D, s)" by (cases d)
  define s1 where "s1 = snd (dn_account N s)"
  define kk where "kk = draw_keys N OPS_ROLES s1"
  define cr where "cr = dn_create N (create_ops (fst kk)) (snd kk)"
  have le1: "facts_le F s s1" unfolding s1_def by (rule grow(1) [OF N])
  have le2: "facts_le F s (snd kk)" unfolding kk_def by (rule facts_le_trans [OF le1 draw_keys_grows [OF N]])
  have le3: "facts_le F s (snd cr)" unfolding cr_def by (rule facts_le_trans [OF le2 grow(9) [OF N]])
  have le4: "facts_le F s (snd (await_tx N h 30 (snd cr)))" for h by (rule facts_le_trans [OF le3 await_tx_grows [OF N]])
  have le5: "facts_le F s (dn_write_secrets N t (snd (await_tx N h 30 (snd cr))))" for h t
    by (rule facts_le_trans [OF le4 grow(10) [OF N]])
  show "checkpoint_true P F (snd (ops_step P N d))"
  proof (cases "step_done D ''ops_accounts''")
    case True
    then show ?thesis using d by (simp add: ops_step_def ds)
  next
    case False
    then show ?thesis using d le1 le2 le3 le4 le5 unfolding ds
      by (simp add: ops_step_def Let_def split_def s1_def [symmetric] kk_def [symmetric] cr_def [symmetric] checkpoint_grow
          checkpoint_ops split: option.split)
  qed
qed

lemma checkpoint_wasm:
  assumes "checkpoint_true P F (D, s)" and "(name, want) \<in> set EXPECTED_SHA256" and "cf_code F s want"
  shows "checkpoint_true P F (D\<lparr> dy_wasm := map_set (dy_wasm D) name want \<rparr>, s)"
proof -
  have "distinct (map fst EXPECTED_SHA256)" by (simp add: EXPECTED_SHA256_def)
  then have "want' = want" if "(name, want') \<in> set EXPECTED_SHA256" for want'
    using that assms(2) by (meson eq_key_imp_eq_value)
  moreover have "wasm_true F (dy_wasm D) s" using assms(1) by (simp add: checkpoint_true_def)
  ultimately have "recorded (map_set (dy_wasm D) name want) n \<longrightarrow> map_get (map_set (dy_wasm D) name want) n = Some w \<and> cf_code F s w"
    if "(n, w) \<in> set EXPECTED_SHA256" for n w
    using that assms(3) by (cases "n = name") (auto simp: wasm_true_def recorded_set map_get_set)
  then have "wasm_true F (map_set (dy_wasm D) name want) s" unfolding wasm_true_def by blast
  then show ?thesis using assms(1)
    by (simp add: checkpoint_true_def steps_true_def landed_def step_done_def)
qed

lemma upload_keeps:
  assumes N: "network_truthful N F" and dry: "\<not> dp_dry P" and e: "e \<in> set EXPECTED_SHA256"
  shows "keeps (checkpoint_true P F) (upload_step P N e)"
proof (rule keepsI)
  fix d assume d: "checkpoint_true P F d"
  obtain D s where ds: "d = (D, s)" by (cases d)
  obtain name want where nw: "e = (name, want)" by (cases e)
  define pl where "pl = place N (dp_dry P) (recorded (dy_wasm D) name) (upload_args P name) want (CodeKey want) s"
  have "facts_le F s (snd pl)" unfolding pl_def by (rule place_grows [OF N])
  then have D: "checkpoint_true P F (D, snd pl)" using d unfolding ds by (rule checkpoint_grow [rotated])
  have "cf_code F (snd pl) want" if "fst pl = Some True"
    using place_true [OF N upload_prints_true [OF N] dry] that unfolding pl_def by fastforce
  then show "checkpoint_true P F (snd (upload_step P N e d))"
    using D checkpoint_wasm [OF D e [unfolded nw]] unfolding ds nw
    by (simp add: upload_step_def Let_def split_def pl_def [symmetric] split: option.split)
qed

lemma checkpoint_instance:
  assumes "checkpoint_true P F (D, s)" and "n \<in> set deploy_order" and "\<not> recorded (dy_contracts D) n"
    and "cf_instance F s (predictedId P n)"
  shows "checkpoint_true P F (D\<lparr> dy_contracts := map_set (dy_contracts D) n (predictedId P n) \<rparr>, s)"
proof -
  have "\<not> landed D" using assms(2,3) by (auto simp: landed_def)
  then have none: "\<forall>k \<in> set plan_keys. \<not> step_done D k"
    using assms(1) by (simp add: checkpoint_true_def steps_true_before)
  have "steps_true P F (D\<lparr> dy_contracts := map_set (dy_contracts D) n (predictedId P n) \<rparr>) s"
    unfolding steps_true_def using none plan_key_in by (auto simp: step_done_def)
  then show ?thesis using assms
    by (auto simp: checkpoint_true_def instances_true_def recorded_set map_get_set)
qed

lemma instance_keeps:
  assumes N: "network_truthful N F" and dry: "\<not> dp_dry P" and n: "n \<in> set deploy_order"
  shows "keeps (checkpoint_true P F) (instance_step P N n)"
proof (rule keepsI)
  fix d assume d: "checkpoint_true P F d"
  obtain D s where ds: "d = (D, s)" by (cases d)
  define pl where "pl = place N (dp_dry P) (recorded (dy_contracts D) n) (instance_args P n) (predictedId P n)
      (InstanceKey (predictedId P n)) s"
  have "facts_le F s (snd pl)" unfolding pl_def by (rule place_grows [OF N])
  then have D: "checkpoint_true P F (D, snd pl)" using d unfolding ds by (rule checkpoint_grow [rotated])
  have fact: "cf_instance F (snd pl) (predictedId P n)" if "fst pl = Some True"
    using place_true [OF N deploy_prints_true [OF N] dry] that unfolding pl_def by fastforce
  have new: "\<not> recorded (dy_contracts D) n" if "fst pl = Some True"
    using that by (auto simp: pl_def place_def split: if_splits)
  show "checkpoint_true P F (snd (instance_step P N n d))"
    using D checkpoint_instance [OF D n new fact] unfolding ds
    by (simp add: instance_step_def Let_def split_def pl_def [symmetric] split: option.split)
qed

text \<open>Once everything has landed, the plan is fixed and its steps are marked one by one.\<close>

definition wired_at :: "deploy_par \<Rightarrow> 's chain_facts \<Rightarrow> names \<Rightarrow> names \<Rightarrow> deployment \<times> 's \<Rightarrow> bool" where
  "wired_at P F O' C d \<longleftrightarrow> checkpoint_true P F d \<and> landed (fst d) \<and> dy_ops (fst d) = O' \<and> dy_contracts (fst d) = C"

lemma landed_mark: "landed D \<Longrightarrow> landed (mark k D)"
  by (simp add: landed_def step_done_mark)

lemma wired_mark:
  assumes "wired_at P F O' C (D, s)" and "\<And>st. st \<in> set (deploy_plan P O' C) \<Longrightarrow> st_key st = k \<Longrightarrow> achieved F s (st_rq st)"
  shows "wired_at P F O' C (mark k D, s)"
  using assms by (auto simp: wired_at_def checkpoint_true_def steps_true_def step_done_mark landed_mark)

lemma wired_grow: "wired_at P F O' C (D, s) \<Longrightarrow> facts_le F s s' \<Longrightarrow> wired_at P F O' C (D, s')"
  by (auto simp: wired_at_def intro: checkpoint_grow)

lemma keyed_keeps:
  assumes N: "network_truthful N F" and dry: "\<not> dp_dry P" and st: "st \<in> set (deploy_plan P O' C)"
  shows "keeps (wired_at P F O' C) (keyed_step P N st)"
proof (rule keepsI)
  fix d assume d: "wired_at P F O' C d"
  obtain D s where ds: "d = (D, s)" by (cases d)
  define c where "c = deploy_call P N (st_codes st) (st_rq st) s"
  have "facts_le F s (snd c)" using call_attempts_grows [OF N] by (simp add: c_def deploy_call_def del: call_attempts.simps)
  then have D: "wired_at P F O' C (D, snd c)" using d unfolding ds by (rule wired_grow [rotated])
  have ach: "achieved F (snd c) (st_rq st)" if "fst c"
    using that dry call_attempts_achieves [OF N plan_codes [OF st]]
    by (simp add: c_def deploy_call_def del: call_attempts.simps split: if_splits)
  have "wired_at P F O' C (mark (st_key st) D, snd c)" if "fst c"
    using wired_mark [OF D] ach that plan_key_unique [OF _ st] by metis
  then show "wired_at P F O' C (snd (keyed_step P N st d))"
    using d D unfolding ds by (simp add: keyed_step_def Let_def split_def c_def [symmetric])
qed

lemma seed_keeps_wired: "network_truthful N F \<Longrightarrow> keeps (wired_at P F O' C) (seed_step P N)"
proof (rule keepsI)
  fix d assume N: "network_truthful N F" and d: "wired_at P F O' C d"
  obtain D s where ds: "d = (D, s)" by (cases d)
  have D: "wired_at P F O' C (D, snd (dn_seed N s))" using d grow(11) [OF N] unfolding ds by (rule wired_grow)
  then have "wired_at P F O' C (mark ''seed_markets'' D, snd (dn_seed N s))"
    by (rule wired_mark) (metis plan_key_in plan_keys_facts(3))
  then show "wired_at P F O' C (snd (seed_step P N d))"
    using d D unfolding ds by (simp add: seed_step_def Let_def split_def)
qed

subsection \<open>A whole run\<close>

text \<open>Marks and records are never taken back.\<close>

definition marked :: "string \<Rightarrow> deployment \<times> 's \<Rightarrow> bool" where
  "marked k d \<longleftrightarrow> step_done (fst d) k"

definition has_wasm :: "string \<Rightarrow> deployment \<times> 's \<Rightarrow> bool" where
  "has_wasm n d \<longleftrightarrow> recorded (dy_wasm (fst d)) n"

definition has_instance :: "string \<Rightarrow> deployment \<times> 's \<Rightarrow> bool" where
  "has_instance n d \<longleftrightarrow> recorded (dy_contracts (fst d)) n"

definition grows_records :: "(deployment \<times> 's \<Rightarrow> bool \<times> deployment \<times> 's) \<Rightarrow> bool" where
  "grows_records f \<longleftrightarrow> (\<forall>k. keeps (marked k) f) \<and> (\<forall>n. keeps (has_wasm n) f) \<and> (\<forall>n. keeps (has_instance n) f)"

definition ids_ok :: "deploy_par \<Rightarrow> bool" where
  "ids_ok P \<longleftrightarrow> list_all (\<lambda>n. predictedId P n \<noteq> []) deploy_order"

lemma expected_nonempty: "(n, want) \<in> set EXPECTED_SHA256 \<Longrightarrow> want \<noteq> []"
  by (auto simp: EXPECTED_SHA256_def)

lemmas record_simps = keeps_def marked_def has_wasm_def has_instance_def Let_def split_def

lemma preflight_records: "grows_records (preflight P N)"
  by (auto simp: grows_records_def record_simps preflight_def split: option.split)

lemma ops_records: "grows_records (ops_step P N)"
  by (auto simp: grows_records_def record_simps ops_step_def step_done_mark ops_changes split: option.split)

lemma upload_records: "e \<in> set EXPECTED_SHA256 \<Longrightarrow> grows_records (upload_step P N e)"
  by (cases e) (auto simp: grows_records_def record_simps upload_step_def recorded_set step_done_def expected_nonempty
      split: option.split)

lemma instance_records: "ids_ok P \<Longrightarrow> n \<in> set deploy_order \<Longrightarrow> grows_records (instance_step P N n)"
  by (auto simp: grows_records_def record_simps instance_step_def recorded_set step_done_def ids_ok_def list_all_iff
      split: option.split)

lemma keyed_records: "grows_records (keyed_step P N st)"
  by (auto simp: grows_records_def record_simps keyed_step_def step_done_mark)

lemma seed_records: "grows_records (seed_step P N)"
  by (auto simp: grows_records_def record_simps seed_step_def step_done_mark)

lemma landing_records: "ids_ok P \<Longrightarrow> f \<in> set (landing P N) \<Longrightarrow> grows_records f"
  by (auto simp: landing_def preflight_records ops_records upload_records instance_records)

lemma landing_keeps: "network_truthful N F \<Longrightarrow> \<not> dp_dry P \<Longrightarrow> f \<in> set (landing P N) \<Longrightarrow> keeps (checkpoint_true P F) f"
  by (auto simp: landing_def preflight_keeps ops_keeps upload_keeps instance_keeps)

text \<open>What a successful landing has recorded.\<close>

lemma keeps_conj: "keeps I f \<Longrightarrow> keeps Q f \<Longrightarrow> keeps (\<lambda>d. I d \<and> Q d) f"
  by (simp add: keeps_def)

lemma keeps_True: "keeps (\<lambda>_. True) f"
  by (simp add: keeps_def)

lemma landing_reaches:
  assumes "ids_ok P" and "f \<in> set (landing P N)" and "fst (seq_run (landing P N) d)"
    and "\<And>d. fst (f d) \<Longrightarrow> Q (snd (f d))" and "\<And>g. g \<in> set (landing P N) \<Longrightarrow> keeps Q g"
  shows "Q (snd (seq_run (landing P N) d))"
proof (rule run_reaches [OF assms(2) _ assms(3), where I = "\<lambda>_. True"])
  show "keeps (\<lambda>d. True \<and> Q d) g" if "g \<in> set (landing P N)" for g using assms(5) [OF that] by simp
  show "Q (snd (f d))" if "fst (f d)" for d using assms(4) [OF that] .
qed (simp_all add: keeps_True)

lemma upload_records_it:
  assumes "\<not> dp_dry P" and "want \<noteq> []" and "fst (upload_step P N (n, want) (D, s))"
  shows "recorded (dy_wasm (fst (snd (upload_step P N (n, want) (D, s))))) n"
proof -
  obtain r s1 where pl: "place N (dp_dry P) (recorded (dy_wasm D) n) (upload_args P n) want (CodeKey want) s = (r, s1)"
    by (meson surj_pair)
  have eq: "upload_step P N (n, want) (D, s) = (case r of None \<Rightarrow> (False, D, s1)
     | Some rec \<Rightarrow> (True, if rec then D\<lparr> dy_wasm := map_set (dy_wasm D) n want \<rparr> else D, s1))"
    by (simp add: upload_step_def pl)
  have "r = Some False \<Longrightarrow> recorded (dy_wasm D) n"
    using place_already [OF assms(1), of N "recorded (dy_wasm D) n"] pl by (metis fst_conv)
  then show ?thesis using assms(2,3)
    unfolding eq by (cases r; cases "the r") (simp_all add: recorded_set)
qed

lemma instance_records_it:
  assumes "\<not> dp_dry P" and "predictedId P n \<noteq> []" and "fst (instance_step P N n (D, s))"
  shows "recorded (dy_contracts (fst (snd (instance_step P N n (D, s))))) n"
proof -
  obtain r s1 where pl: "place N (dp_dry P) (recorded (dy_contracts D) n) (instance_args P n) (predictedId P n)
      (InstanceKey (predictedId P n)) s = (r, s1)"
    by (meson surj_pair)
  have eq: "instance_step P N n (D, s) = (case r of None \<Rightarrow> (False, D, s1)
     | Some rec \<Rightarrow> (True, if rec then D\<lparr> dy_contracts := map_set (dy_contracts D) n (predictedId P n) \<rparr> else D, s1))"
    by (simp add: instance_step_def pl)
  have "r = Some False \<Longrightarrow> recorded (dy_contracts D) n"
    using place_already [OF assms(1), of N "recorded (dy_contracts D) n"] pl by (metis fst_conv)
  then show ?thesis using assms(2,3)
    unfolding eq by (cases r; cases "the r") (simp_all add: recorded_set)
qed

lemma landing_lands:
  assumes "ids_ok P" and "\<not> dp_dry P" and "fst (seq_run (landing P N) d)"
  shows "landed (fst (snd (seq_run (landing P N) d))) \<and>
    (\<forall>(n, want) \<in> set EXPECTED_SHA256. has_wasm n (snd (seq_run (landing P N) d)))"
proof -
  have rec: "keeps (marked k) g" "keeps (has_wasm n) g" "keeps (has_instance n) g" if "g \<in> set (landing P N)" for g k n
    using landing_records [OF assms(1) that] by (simp_all add: grows_records_def)
  have ops: "marked ''ops_accounts'' (snd (seq_run (landing P N) d))"
  proof (rule landing_reaches [OF assms(1) _ assms(3), where f = "ops_step P N"])
    show "ops_step P N \<in> set (landing P N)" by (simp add: landing_def)
    show "keeps (marked ''ops_accounts'') g" if "g \<in> set (landing P N)" for g using rec(1) [OF that] .
    fix d assume "fst (ops_step P N d)"
    then show "marked ''ops_accounts'' (snd (ops_step P N d))"
      using assms(2) by (cases d) (auto simp: ops_step_def marked_def step_done_mark Let_def split_def
          split: option.split_asm if_split_asm)
  qed
  have inst: "has_instance n (snd (seq_run (landing P N) d))" if n: "n \<in> set deploy_order" for n
  proof (rule landing_reaches [OF assms(1) _ assms(3), where f = "instance_step P N n"])
    show "instance_step P N n \<in> set (landing P N)" using n by (simp add: landing_def)
    show "keeps (has_instance n) g" if "g \<in> set (landing P N)" for g using rec(3) [OF that] .
    fix d assume "fst (instance_step P N n d)"
    moreover have "predictedId P n \<noteq> []" using assms(1) n by (simp add: ids_ok_def list_all_iff)
    ultimately show "has_instance n (snd (instance_step P N n d))"
      by (metis has_instance_def instance_records_it [OF assms(2)] surj_pair)
  qed
  have wasm: "has_wasm n (snd (seq_run (landing P N) d))" if n: "(n, want) \<in> set EXPECTED_SHA256" for n want
  proof (rule landing_reaches [OF assms(1) _ assms(3), where f = "upload_step P N (n, want)"])
    show "upload_step P N (n, want) \<in> set (landing P N)" using n by (auto simp: landing_def)
    show "keeps (has_wasm n) g" if "g \<in> set (landing P N)" for g using rec(2) [OF that] .
    fix d assume "fst (upload_step P N (n, want) d)"
    then show "has_wasm n (snd (upload_step P N (n, want) d))"
      by (metis has_wasm_def upload_records_it [OF assms(2) expected_nonempty [OF n]] surj_pair)
  qed
  show ?thesis using ops inst wasm by (auto simp: landed_def marked_def has_instance_def)
qed

subsection \<open>The plan\<close>

lemma phase_plan: "set (init_steps P O' C) \<subseteq> set (deploy_plan P O' C)" "set (wire_steps P O' C) \<subseteq> set (deploy_plan P O' C)"
    "set (feed_steps P O' C) \<subseteq> set (deploy_plan P O' C)" "set (market_steps C) \<subseteq> set (deploy_plan P O' C)"
    "set (guard_steps P O' C) \<subseteq> set (deploy_plan P O' C)" "set (ttl_steps C) \<subseteq> set (deploy_plan P O' C)"
  by (auto simp: deploy_plan_def)

lemma keyed_run_keeps:
  assumes "network_truthful N F" and "\<not> dp_dry P" and "set sts \<subseteq> set (deploy_plan P O' C)"
  shows "keeps (wired_at P F O' C) (seq_run (map (keyed_step P N) sts))"
  using assms by (intro keeps_run) (auto intro: keyed_keeps)

lemma wired_fields: "wired_at P F O' C d \<Longrightarrow> dy_ops (fst d) = O' \<and> dy_contracts (fst d) = C"
  by (simp add: wired_at_def)

lemma phase_keeps:
  assumes "network_truthful N F" and "\<not> dp_dry P" and "set (mk O' C) \<subseteq> set (deploy_plan P O' C)"
  shows "keeps (wired_at P F O' C) (phase P N mk)" "keeps (wired_at P F O' C) (lazy_phase P N mk)"
proof -
  have "wired_at P F O' C (snd (phase P N mk d)) \<and> wired_at P F O' C (snd (lazy_phase P N mk d))" if "wired_at P F O' C d" for d
    using keepsD [OF keyed_run_keeps [OF assms] that] that
    by (simp add: phase_def lazy_phase_def wired_fields [OF that] Let_def)
  then show "keeps (wired_at P F O' C) (phase P N mk)" "keeps (wired_at P F O' C) (lazy_phase P N mk)"
    by (simp_all add: keeps_def)
qed

lemma wiring_keeps: "network_truthful N F \<Longrightarrow> \<not> dp_dry P \<Longrightarrow> f \<in> set (wiring P N) \<Longrightarrow> keeps (wired_at P F O' C) f"
  unfolding wiring_def by (auto intro!: phase_keeps seed_keeps_wired phase_plan)

lemma keyed_run_marks: "keeps (marked k) (seq_run (map (keyed_step P N) sts))"
proof (rule keeps_run)
  show "keeps (marked k) f" if "f \<in> set (map (keyed_step P N) sts)" for f
    using that keyed_records [of P N] by (auto simp: grows_records_def)
qed

lemma wiring_marks: "f \<in> set (wiring P N) \<Longrightarrow> keeps (marked k) f"
  using keepsD [OF keyed_run_marks] seed_records [of P N] unfolding wiring_def
  by (auto simp: grows_records_def) (auto simp: keeps_def phase_def lazy_phase_def Let_def)

lemma keyed_run_done:
  assumes "st \<in> set sts" and "fst (seq_run (map (keyed_step P N) sts) d)"
  shows "marked (st_key st) (snd (seq_run (map (keyed_step P N) sts) d))"
proof (rule run_reaches [OF _ _ assms(2), where I = "\<lambda>_. True" and f = "keyed_step P N st"])
  show "marked (st_key st) (snd (keyed_step P N st d))" if "fst (keyed_step P N st d)" for d
    using that by (cases d) (auto simp: keyed_step_def marked_def step_done_mark Let_def split_def split: if_split_asm)
  show "keeps (\<lambda>d. True \<and> marked (st_key st) d) g" if "g \<in> set (map (keyed_step P N) sts)" for g
    using that keyed_records [of P N] by (auto simp: grows_records_def)
qed (use assms(1) in \<open>auto simp: keeps_True\<close>)

text \<open>The phase that holds a step of the plan.\<close>

lemma phase_done:
  assumes "st \<in> set (mk (dy_ops (fst d)) (dy_contracts (fst d)))"
  shows "fst (phase P N mk d) \<Longrightarrow> marked (st_key st) (snd (phase P N mk d))"
    and "fst (lazy_phase P N mk d) \<Longrightarrow> marked (st_key st) (snd (lazy_phase P N mk d))"
  using keyed_run_done [OF assms, of P N d] by (auto simp: phase_def lazy_phase_def Let_def split: if_split_asm)

lemma wiring_done:
  assumes N: "network_truthful N F" and dry: "\<not> dp_dry P" and w: "wired_at P F O' C d" and ok: "fst (seq_run (wiring P N) d)"
    and st: "st \<in> set (deploy_plan P O' C)"
  shows "marked (st_key st) (snd (seq_run (wiring P N) d))"
proof -
  have "\<exists>f \<in> set (wiring P N). \<forall>d. wired_at P F O' C d \<longrightarrow> fst (f d) \<longrightarrow> marked (st_key st) (snd (f d))"
    using st phase_done [where P = P and N = N] unfolding deploy_plan_def wiring_def set_append Un_iff
    by (auto dest!: wired_fields)
  then obtain f where f: "f \<in> set (wiring P N)"
    and est: "\<And>d. wired_at P F O' C d \<Longrightarrow> fst (f d) \<Longrightarrow> marked (st_key st) (snd (f d))" by blast
  show ?thesis
    by (rule run_reaches [OF f w ok wiring_keeps [OF N dry] keeps_conj [OF wiring_keeps [OF N dry] wiring_marks] est])
qed

lemma grows_records_run:
  assumes "\<And>f. f \<in> set fs \<Longrightarrow> grows_records f"
  shows "grows_records (seq_run fs)"
  using assms unfolding grows_records_def by (blast intro: keeps_run)

lemma phase_records: "grows_records (phase P N mk)" "grows_records (lazy_phase P N mk)"
proof -
  have "grows_records (seq_run (map (keyed_step P N) sts))" for sts
    by (rule grows_records_run) (use keyed_records in auto)
  then show "grows_records (phase P N mk)" "grows_records (lazy_phase P N mk)"
    by (simp_all add: grows_records_def keeps_def phase_def lazy_phase_def Let_def)
qed

lemma wiring_records: "f \<in> set (wiring P N) \<Longrightarrow> grows_records f"
  by (auto simp: wiring_def phase_records seed_records)

text \<open>From a true checkpoint a run ends in a true checkpoint; when the landing returned, the plan is fixed.\<close>

lemma landed_wired:
  assumes "network_truthful N F" and "\<not> dp_dry P" and "ids_ok P" and "checkpoint_true P F d" and "fst (seq_run (landing P N) d)"
    and "d1 = snd (seq_run (landing P N) d)"
  shows "wired_at P F (dy_ops (fst d1)) (dy_contracts (fst d1)) d1"
  using keepsD [OF keeps_run [OF landing_keeps [OF assms(1,2)]] assms(4)] landing_lands [OF assms(3,2,5)] assms(6)
  by (simp add: wired_at_def)

lemma run_keeps_checkpoint:
  assumes "network_truthful N F" and "\<not> dp_dry P" and "ids_ok P" and "checkpoint_true P F d"
  shows "checkpoint_true P F (snd (mainnet_deploy P N d))"
proof -
  define d1 where "d1 = snd (seq_run (landing P N) d)"
  have l: "checkpoint_true P F d1" unfolding d1_def by (rule keepsD [OF keeps_run [OF landing_keeps [OF assms(1,2)]] assms(4)])
  have "checkpoint_true P F (snd (seq_run (wiring P N) d1))" if "fst (seq_run (landing P N) d)"
    using keepsD [OF keeps_run [OF wiring_keeps [OF assms(1,2)]] landed_wired [OF assms that d1_def]] by (simp add: wired_at_def)
  then show ?thesis using l assms(4) by (simp add: mainnet_deploy_def seq_run_append d1_def Let_def split_def)
qed

text \<open>A deployment with nothing left to do.\<close>

definition complete :: "deploy_par \<Rightarrow> deployment \<Rightarrow> bool" where
  "complete P D \<longleftrightarrow> landed D \<and> (\<forall>(n, want) \<in> set EXPECTED_SHA256. recorded (dy_wasm D) n) \<and>
     (\<forall>k \<in> set plan_keys. step_done D k) \<and> (step_done D ''seed_markets'' \<or> \<not> dp_has_db P)"

lemma seq_run_idle: "(\<And>f. f \<in> set fs \<Longrightarrow> snd (f d) = d) \<Longrightarrow> snd (seq_run fs d) = d"
  by (induction fs) (auto simp: Let_def split_def)

lemma keyed_idle: "complete P D \<Longrightarrow> st \<in> set (deploy_plan P O' C) \<Longrightarrow> keyed_step P N st (D, s) = (True, D, s)"
  by (auto simp: keyed_step_def complete_def dest: plan_key_in)

lemma phase_idle:
  assumes "complete P D" and "set (mk (dy_ops D) (dy_contracts D)) \<subseteq> set (deploy_plan P (dy_ops D) (dy_contracts D))"
  shows "snd (phase P N mk (D, s)) = (D, s)" "snd (lazy_phase P N mk (D, s)) = (D, s)"
proof -
  have "snd (seq_run (map (keyed_step P N) (mk (dy_ops D) (dy_contracts D))) (D, s)) = (D, s)"
    using assms by (intro seq_run_idle) (auto simp: keyed_idle)
  then show "snd (phase P N mk (D, s)) = (D, s)" "snd (lazy_phase P N mk (D, s)) = (D, s)"
    by (simp_all add: phase_def lazy_phase_def Let_def)
qed

lemma wiring_idle: "complete P D \<Longrightarrow> f \<in> set (wiring P N) \<Longrightarrow> snd (f (D, s)) = (D, s)"
  unfolding wiring_def
  by (auto intro!: phase_idle phase_plan) (auto simp: seed_step_def complete_def)

lemma landing_idle: "complete P D \<Longrightarrow> f \<in> set (tl (landing P N)) \<Longrightarrow> snd (f (D, s)) = (D, s)"
  by (auto simp: landing_def complete_def landed_def ops_step_def upload_step_def instance_step_def place_def)

lemma preflight_keeps_file: "fst (snd (preflight P N (D, s))) = D"
  by (simp add: preflight_def Let_def split_def split: option.split)

lemma complete_rerun:
  assumes "complete P D" and "\<not> (falsy_str (dp_secret P) \<or> \<not> dp_secret_ok P)"
  shows "snd (mainnet_deploy P N (D, s)) = snd (preflight P N (D, s))"
proof -
  obtain s2 where s2: "snd (preflight P N (D, s)) = (D, s2)" using preflight_keeps_file by (metis prod.collapse)
  have rest: "snd (seq_run (tl (landing P N) @ wiring P N) (D, s2)) = (D, s2)"
  proof (rule seq_run_idle)
    fix f assume "f \<in> set (tl (landing P N) @ wiring P N)"
    then show "snd (f (D, s2)) = (D, s2)"
      unfolding set_append Un_iff by (elim disjE) (rule landing_idle [OF assms(1)] wiring_idle [OF assms(1)], assumption)+
  qed
  have "landing P N @ wiring P N = preflight P N # (tl (landing P N) @ wiring P N)" by (simp add: landing_def)
  then have "snd (seq_run (landing P N @ wiring P N) (D, s)) = (D, s2)"
    using rest s2 by (simp only: seq_run.simps Let_def split_def) simp
  then show ?thesis using assms(2) s2 unfolding mainnet_deploy_def by (simp add: Let_def split_def)
qed

lemma wiring_keeps_wasm: "keeps (has_wasm n) (seq_run (wiring P N))"
proof -
  have "grows_records (seq_run (wiring P N))" by (rule grows_records_run) (rule wiring_records)
  then show ?thesis by (simp add: grows_records_def)
qed

lemma wiring_seeds: "fst (seq_run (wiring P N) d) \<Longrightarrow> marked ''seed_markets'' (snd (seq_run (wiring P N) d)) \<or> \<not> dp_has_db P"
proof (rule run_reaches [where I = "\<lambda>_. True" and f = "seed_step P N"])
  show "seed_step P N \<in> set (wiring P N)" by (simp add: wiring_def)
  show "keeps (\<lambda>d. True \<and> (marked ''seed_markets'' d \<or> \<not> dp_has_db P)) g" if "g \<in> set (wiring P N)" for g
    using wiring_records [OF that] by (auto simp: grows_records_def keeps_def)
  show "marked ''seed_markets'' (snd (seed_step P N d)) \<or> \<not> dp_has_db P" if "fst (seed_step P N d)" for d
    using that by (cases d) (auto simp: seed_step_def marked_def step_done_mark Let_def split_def split: if_split_asm)
qed (simp_all add: keeps_True)

subsection \<open>The two promises\<close>



text \<open>A network for the witnesses: uploads, instances and calls land at once; a contract is initialized once.\<close>

type_synonym sample_world = "string list \<times> string list \<times> call_rq list"

definition sample_deploy_net :: "sample_world deploy_net" where
  "sample_deploy_net = \<lparr> dn_account = (\<lambda>s. (Some ''1'', s)), dn_balance = (\<lambda>s. (Some (Fin 1000), s)),
     dn_simulate = (\<lambda>r (c, i, q). (if cq_method r = ''initialize'' \<and> list_ex (\<lambda>r'. cq_contract r' = cq_contract r \<and> cq_method r' = ''initialize'') q
         then SimRejects ''Error(Contract, #3)'' else SimPasses, (c, i, q))),
     dn_submit = (\<lambda>r (c, i, q). (SendAccepted ''h'', (c, i, r # q))),
     dn_poll = (\<lambda>h s. (Some (PollSuccess 1), s)),
     dn_entry = (\<lambda>n k (c, i, q). (Some (case k of CodeKey h \<Rightarrow> h \<in> set c | InstanceKey x \<Rightarrow> x \<in> set i), (c, i, q))),
     dn_cli = (\<lambda>a (c, i, q). if a ! 1 = ''upload'' then (let h = the (map_of (map (\<lambda>(n, w). (''d/'' @ n @ ''.wasm'', w)) EXPECTED_SHA256) (a ! 3))
         in (Some h, (h # c, i, q))) else (Some (a ! 5), (c, a ! 5 # i, q))),
     dn_keypair = (\<lambda>s. ((''GP'', ''SP''), s)), dn_create = (\<lambda>a s. (Some ''c'', s)), dn_write_secrets = (\<lambda>t s. s),
     dn_seed = (\<lambda>s. (True, s)) \<rparr>"

definition sample_deploy_facts :: "sample_world chain_facts" where
  "sample_deploy_facts = \<lparr> cf_code = (\<lambda>(c, i, q) h. h \<in> set c), cf_instance = (\<lambda>(c, i, q) x. x \<in> set i),
     cf_applied = (\<lambda>(c, i, q) r. r \<in> set q), cf_sent = (\<lambda>(c, i, q) h r. r \<in> set q) \<rparr>"

definition sample_deploy_par :: deploy_par where
  "sample_deploy_par = \<lparr> dp_dry = False, dp_secret = Some ''S'', dp_secret_ok = True, dp_admin = ''GA'', dp_rpc_url = None,
     dp_artifacts = ''d'', dp_artifact = map_of EXPECTED_SHA256, dp_sha256_hex = id, dp_contractId = (\<lambda>a salt. salt),
     dp_address_ok = (\<lambda>a. True), dp_contract_ok = (\<lambda>a. True), dp_has_db = True \<rparr>"

lemma sample_deploy_truthful: "network_truthful sample_deploy_net sample_deploy_facts"
  by (auto simp: network_truthful_def facts_grow_def answers_true_def facts_le_def initialized_def list_ex_iff sample_deploy_net_def sample_deploy_facts_def Let_def
      split: ledger_key.split)

lemma sample_flaky_truthful: "network_truthful (sample_deploy_net\<lparr> dn_poll := (\<lambda>h s. (None, s)) \<rparr>) sample_deploy_facts"
  by (auto simp: network_truthful_def facts_grow_def answers_true_def facts_le_def initialized_def list_ex_iff sample_deploy_net_def sample_deploy_facts_def Let_def
      split: ledger_key.split)

lemma sample_deploy_ids: "ids_ok sample_deploy_par"
  by (simp add: ids_ok_def predictedId_def saltFor_def sample_deploy_par_def list_all_iff)

lemma empty_checkpoint_true: "checkpoint_true P F (empty_deployment, s)"
  by (simp add: checkpoint_true_def wasm_true_def instances_true_def steps_true_def empty_deployment_def recorded_def step_done_def
      split_def)


lemma sample_deploy_succeeds: "fst (mainnet_deploy sample_deploy_par sample_deploy_net (empty_deployment, ([], [], []))) = 0"
  by code_simp


text \<open>
  A dry run marks the steps it only prints, in the file a real run reads afterwards.
\<close>

lemma dry_run_marks_steps:
  assumes "dp_dry P" and "args_ok P st"
  shows "keyed_step P N st (D, s) = (True, if step_done D (st_key st) then D else mark (st_key st) D, s)"
  using assms by (simp add: keyed_step_def deploy_call_def)

text \<open>
  Whoever initializes a contract first chooses its arguments: the script ends well and reports the risk contract
  as initialized, without its own initialization of it among the applied calls.
\<close>

definition foreign_init :: call_rq where
  "foreign_init = \<lparr> cq_contract = predictedId sample_deploy_par ''perp_risk'', cq_method = ''initialize'', cq_args = [] \<rparr>"

lemma foreign_initialization_unnoticed:
  "case mainnet_deploy sample_deploy_par sample_deploy_net (empty_deployment, ([], [], [foreign_init])) of (code, D, (c, i, q)) \<Rightarrow>
     code = 0 \<and> filter (\<lambda>r. cq_contract r = predictedId sample_deploy_par ''perp_risk'' \<and> cq_method r = ''initialize'') q = [foreign_init] \<and>
     step_done D ''init_risk''"
  by code_simp

text \<open>Operator accounts whose creation is never confirmed are recorded like created ones.\<close>

lemma unconfirmed_accounts_recorded:
  assumes "\<not> step_done D ''ops_accounts''" and "\<not> dp_dry P" and "dn_account N s = (Some q, s1)" and "draw_keys N OPS_ROLES s1 = (ks, s2)"
    and "dn_create N (create_ops ks) s2 = (Some h, s3)" and "await_tx N h 30 s3 = (AwaitTimeout, s4)"
  shows "fst (ops_step P N (D, s)) \<and> step_done (fst (snd (ops_step P N (D, s)))) ''ops_accounts''"
  using assms by (simp add: ops_step_def step_done_mark)

end
