(* ===== verification/Redeploy_Scripts.thy ===== *)
theory Redeploy_Scripts
  imports Mainnet_Correct
begin

text \<open>
  The testnet scripts that replace contracts: \<open>client/scripts/rewire-liquidation.ts\<close> (a new liquidation and
  insurance pair for the current core) and \<open>redeploy-core.ts\<close> (vault, risk, engine and gateway), with the
  way each of them retries a call. The rewriting of the source files that ends \<open>redeploy-core.ts\<close> is in \<open>Testnet_Scripts\<close>.
\<close>

record script_par =
  sp_env :: env
  sp_cfg :: config
  sp_admin :: string
  sp_secret_ok :: "string \<Rightarrow> bool"
  sp_public :: "string \<Rightarrow> string"
  sp_address_ok :: "string \<Rightarrow> bool"
  sp_contract_ok :: "string \<Rightarrow> bool"
  sp_sha256 :: "string \<Rightarrow> bytes"
  sp_now :: int

definition call_of :: "string \<Rightarrow> string \<Rightarrow> scval list \<Rightarrow> call_rq" where
  "call_of contract method args = \<lparr> cq_contract = contract, cq_method = method, cq_args = args \<rparr>"

subsection \<open>\<open>rewire-liquidation.ts\<close>: a call\<close>

datatype attempt = AttemptOk | AttemptRejected | AttemptError

text \<open>One pass through the \<open>try\<close>: everything but a rejection by the simulation ends in its \<open>catch\<close>.\<close>

definition rewire_attempt :: "script_par \<Rightarrow> 's deploy_net \<Rightarrow> call_rq \<Rightarrow> 's \<Rightarrow> attempt \<times> 's" where
  "rewire_attempt P N rq s =
    (let (acct, s1) = dn_account N s in
     if acct = None \<or> \<not> sp_contract_ok P (cq_contract rq) then (AttemptError, s1)
     else (let (sim, s2) = dn_simulate N rq s1 in case sim of
         SimThrows \<Rightarrow> (AttemptError, s2)
       | SimRejects e \<Rightarrow> (AttemptRejected, s2)
       | SimPasses \<Rightarrow> (let (sent, s3) = dn_submit N rq s2 in case sent of
             SendAccepted h \<Rightarrow> (let (w, s4) = await_tx N h 45 s3 in (if w = AwaitConfirmed then AttemptOk else AttemptError, s4))
           | _ \<Rightarrow> (AttemptError, s3))))"

text \<open>
  Four attempts. A rejection returns \<open>false\<close> only where failure is allowed; elsewhere its exception is thrown
  inside the \<open>try\<close> and leads to the next attempt. \<open>None\<close> is an exception.
\<close>

primrec rewire_call :: "script_par \<Rightarrow> 's deploy_net \<Rightarrow> bool \<Rightarrow> call_rq \<Rightarrow> nat \<Rightarrow> 's \<Rightarrow> bool option \<times> 's" where
  "rewire_call P N allowFail rq 0 s = (if allowFail then Some False else None, s)"
| "rewire_call P N allowFail rq (Suc k) s = (let (r, s1) = rewire_attempt P N rq s in case r of
     AttemptOk \<Rightarrow> (Some True, s1)
   | AttemptRejected \<Rightarrow> if allowFail then (Some False, s1) else rewire_call P N allowFail rq k s1
   | AttemptError \<Rightarrow> rewire_call P N allowFail rq k s1)"

definition rewire_step :: "script_par \<Rightarrow> 's deploy_net \<Rightarrow> call_rq \<times> bool \<Rightarrow> 's \<Rightarrow> bool \<times> 's" where
  "rewire_step P N = (\<lambda>(rq, allowFail) s.
    (if \<not> list_all (scval_ok (sp_address_ok P)) (cq_args rq) then (False, s)
     else (let (r, s1) = rewire_call P N allowFail rq 4 s in (r \<noteq> None, s1))))"

subsection \<open>\<open>rewire-liquidation.ts\<close>: the script\<close>

definition LIQ :: "script_par \<Rightarrow> string" where "LIQ P = env_or (sp_env P) ''NEW_LIQUIDATION'' []"

definition INS :: "script_par \<Rightarrow> string" where "INS P = env_or (sp_env P) ''NEW_INSURANCE'' []"

definition SEED_UNITS :: "script_par \<Rightarrow> int option" where
  "SEED_UNITS P = bigint_of_string (env_or (sp_env P) ''INSURANCE_SEED_UNITS'' ''5000000000'')"

text \<open>\<open>None\<close>: no value of type \<open>u32\<close>.\<close>

definition MAX_REWARD_BPS :: "script_par \<Rightarrow> int option" where
  "MAX_REWARD_BPS P = (case number_int (string_to_number (env_or (sp_env P) ''MAX_REWARD_BPS'' ''50'')) of
     None \<Rightarrow> None | Some n \<Rightarrow> if 0 \<le> n \<and> n < 2 ^ 32 then Some n else None)"

definition contract_address :: "string \<Rightarrow> bool" where
  "contract_address a \<longleftrightarrow> length a = 56 \<and> hd a = CHR ''C'' \<and>
     list_all (\<lambda>c. is_digit c \<or> (let n = of_char c :: nat in 65 \<le> n \<and> n \<le> 90)) (tl a)"

definition enroll_calls :: "script_par \<Rightarrow> int \<Rightarrow> (call_rq \<times> bool) list" where
  "enroll_calls P eta = (let gov = governance (CONTRACTS_cfg (sp_cfg P)) in concat (map (\<lambda>target.
     [(call_of target ''nominate_admin'' [ScAddress gov], False),
      (call_of gov ''queue'' [ScBytes (proposalId (sp_sha256 P) (sp_cfg P) target), ScAddress target, ScSymbol ''accept_admin'', ScVec [],
         ScBytes (replicate 32 0), ScU64 eta], True)]) [LIQ P, INS P]))"

definition enrollGovernance :: "script_par \<Rightarrow> 's deploy_net \<Rightarrow> 's \<Rightarrow> bool \<times> 's" where
  "enrollGovernance P N s = (case readMinDelay (sp_env P) of None \<Rightarrow> (False, s)
     | Some d \<Rightarrow> (let eta = queue_eta (sp_now P) d in
         if eta < 0 \<or> 2 ^ 64 \<le> eta then (let (ok, s1) = rewire_step P N (hd (enroll_calls P 0)) s in (False, s1))
         else seq_run (map (rewire_step P N) (enroll_calls P eta)) s))"

definition core_calls :: "script_par \<Rightarrow> int \<Rightarrow> (call_rq \<times> bool) list" where
  "core_calls P reward = (let engine = engine (CONTRACTS_cfg (sp_cfg P)); vault = vault (CONTRACTS_cfg (sp_cfg P));
      usdc = usdc (ASSETS_cfg (sp_cfg P)) in
    [(call_of (INS P) ''initialize'' [ScAddress (sp_admin P), ScAddress (LIQ P)], True),
     (call_of (INS P) ''set_vault'' [ScAddress vault], False),
     (call_of (LIQ P) ''initialize'' [ScAddress (sp_admin P), ScAddress engine, ScAddress vault, ScAddress (INS P), ScAddress usdc,
        ScU32 reward], True),
     (call_of engine ''set_liquidation'' [ScAddress (LIQ P)], False),
     (call_of engine ''set_insurance'' [ScAddress (INS P)], False),
     (call_of vault ''set_liquidation'' [ScAddress (LIQ P)], False),
     (call_of vault ''set_insurance'' [ScAddress (INS P)], False)])"

definition seed_call :: "script_par \<Rightarrow> int \<Rightarrow> (call_rq \<times> bool) list" where
  "seed_call P units = (if 0 < units
     then [(call_of (INS P) ''deposit'' [ScAddress (sp_admin P), ScAddress (usdc (ASSETS_cfg (sp_cfg P))), ScI128 units], False)] else [])"

text \<open>A reward that is no \<open>u32\<close> throws when the arguments of the third call are built.\<close>

definition rewire_main :: "script_par \<Rightarrow> 's deploy_net \<Rightarrow> 's \<Rightarrow> int \<times> 's" where
  "rewire_main P N s =
    (case SEED_UNITS P of None \<Rightarrow> (1, s)
     | Some units \<Rightarrow>
       if falsy_str (sp_env P ''ORACLE_PUBLISHER_SECRET'') \<or> \<not> contract_address (LIQ P) \<or> \<not> contract_address (INS P)
          \<or> \<not> sp_secret_ok P (the (sp_env P ''ORACLE_PUBLISHER_SECRET'')) then (1, s)
       else (let (ok, s1) =
           (if sp_env P ''ONLY_GOVERNANCE'' = Some ''1'' then enrollGovernance P N s
            else (case MAX_REWARD_BPS P of
                None \<Rightarrow> (let (r, s1) = seq_run (map (rewire_step P N) (take 2 (core_calls P 0))) s in (False, s1))
              | Some reward \<Rightarrow> seq_run (map (rewire_step P N) (core_calls P reward @ seed_call P units) @
                  (if sp_env P ''SKIP_GOVERNANCE'' = Some ''1'' then [] else [enrollGovernance P N])) s))
         in (if ok then 0 else 1, s1)))"

subsection \<open>\<open>redeploy-core.ts\<close>\<close>

definition CORE_WASM :: "string \<Rightarrow> string" where
  "CORE_WASM n = the (map_of
    [(''vault'', ''4288a4cf85c149efae9e5bc9b8881e13420f2aa5b880e7c1c1ca857e7c9f2890''),
     (''engine'', ''72cd047b68d225a74fbbb51074e202c58184d4d7661e8fab517c9670a95e3c8f''),
     (''orderGateway'', ''ea625123ef3c35cfd66e7ebe2b17230a8a96313e2f9946775e2346d973634b88''),
     (''risk'', ''c0dc9f73b67588b55aa3aca4735775dc2fbfb29d7a3681f2634b8221522ef251'')] n)"

definition ORACLE_ADAPTER :: string where "ORACLE_ADAPTER = ''CARSV4BT3II5QONUAOP4D363OUNTTSSZCXSKNNXKZCBJM7Z6UXSNZ3LP''"

definition TESTNET_USDC :: string where "TESTNET_USDC = ''CBIELTK6YBZJU5UP2WWQEUCYKLPU6AUNZ2BQ4WWFEIE3USCIHMXQDAMA''"

definition INSURANCE_CONTRACT :: "script_par \<Rightarrow> string" where
  "INSURANCE_CONTRACT P = env_or (sp_env P) ''NEXT_PUBLIC_CONTRACT_INSURANCE'' ''CA3VD55APWCYLVN7PYGJ7NPKSQBE3VU4MWVCSKLOYAZI5RFWWR76G2CL''"

datatype cli_answer = CliDeployed string | CliTimeout | CliBadSeq | CliFailed

text \<open>The attempts of a deployment, \<open>k\<close> of them left. The salt is the tool's, so every attempt has an id of its own.\<close>

primrec deploy_attempts :: "'s deploy_net \<Rightarrow> ('s \<Rightarrow> cli_answer \<times> 's) \<Rightarrow> bool \<Rightarrow> nat \<Rightarrow> 's \<Rightarrow> string option \<times> 's" where
  "deploy_attempts N cli retry 0 s = (None, s)"
| "deploy_attempts N cli retry (Suc k) s =
    (let (ok, s1) = if retry then waitForSequenceStable N 24 [] s else (True, s) in
     if \<not> ok then (None, s1)
     else (let (r, s2) = cli s1 in case r of
         CliDeployed cid' \<Rightarrow> (let (acct, s3) = dn_account N s2 in (if acct = None then None else Some cid', s3))
       | CliFailed \<Rightarrow> (None, s2)
       | _ \<Rightarrow> deploy_attempts N cli True k s2))"

definition deployContract :: "'s deploy_net \<Rightarrow> ('s \<Rightarrow> cli_answer \<times> 's) \<Rightarrow> 's \<Rightarrow> string option \<times> 's" where
  "deployContract N cli s = (let (ok, s1) = waitForSequenceStable N 24 [] s in
     if ok then deploy_attempts N cli False 5 s1 else (None, s1))"

text \<open>Two attempts of a call, of which only a confirmation that does not come leads to the second.\<close>

primrec core_attempts :: "'s deploy_net \<Rightarrow> call_rq \<Rightarrow> bool \<Rightarrow> nat \<Rightarrow> 's \<Rightarrow> bool \<times> 's" where
  "core_attempts N rq retry 0 s = (False, s)"
| "core_attempts N rq retry (Suc k) s =
    (let (acct, s1) = if retry then dn_account N s else (Some [], s) in
     if acct = None then (False, s1)
     else (let (sim, s2) = dn_simulate N rq s1 in
       if sim \<noteq> SimPasses then (False, s2)
       else (let (sent, s3) = dn_submit N rq s2 in case sent of
           SendAccepted h \<Rightarrow> (let (w, s4) = await_tx N h 60 s3 in case w of
               AwaitConfirmed \<Rightarrow> (True, s4)
             | AwaitTimeout \<Rightarrow> core_attempts N rq True k s4
             | _ \<Rightarrow> (False, s4))
         | _ \<Rightarrow> (False, s3))))"

definition callContract :: "script_par \<Rightarrow> 's deploy_net \<Rightarrow> call_rq \<Rightarrow> 's \<Rightarrow> bool \<times> 's" where
  "callContract P N rq s =
    (if \<not> list_all (scval_ok (sp_address_ok P)) (cq_args rq) \<or> \<not> sp_contract_ok P (cq_contract rq) then (False, s)
     else (let (ok, s1) = core_attempts N rq False 2 s in
       if \<not> ok then (False, s1) else (let (acct, s2) = dn_account N s1 in (acct \<noteq> None, s2))))"

text \<open>\<open>None\<close>: the operator's secret is no key.\<close>

definition OPERATOR_PUBKEY :: "script_par \<Rightarrow> string option" where
  "OPERATOR_PUBKEY P = (case sp_env P ''MATCHER_OPERATOR_PUBKEY'' of Some k \<Rightarrow> Some k
     | None \<Rightarrow> (case sp_env P ''MATCHER_OPERATOR_SECRET'' of None \<Rightarrow> Some (sp_admin P)
         | Some s \<Rightarrow> if s = [] then Some (sp_admin P) else if sp_secret_ok P s then Some (sp_public P s) else None))"

record core_ids =
  ci_vault :: string
  ci_risk :: string
  ci_engine :: string
  ci_gateway :: string

definition TESTNET_PASSPHRASE :: string where "TESTNET_PASSPHRASE = ''Test SDF Network ; September 2015''"

definition core_wiring :: "script_par \<Rightarrow> core_ids \<Rightarrow> call_rq list" where
  "core_wiring P C = (let admin = ScAddress (sp_admin P); vault = ci_vault C; engine = ci_engine C; gw = ci_gateway C in
    [call_of vault ''initialize'' [admin, ScAddress ORACLE_ADAPTER, admin],
     call_of (ci_risk C) ''initialize'' [admin],
     call_of engine ''initialize'' [admin, ScAddress ORACLE_ADAPTER, ScAddress vault, ScAddress TESTNET_USDC],
     call_of gw ''initialize'' [admin, ScAddress engine],
     call_of vault ''set_engine'' [ScAddress engine],
     call_of engine ''set_order_gateway'' [ScAddress gw]])"

definition core_settings :: "script_par \<Rightarrow> core_ids \<Rightarrow> string \<Rightarrow> call_rq list" where
  "core_settings P C operator = (let vault = ci_vault C; engine = ci_engine C; gw = ci_gateway C;
      core = coreMarketConfig TESTNET_USDC (PRECISION_1E18 * 1000000) in
    [call_of gw ''set_operator'' [ScAddress operator],
     call_of gw ''set_domain'' [ScBytes (utf8 TESTNET_PASSPHRASE)],
     call_of vault ''set_collateral'' [ScAddress TESTNET_USDC, ScSymbol ''USDC'', ScU32 0, ScBool True],
     call_of engine ''set_insurance'' [ScAddress (INSURANCE_CONTRACT P)],
     call_of engine ''set_market'' [engineMarketConfig core 1000],
     call_of vault ''set_market_config'' [core]])"

definition configure_core :: "script_par \<Rightarrow> 's deploy_net \<Rightarrow> core_ids \<Rightarrow> 's \<Rightarrow> bool \<times> 's" where
  "configure_core P N C s = (let (ok, s1) = seq_run (map (callContract P N) (core_wiring P C)) s in
     if \<not> ok then (False, s1)
     else (case OPERATOR_PUBKEY P of None \<Rightarrow> (False, s1)
       | Some operator \<Rightarrow> seq_run (map (callContract P N) (core_settings P C operator)) s1))"

text \<open>The exit code and the new instances; the files are rewritten only after every call was confirmed.\<close>

definition redeploy_core :: "script_par \<Rightarrow> 's deploy_net \<Rightarrow> (string \<Rightarrow> 's \<Rightarrow> cli_answer \<times> 's) \<Rightarrow> 's \<Rightarrow> (int \<times> core_ids option) \<times> 's" where
  "redeploy_core P N cli s =
    (if falsy_str (sp_env P ''ORACLE_PUBLISHER_SECRET'') \<or> \<not> sp_secret_ok P (the (sp_env P ''ORACLE_PUBLISHER_SECRET'')) then ((1, None), s)
     else (let (a, s0) = dn_account N s in if a = None then ((1, None), s0) else
       (let (v, s1) = deployContract N (cli (CORE_WASM ''vault'')) s0 in case v of None \<Rightarrow> ((1, None), s1) | Some v' \<Rightarrow>
       (let (r, s2) = deployContract N (cli (CORE_WASM ''risk'')) s1 in case r of None \<Rightarrow> ((1, None), s2) | Some r' \<Rightarrow>
       (let (e, s3) = deployContract N (cli (CORE_WASM ''engine'')) s2 in case e of None \<Rightarrow> ((1, None), s3) | Some e' \<Rightarrow>
       (let (g, s4) = deployContract N (cli (CORE_WASM ''orderGateway'')) s3 in case g of None \<Rightarrow> ((1, None), s4) | Some g' \<Rightarrow>
       (let C = \<lparr> ci_vault = v', ci_risk = r', ci_engine = e', ci_gateway = g' \<rparr>; (ok, s5) = configure_core P N C s4 in
         ((if ok then 0 else 1, Some C), s5))))))))"

subsection \<open>What a script that ends well has done\<close>

lemma rewire_attempt_grows: "network_truthful N F \<Longrightarrow> facts_le F s (snd (rewire_attempt P N rq s))"
proof -
  assume N: "network_truthful N F"
  define s1 where "s1 = snd (dn_account N s)"
  define s2 where "s2 = snd (dn_simulate N rq s1)"
  define s3 where "s3 = snd (dn_submit N rq s2)"
  have le1: "facts_le F s s1" unfolding s1_def by (rule grow(1) [OF N])
  have le2: "facts_le F s s2" unfolding s2_def by (rule facts_le_trans [OF le1 grow(3) [OF N]])
  have le3: "facts_le F s s3" unfolding s3_def by (rule facts_le_trans [OF le2 grow(4) [OF N]])
  have le4: "facts_le F s (snd (await_tx N h 45 s3))" for h by (rule facts_le_trans [OF le3 await_tx_grows [OF N]])
  show ?thesis using le1 le2 le3 le4
    by (simp add: rewire_attempt_def Let_def split_def s1_def [symmetric] s2_def [symmetric] s3_def [symmetric]
        split: simulation.split submission.split)
qed

lemma rewire_attempt_applied:
  assumes "network_truthful N F" and "fst (rewire_attempt P N rq s) = AttemptOk"
  shows "cf_applied F (snd (rewire_attempt P N rq s)) rq"
proof -
  define s2 where "s2 = snd (dn_simulate N rq (snd (dn_account N s)))"
  define s3 where "s3 = snd (dn_submit N rq s2)"
  have "cf_applied F (snd (await_tx N h 45 s3)) rq"
    if "fst (dn_submit N rq s2) = SendAccepted h" "fst (await_tx N h 45 s3) = AwaitConfirmed" for h
  proof (rule await_tx_confirmed [OF assms(1) that(2)])
    show "cf_sent F s3 h rq" using assms(1) that(1) by (auto simp: network_truthful_def answers_true_def s3_def)
  qed
  then show ?thesis using assms(2)
    by (simp add: rewire_attempt_def Let_def split_def s2_def [symmetric] s3_def [symmetric]
        split: simulation.split_asm submission.split_asm if_split_asm)
qed

lemma rewire_call_grows: "network_truthful N F \<Longrightarrow> facts_le F s (snd (rewire_call P N allow rq k s))"
proof (induction k arbitrary: s)
  case (Suc k)
  have le: "facts_le F s (snd (rewire_attempt P N rq s))" by (rule rewire_attempt_grows [OF Suc.prems])
  have "facts_le F s (snd (rewire_call P N allow rq k (snd (rewire_attempt P N rq s))))"
    by (rule facts_le_trans [OF le Suc.IH [OF Suc.prems]])
  then show ?case using le by (cases allow) (simp_all add: Let_def split_def split: attempt.split)
qed simp

lemma rewire_call_applied:
  assumes "network_truthful N F" and "fst (rewire_call P N False rq k s) \<noteq> None"
  shows "cf_applied F (snd (rewire_call P N False rq k s)) rq"
  using assms(2)
proof (induction k arbitrary: s)
  case (Suc k)
  then show ?case using rewire_attempt_applied [OF assms(1), of P rq s]
    by (auto simp: Let_def split_def split: attempt.split_asm attempt.split)
qed simp

lemma rewire_step_keeps: "network_truthful N F \<Longrightarrow> keeps (\<lambda>s. facts_le F s0 s) (rewire_step P N c)"
proof (rule keepsI)
  fix s assume N: "network_truthful N F" and s: "facts_le F s0 s"
  have "facts_le F s0 (snd (rewire_call P N (snd c) (fst c) 4 s))" by (rule facts_le_trans [OF s rewire_call_grows [OF N]])
  then show "facts_le F s0 (snd (rewire_step P N c s))"
    using s by (simp add: rewire_step_def Let_def split_def del: rewire_call.simps)
qed

text \<open>A step keeps whatever the network keeps.\<close>

lemma keeps_applied:
  assumes "\<And>s0. keeps (\<lambda>s. facts_le F s0 s) f"
  shows "keeps (\<lambda>s. True \<and> cf_applied F s rq) f"
  using assms by (auto simp: keeps_def facts_le_def)

lemma enroll_keeps:
  assumes "network_truthful N F"
  shows "keeps (\<lambda>s. facts_le F s0 s) (enrollGovernance P N)"
proof -
  note step = rewire_step_keeps [OF assms]
  have "keeps (\<lambda>s. facts_le F s0 s) (seq_run (map (rewire_step P N) cs))" for cs
    by (rule keeps_run) (auto simp: step)
  then show ?thesis using step
    by (auto simp: keeps_def enrollGovernance_def Let_def split_def split: option.split)
qed

lemma rewire_step_applied:
  assumes "network_truthful N F" and "fst (rewire_step P N (rq, False) s)"
  shows "cf_applied F (snd (rewire_step P N (rq, False) s)) rq"
  using assms(2) rewire_call_applied [OF assms(1)]
  by (auto simp: rewire_step_def Let_def split_def simp del: rewire_call.simps split: if_split_asm)

text \<open>
  C25. A rewiring that exits with code zero has pointed the core at the new pair: the engine and the vault
  were told, and confirmed on the chain, the new liquidation and the new insurance contract, and the new
  insurance contract the vault, unless the run was for governance only.
\<close>

theorem rewiring_points_core_at_new_pair:
  assumes "network_truthful N F" and "sp_env P ''ONLY_GOVERNANCE'' \<noteq> Some ''1''" and "rewire_main P N s = (0, s')"
  shows "list_all (cf_applied F s')
    [call_of (INS P) ''set_vault'' [ScAddress (vault (CONTRACTS_cfg (sp_cfg P)))],
     call_of (engine (CONTRACTS_cfg (sp_cfg P))) ''set_liquidation'' [ScAddress (LIQ P)],
     call_of (engine (CONTRACTS_cfg (sp_cfg P))) ''set_insurance'' [ScAddress (INS P)],
     call_of (vault (CONTRACTS_cfg (sp_cfg P))) ''set_liquidation'' [ScAddress (LIQ P)],
     call_of (vault (CONTRACTS_cfg (sp_cfg P))) ''set_insurance'' [ScAddress (INS P)]]"
proof -
  obtain reward fs where run: "fst (seq_run (map (rewire_step P N) (core_calls P reward) @ fs) s)"
      "snd (seq_run (map (rewire_step P N) (core_calls P reward) @ fs) s) = s'"
    and fs: "\<And>f. f \<in> set fs \<Longrightarrow> f = enrollGovernance P N \<or> (\<exists>c. f = rewire_step P N c)"
    using assms(2,3) by (auto simp: rewire_main_def Let_def split_def append_assoc simp del: append_assoc
        split: option.split_asm if_split_asm) (force simp: seed_call_def)+
  have applied: "cf_applied F s' rq" if "(rq, False) \<in> set (core_calls P reward)" for rq
  proof -
    have grows: "keeps (\<lambda>s. facts_le F s0 s) g" if "g \<in> set (map (rewire_step P N) (core_calls P reward) @ fs)" for g s0
    proof -
      have "g = enrollGovernance P N \<or> (\<exists>c. g = rewire_step P N c)" using that fs [of g] by auto
      then show ?thesis using rewire_step_keeps [OF assms(1)] enroll_keeps [OF assms(1)] by auto
    qed
    have keep: "keeps (\<lambda>s. True \<and> cf_applied F s rq) g" if "g \<in> set (map (rewire_step P N) (core_calls P reward) @ fs)" for g
      by (rule keeps_applied [OF grows [OF that]])
    show ?thesis unfolding run(2) [symmetric]
      by (rule run_reaches [OF _ _ run(1), where I = "\<lambda>_. True" and f = "rewire_step P N (rq, False)"])
        (use that keep in \<open>auto simp: keeps_True intro: rewire_step_applied [OF assms(1)]\<close>)
  qed
  show ?thesis unfolding list_all_iff by (auto intro!: applied simp: core_calls_def Let_def)
qed

definition sample_script_par :: script_par where
  "sample_script_par = \<lparr> sp_env = [''ORACLE_PUBLISHER_SECRET'' \<mapsto> ''S'', ''NEW_LIQUIDATION'' \<mapsto> CHR ''C'' # replicate 55 CHR ''L'',
       ''NEW_INSURANCE'' \<mapsto> CHR ''C'' # replicate 55 CHR ''I''],
     sp_cfg = default_config, sp_admin = ''GA'', sp_secret_ok = (\<lambda>_. True), sp_public = id, sp_address_ok = (\<lambda>_. True),
     sp_contract_ok = (\<lambda>_. True), sp_sha256 = utf8, sp_now = 0 \<rparr>"

lemma sample_rewiring: "fst (rewire_main sample_script_par sample_deploy_net ([], [], [])) = 0"
  by code_simp

theorem rewiring_points_core_at_new_pair_witness:
  "\<exists>s'. rewire_main sample_script_par sample_deploy_net ([], [], []) = (0, s') \<and> cf_applied sample_deploy_facts s'
     (call_of (engine (CONTRACTS_cfg default_config)) ''set_liquidation'' [ScAddress (LIQ sample_script_par)])"
proof -
  obtain s' where r: "rewire_main sample_script_par sample_deploy_net ([], [], []) = (0, s')"
    using sample_rewiring by (metis prod.collapse)
  have "sp_env sample_script_par ''ONLY_GOVERNANCE'' \<noteq> Some ''1''" by (simp add: sample_script_par_def)
  from rewiring_points_core_at_new_pair [OF sample_deploy_truthful this r] r show ?thesis by (simp add: sample_script_par_def)
qed

lemma core_attempts_grows: "network_truthful N F \<Longrightarrow> facts_le F s (snd (core_attempts N rq retry k s))"
proof (induction k arbitrary: retry s)
  case (Suc k)
  note N = Suc.prems
  define s1 where "s1 = snd (if retry then dn_account N s else (Some [], s))"
  define s2 where "s2 = snd (dn_simulate N rq s1)"
  define s3 where "s3 = snd (dn_submit N rq s2)"
  have le1: "facts_le F s s1" unfolding s1_def using grow(1) [OF N] by simp
  have le2: "facts_le F s s2" unfolding s2_def by (rule facts_le_trans [OF le1 grow(3) [OF N]])
  have le3: "facts_le F s s3" unfolding s3_def by (rule facts_le_trans [OF le2 grow(4) [OF N]])
  have le4: "facts_le F s (snd (await_tx N h 60 s3))" for h by (rule facts_le_trans [OF le3 await_tx_grows [OF N]])
  have again: "facts_le F s s' \<Longrightarrow> facts_le F s (snd (core_attempts N rq True k s'))" for s'
    by (rule facts_le_trans [OF _ Suc.IH [OF N]])
  show ?case using le1 le2 le3 le4 again
    by (simp add: Let_def split_def s1_def [symmetric] s2_def [symmetric] s3_def [symmetric] split: submission.split awaited.split)
qed simp

lemma core_attempts_applied:
  assumes "network_truthful N F" and "fst (core_attempts N rq retry k s)"
  shows "cf_applied F (snd (core_attempts N rq retry k s)) rq"
  using assms(2)
proof (induction k arbitrary: retry s)
  case (Suc k)
  define s1 where "s1 = snd (if retry then dn_account N s else (Some [], s))"
  define s2 where "s2 = snd (dn_simulate N rq s1)"
  define s3 where "s3 = snd (dn_submit N rq s2)"
  have "cf_applied F (snd (await_tx N h 60 s3)) rq"
    if "fst (dn_submit N rq s2) = SendAccepted h" "fst (await_tx N h 60 s3) = AwaitConfirmed" for h
  proof (rule await_tx_confirmed [OF assms(1) that(2)])
    show "cf_sent F s3 h rq" using assms(1) that(1) by (auto simp: network_truthful_def answers_true_def s3_def)
  qed
  then show ?case using Suc
    by (simp add: Let_def split_def s1_def [symmetric] s2_def [symmetric] s3_def [symmetric] split: submission.split_asm awaited.split_asm if_split_asm)
qed simp

lemma callContract_keeps: "network_truthful N F \<Longrightarrow> keeps (\<lambda>s. facts_le F s0 s) (callContract P N rq)"
proof (rule keepsI)
  fix s assume N: "network_truthful N F" and s: "facts_le F s0 s"
  have le: "facts_le F s0 (snd (core_attempts N rq False 2 s))" by (rule facts_le_trans [OF s core_attempts_grows [OF N]])
  have "facts_le F s0 (snd (dn_account N (snd (core_attempts N rq False 2 s))))" by (rule facts_le_trans [OF le grow(1) [OF N]])
  then show "facts_le F s0 (snd (callContract P N rq s))"
    using s le by (simp add: callContract_def Let_def split_def del: core_attempts.simps)
qed

lemma callContract_applied:
  assumes "network_truthful N F" and "fst (callContract P N rq s)"
  shows "cf_applied F (snd (callContract P N rq s)) rq"
proof -
  have "fst (core_attempts N rq False 2 s)"
    using assms(2) by (simp add: callContract_def Let_def split_def del: core_attempts.simps split: if_split_asm)
  then have "cf_applied F (snd (core_attempts N rq False 2 s)) rq" by (rule core_attempts_applied [OF assms(1)])
  then have "cf_applied F (snd (dn_account N (snd (core_attempts N rq False 2 s)))) rq"
    using grow(1) [OF assms(1)] by (simp add: facts_le_def)
  then show ?thesis
    using assms(2) by (simp add: callContract_def Let_def split_def del: core_attempts.simps split: if_split_asm)
qed

lemma callContracts_applied:
  assumes "network_truthful N F" and "fst (seq_run (map (callContract P N) rqs) s)" and "rq \<in> set rqs"
  shows "cf_applied F (snd (seq_run (map (callContract P N) rqs) s)) rq"
proof (rule run_reaches [OF _ _ assms(2), where I = "\<lambda>_. True" and f = "callContract P N rq"])
  show "keeps (\<lambda>s. True \<and> cf_applied F s rq) g" if "g \<in> set (map (callContract P N) rqs)" for g
  proof (rule keeps_applied)
    show "keeps (\<lambda>s. facts_le F s0 s) g" for s0 using that callContract_keeps [OF assms(1)] by auto
  qed
  show "cf_applied F (snd (callContract P N rq s)) rq" if "fst (callContract P N rq s)" for s
    by (rule callContract_applied [OF assms(1) that])
qed (use assms(3) in \<open>auto simp: keeps_True\<close>)

text \<open>A redeployed core is initialized, wired and configured.\<close>

lemma redeployed_core_configured:
  assumes "network_truthful N F" and "redeploy_core P N cli s = ((0, Some C), s')"
  shows "\<exists>operator. OPERATOR_PUBKEY P = Some operator \<and> (\<forall>rq \<in> set (core_wiring P C @ core_settings P C operator). cf_applied F s' rq)"
proof -
  obtain s4 where "fst (configure_core P N C s4)" "snd (configure_core P N C s4) = s'"
    using assms(2) by (auto simp: redeploy_core_def Let_def split_def split: if_split_asm option.split_asm)
  then have "configure_core P N C s4 = (True, s')" by (metis (full_types) prod.collapse)
  then obtain operator s5 where w: "seq_run (map (callContract P N) (core_wiring P C)) s4 = (True, s5)"
      and o: "OPERATOR_PUBKEY P = Some operator" and c: "seq_run (map (callContract P N) (core_settings P C operator)) s5 = (True, s')"
    by (auto simp: configure_core_def split: prod.split_asm if_split_asm option.split_asm)
  have le: "facts_le F s5 s'"
    using keepsD [OF keeps_run [of "map (callContract P N) (core_settings P C operator)" "facts_le F s5"]] c
      callContract_keeps [OF assms(1)] by fastforce
  have "cf_applied F s' rq" if "rq \<in> set (core_settings P C operator)" for rq
    using callContracts_applied [OF assms(1) _ that, of P s5] c by simp
  moreover have "cf_applied F s' rq" if "rq \<in> set (core_wiring P C)" for rq
    using callContracts_applied [OF assms(1) _ that, of P s4] w le by (auto simp: facts_le_def)
  ultimately show ?thesis using o by auto
qed

text \<open>
  A rejection of the simulation, which the script calls deterministic, is simulated four times; and a deposit
  whose confirmation does not come within the polls is sent four times.
\<close>

definition rejecting_chain :: "nat deploy_net" where
  "rejecting_chain = \<lparr> dn_account = (\<lambda>s. (Some ''1'', s)), dn_balance = (\<lambda>s. (None, s)), dn_simulate = (\<lambda>r s. (SimRejects ''no'', Suc s)),
     dn_submit = (\<lambda>r s. (SendAccepted ''h'', Suc s)), dn_poll = (\<lambda>h s. (Some PollPending, s)), dn_entry = (\<lambda>n k s. (None, s)),
     dn_cli = (\<lambda>a s. (None, s)), dn_keypair = (\<lambda>s. (([], []), s)), dn_create = (\<lambda>a s. (None, s)), dn_write_secrets = (\<lambda>t s. s),
     dn_seed = (\<lambda>s. (True, s)) \<rparr>"

lemma await_pending: "(\<And>s. dn_poll N h s = (Some PollPending, s)) \<Longrightarrow> await_tx N h n s = (AwaitTimeout, s)"
  by (induction n) simp_all

lemma rejection_is_retried: "rewire_call sample_script_par rejecting_chain False rq 4 0 = (None, 4)"
  by (simp add: eval_nat_numeral rewire_attempt_def rejecting_chain_def sample_script_par_def)

lemma deposit_is_resent:
  "rewire_call sample_script_par (rejecting_chain\<lparr> dn_simulate := (\<lambda>r s. (SimPasses, s)) \<rparr>) False (fst (hd (seed_call sample_script_par 1))) 4 0
     = (None, 4)"
  by (simp add: eval_nat_numeral rewire_attempt_def rejecting_chain_def sample_script_par_def await_pending)

end
