(* ===== verification/Testnet_Scripts.thy ===== *)
theory Testnet_Scripts
  imports Redeploy_Scripts
begin

text \<open>
  The rest of the contract scripts. They end by rewriting addresses in source files, with regular expressions
  that are written here as matchers: what \<open>redeploy-core.ts\<close> does with \<open>config/index.ts\<close>, then
  \<open>redeploy-oracle.ts\<close>, \<open>redeploy-engine-xlm.ts\<close>, \<open>setup-usdc-settlement.ts\<close>, \<open>setup-usdc-feed.ts\<close> and
  \<open>update-oracle-publisher.ts\<close>.
\<close>

subsection \<open>Rewriting a source file\<close>

text \<open>
  A matcher is given the character before and the text from some position on; a match splits the text into
  what the replacement keeps in front and what follows the replaced part.
\<close>

type_synonym matcher = "char option \<Rightarrow> string \<Rightarrow> (string \<times> string) option"

definition word_char :: "char \<Rightarrow> bool" where
  "word_char c \<longleftrightarrow> (let n = of_char c :: nat in is_digit c \<or> c = CHR ''_'' \<or> (65 \<le> n \<and> n \<le> 90) \<or> (97 \<le> n \<and> n \<le> 122))"

definition boundary :: "char option \<Rightarrow> bool" where
  "boundary prev \<longleftrightarrow> (case prev of None \<Rightarrow> True | Some c \<Rightarrow> \<not> word_char c)"

definition quote_char :: "char \<Rightarrow> bool" where
  "quote_char c \<longleftrightarrow> c = CHR 0x22 \<or> c = CHR 0x27"

text \<open>\<open>[^q]+q\<close>: what follows the closing quote.\<close>

definition quoted :: "(char \<Rightarrow> bool) \<Rightarrow> string \<Rightarrow> string option" where
  "quoted q s = (let v = takeWhile (\<lambda>c. \<not> q c) s; r = drop (length v) s in if v \<noteq> [] \<and> r \<noteq> [] then Some (tl r) else None)"

definition after :: "string \<Rightarrow> string \<Rightarrow> string option" where
  "after p s = (if prefix p s then Some (drop (length p) s) else None)"

definition spaces_dropped :: "string \<Rightarrow> string" where
  "spaces_dropped s = dropWhile is_space s"

text \<open>\<open>key:\s*["'][^"']+["']\<close>.\<close>

definition key_value :: "string \<Rightarrow> matcher" where
  "key_value key prev s = (case after (key @ '':'') s of None \<Rightarrow> None
     | Some r \<Rightarrow> (case spaces_dropped r of [] \<Rightarrow> None
       | c # cs \<Rightarrow> if quote_char c then map_option (Pair []) (quoted quote_char cs) else None))"

text \<open>\<open>lead"[^"]+"\<close>, where \<open>lead\<close> is plain text.\<close>

definition lead_value :: "string \<Rightarrow> matcher" where
  "lead_value lead prev s = (case after (lead @ [CHR 0x22]) s of None \<Rightarrow> None
     | Some r \<Rightarrow> map_option (Pair []) (quoted (\<lambda>c. c = CHR 0x22) r))"

text \<open>\<open>(\bkey:\s*envOrDefault\([^,]+,\s*")[^"]+(")\<close> and \<open>(\bkey:\s*")[^"]+(")\<close>.\<close>

definition opened :: "string \<Rightarrow> string \<Rightarrow> (string \<times> string) option" where
  "opened s r = (case spaces_dropped r of [] \<Rightarrow> None
     | c # cs \<Rightarrow> if c = CHR 0x22
         then map_option (\<lambda>rest. (take (length s - length cs) s, c # rest)) (quoted (\<lambda>c. c = CHR 0x22) cs) else None)"

definition key_default :: "string \<Rightarrow> matcher" where
  "key_default key prev s = (if \<not> boundary prev then None else case after (key @ '':'') s of None \<Rightarrow> None
     | Some r \<Rightarrow> (case after ''envOrDefault('' (spaces_dropped r) of None \<Rightarrow> None
       | Some r1 \<Rightarrow> (let v = takeWhile (\<lambda>c. c \<noteq> CHR '','') r1; r2 = drop (length v) r1 in
           if v \<noteq> [] \<and> r2 \<noteq> [] then opened s (tl r2) else None)))"

definition key_string :: "string \<Rightarrow> matcher" where
  "key_string key prev s = (if \<not> boundary prev then None else case after (key @ '':'') s of None \<Rightarrow> None | Some r \<Rightarrow> opened s r)"

text \<open>\<open>String.replace\<close>: the first match only; a text without one stays, so that testing for a match first makes no difference.\<close>

fun replace_first :: "matcher \<Rightarrow> string \<Rightarrow> char option \<Rightarrow> string \<Rightarrow> string" where
  "replace_first m new prev s = (case m prev s of
     Some (kept, rest) \<Rightarrow> kept @ new @ rest
   | None \<Rightarrow> (case s of [] \<Rightarrow> [] | c # cs \<Rightarrow> c # replace_first m new (Some c) cs))"

declare replace_first.simps [simp del]

lemma replace_unmatched:
  "(\<forall>i \<le> length s. m (if i = 0 then prev else Some (s ! (i - 1))) (drop i s) = None) \<Longrightarrow> replace_first m new prev s = s"
proof (induction s arbitrary: prev)
  case Nil
  then show ?case by (simp add: replace_first.simps [of _ _ _ "[]"])
next
  case (Cons c cs)
  have "m prev (c # cs) = None" using Cons.prems by (auto dest: spec [of _ 0])
  moreover have "\<forall>i \<le> length cs. m (if i = 0 then Some c else Some (cs ! (i - 1))) (drop i cs) = None"
  proof (intro allI impI)
    fix i assume "i \<le> length cs"
    then show "m (if i = 0 then Some c else Some (cs ! (i - 1))) (drop i cs) = None"
      using Cons.prems [rule_format, of "Suc i"] by (cases i) auto
  qed
  ultimately show ?case using Cons.IH [of "Some c"] by (simp add: replace_first.simps [of _ _ _ "c # cs"])
qed

type_synonym files = "string \<rightharpoonup> string"

text \<open>Reading, rewriting and writing back one file; reading a file that is not there throws.\<close>

definition patch_file :: "string \<Rightarrow> (matcher \<times> string) list \<Rightarrow> files \<Rightarrow> bool \<times> files" where
  "patch_file path ps fs = (case fs path of None \<Rightarrow> (False, fs)
     | Some src \<Rightarrow> (True, fs(path \<mapsto> foldl (\<lambda>t (m, new). replace_first m new None t) src ps)))"

subsection \<open>A call that is sent once\<close>

text \<open>
  Simulation, submission and \<open>n\<close> polls. With \<open>unchecked\<close> a refused submission is polled like an accepted one, by the
  hash the answer carries.
\<close>

definition call_once :: "'s deploy_net \<Rightarrow> (call_rq \<Rightarrow> string) option \<Rightarrow> nat \<Rightarrow> call_rq \<Rightarrow> 's \<Rightarrow> bool \<times> 's" where
  "call_once N unchecked n rq s =
    (let (sim, s1) = dn_simulate N rq s in
     if sim \<noteq> SimPasses then (False, s1)
     else (let (sent, s2) = dn_submit N rq s1 in case sent of
         SendThrows \<Rightarrow> (False, s2)
       | SendRejected e \<Rightarrow> (case unchecked of None \<Rightarrow> (False, s2)
           | Some hash_of \<Rightarrow> (let (w, s3) = await_tx N (hash_of rq) n s2 in (w = AwaitConfirmed, s3)))
       | SendAccepted h \<Rightarrow> (let (w, s3) = await_tx N h n s2 in (w = AwaitConfirmed, s3))))"

text \<open>A call and, unless it is the last, the account read for the next one.\<close>

definition once_step :: "script_par \<Rightarrow> 's deploy_net \<Rightarrow> nat \<Rightarrow> call_rq \<times> bool \<Rightarrow> 's \<Rightarrow> bool \<times> 's" where
  "once_step P N n = (\<lambda>(rq, refresh) s.
    (if \<not> list_all (scval_ok (sp_address_ok P)) (cq_args rq) \<or> \<not> sp_contract_ok P (cq_contract rq) then (False, s)
     else (let (ok, s1) = call_once N None n rq s in
       if \<not> ok \<or> \<not> refresh then (ok, s1) else (let (acct, s2) = dn_account N s1 in (acct \<noteq> None, s2)))))"

text \<open>
  The creation of an instance is an operation of its own; it is written as a call \<open>createContract\<close> of no contract, on
  the artifact and the salt. The id is computed from the administrator and the salt before it is sent.
\<close>

record 's script_io =
  si_friendbot :: "'s \<Rightarrow> bool \<times> 's"
  si_salt :: "nat \<Rightarrow> bytes"
  si_contractId :: "string \<Rightarrow> bytes \<Rightarrow> string"
  si_hash :: "call_rq \<Rightarrow> string"

definition create_rq :: "string \<Rightarrow> bytes \<Rightarrow> call_rq" where
  "create_rq wasm salt = call_of [] ''createContract'' [ScBytes (hex_bytes wasm), ScBytes salt]"

definition deploy_instance :: "script_par \<Rightarrow> 's deploy_net \<Rightarrow> 's script_io \<Rightarrow> bool \<Rightarrow> string \<Rightarrow> nat \<Rightarrow> 's \<Rightarrow> string option \<times> 's" where
  "deploy_instance P N I checked wasm k s =
    (let rq = create_rq wasm (si_salt I k); (ok, s1) = call_once N (if checked then None else Some (si_hash I)) 60 rq s in
     if \<not> ok then (None, s1)
     else (let (acct, s2) = dn_account N s1 in
       (if acct = None then None else Some (si_contractId I (sp_admin P) (si_salt I k)), s2)))"

subsection \<open>\<open>redeploy-engine-xlm.ts\<close> and \<open>setup-usdc-settlement.ts\<close>\<close>

definition NATIVE_XLM :: string where "NATIVE_XLM = ''CDLZFC3SYJYDZT7K67VZ75HPJVIEUVNIXF47ZG2FB2RMQQVU2HHGCYSC''"
definition OLD_ORACLE :: string where "OLD_ORACLE = ''CDC342E2GSLQKPHNWOWYUKNMSBES2OOTRHKA7YZO77SCZEN6XDQ334MD''"
definition OLD_VAULT :: string where "OLD_VAULT = ''CAZV547ZY7S5IGGMYHDQWYM2TWAZ4MEJ6FJHWIJM7VF6GGXU3EUZ5ZOS''"

definition PAIR_WASM :: "string \<times> string" where
  "PAIR_WASM = (''f6549f1931345be1bbeda9ba9de1cc1e57827676cdabad0040423e7541a8c785'',
     ''a959b13019f15d2e0ae7b0e1126920e1b895c64e1de8647865ad1963eb42a5a5'')"

text \<open>Engine and gateway for the old vault and oracle, with the given settlement asset.\<close>

definition pair_calls :: "script_par \<Rightarrow> string \<Rightarrow> string \<Rightarrow> string \<Rightarrow> call_rq list" where
  "pair_calls P asset engineId gatewayId = (let admin = ScAddress (sp_admin P); core = coreMarketConfig asset (PRECISION_1E18 * 1000000) in
    [call_of engineId ''initialize'' [admin, ScAddress OLD_ORACLE, ScAddress OLD_VAULT, ScAddress asset],
     call_of gatewayId ''initialize'' [admin, ScAddress engineId],
     call_of OLD_VAULT ''set_engine'' [ScAddress engineId],
     call_of engineId ''set_order_gateway'' [ScAddress gatewayId],
     call_of engineId ''set_market'' [engineMarketConfig core 500],
     call_of OLD_VAULT ''set_market_config'' [core]])"

definition once_run :: "script_par \<Rightarrow> 's deploy_net \<Rightarrow> nat \<Rightarrow> call_rq list \<Rightarrow> 's \<Rightarrow> bool \<times> 's" where
  "once_run P N n rqs = seq_run (map (\<lambda>rq. once_step P N n (rq, True)) rqs)"

definition quote_it :: "string \<Rightarrow> string" where
  "quote_it v = [CHR 0x22] @ v @ [CHR 0x22]"

definition pair_patches :: "string \<Rightarrow> string \<Rightarrow> (matcher \<times> string) list" where
  "pair_patches engineId gatewayId =
    [(key_value ''engine'', ''engine: '' @ quote_it engineId), (key_value ''orderGateway'', ''orderGateway: '' @ quote_it gatewayId)]"

text \<open>The \<open>deploy\<close> of either script, then the deployment of the pair and its calls.\<close>

definition deploy_unchecked :: "script_par \<Rightarrow> 's deploy_net \<Rightarrow> 's script_io \<Rightarrow> string \<Rightarrow> nat \<Rightarrow> 's \<Rightarrow> string option \<times> 's" where
  "deploy_unchecked P N I = deploy_instance P N I False"

definition deploy_checked :: "script_par \<Rightarrow> 's deploy_net \<Rightarrow> 's script_io \<Rightarrow> string \<Rightarrow> nat \<Rightarrow> 's \<Rightarrow> string option \<times> 's" where
  "deploy_checked P N I = deploy_instance P N I True"

definition deploy_pair :: "script_par \<Rightarrow> 's deploy_net \<Rightarrow> (string \<Rightarrow> nat \<Rightarrow> 's \<Rightarrow> string option \<times> 's) \<Rightarrow> string \<Rightarrow> 's \<Rightarrow> (string \<times> string) option \<times> 's" where
  "deploy_pair P N dep asset s =
    (case dep (fst PAIR_WASM) 0 s of
       (None, s1) \<Rightarrow> (None, s1)
     | (Some e, s1) \<Rightarrow> (case dep (snd PAIR_WASM) 1 s1 of
         (None, s2) \<Rightarrow> (None, s2)
       | (Some g, s2) \<Rightarrow> (let (ok, s3) = once_run P N 60 (pair_calls P asset e g) s2 in (if ok then Some (e, g) else None, s3))))"

definition publisher_key :: "script_par \<Rightarrow> bool" where
  "publisher_key P \<longleftrightarrow> (case sp_env P ''ORACLE_PUBLISHER_SECRET'' of None \<Rightarrow> False | Some k \<Rightarrow> sp_secret_ok P k)"

text \<open>The exit code, the files and the network.\<close>

definition redeploy_engine_xlm :: "script_par \<Rightarrow> 's deploy_net \<Rightarrow> 's script_io \<Rightarrow> files \<Rightarrow> 's \<Rightarrow> int \<times> files \<times> 's" where
  "redeploy_engine_xlm P N I fs s =
    (if \<not> publisher_key P then (1, fs, s)
     else (let (a, s0) = dn_account N s in if a = None then (1, fs, s0)
     else (case deploy_pair P N (deploy_unchecked P N I) NATIVE_XLM s0 of
         (None, s1) \<Rightarrow> (1, fs, s1)
       | (Some (e, g), s1) \<Rightarrow> (let (ok, fs1) = patch_file ''lib/config.ts'' (pair_patches e g) fs in (if ok then 0 else 1, fs1, s1)))))"

definition red_stone :: scval where "red_stone = ScVec [ScSymbol ''RedStone'']"

definition usdc_feed_calls :: "string \<Rightarrow> string \<Rightarrow> int \<Rightarrow> call_rq list" where
  "usdc_feed_calls oracle admin now =
    [call_of oracle ''set_feed'' [ScSymbol ''USDC'', ScAddress admin, red_stone, feed_guard 86400 500, ScBool True],
     call_of oracle ''write_price'' [ScSymbol ''USDC'', ScAddress admin, ScI128 PRECISION_1E18, ScI128 (PRECISION_1E18 div 200), ScU64 now]]"

definition setup_usdc_settlement :: "script_par \<Rightarrow> 's deploy_net \<Rightarrow> 's script_io \<Rightarrow> files \<Rightarrow> 's \<Rightarrow> int \<times> files \<times> 's" where
  "setup_usdc_settlement P N I fs s =
    (if \<not> publisher_key P then (1, fs, s)
     else (let (a, s0) = dn_account N s in if a = None then (1, fs, s0)
     else (let (ok, s1) = once_run P N 60 (usdc_feed_calls OLD_ORACLE (sp_admin P) (sp_now P div 1000) @
             [call_of OLD_VAULT ''set_collateral'' [ScAddress TESTNET_USDC, ScSymbol ''USDC'', ScU32 0, ScBool True]]) s0 in
       if \<not> ok then (1, fs, s1)
       else (case deploy_pair P N (deploy_checked P N I) TESTNET_USDC s1 of
           (None, s2) \<Rightarrow> (1, fs, s2)
         | (Some (e, g), s2) \<Rightarrow>
             (let (ok, fs1) = patch_file ''lib/config.ts'' (pair_patches e g) fs in
              if \<not> ok then (1, fs1, s2)
              else (let (ok, fs2) = patch_file ''scripts/state-indexer.ts'' [(key_value ''engine'', ''engine:       '' @ quote_it e)] fs1 in
                (if ok then 0 else 1, fs2, s2)))))))"

definition setup_usdc_feed :: "script_par \<Rightarrow> 's deploy_net \<Rightarrow> 's \<Rightarrow> int \<times> 's" where
  "setup_usdc_feed P N s =
    (if \<not> publisher_key P then (1, s)
     else (let (a, s0) = dn_account N s in if a = None then (1, s0)
     else (let (ok, s1) = once_run P N 60 (usdc_feed_calls (oracleAdapter (CONTRACTS_cfg (sp_cfg P))) (sp_admin P) (sp_now P div 1000)) s0 in
       (if ok then 0 else 1, s1))))"

subsection \<open>\<open>redeploy-oracle.ts\<close>\<close>

definition ORACLE_WASM :: string where "ORACLE_WASM = ''853fd4c9f31e223cf0a6e03f727a4812b71d3f648bf30915ef343e2cc5099e6e''"

definition xlm_feed_call :: "string \<Rightarrow> string \<Rightarrow> call_rq" where
  "xlm_feed_call oracle admin = call_of oracle ''set_feed'' [ScSymbol ''XLM'', ScAddress admin, red_stone, feed_guard 120 1000, ScBool True]"

text \<open>The account, created by the testnet's faucet when the first read throws.\<close>

definition funded_account :: "'s deploy_net \<Rightarrow> 's script_io \<Rightarrow> 's \<Rightarrow> bool \<times> 's" where
  "funded_account N I s = (let (a, s1) = dn_account N s in
     if a \<noteq> None then (True, s1)
     else (let (ok, s2) = si_friendbot I s1 in
       if \<not> ok then (False, s2) else (let (a2, s3) = dn_account N s2 in (a2 \<noteq> None, s3))))"

definition oracle_steps :: "script_par \<Rightarrow> 's deploy_net \<Rightarrow> 's script_io \<Rightarrow> ('s \<Rightarrow> bool \<times> 's) list" where
  "oracle_steps P N I = (let cid' = si_contractId I (sp_admin P) (si_salt I 0) in
    [funded_account N I, call_once N None 30 (create_rq ORACLE_WASM (si_salt I 0)),
     (\<lambda>s. let (a, s1) = dn_account N s in (a \<noteq> None, s1)),
     once_step P N 30 (call_of cid' ''initialize'' [ScAddress (sp_admin P)], True),
     once_step P N 30 (xlm_feed_call cid' (sp_admin P), False)])"

definition oracle_patches :: "string \<Rightarrow> (string \<times> (matcher \<times> string) list) list" where
  "oracle_patches cid' =
    [(''lib/config.ts'', [(key_value ''oracleAdapter'', ''oracleAdapter: '' @ quote_it cid')]),
     (''scripts/oracle-keeper.ts'', [(lead_value ''const ORACLE_ADAPTER = '', ''const ORACLE_ADAPTER = '' @ quote_it cid')]),
     (''scripts/state-indexer.ts'', [(key_value ''oracle'', ''oracle:       '' @ quote_it cid')])]"

definition redeploy_oracle :: "script_par \<Rightarrow> 's deploy_net \<Rightarrow> 's script_io \<Rightarrow> files \<Rightarrow> 's \<Rightarrow> int \<times> files \<times> 's" where
  "redeploy_oracle P N I fs s =
    (if falsy_str (sp_env P ''ORACLE_PUBLISHER_SECRET'') \<or> \<not> publisher_key P then (1, fs, s)
     else (let (ok, s1) = seq_run (oracle_steps P N I) s in
       if \<not> ok then (1, fs, s1)
       else (let (ok, fs1) = seq_run (map (\<lambda>(path, ps). patch_file path ps) (oracle_patches (si_contractId I (sp_admin P) (si_salt I 0)))) fs in
         (if ok then 0 else 1, fs1, s1))))"

subsection \<open>The end of \<open>redeploy-core.ts\<close>\<close>

definition core_patches :: "core_ids \<Rightarrow> (string \<times> (matcher \<times> string) list) list" where
  "core_patches C =
    [(''config/index.ts'',
       [(key_default ''vault'', ci_vault C), (key_default ''engine'', ci_engine C), (key_default ''orderGateway'', ci_gateway C),
        (key_string ''vault'', ci_vault C), (key_string ''engine'', ci_engine C), (key_string ''orderGateway'', ci_gateway C)]),
     (''scripts/state-indexer.ts'',
       [(key_value ''engine'', ''engine:       '' @ quote_it (ci_engine C)), (key_value ''vault'', ''vault:        '' @ quote_it (ci_vault C))])]"

definition redeploy_core_main :: "script_par \<Rightarrow> 's deploy_net \<Rightarrow> (string \<Rightarrow> 's \<Rightarrow> cli_answer \<times> 's) \<Rightarrow> files \<Rightarrow> 's \<Rightarrow> int \<times> files \<times> 's" where
  "redeploy_core_main P N cli fs s = (let ((code, ids), s1) = redeploy_core P N cli s in
     if code \<noteq> 0 \<or> ids = None then (1, fs, s1)
     else (let (ok, fs1) = seq_run (map (\<lambda>(path, ps). patch_file path ps) (core_patches (the ids))) fs in (if ok then 0 else 1, fs1, s1)))"

subsection \<open>\<open>update-oracle-publisher.ts\<close>\<close>

text \<open>The exception handler only prints, so that every exception ends the script with code zero.\<close>

definition NEW_PUBLISHER :: "script_par \<Rightarrow> string option option" where
  "NEW_PUBLISHER P = (case sp_env P ''NEW_PUBLISHER'' of Some a \<Rightarrow> Some (Some a)
     | None \<Rightarrow> (case sp_env P ''ORACLE_PUBLISHER_SECRET'' of None \<Rightarrow> Some None
         | Some k \<Rightarrow> if k = [] then Some None else if sp_secret_ok P k then Some (Some (sp_public P k)) else None))"

definition publisher_call :: "string \<Rightarrow> call_rq" where
  "publisher_call a = call_of ''CCSO6WCYNDYXYU45XPY3SJIFJRSF5H67WVQDJU2GWWPWMWYGMC4XNPR4'' ''set_source_publisher''
     [ScSymbol ''XLM'', red_stone, ScAddress a]"

definition update_oracle_publisher :: "script_par \<Rightarrow> 's deploy_net \<Rightarrow> 's \<Rightarrow> int \<times> 's" where
  "update_oracle_publisher P N s = (case NEW_PUBLISHER P of None \<Rightarrow> (0, s)
   | Some who \<Rightarrow>
     if falsy_str (sp_env P ''ADMIN_SECRET'') \<or> falsy_str who then (1, s)
     else if \<not> sp_secret_ok P (the (sp_env P ''ADMIN_SECRET'')) then (0, s)
     else (let (a, s1) = dn_account N s; rq = publisher_call (the who) in
       if a = None \<or> \<not> list_all (scval_ok (sp_address_ok P)) (cq_args rq) then (0, s1)
       else (let (sim, s2) = dn_simulate N rq s1 in case sim of
           SimThrows \<Rightarrow> (0, s2)
         | SimRejects e \<Rightarrow> (1, s2)
         | SimPasses \<Rightarrow> (let (sent, s3) = dn_submit N rq s2 in case sent of
               SendThrows \<Rightarrow> (0, s3)
             | SendRejected e \<Rightarrow> (1, s3)
             | SendAccepted h \<Rightarrow> (let (w, s4) = await_tx N h 20 s3 in (if w = AwaitFailed then 1 else 0, s4))))))"

subsection \<open>What is on the chain when a script ends well\<close>

lemma call_once_grows: "network_truthful N F \<Longrightarrow> facts_le F s (snd (call_once N u n rq s))"
proof -
  assume N: "network_truthful N F"
  define s1 where "s1 = snd (dn_simulate N rq s)"
  define s2 where "s2 = snd (dn_submit N rq s1)"
  have le1: "facts_le F s s1" unfolding s1_def by (rule grow(3) [OF N])
  have le2: "facts_le F s s2" unfolding s2_def by (rule facts_le_trans [OF le1 grow(4) [OF N]])
  have le3: "facts_le F s (snd (await_tx N h n s2))" for h by (rule facts_le_trans [OF le2 await_tx_grows [OF N]])
  show ?thesis using le1 le2 le3
    by (simp add: call_once_def Let_def split_def s1_def [symmetric] s2_def [symmetric] split: submission.split option.split)
qed

lemma call_once_applied:
  assumes "network_truthful N F" and "fst (call_once N None n rq s)"
  shows "cf_applied F (snd (call_once N None n rq s)) rq"
proof -
  define s1 where "s1 = snd (dn_simulate N rq s)"
  define s2 where "s2 = snd (dn_submit N rq s1)"
  have "cf_applied F (snd (await_tx N h n s2)) rq"
    if "fst (dn_submit N rq s1) = SendAccepted h" "fst (await_tx N h n s2) = AwaitConfirmed" for h
  proof (rule await_tx_confirmed [OF assms(1) that(2)])
    show "cf_sent F s2 h rq" using assms(1) that(1) by (auto simp: network_truthful_def answers_true_def s2_def)
  qed
  then show ?thesis using assms(2)
    by (simp add: call_once_def Let_def split_def s1_def [symmetric] s2_def [symmetric] split: submission.split_asm if_split_asm)
qed

lemma once_step_keeps: "network_truthful N F \<Longrightarrow> keeps (\<lambda>s. facts_le F s0 s) (once_step P N n c)"
proof (rule keepsI)
  fix s assume N: "network_truthful N F" and s: "facts_le F s0 s"
  have le: "facts_le F s0 (snd (call_once N None n rq s))" for rq by (rule facts_le_trans [OF s call_once_grows [OF N]])
  have "facts_le F s0 (snd (dn_account N (snd (call_once N None n rq s))))" for rq by (rule facts_le_trans [OF le grow(1) [OF N]])
  then show "facts_le F s0 (snd (once_step P N n c s))" using s le by (simp add: once_step_def Let_def split_def)
qed

lemma once_step_applied:
  assumes "network_truthful N F" and "fst (once_step P N n (rq, b) s)"
  shows "cf_applied F (snd (once_step P N n (rq, b) s)) rq"
proof -
  have "cf_applied F (snd (call_once N None n rq s)) rq"
    using assms call_once_applied [OF assms(1)] by (simp add: once_step_def Let_def split_def split: if_split_asm)
  moreover have "facts_le F (snd (call_once N None n rq s)) (snd (dn_account N (snd (call_once N None n rq s))))"
    by (rule grow(1) [OF assms(1)])
  ultimately show ?thesis using assms(2)
    by (auto simp: once_step_def Let_def split_def facts_le_def split: if_split_asm)
qed

text \<open>Of steps that all keep what landed, a call that is one of them has landed when all have returned.\<close>

lemma steps_applied:
  assumes "network_truthful N F" and "fst (seq_run fs s)" and "once_step P N n (rq, b) \<in> set fs"
    and "\<And>f s0. f \<in> set fs \<Longrightarrow> keeps (\<lambda>s. facts_le F s0 s) f"
  shows "cf_applied F (snd (seq_run fs s)) rq"
proof (rule run_reaches [OF assms(3) _ assms(2), where I = "\<lambda>_. True"])
  show "keeps (\<lambda>s. True \<and> cf_applied F s rq) f" if "f \<in> set fs" for f
    by (rule keeps_applied [OF assms(4) [OF that]])
qed (use assms(1) in \<open>auto simp: keeps_True intro: once_step_applied\<close>)

lemma once_run_applied:
  assumes "network_truthful N F" and "fst (once_run P N n rqs s)" and "rq \<in> set rqs"
  shows "cf_applied F (snd (once_run P N n rqs s)) rq"
  using assms unfolding once_run_def by (intro steps_applied [where n = n and b = True]) (auto intro: once_step_keeps)

text \<open>A pair that was deployed is initialized, wired and configured.\<close>

lemma deployed_pair_configured:
  assumes "network_truthful N F" and "deploy_pair P N dep asset s = (Some (e, g), s')" and "rq \<in> set (pair_calls P asset e g)"
  shows "cf_applied F s' rq"
proof -
  obtain s2 where "once_run P N 60 (pair_calls P asset e g) s2 = (True, s')"
    using assms(2) by (auto simp: deploy_pair_def split: prod.split_asm option.split_asm if_split_asm)
  then show ?thesis using once_run_applied [OF assms(1) _ assms(3), of P 60 s2] by simp
qed

text \<open>A redeployed oracle adapter has its administrator and its feed.\<close>

lemma redeployed_oracle_configured:
  assumes "network_truthful N F" and "redeploy_oracle P N I fs s = (0, fs', s')" and friendbot: "\<And>s. facts_le F s (snd (si_friendbot I s))"
    and cid: "cid' = si_contractId I (sp_admin P) (si_salt I 0)"
  shows "cf_applied F s' (call_of cid' ''initialize'' [ScAddress (sp_admin P)])" "cf_applied F s' (xlm_feed_call cid' (sp_admin P))"
proof -
  have run: "fst (seq_run (oracle_steps P N I) s)" "snd (seq_run (oracle_steps P N I) s) = s'"
    using assms(2) by (auto simp: redeploy_oracle_def split_def Let_def split: if_split_asm)
  have fund: "keeps (\<lambda>s. facts_le F s0 s) (funded_account N I)" for s0
    by (rule keepsI, simp add: funded_account_def Let_def split_def)
      (meson facts_le_trans friendbot grow(1) [OF assms(1)])
  have k: "keeps (\<lambda>s. facts_le F s0 s) f" if "f \<in> set (oracle_steps P N I)" for f s0
    using that fund once_step_keeps [OF assms(1)] call_once_grows [OF assms(1)] grow(1) [OF assms(1)]
    by (auto simp: oracle_steps_def keeps_def split_def Let_def intro: facts_le_trans)
  show "cf_applied F s' (call_of cid' ''initialize'' [ScAddress (sp_admin P)])"
    unfolding run(2) [symmetric]
    by (rule steps_applied [OF assms(1) run(1) _ k, where P = P and n = 30 and b = True]) (simp_all add: oracle_steps_def Let_def cid)
  show "cf_applied F s' (xlm_feed_call cid' (sp_admin P))"
    unfolding run(2) [symmetric]
    by (rule steps_applied [OF assms(1) run(1) _ k, where P = P and n = 30 and b = False]) (simp_all add: oracle_steps_def Let_def cid)
qed

text \<open>
  Without a file \<open>lib/config.ts\<close> the scripts that rewrite it always report failure, the contracts being deployed all the
  same; and \<open>redeploy-core.ts\<close> ends well without having found anything to rewrite.
\<close>

lemma missing_config_fails:
  assumes "fs ''lib/config.ts'' = None"
  shows "fst (redeploy_oracle P N I fs s) = 1" "fst (redeploy_engine_xlm P N I fs s) = 1" "fst (setup_usdc_settlement P N I fs s) = 1"
  using assms by (simp_all add: redeploy_oracle_def redeploy_engine_xlm_def setup_usdc_settlement_def oracle_patches_def patch_file_def
      Let_def split_def split: option.split)

text \<open>The three lines of \<open>config/index.ts\<close> that hold the addresses, and what is made of them.\<close>

definition config_lines :: string where
  "config_lines =
     ''  vault: process.env.NEXT_PUBLIC_CONTRACT_VAULT ?? '' @ quote_it ''CBQ6634Z3UPXFVVHHV2JNSGXHQOZZK62Z65HCAQTINBGXS3IDXKRTRYK'' @ '',''  @ [CHR 0x0A] @
     ''  engine: process.env.NEXT_PUBLIC_CONTRACT_ENGINE ?? '' @ quote_it ''CBSUYAO2EYAQVFISJQKG4TNMJPCDCPPFGI25Q3SW2BJPFSKQ45GRGTXN'' @ '','' @ [CHR 0x0A] @
     ''  orderGateway: process.env.NEXT_PUBLIC_CONTRACT_ORDER_GATEWAY ?? '' @ quote_it ''CAJGC2SIV6DFJETJ6ATG5MR6RPNX5HQ26LYA4RGSHF2QPTBS6OJWONL3'' @ '','' @ [CHR 0x0A]"

lemma core_addresses_not_written:
  "patch_file ''config/index.ts'' (snd (hd (core_patches \<lparr> ci_vault = ''CNEWV'', ci_risk = ''CNEWR'', ci_engine = ''CNEWE'', ci_gateway = ''CNEWG'' \<rparr>)))
     [''config/index.ts'' \<mapsto> config_lines] = (True, [''config/index.ts'' \<mapsto> config_lines])"
proof -
  have "foldl (\<lambda>t (m, new). replace_first m new None t) config_lines
      (snd (hd (core_patches \<lparr> ci_vault = ''CNEWV'', ci_risk = ''CNEWR'', ci_engine = ''CNEWE'', ci_gateway = ''CNEWG'' \<rparr>))) = config_lines"
    by code_simp
  then show ?thesis by (simp add: patch_file_def)
qed

lemma plain_address_written:
  "replace_first (key_string ''vault'') ''CNEW'' None (''my_vault: '' @ quote_it ''COLD'' @ '' vault: '' @ quote_it ''COLD'') =
     ''my_vault: '' @ quote_it ''COLD'' @ '' vault: '' @ quote_it ''CNEW''"
  "replace_first (key_default ''vault'') ''CNEW'' None (''vault: envOrDefault(V, '' @ quote_it ''COLD'' @ '')'') =
     ''vault: envOrDefault(V, '' @ quote_it ''CNEW'' @ '')''"
  by code_simp+

text \<open>An update of the publisher that is never confirmed, or whose account cannot be read, ends with code zero.\<close>

lemma publisher_update_unconfirmed:
  assumes "sp_env P = [''ADMIN_SECRET'' \<mapsto> ''S'', ''NEW_PUBLISHER'' \<mapsto> ''GP'']" and "sp_secret_ok P ''S''"
  shows "fst (update_oracle_publisher P (rejecting_chain\<lparr> dn_simulate := (\<lambda>r s. (SimPasses, s)) \<rparr>) s) = 0"
    and "fst (update_oracle_publisher P (rejecting_chain\<lparr> dn_account := (\<lambda>s. (None, s)) \<rparr>) s) = 0"
  using assms by (simp_all add: update_oracle_publisher_def NEW_PUBLISHER_def rejecting_chain_def await_pending Let_def)

end
