(* ===== verification/Insurance_Seed.thy ===== *)
theory Insurance_Seed
  imports Testnet_Scripts
begin

text \<open>
  Scripts that also send classic payments: \<open>client/scripts/mainnet-seed-insurance.ts\<close> (buy USDC, deposit all but
  one of it into the insurance contract, give that one to the liquidator) and \<open>setup-usdc-trustline.ts\<close>. The Horizon
  server is a parameter; a submission that is refused, or an operation that cannot be built, is \<open>False\<close>.
\<close>

record asset_line =
  al_code :: string
  al_issuer :: string
  al_balance :: string

datatype classic_op = ChangeTrust string | StrictSend string string | PayUsdc string string

record 's horizon =
  hz_account :: "string \<Rightarrow> 's \<Rightarrow> asset_line list option \<times> 's"
  hz_submit :: "string \<Rightarrow> classic_op \<Rightarrow> 's \<Rightarrow> bool \<times> 's"
  hz_quote :: "string \<Rightarrow> 's \<Rightarrow> string option option \<times> 's"

definition is_usdc :: "string \<Rightarrow> asset_line \<Rightarrow> bool" where
  "is_usdc issuer b \<longleftrightarrow> al_code b = ''USDC'' \<and> al_issuer b = issuer"

subsection \<open>\<open>setup-usdc-trustline.ts\<close>\<close>

definition TESTNET_ISSUER :: string where "TESTNET_ISSUER = ''GBBD47IF6LWK7P7MDEVSCWR7DPUWV3NY3DTQEVFL4NAT4AQH3ZLLFLA5''"

definition setup_usdc_trustline :: "script_par \<Rightarrow> 's horizon \<Rightarrow> 's \<Rightarrow> int \<times> 's" where
  "setup_usdc_trustline P H s =
    (if falsy_str (sp_env P ''ORACLE_PUBLISHER_SECRET'') \<or> \<not> publisher_key P then (1, s)
     else (let (acct, s1) = hz_account H (sp_admin P) s in case acct of
         None \<Rightarrow> (1, s1)
       | Some bs \<Rightarrow> if list_ex (is_usdc TESTNET_ISSUER) bs then (0, s1)
           else (let (ok, s2) = hz_submit H (sp_admin P) (ChangeTrust TESTNET_ISSUER) s1 in (if ok then 0 else 1, s2))))"

subsection \<open>\<open>mainnet-seed-insurance.ts\<close>\<close>

definition MAINNET_ISSUER :: string where "MAINNET_ISSUER = ''GA5ZSEJYB37JRC5AVCIA5MOP4RHTM335X2KGX3IHOJAPP5RE34K4KZVN''"
definition USDC_SAC :: string where "USDC_SAC = ''CCW67TSZV3SSS2HXMBQ5JFGCKJNXKZM7UQUWUZPUTHXSTZLEO7SJMI75''"
definition INSURANCE :: string where "INSURANCE = ''CCBEJ3F2PUV5OA4JNX3CPSOJFQMYMFDPLNANR2GJZVQEEBFMB6JYNL54''"

definition classic :: "'s horizon \<Rightarrow> string \<Rightarrow> classic_op \<Rightarrow> 's \<Rightarrow> bool \<times> 's" where
  "classic H who op s = (let (acct, s1) = hz_account H who s in if acct = None then (False, s1) else hz_submit H who op s1)"

definition ensure_trustline :: "'s horizon \<Rightarrow> string \<Rightarrow> 's \<Rightarrow> bool \<times> 's" where
  "ensure_trustline H who s = (let (acct, s1) = hz_account H who s in case acct of
     None \<Rightarrow> (False, s1)
   | Some bs \<Rightarrow> if list_ex (is_usdc MAINNET_ISSUER) bs then (True, s1) else classic H who (ChangeTrust MAINNET_ISSUER) s1)"

text \<open>Two percent below the quote, to seven decimals.\<close>

definition dest_min :: "string \<Rightarrow> string" where
  "dest_min best = to_fixed 7 (js_mul (parse_float best) (to_number (98 / 100)))"

definition swap_step :: "env \<Rightarrow> 's horizon \<Rightarrow> string \<Rightarrow> 's \<Rightarrow> bool \<times> 's" where
  "swap_step env H dep s = (let amount = env_or env ''SWAP_XLM'' ''55''; (quote, s1) = hz_quote H amount s in case quote of
     None \<Rightarrow> (False, s1)
   | Some best \<Rightarrow> if falsy_str best then (False, s1) else classic H dep (StrictSend amount (dest_min (the best))) s1)"

text \<open>The first balance called USDC, whoever issued it, less one.\<close>

definition usdc_balance :: "asset_line list \<Rightarrow> string option" where
  "usdc_balance bs = map_option al_balance (find (\<lambda>b. al_code b = ''USDC'') bs)"

definition seed_units :: "string \<Rightarrow> int option" where
  "seed_units balance = map_option (\<lambda>t. t - 10000000) (bigint_of_number (math_floor (js_mul (parse_float balance) (Fin 10000000))))"

definition seed_deposit :: "string \<Rightarrow> int \<Rightarrow> call_rq" where
  "seed_deposit dep seed = call_of INSURANCE ''deposit'' [ScAddress dep, ScAddress USDC_SAC, ScI128 seed]"

definition seed_attempt :: "'s deploy_net \<Rightarrow> call_rq \<Rightarrow> 's \<Rightarrow> bool \<times> 's" where
  "seed_attempt N rq s = (let (acct, s1) = dn_account N s in if acct = None then (False, s1) else call_once N None 60 rq s1)"

fun seed_attempts :: "'s deploy_net list \<Rightarrow> call_rq \<Rightarrow> 's \<Rightarrow> bool \<times> 's" where
  "seed_attempts [] rq s = (False, s)"
| "seed_attempts (N # Ns) rq s = (let (ok, s1) = seed_attempt N rq s in if ok then (True, s1) else seed_attempts Ns rq s1)"

definition deposit_step :: "'s deploy_net list \<Rightarrow> 's horizon \<Rightarrow> string \<Rightarrow> 's \<Rightarrow> bool \<times> 's" where
  "deposit_step Ns H dep s = (let (acct, s1) = hz_account H dep s in
     case Option.bind (Option.bind acct usdc_balance) seed_units of
       None \<Rightarrow> (False, s1)
     | Some seed \<Rightarrow> if seed \<le> 0 then (False, s1) else seed_attempts Ns (seed_deposit dep seed) s1)"

definition secret_of :: "script_par \<Rightarrow> string \<Rightarrow> string option" where
  "secret_of P k = (case sp_env P k of None \<Rightarrow> None | Some v \<Rightarrow> if sp_secret_ok P v then Some (sp_public P v) else None)"

definition seed_insurance :: "script_par \<Rightarrow> 's deploy_net list \<Rightarrow> 's horizon \<Rightarrow> 's \<Rightarrow> int \<times> 's" where
  "seed_insurance P Ns H s = (case (secret_of P ''MAINNET_DEPLOYER_SECRET'', secret_of P ''LIQUIDATOR_SECRET'') of
     (Some dep, Some liq) \<Rightarrow>
       (let (ok, s1) = seq_run [ensure_trustline H dep, ensure_trustline H liq, swap_step (sp_env P) H dep, deposit_step Ns H dep,
            classic H dep (PayUsdc liq ''1'')] s in (if ok then 0 else 1, s1))
   | _ \<Rightarrow> (1, s))"

subsection \<open>What a seeding that ends well has done\<close>

lemma seed_attempts_applied:
  assumes "\<And>N. N \<in> set Ns \<Longrightarrow> network_truthful N F" and "fst (seed_attempts Ns rq s)"
  shows "cf_applied F (snd (seed_attempts Ns rq s)) rq"
  using assms
proof (induction Ns arbitrary: s)
  case (Cons N Ns)
  have "cf_applied F (snd (seed_attempt N rq s)) rq" if "fst (seed_attempt N rq s)"
    using that call_once_applied [OF Cons.prems(1) [of N]] by (auto simp: seed_attempt_def Let_def split_def split: if_split_asm)
  then show ?case using Cons.IH Cons.prems by (auto simp: Let_def split_def)
qed simp

text \<open>The contract holds a positive deposit of the deployer: all its USDC but one, rounded down to raw units.\<close>

lemma seeding_deposits:
  assumes "\<And>N. N \<in> set Ns \<Longrightarrow> network_truthful N F" and "seed_insurance P Ns H s = (0, s')"
    and "\<And>who s. facts_le F s (snd (hz_account H who s))" and "\<And>who op s. facts_le F s (snd (hz_submit H who op s))"
  shows "\<exists>dep balance seed. seed_units balance = Some seed \<and> 0 < seed \<and> cf_applied F s' (seed_deposit dep seed)"
proof -
  obtain dep liq s3 where r: "seq_run [deposit_step Ns H dep, classic H dep (PayUsdc liq ''1'')] s3 = (True, s')"
    using assms(2) by (auto simp: seed_insurance_def Let_def split: option.split_asm prod.split_asm if_split_asm)
  define s4 where "s4 = snd (deposit_step Ns H dep s3)"
  have d: "fst (deposit_step Ns H dep s3)" and s': "s' = snd (classic H dep (PayUsdc liq ''1'') s4)"
    using r by (auto simp: Let_def split_def s4_def split: if_split_asm)
  obtain balance seed where b: "seed_units balance = Some seed" "0 < seed"
      and a: "deposit_step Ns H dep s3 = seed_attempts Ns (seed_deposit dep seed) (snd (hz_account H dep s3))"
    using d by (auto simp: deposit_step_def Let_def split_def bind_eq_Some_conv split: option.split_asm if_split_asm)
  have "cf_applied F s4 (seed_deposit dep seed)"
    using seed_attempts_applied [OF assms(1)] d by (simp add: s4_def a)
  moreover have "facts_le F s4 s'"
    unfolding s' classic_def Let_def split_def using assms(3) facts_le_trans [OF assms(3) assms(4)] by simp
  ultimately have "cf_applied F s' (seed_deposit dep seed)" by (simp add: facts_le_def)
  then show ?thesis using b by blast
qed

text \<open>A balance that another issuer calls USDC is taken for the real one.\<close>

lemma foreign_usdc_counted:
  "usdc_balance [\<lparr> al_code = ''USDC'', al_issuer = ''GX'', al_balance = ''1000.0000000'' \<rparr>,
      \<lparr> al_code = ''USDC'', al_issuer = MAINNET_ISSUER, al_balance = ''9.5000000'' \<rparr>] = Some ''1000.0000000''"
  by (simp add: usdc_balance_def)

lemma seed_of_balance: "seed_units ''9.5000000'' = Some 85000000"
  by code_simp

end
