(* ===== verification/Live_Gate.thy ===== *)
theory Live_Gate
  imports Ops_Scripts
begin

text \<open>
  \<open>client/scripts/live-production-gate.ts\<close>: the checks against a running deployment. What the endpoints answer,
  what the sockets do and how long things take are parameters; the gate passes or fails.
\<close>

record live_env =
  lv_env :: env
  lv_protocol :: "string \<Rightarrow> string option"
  lv_status :: "string \<Rightarrow> nat \<Rightarrow> int option"
  lv_post_status :: "string \<Rightarrow> string \<Rightarrow> int option"
  lv_header :: "string \<Rightarrow> string option"
  lv_socket :: "nat \<Rightarrow> bool"
  lv_storm_ms :: number
  lv_soak_cycles :: nat
  lv_ms :: "string \<Rightarrow> int"

subsection \<open>Configuration\<close>

definition live_number :: "live_env \<Rightarrow> string \<Rightarrow> string \<Rightarrow> number" where
  "live_number V k d = string_to_number (env_or (lv_env V) k d)"

definition MARKET_ID :: "live_env \<Rightarrow> number" where "MARKET_ID V = live_number V ''LIVE_GATE_MARKET_ID'' ''1''"
definition WS_CONNECTIONS :: "live_env \<Rightarrow> number" where "WS_CONNECTIONS V = live_number V ''LIVE_GATE_WS_CONNECTIONS'' ''25''"
definition SOAK_SECONDS :: "live_env \<Rightarrow> number" where "SOAK_SECONDS V = live_number V ''LIVE_GATE_SOAK_SECONDS'' ''30''"

definition has_protocol :: "live_env \<Rightarrow> string list \<Rightarrow> string \<Rightarrow> bool" where
  "has_protocol V allowed k \<longleftrightarrow> \<not> falsy_str (lv_env V k) \<and> (\<exists>p \<in> set allowed. lv_protocol V (the (lv_env V k)) = Some p)"

definition urls_ok :: "live_env \<Rightarrow> bool" where
  "urls_ok V \<longleftrightarrow> has_protocol V [''https:''] ''NEXT_PUBLIC_APP_URL'' \<and>
     has_protocol V (if lv_env V ''NEXT_PUBLIC_STELLAR_NETWORK'' = Some ''testnet'' then [''wss:'', ''ws:''] else [''wss:'']) ''NEXT_PUBLIC_WS_URL''"

definition evidence_ok :: "live_env \<Rightarrow> bool" where
  "evidence_ok V \<longleftrightarrow> list_all (has_protocol V [''https:''])
     [''WALLET_E2E_EVIDENCE_URL'', ''TRADING_E2E_EVIDENCE_URL'', ''OBSERVABILITY_DASHBOARD_URL'', ''INCIDENT_RUNBOOK_URL'', ''ROLLBACK_RUNBOOK_URL'']"

subsection \<open>The checks\<close>

text \<open>One request; the number tells apart several requests of a path. A request that fails has no status.\<close>

definition expectStatus :: "live_env \<Rightarrow> string \<Rightarrow> nat \<Rightarrow> int list \<Rightarrow> bool" where
  "expectStatus V path i expected \<longleftrightarrow> (case lv_status V path i of None \<Rightarrow> False | Some st \<Rightarrow> st \<in> set expected)"

definition js_includes :: "string \<Rightarrow> string \<Rightarrow> bool" where
  "js_includes s p \<longleftrightarrow> list_ex (prefix p) (suffixes s)"

definition header_or :: "live_env \<Rightarrow> string \<Rightarrow> string" where
  "header_or V k = (case lv_header V k of None \<Rightarrow> [] | Some v \<Rightarrow> v)"

definition checkSecurityHeaders :: "live_env \<Rightarrow> bool" where
  "checkSecurityHeaders V \<longleftrightarrow> expectStatus V ''/trade/XLM-PERP'' 0 [200] \<and>
     js_includes (header_or V ''content-security-policy'') (''frame-ancestors '' @ [CHR 0x27] @ ''none'' @ [CHR 0x27]) \<and>
     \<not> js_includes (header_or V ''content-security-policy'') ([CHR 0x27] @ ''unsafe-eval'' @ [CHR 0x27]) \<and>
     map upper_char (header_or V ''x-frame-options'') = ''DENY'' \<and> lv_header V ''x-powered-by'' = None"

definition market_path :: "live_env \<Rightarrow> string \<Rightarrow> string" where
  "market_path V tail = ''/api/markets/'' @ js_number_to_string (MARKET_ID V) @ tail"

definition checkCoreApis :: "live_env \<Rightarrow> bool" where
  "checkCoreApis V \<longleftrightarrow> expectStatus V ''/api/health'' 0 [200] \<and> expectStatus V ''/api/ready'' 0 [200] \<and>
     list_all (\<lambda>t. expectStatus V (market_path V t) 0 [200]) [[], ''/orderbook'', ''/trades'', ''/candles''] \<and>
     expectStatus V ''/api/portfolio/not-a-stellar-address'' 0 [400] \<and> lv_post_status V ''/api/orders'' ''{}'' = Some 400"

definition checkRateLimit :: "live_env \<Rightarrow> bool" where
  "checkRateLimit V \<longleftrightarrow> lv_env V ''LIVE_GATE_RATE_LIMIT_PROBE'' \<noteq> Some ''true'' \<or>
     (list_all (\<lambda>i. expectStatus V ''/api/portfolio/not-a-stellar-address'' i [400, 429]) [1..<151] \<and>
      list_ex (\<lambda>i. lv_status V ''/api/portfolio/not-a-stellar-address'' i = Some 429) [1..<151])"

text \<open>\<open>Array.from({ length })\<close>: no number, zero and negative lengths are empty; an infinite one throws.\<close>

definition array_length :: "number \<Rightarrow> nat option" where
  "array_length x = (case x of NaN \<Rightarrow> Some 0 | NInf \<Rightarrow> Some 0 | PInf \<Rightarrow> None
     | Fin a \<Rightarrow> if a \<le> 0 then Some 0 else if 2 ^ 32 \<le> \<lfloor>a\<rfloor> then None else Some (nat \<lfloor>a\<rfloor>))"

definition checkWebSocketStorm :: "live_env \<Rightarrow> bool" where
  "checkWebSocketStorm V \<longleftrightarrow> (case array_length (WS_CONNECTIONS V) of None \<Rightarrow> False
     | Some n \<Rightarrow> list_all (lv_socket V) [0..<n] \<and> \<not> js_lt (Fin 750) (js_div (lv_storm_ms V) (WS_CONNECTIONS V)))"

text \<open>\<open>Math.max(1, x)\<close>.\<close>

definition max_one :: "number \<Rightarrow> number" where
  "max_one x = (if x = NaN then NaN else if js_lt x (Fin 1) then Fin 1 else x)"

text \<open>The loop runs while the deadline is ahead: not at all unless the duration is a positive number.\<close>

definition soak_cycles :: "live_env \<Rightarrow> nat" where
  "soak_cycles V = (if js_lt (Fin 0) (SOAK_SECONDS V) then lv_soak_cycles V else 0)"

definition checkSoak :: "live_env \<Rightarrow> bool" where
  "checkSoak V \<longleftrightarrow>
     list_all (\<lambda>i. list_all (\<lambda>t. expectStatus V (market_path V t) i [200]) [[], ''/orderbook'', ''/trades'']) [1..<soak_cycles V + 1] \<and>
     \<not> js_lt (Fin (of_nat (soak_cycles V))) (max_one (math_floor (js_div (SOAK_SECONDS V) (Fin 2))))"

definition live_gate :: "live_env \<Rightarrow> bool" where
  "live_gate V \<longleftrightarrow> urls_ok V \<and> evidence_ok V \<and> checkSecurityHeaders V \<and> checkCoreApis V \<and> checkRateLimit V \<and>
     checkWebSocketStorm V \<and> checkSoak V \<and>
     list_all (\<lambda>n. lv_ms V n \<le> 6000) [''security headers'', ''core api readiness'', ''distributed rate limit'', ''websocket reconnect storm'']"

text \<open>With numbers that do not parse, the storm opens no socket, the soak loop makes no request, and both checks pass.\<close>

lemma bad_numbers_pass:
  assumes "WS_CONNECTIONS V = NaN" and "SOAK_SECONDS V = NaN"
  shows "checkWebSocketStorm V \<and> checkSoak V"
proof -
  have "js_div x NaN = NaN" "js_div NaN x = NaN" for x by (cases x; simp)+
  then show ?thesis using assms
    by (simp add: checkWebSocketStorm_def checkSoak_def soak_cycles_def array_length_def max_one_def)
qed

end
