(* ===== verification/Market_Feed.thy ===== *)
theory Market_Feed
  imports Order_Ticket Stream_Server
begin

text \<open>
  The market data of the trading screen: \<open>client/stores/market.ts\<close>, the provider that fills it
  (\<open>MarketDataProvider.tsx\<close>: oracle price with the Binance ticker as fallback, book and trades by
  polling while the stream is down), and the grouping of the book (\<open>OrderBook.tsx\<close>). What a fetch
  returned is a parameter, \<open>None\<close> when it failed. One poll at a time runs for each source, and one
  that ends after the screen was left writes nothing.
\<close>

subsection \<open>The store\<close>

record market_stats =
  ms_lastPrice :: int
  ms_volume :: int
  ms_longOI :: int
  ms_shortOI :: int

record ticker_24h =
  tk_highPrice :: int
  tk_lowPrice :: int
  tk_changePct :: number

record market_store =
  markPrices :: "(int, int) js_map"
  orderBooks :: "(int, order_book option) js_map"
  recentTrades :: "(int, trade list) js_map"
  marketStats :: "(int, market_stats) js_map"
  priceChangePct :: "(int, number) js_map"
  ticker24h :: "(int, ticker_24h) js_map"
  wsConnected :: bool
  selectedPrice :: "(int, number) js_map"

definition setMarkPrice :: "int \<Rightarrow> int \<Rightarrow> market_store \<Rightarrow> market_store" where
  "setMarkPrice mkt p s = s\<lparr> markPrices := map_set (markPrices s) mkt p \<rparr>"

definition setOrderBook :: "int \<Rightarrow> order_book option \<Rightarrow> market_store \<Rightarrow> market_store" where
  "setOrderBook mkt b s = s\<lparr> orderBooks := map_set (orderBooks s) mkt b \<rparr>"

definition setTrades :: "int \<Rightarrow> trade list \<Rightarrow> market_store \<Rightarrow> market_store" where
  "setTrades mkt ts s = s\<lparr> recentTrades := map_set (recentTrades s) mkt ts \<rparr>"

definition prependTrade :: "int \<Rightarrow> trade \<Rightarrow> market_store \<Rightarrow> market_store" where
  "prependTrade mkt t s = s\<lparr> recentTrades := map_set (recentTrades s) mkt
     (t # take 99 (case map_get (recentTrades s) mkt of None \<Rightarrow> [] | Some ts \<Rightarrow> ts)) \<rparr>"

definition setMarketStats :: "int \<Rightarrow> market_stats \<Rightarrow> market_store \<Rightarrow> market_store" where
  "setMarketStats mkt v s = s\<lparr> marketStats := map_set (marketStats s) mkt v \<rparr>"

definition setPriceChangePct :: "int \<Rightarrow> number \<Rightarrow> market_store \<Rightarrow> market_store" where
  "setPriceChangePct mkt v s = s\<lparr> priceChangePct := map_set (priceChangePct s) mkt v \<rparr>"

definition setTicker24h :: "int \<Rightarrow> ticker_24h \<Rightarrow> market_store \<Rightarrow> market_store" where
  "setTicker24h mkt v s = s\<lparr> ticker24h := map_set (ticker24h s) mkt v \<rparr>"

definition setWsConnected :: "bool \<Rightarrow> market_store \<Rightarrow> market_store" where
  "setWsConnected b s = s\<lparr> wsConnected := b \<rparr>"

definition setSelectedPrice :: "int \<Rightarrow> number \<Rightarrow> market_store \<Rightarrow> market_store" where
  "setSelectedPrice mkt p s = s\<lparr> selectedPrice := map_set (selectedPrice s) mkt p \<rparr>"

subsection \<open>The provider\<close>

definition getBinancePair :: "env \<Rightarrow> int \<Rightarrow> string" where
  "getBinancePair env mkt = (case find (\<lambda>e. mc_marketId (snd e) = mkt) (MARKETS env) of
     None \<Rightarrow> ''XLM'' | Some e \<Rightarrow> baseAsset (snd e)) @ ''USDT''"

record binance_24h =
  bn_price :: int
  bn_highPrice :: int
  bn_lowPrice :: int
  bn_changePct :: number

definition ticker_price :: "number \<Rightarrow> int option" where
  "ticker_price x = (if js_lt (Fin 0) x then big_scaled x PRICE_PRECISION else Some 0)"

text \<open>The answer is \<open>None\<close> when the fetch failed or was refused; every exception gives \<open>null\<close>.\<close>

definition fetchBinance24h :: "json option \<Rightarrow> binance_24h option" where
  "fetchBinance24h answer = (case answer of None \<Rightarrow> None | Some data \<Rightarrow>
     if data = JNull then None
     else (case (ticker_price (json_float (js_field data ''lastPrice'')), ticker_price (json_float (js_field data ''highPrice'')),
           ticker_price (json_float (js_field data ''lowPrice''))) of
         (Some p, Some h, Some l) \<Rightarrow> (let c = json_float (js_field data ''priceChangePercent'') in
           Some \<lparr> bn_price = p, bn_highPrice = h, bn_lowPrice = l, bn_changePct = (if c = NaN then Fin 0 else c) \<rparr>)
       | _ \<Rightarrow> None))"

record feed =
  fd_marketId :: int
  fd_store :: market_store
  fd_wsActive :: bool
  fd_visible :: bool
  fd_cancelled :: bool

definition write_store :: "(market_store \<Rightarrow> market_store) \<Rightarrow> feed \<Rightarrow> feed" where
  "write_store f fd = (if fd_cancelled fd then fd else fd\<lparr> fd_store := f (fd_store fd) \<rparr>)"

text \<open>The oracle's price, and else the ticker's; the oracle is asked for its default symbol.\<close>

definition pollOracle :: "oracle_result option \<Rightarrow> json option \<Rightarrow> feed \<Rightarrow> feed" where
  "pollOracle oracle ticker fd =
    (if \<not> fd_visible fd then fd
     else (case oracle of
         Some r \<Rightarrow> if 0 < or_price r then write_store (setMarkPrice (fd_marketId fd) (or_price r)) fd
           else (case fetchBinance24h ticker of None \<Rightarrow> fd
             | Some b \<Rightarrow> if 0 < bn_price b then write_store (setMarkPrice (fd_marketId fd) (bn_price b)) fd else fd)
       | None \<Rightarrow> (case fetchBinance24h ticker of None \<Rightarrow> fd
             | Some b \<Rightarrow> if 0 < bn_price b then write_store (setMarkPrice (fd_marketId fd) (bn_price b)) fd else fd)))"

definition oracle_read :: "chain_reads \<Rightarrow> config \<Rightarrow> oracle_result option" where
  "oracle_read R cfg = getOraclePrice R (CONTRACTS_cfg cfg) ''XLM''"

definition poll24h :: "json option \<Rightarrow> feed \<Rightarrow> feed" where
  "poll24h ticker fd = (if \<not> fd_visible fd then fd
     else (case fetchBinance24h ticker of None \<Rightarrow> fd
       | Some b \<Rightarrow> write_store (\<lambda>s. setTicker24h (fd_marketId fd) \<lparr> tk_highPrice = bn_highPrice b, tk_lowPrice = bn_lowPrice b,
           tk_changePct = bn_changePct b \<rparr> (setPriceChangePct (fd_marketId fd) (bn_changePct b) s)) fd))"

definition pollOrderBook :: "order_book option \<Rightarrow> feed \<Rightarrow> feed" where
  "pollOrderBook book fd = (if fd_wsActive fd \<or> \<not> fd_visible fd then fd
     else (case book of None \<Rightarrow> fd | Some b \<Rightarrow> write_store (setOrderBook (fd_marketId fd) (Some b)) fd))"

definition pollTrades :: "trade list \<Rightarrow> feed \<Rightarrow> feed" where
  "pollTrades trades fd = (if fd_wsActive fd \<or> \<not> fd_visible fd then fd
     else if trades = [] then fd else write_store (setTrades (fd_marketId fd) trades) fd)"

definition stat_field :: "json \<Rightarrow> string \<Rightarrow> int option" where
  "stat_field data k = bigint_of_string (case js_field data k of
     None \<Rightarrow> ''0'' | Some v \<Rightarrow> if v = JNull then ''0'' else json_to_string v)"

definition pollMarketStats :: "json option \<Rightarrow> feed \<Rightarrow> feed" where
  "pollMarketStats answer fd = (if \<not> fd_visible fd then fd
     else (case answer of None \<Rightarrow> fd | Some data \<Rightarrow>
       if data = JNull then fd
       else (case (stat_field data ''last_price'', stat_field data ''volume'', stat_field data ''long_open_interest'',
             stat_field data ''short_open_interest'') of
           (Some p, Some v, Some l, Some sh) \<Rightarrow> write_store (setMarketStats (fd_marketId fd)
             \<lparr> ms_lastPrice = p, ms_volume = v, ms_longOI = l, ms_shortOI = sh \<rparr>) fd
         | _ \<Rightarrow> fd)))"

text \<open>Handlers of the stream; they are not guarded by the cancellation flag.\<close>

definition handleWsOrderBook :: "int \<Rightarrow> order_book \<Rightarrow> feed \<Rightarrow> feed" where
  "handleWsOrderBook mid b fd = (if mid \<noteq> fd_marketId fd then fd else fd\<lparr> fd_store := setOrderBook mid (Some b) (fd_store fd) \<rparr>)"

definition handleWsTrade :: "int \<Rightarrow> trade \<Rightarrow> feed \<Rightarrow> feed" where
  "handleWsTrade mid t fd = (if mid \<noteq> fd_marketId fd then fd else fd\<lparr> fd_store := prependTrade mid t (fd_store fd) \<rparr>)"

definition handleWsStatus :: "bool \<Rightarrow> order_book option \<Rightarrow> trade list \<Rightarrow> feed \<Rightarrow> feed" where
  "handleWsStatus up book trades fd0 =
    (let fd = fd0\<lparr> fd_wsActive := up, fd_store := setWsConnected up (fd_store fd0) \<rparr> in
     if up then fd else pollTrades trades (pollOrderBook book fd))"

definition onVisibility :: "bool \<Rightarrow> feed \<Rightarrow> feed" where
  "onVisibility v fd = fd\<lparr> fd_visible := v \<rparr>"

subsection \<open>The grouped book\<close>

definition bucket_price :: "number \<Rightarrow> bool \<Rightarrow> number \<Rightarrow> number" where
  "bucket_price tck bid p = js_mul (if bid then math_floor (js_div p tck)
     else (case js_div p tck of Fin a \<Rightarrow> Fin (of_int \<lceil>a\<rceil>) | x \<Rightarrow> x)) tck"

definition add_bucket :: "number \<Rightarrow> bool \<Rightarrow> levels \<Rightarrow> book_level \<Rightarrow> levels" where
  "add_bucket tck bid m l = (let p = parse_float (bl_price l); s = parse_float (bl_size l) in
     if \<not> is_finite p \<or> \<not> is_finite s then m
     else (let k = to_fixed 8 (bucket_price tck bid p) in
       map_set m k (js_add (case map_get m k of None \<Rightarrow> Fin 0 | Some v \<Rightarrow> v) s)))"

definition groupByTick :: "book_level list \<Rightarrow> number \<Rightarrow> bool \<Rightarrow> (number \<times> number) list" where
  "groupByTick ls tck bid = js_sort (\<lambda>a b. js_sign (if bid then js_sub (fst b) (fst a) else js_sub (fst a) (fst b)))
     (map (\<lambda>(k, s). (parse_float k, s)) (foldl (add_bucket tck bid) [] ls))"

record level_row =
  lr_price :: number
  lr_metric :: number
  lr_cum :: number

primrec run_rows :: "bool \<Rightarrow> number \<Rightarrow> (number \<times> number) list \<Rightarrow> level_row list" where
  "run_rows quote run [] = []"
| "run_rows quote run (l # ls) = (let metric = (if quote then js_mul (fst l) (snd l) else snd l); run' = js_add run metric in
     \<lparr> lr_price = fst l, lr_metric = metric, lr_cum = run' \<rparr> # run_rows quote run' ls)"

definition toRows :: "bool \<Rightarrow> nat \<Rightarrow> (number \<times> number) list \<Rightarrow> level_row list" where
  "toRows quote depth ls = run_rows quote (Fin 0) (take depth ls)"

subsection \<open>What the provider keeps apart\<close>

text \<open>Polls and stream handlers write only the market of the screen.\<close>

lemma polls_other_market:
  assumes "mkt \<noteq> fd_marketId fd"
  shows "map_get (markPrices (fd_store (pollOracle r t fd))) mkt = map_get (markPrices (fd_store fd)) mkt"
    and "map_get (orderBooks (fd_store (pollOrderBook b fd))) mkt = map_get (orderBooks (fd_store fd)) mkt"
    and "map_get (recentTrades (fd_store (pollTrades ts fd))) mkt = map_get (recentTrades (fd_store fd)) mkt"
    and "map_get (recentTrades (fd_store (handleWsTrade mid tr fd))) mkt = map_get (recentTrades (fd_store fd)) mkt"
  using assms by (auto simp: pollOracle_def pollOrderBook_def pollTrades_def handleWsTrade_def write_store_def setMarkPrice_def
      setOrderBook_def setTrades_def prependTrade_def map_get_set split: option.splits)

text \<open>No poll of book or trades starts while the stream is up; the list stays within a hundred.\<close>

lemma stream_owns_book: "fd_wsActive fd \<Longrightarrow> pollOrderBook b fd = fd \<and> pollTrades ts fd = fd"
  by (simp add: pollOrderBook_def pollTrades_def)

lemma prepend_bounded: "length (the (map_get (recentTrades (prependTrade mkt t s)) mkt)) \<le> 100"
  by (simp add: prependTrade_def map_get_set)

text \<open>
  The mark price of every market is the oracle's price of XLM, as long as the oracle answers: the read
  does not depend on the market of the screen.
\<close>

lemma mark_is_xlm:
  assumes "oracle_read R cfg = Some r" and "0 < or_price r" and "fd_visible fd" and "\<not> fd_cancelled fd"
  shows "map_get (markPrices (fd_store (pollOracle (oracle_read R cfg) t fd))) (fd_marketId fd) = Some (or_price r)"
  using assms by (simp add: pollOracle_def write_store_def setMarkPrice_def map_get_set)

end
