(* ===== verification/Account_Panels.thy ===== *)
theory Account_Panels
  imports Market_Feed Account_Views
begin

text \<open>
  What the display components compute: the account bar, the market header, the tabs and history tables below the
  chart, the portfolio's figures, the pages of the leaderboard, and the stores of the settings and the chart. A
  figure that is shown as a dash is \<open>None\<close>; currency formatting (\<open>toLocaleString\<close>) is left to the browser.
\<close>

subsection \<open>Account bar and market header\<close>

definition available_collateral :: "int option \<Rightarrow> raw_health option \<Rightarrow> int option" where
  "available_collateral balance health = (case health of Some h \<Rightarrow> Some (rh_freeCollateral h) | None \<Rightarrow> balance)"

definition used_margin :: "raw_health option \<Rightarrow> string option" where
  "used_margin health = map_option (\<lambda>h. ''$'' @ to_fixed 2 (amountToHuman (rh_usedMargin h))) health"

definition volumeDisplay :: "market_stats option \<Rightarrow> (int \<times> int \<times> int) option \<Rightarrow> string option" where
  "volumeDisplay stats oi = (case stats of Some m \<Rightarrow> Some (''$'' @ formatAmount (ms_volume m) 0)
     | None \<Rightarrow> map_option (\<lambda>(l, s, t). ''$'' @ formatAmount t 0) oi)"

text \<open>A mark price of zero counts as none.\<close>

definition displayPrice :: "market_stats option \<Rightarrow> int option \<Rightarrow> string option" where
  "displayPrice stats mark = (case stats of
     Some m \<Rightarrow> if 0 < ms_lastPrice m then Some (''$'' @ to_fixed 4 (priceToHuman (ms_lastPrice m))) else
       (if mark \<in> {None, Some 0} then None else Some (''$'' @ to_fixed 4 (priceToHuman (the mark))))
   | None \<Rightarrow> if mark \<in> {None, Some 0} then None else Some (''$'' @ to_fixed 4 (priceToHuman (the mark))))"

definition shown_extreme :: "int option \<Rightarrow> string option" where
  "shown_extreme p = (case p of None \<Rightarrow> None | Some v \<Rightarrow> if 0 < v then Some (''$'' @ to_fixed 4 (priceToHuman v)) else None)"

definition changeDisplay :: "number option \<Rightarrow> string option" where
  "changeDisplay pct = map_option (\<lambda>p. formatChangePercent p 2) pct"

definition changeUp :: "number option \<Rightarrow> bool" where
  "changeUp pct \<longleftrightarrow> (case pct of None \<Rightarrow> True | Some p \<Rightarrow> js_le (Fin 0) p)"

definition leverage_label :: "int \<Rightarrow> number" where
  "leverage_label bps = math_round (js_div (number_of_bigint bps) (Fin 10000))"

text \<open>\<open>replace("-PERP", "")\<close>: the first occurrence.\<close>

fun drop_perp :: "string \<Rightarrow> string" where
  "drop_perp s = (if prefix ''-PERP'' s then drop 5 s else case s of [] \<Rightarrow> [] | c # cs \<Rightarrow> c # drop_perp cs)"

declare drop_perp.simps [simp del]

definition symbolFor :: "env \<Rightarrow> int \<Rightarrow> string" where
  "symbolFor env mkt = (case find (\<lambda>m. mc_marketId m = mkt) (map snd (MARKETS env)) of None \<Rightarrow> [] | Some m \<Rightarrow> drop_perp (symbol m))"

subsection \<open>Tabs and history tables\<close>

text \<open>A filter is \<open>None\<close> for all markets, or both sides.\<close>

definition matchMarket :: "int option \<Rightarrow> int \<Rightarrow> bool" where
  "matchMarket f m \<longleftrightarrow> (case f of None \<Rightarrow> True | Some x \<Rightarrow> m = x)"

definition matchSide :: "bool option \<Rightarrow> bool \<Rightarrow> bool" where
  "matchSide f l \<longleftrightarrow> (case f of None \<Rightarrow> True | Some x \<Rightarrow> l = x)"

definition positionCount :: "int option \<Rightarrow> bool option \<Rightarrow> raw_position list \<Rightarrow> nat" where
  "positionCount mf sf ps = length (filter (\<lambda>p. (case mf of None \<Rightarrow> True | Some m \<Rightarrow> rp_marketId p = Fin (of_int m)) \<and> matchSide sf (rp_isLong p)) ps)"

definition orderCount :: "int option \<Rightarrow> bool option \<Rightarrow> tracked_order list \<Rightarrow> nat" where
  "orderCount mf sf ts = length (filter (\<lambda>t. tk_status t = Pending \<and> matchMarket mf (marketId t) \<and> matchSide sf (isLong t)) ts)"

definition orderHistoryCount :: "int option \<Rightarrow> bool option \<Rightarrow> tracked_order list \<Rightarrow> nat" where
  "orderHistoryCount mf sf ts = length (filter (\<lambda>t. matchMarket mf (marketId t) \<and> matchSide sf (isLong t)) ts)"

definition history_orders :: "string \<Rightarrow> int option \<Rightarrow> bool option \<Rightarrow> tracked_order list \<Rightarrow> tracked_order list" where
  "history_orders address mf sf ts = filter (\<lambda>t. owner t = address \<and> matchMarket mf (marketId t) \<and> matchSide sf (isLong t)) ts"

record order_line =
  ol_time :: int
  ol_symbol :: string
  ol_market :: bool
  ol_long :: bool
  ol_size :: string
  ol_price :: "string option"
  ol_status :: local_status

text \<open>A nonce is the time it was made.\<close>

definition order_line_of :: "env \<Rightarrow> tracked_order \<Rightarrow> order_line" where
  "order_line_of env t = \<lparr> ol_time = nonce t, ol_symbol = symbolFor env (marketId t), ol_market = (limitPrice t = 0), ol_long = isLong t,
     ol_size = to_fixed 4 (amountToHuman (size t)),
     ol_price = (if limitPrice t = 0 then None else Some (''$'' @ to_fixed 4 (priceToHuman (limitPrice t)))), ol_status = tk_status t \<rparr>"

definition history_trades :: "int option \<Rightarrow> fill_view list option \<Rightarrow> fill_view list" where
  "history_trades mf answer = filter (\<lambda>f. matchMarket mf (fv_marketId f)) (case answer of None \<Rightarrow> [] | Some fs \<Rightarrow> fs)"

definition trade_on_chain :: "string \<Rightarrow> bool" where
  "trade_on_chain txHash \<longleftrightarrow> txHash \<noteq> [] \<and> \<not> prefix ''dbfill'' txHash"

definition funding_rows :: "int option \<Rightarrow> funding_view list option \<Rightarrow> funding_view list" where
  "funding_rows mf answer = filter (\<lambda>p. matchMarket mf (fdv_marketId p)) (case answer of None \<Rightarrow> [] | Some ps \<Rightarrow> ps)"

definition funding_text :: "funding_view \<Rightarrow> string" where
  "funding_text p = (if js_le (Fin 0) (fdv_amount p) then ''+'' else []) @ to_fixed 4 (fdv_amount p) @ '' USDC''"

definition funding_on_chain :: "string \<Rightarrow> bool" where
  "funding_on_chain txHash \<longleftrightarrow> txHash \<noteq> [] \<and> \<not> prefix ''0x000'' txHash"

text \<open>
  The open orders table shows the wallet's own pending orders, but its tab counts those of every wallet that
  used the browser: the two agree exactly when all counted orders are the wallet's.
\<close>

lemma length_filter_conj: "length (filter (\<lambda>x. P x \<and> Q x) xs) = length (filter Q xs) \<longleftrightarrow> (\<forall>x \<in> set xs. Q x \<longrightarrow> P x)"
proof -
  have e: "filter (\<lambda>x. P x \<and> Q x) xs = filter P (filter Q xs)" by (simp add: conj_commute)
  have l: "length (filter P ys) = length ys \<longleftrightarrow> (\<forall>x \<in> set ys. P x)" for ys
  proof (induction ys)
    case (Cons y ys)
    moreover have "length (filter P ys) \<noteq> Suc (length ys)" using length_filter_le [of P ys] by linarith
    ultimately show ?case by auto
  qed simp
  show ?thesis unfolding e l by auto
qed

lemma order_tab_counts:
  "length (history_orders address mf sf ts) = orderHistoryCount mf sf ts \<longleftrightarrow>
     (\<forall>t \<in> set ts. matchMarket mf (marketId t) \<and> matchSide sf (isLong t) \<longrightarrow> owner t = address)"
  unfolding history_orders_def orderHistoryCount_def by (rule length_filter_conj)

lemma open_tab_counts:
  "length (visible_orders address mf sf ts) = orderCount mf sf ts \<longleftrightarrow>
     (\<forall>t \<in> set ts. tk_status t = Pending \<and> matchMarket mf (marketId t) \<and> matchSide sf (isLong t) \<longrightarrow> owner t = address)"
proof -
  have "visible_orders address mf sf ts =
      filter (\<lambda>t. owner t = address \<and> tk_status t = Pending \<and> matchMarket mf (marketId t) \<and> matchSide sf (isLong t)) ts"
    unfolding visible_orders_def by (rule filter_cong) (auto simp: matchMarket_def matchSide_def)
  then show ?thesis unfolding orderCount_def by (simp add: length_filter_conj)
qed

subsection \<open>Portfolio\<close>

text \<open>The unrealized profit of the positions whose market has a mark price, added in order.\<close>

definition unrealized_total :: "(number \<Rightarrow> int option) \<Rightarrow> raw_position list \<Rightarrow> number" where
  "unrealized_total mark ps = foldl (\<lambda>acc p. case mark (rp_marketId p) of None \<Rightarrow> acc
     | Some mp \<Rightarrow> if mp = 0 then acc
         else js_add acc (amountToHuman (calcUnrealizedPnl (rp_isLong p) (rp_size p) (rp_entryPrice p) mp))) (Fin 0) ps"

definition realized_total :: "analytics_view option \<Rightarrow> number" where
  "realized_total a = (case a of None \<Rightarrow> Fin 0 | Some v \<Rightarrow> av_realizedPnl v)"

definition portfolio_pnl :: "(number \<Rightarrow> int option) \<Rightarrow> raw_position list \<Rightarrow> analytics_view option \<Rightarrow> number" where
  "portfolio_pnl mark ps a = js_add (realized_total a) (unrealized_total mark ps)"

definition win_rate_text :: "analytics_view option \<Rightarrow> string" where
  "win_rate_text a = to_fixed 1 (js_mul (case a of None \<Rightarrow> Fin 0 | Some v \<Rightarrow> av_winRate v) (Fin 100)) @ ''%''"

text \<open>The running sums of the events, oldest first.\<close>

fun running_sums :: "number \<Rightarrow> number list \<Rightarrow> number list" where
  "running_sums acc [] = []"
| "running_sums acc (x # xs) = js_add acc x # running_sums (js_add acc x) xs"

definition pnl_curve :: "pnl_view list \<Rightarrow> (number \<times> int) list" where
  "pnl_curve history = zip (running_sums (Fin 0) (map pv_amount (rev history))) (map pv_at (rev history))"

definition chart_series :: "equity_view list \<Rightarrow> pnl_view list \<Rightarrow> string \<times> (number \<times> int) list" where
  "chart_series equity history = (if 1 < length equity then (''Account Value'', map (\<lambda>e. (ev_equity e, ev_at e)) equity)
     else (''PNL'', pnl_curve history))"

lemma length_running_sums [simp]: "length (running_sums acc xs) = length xs"
  by (induction xs arbitrary: acc) simp_all

text \<open>The curve has one point per event and ends at the sum of them all.\<close>

lemma pnl_curve_ends_at_sum:
  assumes "history \<noteq> []"
  shows "length (pnl_curve history) = length history \<and>
    fst (last (pnl_curve history)) = foldl js_add (Fin 0) (map pv_amount (rev history))"
proof -
  have s: "xs \<noteq> [] \<Longrightarrow> last (running_sums acc xs) = foldl js_add acc xs" for acc xs
  proof (induction xs arbitrary: acc)
    case (Cons a xs)
    then show ?case by (cases xs) auto
  qed simp
  have ne: "running_sums (Fin 0) (map pv_amount (rev history)) \<noteq> []" "map pv_at (rev history) \<noteq> []"
    using assms by (cases "rev history"; simp)+
  then show ?thesis using assms s [of "map pv_amount (rev history)" "Fin 0"]
    by (simp add: pnl_curve_def last_zip)
qed

subsection \<open>Pages of the leaderboard\<close>

definition page_from :: "int \<Rightarrow> int \<Rightarrow> int" where
  "page_from page total' = (if total' = 0 then 0 else page * 10 + 1)"

definition page_to :: "int \<Rightarrow> int \<Rightarrow> int" where
  "page_to page total' = min ((page + 1) * 10) total'"

definition next_enabled :: "int \<Rightarrow> int \<Rightarrow> bool" where
  "next_enabled page total' \<longleftrightarrow> \<not> total' \<le> page_to page total'"

definition previous_page :: "int \<Rightarrow> int" where
  "previous_page page = max 0 (page - 1)"

definition board_query :: "stats_period \<Rightarrow> int \<Rightarrow> string \<Rightarrow> string \<rightharpoonup> string" where
  "board_query p page search = [''period'' \<mapsto> (case p of DAY \<Rightarrow> ''DAY'' | WEEK \<Rightarrow> ''WEEK'' | MONTH \<Rightarrow> ''MONTH'' | ALL_TIME \<Rightarrow> ''ALL''),
     ''metric'' \<mapsto> ''pnl'', ''limit'' \<mapsto> ''10'', ''offset'' \<mapsto> show_int (page * 10)] ++
     (if js_trim search = [] then Map.empty else [''search'' \<mapsto> js_trim search])"

datatype medal = Gold | Silver | Bronze

definition rank_icon :: "int \<Rightarrow> medal" where
  "rank_icon rank = (if rank = 1 then Gold else if rank = 2 then Silver else Bronze)"

text \<open>Every row from the third down wears the third's medal, and shows no number.\<close>

lemma rank_icon_hides_rank: "3 \<le> r \<Longrightarrow> rank_icon r = rank_icon 3"
  by (simp add: rank_icon_def)

text \<open>Going forward as long as it is possible shows every trader exactly once.\<close>

lemma pages_partition:
  assumes "0 < total'" and "0 \<le> r" and "r < total'"
  shows "\<exists>!page. 0 \<le> page \<and> page_from page total' \<le> r + 1 \<and> r + 1 \<le> page_to page total'"
proof (rule ex1I [of _ "r div 10"])
  show "0 \<le> r div 10 \<and> page_from (r div 10) total' \<le> r + 1 \<and> r + 1 \<le> page_to (r div 10) total'"
    using assms by (simp add: page_from_def page_to_def) presburger
  show "page = r div 10" if "0 \<le> page \<and> page_from page total' \<le> r + 1 \<and> r + 1 \<le> page_to page total'" for page
    using that assms by (simp add: page_from_def page_to_def) presburger
qed

lemma next_page_has_rows: "0 \<le> page \<Longrightarrow> next_enabled page total' \<Longrightarrow> page_from (page + 1) total' \<le> page_to (page + 1) total'"
  by (auto simp: next_enabled_def page_from_def page_to_def)

subsection \<open>Settings and chart\<close>

datatype setting = HidePnl | HideLiqPrice | HideOrderBook | AnimateOrderBook | SkipOrderConfirms

record settings =
  st_flag :: "setting \<Rightarrow> bool"
  st_degen :: bool

definition default_settings :: settings where
  "default_settings = \<lparr> st_flag = (\<lambda>k. k = AnimateOrderBook), st_degen = False \<rparr>"

definition toggle :: "setting \<Rightarrow> settings \<Rightarrow> settings" where
  "toggle k s = s\<lparr> st_flag := (st_flag s)(k := \<not> st_flag s k) \<rparr>"

definition setDegenMode :: "bool \<Rightarrow> settings \<Rightarrow> settings" where
  "setDegenMode v s = s\<lparr> st_degen := v \<rparr>"

definition reset_settings :: "settings \<Rightarrow> settings" where
  "reset_settings s = default_settings"

lemma toggle_toggle: "toggle k (toggle k s) = s"
  by (simp add: toggle_def)

record indicator =
  ic_id :: string
  ic_type :: string
  ic_period :: "number option"
  ic_stdDev :: "number option"
  ic_color :: string
  ic_visible :: bool

definition addIndicator :: "indicator \<Rightarrow> indicator list \<Rightarrow> indicator list" where
  "addIndicator c is = is @ [c]"

definition removeIndicator :: "string \<Rightarrow> indicator list \<Rightarrow> indicator list" where
  "removeIndicator i is = filter (\<lambda>x. ic_id x \<noteq> i) is"

definition toggleIndicator :: "string \<Rightarrow> indicator list \<Rightarrow> indicator list" where
  "toggleIndicator i is = update_where (\<lambda>x. ic_id x = i) (\<lambda>x. x\<lparr> ic_visible := \<not> ic_visible x \<rparr>) is"

definition updateIndicator :: "string \<Rightarrow> (indicator \<Rightarrow> indicator) \<Rightarrow> indicator list \<Rightarrow> indicator list" where
  "updateIndicator i f is = update_where (\<lambda>x. ic_id x = i) f is"

lemma remove_added: "i \<notin> ic_id ` set is \<Longrightarrow> ic_id c = i \<Longrightarrow> removeIndicator i (addIndicator c is) = is"
  by (simp add: removeIndicator_def addIndicator_def) (rule filter_True, blast)

subsection \<open>Chart\<close>

datatype timeframe = TF_1m | TF_3m | TF_5m | TF_15m | TF_30m | TF_1h | TF_2h | TF_4h | TF_6h | TF_12h | TF_1d | TF_1w

datatype chart_type = Candles | Bars | LineChart | AreaChart

datatype drawing_tool = Pointer | Trend | Ray | Extended | HLine | VLine | Rect | Fib | TextTool | Arrow | Brush | PositionTool | Ruler | Erase

datatype price_mode = LastPrice | MarkPrice

text \<open>The widget's names of the time frames and the chart types.\<close>

fun TV_INTERVAL :: "timeframe \<Rightarrow> string" where
  "TV_INTERVAL TF_1m = ''1''" | "TV_INTERVAL TF_3m = ''3''" | "TV_INTERVAL TF_5m = ''5''" | "TV_INTERVAL TF_15m = ''15''"
| "TV_INTERVAL TF_30m = ''30''" | "TV_INTERVAL TF_1h = ''60''" | "TV_INTERVAL TF_2h = ''120''" | "TV_INTERVAL TF_4h = ''240''"
| "TV_INTERVAL TF_6h = ''360''" | "TV_INTERVAL TF_12h = ''720''" | "TV_INTERVAL TF_1d = ''D''" | "TV_INTERVAL TF_1w = ''W''"

fun TV_STYLE :: "chart_type \<Rightarrow> string" where
  "TV_STYLE Candles = ''1''" | "TV_STYLE Bars = ''0''" | "TV_STYLE LineChart = ''2''" | "TV_STYLE AreaChart = ''3''"

definition TIMEFRAMES :: "timeframe list" where
  "TIMEFRAMES = [TF_5m, TF_15m, TF_1h]"

definition MORE_TFS :: "timeframe list" where
  "MORE_TFS = [TF_1m, TF_3m, TF_30m, TF_2h, TF_4h, TF_6h, TF_12h, TF_1d, TF_1w]"

definition CHART_TYPES :: "chart_type list" where
  "CHART_TYPES = [Candles, Bars, LineChart, AreaChart]"

text \<open>The top bar offers every time frame and every chart type once, and no two mean the same to the widget.\<close>

lemma controls_complete:
  "distinct (TIMEFRAMES @ MORE_TFS)" "set (TIMEFRAMES @ MORE_TFS) = UNIV" "distinct CHART_TYPES" "set CHART_TYPES = UNIV"
proof -
  show "distinct (TIMEFRAMES @ MORE_TFS)" "distinct CHART_TYPES" by (simp_all add: TIMEFRAMES_def MORE_TFS_def CHART_TYPES_def)
  have "tf \<in> set (TIMEFRAMES @ MORE_TFS)" for tf by (cases tf) (simp_all add: TIMEFRAMES_def MORE_TFS_def)
  then show "set (TIMEFRAMES @ MORE_TFS) = UNIV" by blast
  have "ct \<in> set CHART_TYPES" for ct by (cases ct) (simp_all add: CHART_TYPES_def)
  then show "set CHART_TYPES = UNIV" by blast
qed

lemma TV_names_injective: "inj TV_INTERVAL" "inj TV_STYLE"
proof -
  have "distinct (map TV_INTERVAL (TIMEFRAMES @ MORE_TFS))" "distinct (map TV_STYLE CHART_TYPES)"
    by (simp_all add: TIMEFRAMES_def MORE_TFS_def CHART_TYPES_def)
  then show "inj TV_INTERVAL" "inj TV_STYLE" by (simp_all only: distinct_map controls_complete)
qed

record chart_store =
  cs_timeframe :: timeframe
  cs_chartType :: chart_type
  cs_activeTool :: drawing_tool
  cs_priceMode :: price_mode
  cs_indicators :: "indicator list"
  cs_showIndicatorModal :: bool

definition initial_chart :: chart_store where
  "initial_chart = \<lparr> cs_timeframe = TF_1h, cs_chartType = Candles, cs_activeTool = Pointer, cs_priceMode = LastPrice,
     cs_indicators = [\<lparr> ic_id = ''vol'', ic_type = ''Volume'', ic_period = None, ic_stdDev = None, ic_color = ''#3a3d42'', ic_visible = True \<rparr>],
     cs_showIndicatorModal = False \<rparr>"

definition resetControls :: "chart_store \<Rightarrow> chart_store" where
  "resetControls c = c\<lparr> cs_timeframe := TF_1h, cs_chartType := Candles \<rparr>"

definition two_digits :: "int \<Rightarrow> string" where
  "two_digits n = pad_left 2 (show_int n)"

definition utc_text :: "int \<Rightarrow> string" where
  "utc_text now = two_digits (now div 3600000 mod 24) @ '':'' @ two_digits (now div 60000 mod 60) @ '':'' @ two_digits (now div 1000 mod 60) @ '' UTC''"

subsubsection \<open>Overlays\<close>

record position_overlay =
  po_long :: bool
  po_entry :: number
  po_liq :: number
  po_pnl :: number
  po_leverage :: number

record order_overlay =
  oo_price :: number
  oo_buy :: bool
  oo_size :: number

text \<open>\<open>Math.max(1, Math.round(notional / Math.max(margin, 0.0001)))\<close>.\<close>

definition overlay_leverage :: "raw_position \<Rightarrow> number" where
  "overlay_leverage p = js_max (Fin 1) (math_round (js_div (js_mul (amountToHuman (rp_size p)) (priceToHuman (rp_entryPrice p)))
     (js_max (amountToHuman (rp_margin p)) (to_number (1 / 10000)))))"

text \<open>The outer \<open>None\<close> is an exception of \<open>calcLiqPrice\<close>, the inner one is \<open>undefined\<close>.\<close>

definition positionOverlay :: "market_config option \<Rightarrow> raw_position option \<Rightarrow> int option \<Rightarrow> position_overlay option option" where
  "positionOverlay market pos mark = (case (pos, market) of
     (Some p, Some m) \<Rightarrow> if rp_entryPrice p \<le> 0 \<or> rp_margin p \<le> 0 then Some None else
       map_option (\<lambda>liq. let entry = priceToHuman (rp_entryPrice p); sz = amountToHuman (rp_size p);
             mk = (if mark \<in> {None, Some 0} then entry else priceToHuman (the mark)) in
           Some \<lparr> po_long = rp_isLong p, po_entry = entry, po_liq = priceToHuman liq,
             po_pnl = (if rp_isLong p then js_mul (js_sub mk entry) sz else js_mul (js_sub entry mk) sz),
             po_leverage = overlay_leverage p \<rparr>)
         (calcLiqPrice (rp_isLong p) (rp_entryPrice p) (overlay_leverage p) (number_of_bigint (maintenanceMarginBps m)))
   | _ \<Rightarrow> Some None)"

definition orderOverlays :: "int \<Rightarrow> tracked_order list \<Rightarrow> order_overlay list" where
  "orderOverlays mkt ts = map (\<lambda>t. \<lparr> oo_price = priceToHuman (limitPrice t), oo_buy = isLong t, oo_size = amountToHuman (size t) \<rparr>)
     (filter (\<lambda>t. marketId t = mkt \<and> tk_status t = Pending \<and> 0 < limitPrice t) ts)"

text \<open>The chart component receives the overlays and hands the widget its symbol, interval and style.\<close>

definition KryonChart :: "chart_store \<Rightarrow> string \<Rightarrow> position_overlay option \<Rightarrow> order_overlay list \<Rightarrow> string \<times> string \<times> string" where
  "KryonChart c ticker pos orders = (ticker, TV_INTERVAL (cs_timeframe c), TV_STYLE (cs_chartType c))"

lemma chart_ignores_overlays: "KryonChart c ticker pos orders = KryonChart c ticker None []"
  by (simp add: KryonChart_def)

lemma chart_shows_setting:
  "KryonChart c ticker pos orders = KryonChart d ticker pos' orders' \<longleftrightarrow> cs_timeframe c = cs_timeframe d \<and> cs_chartType c = cs_chartType d"
  by (simp add: KryonChart_def inj_eq [OF TV_names_injective(1)] inj_eq [OF TV_names_injective(2)])

subsection \<open>Notifications\<close>

record notif =
  no_id :: string
  no_title :: string
  no_message :: string
  no_time :: string
  no_read :: bool

definition unread :: "notif list \<Rightarrow> nat" where
  "unread ns = length (filter (\<lambda>n. \<not> no_read n) ns)"

definition markAllRead :: "notif list \<Rightarrow> notif list" where
  "markAllRead ns = map (\<lambda>n. n\<lparr> no_read := True \<rparr>) ns"

text \<open>The bell starts empty and marking is its only update: it never holds anything.\<close>

lemma bell_stays_empty: "(markAllRead ^^ k) [] = []" "unread (markAllRead ns) = 0"
  by (induction k) (auto simp: markAllRead_def unread_def filter_empty_conv)

end
