(* ===== verification/Market_Polls.thy ===== *)
theory Market_Polls
  imports Market_Feed
begin

text \<open>
  The polls of \<open>MarketDataProvider.tsx\<close> as they interleave. \<open>Market_Feed\<close> has one run of each poll in one piece;
  here a poll starts (its guards, and \<open>runOnce\<close>) and settles later, and between the two the stream may come up, the page
  may be hidden and the screen may switch to another market. The flags of \<open>runOnce\<close> and \<open>wsActiveRef\<close> are references
  of the component, so they survive a switch; \<open>cancelled\<close> and the market belong to the effect that started the poll.
\<close>

subsection \<open>Starting and settling\<close>

datatype poll_key = KOracle | K24h | KBook | KTrades | KStats

datatype poll_answer = AnsOracle "oracle_result option" "json option" | Ans24h "json option" | AnsBook "order_book option"
  | AnsTrades "trade list" | AnsStats "json option"

fun key_of :: "poll_answer \<Rightarrow> poll_key" where
  "key_of (AnsOracle r t) = KOracle" | "key_of (Ans24h t) = K24h" | "key_of (AnsBook b) = KBook"
| "key_of (AnsTrades ts) = KTrades" | "key_of (AnsStats a) = KStats"

fun run_poll :: "poll_answer \<Rightarrow> feed \<Rightarrow> feed" where
  "run_poll (AnsOracle r t) = pollOracle r t" | "run_poll (Ans24h t) = poll24h t" | "run_poll (AnsBook b) = pollOrderBook b"
| "run_poll (AnsTrades ts) = pollTrades ts" | "run_poll (AnsStats a) = pollMarketStats a"

record pending_poll =
  pp_key :: poll_key
  pp_marketId :: int
  pp_cancelled :: bool

record provider =
  pr_marketId :: int
  pr_store :: market_store
  pr_wsActive :: bool
  pr_visible :: bool
  pr_inFlight :: "poll_key \<Rightarrow> bool"
  pr_pending :: "pending_poll list"

definition poll_guard :: "poll_key \<Rightarrow> provider \<Rightarrow> bool" where
  "poll_guard k s \<longleftrightarrow> pr_visible s \<and> \<not> (k \<in> {KBook, KTrades} \<and> pr_wsActive s)"

text \<open>\<open>runOnce\<close> up to the \<open>await\<close>.\<close>

definition start_poll :: "poll_key \<Rightarrow> provider \<Rightarrow> provider" where
  "start_poll k s = (if \<not> poll_guard k s \<or> pr_inFlight s k then s
     else s\<lparr> pr_inFlight := (pr_inFlight s)(k := True),
             pr_pending := pr_pending s @ [\<lparr> pp_key = k, pp_marketId = pr_marketId s, pp_cancelled = False \<rparr>] \<rparr>)"

text \<open>What a poll writes when its answer is there: the guards were checked when it started.\<close>

definition landed :: "poll_answer \<Rightarrow> pending_poll \<Rightarrow> market_store \<Rightarrow> market_store" where
  "landed a p st = fd_store (run_poll a \<lparr> fd_marketId = pp_marketId p, fd_store = st, fd_wsActive = False, fd_visible = True,
     fd_cancelled = pp_cancelled p \<rparr>)"

definition settle_poll :: "nat \<Rightarrow> poll_answer \<Rightarrow> provider \<Rightarrow> provider" where
  "settle_poll n a s = (if n < length (pr_pending s) \<and> pp_key (pr_pending s ! n) = key_of a
     then s\<lparr> pr_store := landed a (pr_pending s ! n) (pr_store s), pr_inFlight := (pr_inFlight s)(key_of a := False),
             pr_pending := take n (pr_pending s) @ drop (Suc n) (pr_pending s) \<rparr>
     else s)"

subsection \<open>The other events\<close>

definition ALL_POLLS :: "poll_key list" where "ALL_POLLS = [KOracle, K24h, KBook, KTrades, KStats]"

definition start_polls :: "poll_key list \<Rightarrow> provider \<Rightarrow> provider" where
  "start_polls ks s = fold start_poll ks s"

definition change_visibility :: "bool \<Rightarrow> provider \<Rightarrow> provider" where
  "change_visibility v s = (let s1 = s\<lparr> pr_visible := v \<rparr> in if v then start_polls [KOracle, KBook, KTrades, KStats] s1 else s1)"

definition ws_status :: "bool \<Rightarrow> provider \<Rightarrow> provider" where
  "ws_status up s = (let s1 = s\<lparr> pr_wsActive := up, pr_store := setWsConnected up (pr_store s) \<rparr> in
     if up then s1 else start_polls [KBook, KTrades] s1)"

definition ws_book :: "int \<Rightarrow> order_book \<Rightarrow> provider \<Rightarrow> provider" where
  "ws_book mid b s = (if mid \<noteq> pr_marketId s then s else s\<lparr> pr_store := setOrderBook mid (Some b) (pr_store s) \<rparr>)"

definition ws_trade :: "int \<Rightarrow> trade \<Rightarrow> provider \<Rightarrow> provider" where
  "ws_trade mid t s = (if mid \<noteq> pr_marketId s then s else s\<lparr> pr_store := prependTrade mid t (pr_store s) \<rparr>)"

text \<open>The cleanup of the effect and the effect of the next market: every poll of the old one is cancelled.\<close>

definition switch_market :: "int \<Rightarrow> bool \<Rightarrow> provider \<Rightarrow> provider" where
  "switch_market mid visible s = start_polls ALL_POLLS
     (s\<lparr> pr_marketId := mid, pr_visible := visible, pr_pending := map (\<lambda>p. p\<lparr> pp_cancelled := True \<rparr>) (pr_pending s) \<rparr>)"

datatype provider_event = Timer poll_key | Settle nat poll_answer | Visibility bool | WsStatus bool | WsBook int order_book
  | WsTrade int trade | Switch int bool

fun provider_do :: "provider_event \<Rightarrow> provider \<Rightarrow> provider" where
  "provider_do (Timer k) = start_poll k"
| "provider_do (Settle n a) = settle_poll n a"
| "provider_do (Visibility v) = change_visibility v"
| "provider_do (WsStatus up) = ws_status up"
| "provider_do (WsBook mid b) = ws_book mid b"
| "provider_do (WsTrade mid t) = ws_trade mid t"
| "provider_do (Switch mid v) = switch_market mid v"

definition provider_start :: "int \<Rightarrow> market_store \<Rightarrow> bool \<Rightarrow> provider" where
  "provider_start mid st visible = start_polls ALL_POLLS
     \<lparr> pr_marketId = mid, pr_store = st, pr_wsActive = False, pr_visible = visible, pr_inFlight = (\<lambda>_. False), pr_pending = [] \<rparr>"

definition provider_run :: "provider_event list \<Rightarrow> provider \<Rightarrow> provider" where
  "provider_run es s = fold provider_do es s"

subsection \<open>One request of a kind at a time\<close>

definition polls_ok :: "provider \<Rightarrow> bool" where
  "polls_ok s \<longleftrightarrow> distinct (map pp_key (pr_pending s)) \<and> (\<forall>k. pr_inFlight s k \<longleftrightarrow> k \<in> pp_key ` set (pr_pending s)) \<and>
     (\<forall>p \<in> set (pr_pending s). \<not> pp_cancelled p \<longrightarrow> pp_marketId p = pr_marketId s)"

lemma start_poll_ok: "polls_ok s \<Longrightarrow> polls_ok (start_poll k s)"
  by (auto simp: polls_ok_def start_poll_def)

lemma start_polls_ok: "polls_ok s \<Longrightarrow> polls_ok (start_polls ks s)"
  unfolding start_polls_def by (induction ks arbitrary: s) (auto intro: start_poll_ok)

lemma start_polls_frame:
  "pr_store (start_polls ks t) = pr_store t" "\<exists>ps. pr_pending (start_polls ks t) = pr_pending t @ ps"
proof -
  have "pr_store (start_polls ks t) = pr_store t \<and> (\<exists>ps. pr_pending (start_polls ks t) = pr_pending t @ ps)"
    unfolding start_polls_def
  proof (induction ks arbitrary: t)
    case (Cons k ks)
    have "pr_store (start_poll k t) = pr_store t" "\<exists>ps. pr_pending (start_poll k t) = pr_pending t @ ps" by (simp_all add: start_poll_def)
    then show ?case using Cons [of "start_poll k t"] by auto
  qed simp
  then show "pr_store (start_polls ks t) = pr_store t" "\<exists>ps. pr_pending (start_polls ks t) = pr_pending t @ ps" by simp_all
qed

lemma polls_ok_store: "polls_ok (s\<lparr> pr_store := st, pr_wsActive := w, pr_visible := v \<rparr>) = polls_ok s"
  "polls_ok (s\<lparr> pr_store := st \<rparr>) = polls_ok s" "polls_ok (s\<lparr> pr_visible := v \<rparr>) = polls_ok s"
  "polls_ok (s\<lparr> pr_wsActive := w, pr_store := st \<rparr>) = polls_ok s" "polls_ok (s\<lparr> pr_wsActive := w \<rparr>) = polls_ok s"
  by (simp_all add: polls_ok_def)

lemma settle_ok:
  assumes "polls_ok s"
  shows "polls_ok (settle_poll n a s)"
proof (cases "n < length (pr_pending s) \<and> pp_key (pr_pending s ! n) = key_of a")
  case False
  then show ?thesis using assms by (auto simp: settle_poll_def)
next
  case True
  then have split: "pr_pending s = take n (pr_pending s) @ pr_pending s ! n # drop (Suc n) (pr_pending s)" by (simp add: id_take_nth_drop)
  define l p r where "l = take n (pr_pending s)" and "p = pr_pending s ! n" and "r = drop (Suc n) (pr_pending s)"
  have e: "pr_pending s = l @ p # r" and k: "pp_key p = key_of a" using split True by (simp_all add: l_def p_def r_def)
  have "settle_poll n a s = s\<lparr> pr_store := landed a p (pr_store s), pr_inFlight := (pr_inFlight s)(key_of a := False), pr_pending := l @ r \<rparr>"
    using True by (simp add: settle_poll_def l_def p_def r_def)
  then show ?thesis using assms k unfolding polls_ok_def e by auto
qed

lemma provider_do_ok:
  assumes "polls_ok s"
  shows "polls_ok (provider_do e s)"
proof (cases e)
  case (Switch mid v)
  have "polls_ok (s\<lparr> pr_marketId := mid, pr_visible := v, pr_pending := map (\<lambda>p. p\<lparr> pp_cancelled := True \<rparr>) (pr_pending s) \<rparr>)"
    using assms by (auto simp: polls_ok_def comp_def image_image)
  then show ?thesis using Switch by (simp add: switch_market_def start_polls_ok)
qed (use assms in \<open>simp_all add: start_poll_ok settle_ok start_polls_ok polls_ok_store change_visibility_def ws_status_def ws_book_def
      ws_trade_def Let_def\<close>)

lemma provider_run_ok: "polls_ok s \<Longrightarrow> polls_ok (provider_run es s)"
  unfolding provider_run_def by (induction es arbitrary: s) (auto intro: provider_do_ok)

text \<open>At any time at most one request of each kind is awaited, and its flag is set exactly then: no kind of poll is ever lost.\<close>

lemma one_request_at_a_time:
  "let s = provider_run es (provider_start mid st v) in
     distinct (map pp_key (pr_pending s)) \<and> (\<forall>k. pr_inFlight s k \<longleftrightarrow> k \<in> pp_key ` set (pr_pending s))"
proof -
  have "polls_ok (provider_start mid st v)" unfolding provider_start_def by (rule start_polls_ok) (simp add: polls_ok_def)
  then show ?thesis using provider_run_ok [of "provider_start mid st v" es] by (simp add: Let_def polls_ok_def)
qed

subsection \<open>What an answer may write\<close>

lemma cancelled_writes_nothing: "pp_cancelled p \<Longrightarrow> landed a p st = st"
  by (cases a) (auto simp: landed_def pollOracle_def poll24h_def pollOrderBook_def pollTrades_def pollMarketStats_def write_store_def
      split: option.splits)

text \<open>An answer that comes after the screen has switched writes nothing, so a poll writes only the market of the screen.\<close>

lemma late_answer_dropped:
  assumes "n < length (pr_pending s)"
  shows "pr_store (settle_poll n a (switch_market mid v s)) = pr_store s"
proof -
  obtain ps where ps: "pr_pending (switch_market mid v s) = map (\<lambda>p. p\<lparr> pp_cancelled := True \<rparr>) (pr_pending s) @ ps"
    unfolding switch_market_def using start_polls_frame(2) [of ALL_POLLS "s\<lparr> pr_marketId := mid, pr_visible := v, pr_pending := map (\<lambda>p. p\<lparr> pp_cancelled := True \<rparr>) (pr_pending s) \<rparr>"] by auto
  have st: "pr_store (switch_market mid v s) = pr_store s" by (simp add: switch_market_def start_polls_frame)
  have "pp_cancelled (pr_pending (switch_market mid v s) ! n)" using assms by (simp add: ps nth_append)
  then show ?thesis by (simp add: settle_poll_def st cancelled_writes_nothing)
qed

text \<open>
  But the flag of that poll is still set when the next market starts: its own first poll of the kind is skipped, and the
  next attempt is that of the timer, half a minute later for the figures of the day.
\<close>

lemma first_poll_skipped:
  assumes "pr_inFlight s k"
  shows "pr_pending (start_poll k (s\<lparr> pr_marketId := mid, pr_visible := v, pr_pending := ps \<rparr>)) = ps"
  using assms by (simp add: start_poll_def)

text \<open>
  The guard against polling while the stream is up is tested when a poll starts only. A book requested before replaces
  the newer one that the stream has delivered, and the trades the stream has delivered are lost.
\<close>

lemma late_book_replaces_streamed:
  assumes "pp_key (pr_pending s ! n) = KBook" and "n < length (pr_pending s)" and "\<not> pp_cancelled (pr_pending s ! n)"
    and "pp_marketId (pr_pending s ! n) = pr_marketId s"
  shows "map_get (orderBooks (pr_store (provider_run [WsStatus True, WsBook (pr_marketId s) new, Settle n (AnsBook (Some old))] s)))
     (pr_marketId s) = Some (Some old)"
  using assms by (simp add: provider_run_def ws_status_def ws_book_def settle_poll_def landed_def pollOrderBook_def write_store_def
      setOrderBook_def map_get_set)

lemma late_trades_replace_streamed:
  assumes "pp_key (pr_pending s ! n) = KTrades" and "n < length (pr_pending s)" and "\<not> pp_cancelled (pr_pending s ! n)"
    and "pp_marketId (pr_pending s ! n) = pr_marketId s" and "ts \<noteq> []"
  shows "map_get (recentTrades (pr_store (provider_run [WsStatus True, WsTrade (pr_marketId s) t, Settle n (AnsTrades ts)] s)))
     (pr_marketId s) = Some ts"
  using assms by (simp add: provider_run_def ws_status_def ws_trade_def settle_poll_def landed_def pollTrades_def write_store_def
      setTrades_def map_get_set)

end
