(* ===== verification/Ticket_Form.thy ===== *)
theory Ticket_Form
  imports Account_Panels
begin

text \<open>
  The order ticket as a form (\<open>OrderEntry.tsx\<close>): what the inputs and buttons do to its state, and what holds in every
  state they can reach; and the figures of the order book and of the rows of the positions and open orders tables.
\<close>

subsection \<open>Sanitised text\<close>

definition count_points :: "string \<Rightarrow> nat" where
  "count_points s = length (filter (\<lambda>c. c = CHR ''.'') s)"

definition numeric_text :: "string \<Rightarrow> bool" where
  "numeric_text s \<longleftrightarrow> (\<forall>c \<in> set s. is_digit c \<or> c = CHR ''.'') \<and> count_points s \<le> 1"

lemma numeric_nil [simp]: "numeric_text []"
  by (simp add: numeric_text_def count_points_def)

lemma point_no_digit [simp]: "\<not> is_digit (CHR ''.'')"
  by (simp add: is_digit_def)

lemma length_js_split: "length (js_split CHR ''.'' s) = Suc (count_points s)"
  by (induction s) (auto simp: count_points_def split: list.splits)

lemma split_concat: "concat (js_split c s) = filter (\<lambda>x. x \<noteq> c) s"
  by (induction s) (auto split: list.splits)

lemma split_head: "hd (js_split c s) = takeWhile (\<lambda>x. x \<noteq> c) s"
  by (induction s) (auto split: list.splits)

lemma one_point_eq:
  "one_point s = (if count_points s \<le> 1 then s
     else takeWhile (\<lambda>c. c \<noteq> CHR ''.'') s @ ''.'' @ filter (\<lambda>c. c \<noteq> CHR ''.'') (dropWhile (\<lambda>c. c \<noteq> CHR ''.'') s))"
proof -
  obtain p ps where sp: "js_split CHR ''.'' s = p # ps" by (cases "js_split CHR ''.'' s") auto
  have p: "p = takeWhile (\<lambda>c. c \<noteq> CHR ''.'') s" using split_head [of "CHR ''.''" s] sp by simp
  have "p @ concat ps = filter (\<lambda>c. c \<noteq> CHR ''.'') (takeWhile (\<lambda>c. c \<noteq> CHR ''.'') s) @ filter (\<lambda>c. c \<noteq> CHR ''.'') (dropWhile (\<lambda>c. c \<noteq> CHR ''.'') s)"
    using split_concat [of "CHR ''.''" s] sp by (simp flip: filter_append)
  moreover have "filter (\<lambda>c. c \<noteq> CHR ''.'') (takeWhile (\<lambda>c. c \<noteq> CHR ''.'') s) = takeWhile (\<lambda>c. c \<noteq> CHR ''.'') s"
    by (auto simp: filter_id_conv dest: set_takeWhileD)
  ultimately have "concat ps = filter (\<lambda>c. c \<noteq> CHR ''.'') (dropWhile (\<lambda>c. c \<noteq> CHR ''.'') s)" using p by simp
  then show ?thesis using p sp length_js_split [of s] by (auto simp: one_point_def Let_def)
qed

lemma count_points_parts:
  "count_points (takeWhile (\<lambda>c. c \<noteq> CHR ''.'') s @ ''.'' @ filter (\<lambda>c. c \<noteq> CHR ''.'') t) = 1"
proof -
  have "filter (\<lambda>c. c = CHR ''.'') (takeWhile (\<lambda>c. c \<noteq> CHR ''.'') s) = []" by (auto simp: filter_empty_conv dest: set_takeWhileD)
  moreover have "filter (\<lambda>c. c = CHR ''.'') (filter (\<lambda>c. c \<noteq> CHR ''.'') t) = []" by (simp add: filter_empty_conv)
  ultimately show ?thesis by (simp add: count_points_def del: filter_filter)
qed

lemma one_point_count: "count_points (one_point s) \<le> 1"
  using count_points_parts [of s "dropWhile (\<lambda>c. c \<noteq> CHR ''.'') s"] by (auto simp: one_point_eq)

lemma set_strip_zeros: "set (strip_zeros s) \<subseteq> set s"
proof -
  let ?z = "takeWhile (\<lambda>c. c = CHR ''0'') s"
  have "CHR ''0'' \<in> set s" if "2 \<le> length ?z"
  proof -
    have "hd ?z \<in> set ?z" using that by (cases ?z) auto
    then show ?thesis by (auto dest: set_takeWhileD)
  qed
  then show ?thesis by (auto simp: strip_zeros_def Let_def dest: in_set_dropD)
qed

lemma set_one_point: "set (one_point s) \<subseteq> insert (CHR ''.'') (set s)"
  by (auto simp: one_point_eq dest: set_takeWhileD set_dropWhileD)

text \<open>Whatever is typed or pasted, the field holds digits and at most one point.\<close>

lemma sanitize_numeric: "numeric_text (sanitizeNumericInput s)"
proof -
  let ?f = "filter (\<lambda>c. is_digit c \<or> c = CHR ''.'') s"
  have "set (sanitizeNumericInput s) \<subseteq> insert (CHR ''.'') (set ?f)"
    using set_one_point [of "strip_zeros ?f"] set_strip_zeros [of ?f] by (auto simp: sanitizeNumericInput_def)
  then show ?thesis using one_point_count by (auto simp: numeric_text_def sanitizeNumericInput_def)
qed

subsection \<open>The form\<close>

text \<open>\<open>availableToTrade\<close>; the marks of the leverage slider; the price picked in the book.\<close>

definition availableToTrade :: "raw_health option \<Rightarrow> int option \<Rightarrow> int" where
  "availableToTrade health balance = (case health of Some h \<Rightarrow> rh_freeCollateral h | None \<Rightarrow> (case balance of Some b \<Rightarrow> b | None \<Rightarrow> 0))"

definition max_leverage :: "market_config \<Rightarrow> int" where
  "max_leverage m = \<lfloor>of_int (maxLeverageBps m) / 10000 + (1 / 2 :: rat)\<rfloor>"

definition levMarks :: "int \<Rightarrow> int list" where
  "levMarks maxLev = uniq (filter (\<lambda>v. 1 \<le> v \<and> v \<le> maxLev) [1, 2, 5, 10, 25, 50, maxLev])"

definition initial_ticket :: ticket where
  "initial_ticket = \<lparr> tk_buy = True, tk_market = True, tk_size = [], tk_sizeInQuote = False, tk_limitPrice = [], tk_leverage = 15,
     tk_reduce = False, tk_post = False \<rparr>"

definition mid_text :: "ticket_env \<Rightarrow> string option" where
  "mid_text V = (case midPriceHuman V of None \<Rightarrow> None | Some p \<Rightarrow> if js_truthy p then Some (to_fixed 4 p) else None)"

definition default_price :: "ticket_env \<Rightarrow> ticket \<Rightarrow> ticket" where
  "default_price V t = (case mid_text V of None \<Rightarrow> t | Some s \<Rightarrow> if tk_limitPrice t = [] then t\<lparr> tk_limitPrice := s \<rparr> else t)"

datatype ticket_event = ChooseSide bool | ChooseMarket | ChooseLimit | TypePrice string | TypeSize string | ToggleUnit
  | SetLeverage int | SetReduce bool | SetPost bool | PickPrice number | SubmitDone

definition ticket_do :: "ticket_env \<Rightarrow> ticket_event \<Rightarrow> ticket \<Rightarrow> ticket" where
  "ticket_do V e t = (case e of
     ChooseSide b \<Rightarrow> t\<lparr> tk_buy := b \<rparr>
   | ChooseMarket \<Rightarrow> default_price V (t\<lparr> tk_market := True, tk_post := False \<rparr>)
   | ChooseLimit \<Rightarrow> default_price V (t\<lparr> tk_market := False \<rparr>)
   | TypePrice s \<Rightarrow> t\<lparr> tk_limitPrice := sanitizeNumericInput s \<rparr>
   | TypeSize s \<Rightarrow> t\<lparr> tk_size := sanitizeNumericInput s \<rparr>
   | ToggleUnit \<Rightarrow> t\<lparr> tk_sizeInQuote := \<not> tk_sizeInQuote t \<rparr>
   | SetLeverage n \<Rightarrow> t\<lparr> tk_leverage := n \<rparr>
   | SetReduce b \<Rightarrow> t\<lparr> tk_reduce := b \<rparr>
   | SetPost b \<Rightarrow> if b \<and> tk_market t then t else t\<lparr> tk_post := b \<rparr>
   | PickPrice p \<Rightarrow> if js_lt (Fin 0) p then t\<lparr> tk_market := False, tk_limitPrice := to_fixed 4 p \<rparr> else t
   | SubmitDone \<Rightarrow> t\<lparr> tk_size := [] \<rparr>)"

text \<open>The stores the ticket reads may differ from event to event.\<close>

inductive ticket_reach :: "ticket \<Rightarrow> bool" where
  fresh: "ticket_reach initial_ticket"
| event: "ticket_reach t \<Longrightarrow> ticket_reach (ticket_do V e t)"

lemma default_price_sel [simp]:
  "tk_market (default_price V t) = tk_market t" "tk_post (default_price V t) = tk_post t" "tk_size (default_price V t) = tk_size t"
  by (simp_all add: default_price_def split: option.split)

lemma ticket_invariant: "ticket_reach t \<Longrightarrow> \<not> (tk_market t \<and> tk_post t) \<and> numeric_text (tk_size t)"
proof (induction rule: ticket_reach.induct)
  case fresh
  show ?case by (simp add: initial_ticket_def)
next
  case (event t V e)
  then show ?case
    by (cases e) (auto simp: ticket_do_def sanitize_numeric)
qed

text \<open>So the check for a post-only market order never stops a ticket the form has produced.\<close>

lemma post_check_unreachable:
  assumes "ticket_reach t"
  shows "first_error (ticket_checks cfg V t) \<noteq> Some PostNeedsLimit"
  using ticket_invariant [OF assms] by (auto simp: ticket_checks_def first_error_def)

text \<open>Post-only is a check of the form: the order that is signed and sent is the same without it.\<close>

lemma post_only_not_sent: "ticket_intent V (t\<lparr> tk_post := b \<rparr>) now = ticket_intent V t now"
proof -
  have "execPrice V (t\<lparr> tk_post := b \<rparr>) = execPrice V t" by (simp add: execPrice_def)
  moreover from this have "baseSizeNum V (t\<lparr> tk_post := b \<rparr>) = baseSizeNum V t" by (simp add: baseSizeNum_def Let_def)
  ultimately show ?thesis by (simp add: ticket_intent_def rawPrice_def split: option.split)
qed

text \<open>The slider's marks are distinct, within its range, and include its end.\<close>

lemma levMarks_range:
  assumes "1 \<le> maxLev"
  shows "distinct (levMarks maxLev) \<and> set (levMarks maxLev) \<subseteq> {1..maxLev} \<and> 1 \<in> set (levMarks maxLev) \<and> maxLev \<in> set (levMarks maxLev)"
  using assms by (auto simp: levMarks_def)

subsection \<open>Figures of the order book\<close>

datatype view_mode = BothSides | AsksOnly | BidsOnly

definition next_view :: "view_mode \<Rightarrow> view_mode" where
  "next_view m = (case m of BothSides \<Rightarrow> AsksOnly | AsksOnly \<Rightarrow> BidsOnly | BidsOnly \<Rightarrow> BothSides)"

definition book_depth :: "view_mode \<Rightarrow> nat" where
  "book_depth m = (if m = BothSides then 10 else 22)"

definition tradeMetric :: "bool \<Rightarrow> string \<Rightarrow> string \<Rightarrow> number" where
  "tradeMetric inQuote price size' = (let p = parse_float price; s = parse_float size' in
     if \<not> is_finite p \<or> \<not> is_finite s then Fin 0 else if inQuote then js_mul p s else s)"

definition last_cum :: "level_row list \<Rightarrow> number" where
  "last_cum rows = (if rows = [] then Fin 0 else lr_cum (last rows))"

definition maxDepth :: "level_row list \<Rightarrow> level_row list \<Rightarrow> number" where
  "maxDepth asks bids = js_max (js_max (last_cum asks) (last_cum bids)) (Fin 1)"

definition best_row :: "level_row list \<Rightarrow> number option" where
  "best_row rows = (case rows of [] \<Rightarrow> None | r # _ \<Rightarrow> Some (lr_price r))"

definition spreadAbs :: "nat \<Rightarrow> level_row list \<Rightarrow> level_row list \<Rightarrow> string option" where
  "spreadAbs decimals asks bids = (case (best_row asks, best_row bids) of
     (Some a, Some b) \<Rightarrow> Some (to_fixed decimals (js_sub a b)) | _ \<Rightarrow> None)"

definition book_mid :: "level_row list \<Rightarrow> level_row list \<Rightarrow> number option" where
  "book_mid asks bids = (case (best_row asks, best_row bids) of
     (Some a, Some b) \<Rightarrow> Some (js_div (js_add a b) (Fin 2)) | _ \<Rightarrow> None)"

definition spreadPct :: "nat \<Rightarrow> level_row list \<Rightarrow> level_row list \<Rightarrow> string" where
  "spreadPct decimals asks bids = (case (spreadAbs decimals asks bids, book_mid asks bids) of
     (Some s, Some m) \<Rightarrow> if js_truthy m then to_fixed 3 (js_mul (js_div (parse_float s) m) (Fin 100)) @ ''%'' else ''0.000%''
   | _ \<Rightarrow> ''0.000%'')"

definition bar_pct :: "number \<Rightarrow> level_row \<Rightarrow> number" where
  "bar_pct maxCum r = js_mul (js_div (lr_cum r) maxCum) (Fin 100)"

lemma three_views: "(next_view ^^ 3) m = m"
  by (cases m) (simp_all add: next_view_def eval_nat_numeral)

subsection \<open>Rows of the positions and open orders\<close>

definition shown_positions :: "int option \<Rightarrow> bool option \<Rightarrow> raw_position list \<Rightarrow> raw_position list" where
  "shown_positions mf sf ps = filter (\<lambda>p. (case mf of None \<Rightarrow> True | Some m \<Rightarrow> rp_marketId p = Fin (of_int m)) \<and>
     (case sf of None \<Rightarrow> True | Some l \<Rightarrow> rp_isLong p = l)) ps"

definition position_columns :: "bool \<Rightarrow> bool \<Rightarrow> string list" where
  "position_columns hidePnl hideLiqPrice = [''Market'', ''Size'', ''Entry Price'', ''Mark Price''] @ (if hidePnl then [] else [''PnL'']) @
     (if hideLiqPrice then [] else [''Liq. Price'']) @ [''Margin'', []]"

definition pnl_text :: "position_figures \<Rightarrow> string option" where
  "pnl_text v = map_option (\<lambda>p. plus_sign p @ ''$'' @ to_fixed 2 (js_abs p) @ (case pf_pnlPct v of None \<Rightarrow> []
     | Some q \<Rightarrow> ''('' @ plus_sign q @ to_fixed 2 q @ ''%)'')) (pf_pnl v)"

text \<open>A loss loses its sign: the text of an amount is that of its absolute value, and no minus is put before it.\<close>

lemma loss_shown_without_sign:
  assumes "pf_pnl v = Some (Fin a)" and "a < 0" and "pf_pnlPct v = None"
  shows "pnl_text v = Some (''$'' @ to_fixed 2 (Fin (- a)))"
  using assms by (simp add: pnl_text_def plus_sign_def)

record order_view =
  vw_baseSymbol :: string
  vw_isMarket :: bool
  vw_price :: string
  vw_size :: string
  vw_long :: bool

definition market_name :: "env \<Rightarrow> int \<Rightarrow> string" where
  "market_name env mkt = (case find (\<lambda>m. mc_marketId m = mkt) (map snd (MARKETS env)) of None \<Rightarrow> ''#'' @ show_int mkt | Some m \<Rightarrow> symbol m)"

definition orderView :: "env \<Rightarrow> tracked_order \<Rightarrow> order_view" where
  "orderView env t = \<lparr> vw_baseSymbol = drop_perp (market_name env (marketId t)), vw_isMarket = (limitPrice t = 0),
     vw_price = (if limitPrice t = 0 then ''Market'' else ''$'' @ to_fixed 4 (priceToHuman (limitPrice t))),
     vw_size = to_fixed 4 (amountToHuman (size t)), vw_long = isLong t \<rparr>"

end
