(* ===== verification/Wallet_Actions.thy ===== *)
theory Wallet_Actions
  imports Order_Ticket Settlement_Jobs
begin

text \<open>
  What a user does with the wallet besides orders: connecting it (\<open>client/stores/wallet.ts\<close>,
  \<open>WalletConnect.tsx\<close>), fill notifications and the signature of a settlement (\<open>SettlementModal.tsx\<close>),
  deposits and withdrawals (\<open>DepositWithdrawDialog.tsx\<close>). Each function is given the answers of the
  extension, of the server and of the chain. Messages end before a character outside Latin-1.
\<close>

subsection \<open>The wallet store\<close>

record wallet =
  wl_address :: "string option"
  wl_connected :: bool
  wl_wrongNetwork :: bool
  wl_connecting :: bool

definition initial_wallet :: wallet where
  "initial_wallet = \<lparr> wl_address = None, wl_connected = False, wl_wrongNetwork = False, wl_connecting = False \<rparr>"

definition disconnect :: "wallet \<Rightarrow> wallet" where
  "disconnect w = w\<lparr> wl_address := None, wl_connected := False, wl_wrongNetwork := False \<rparr>"

text \<open>The refresh that runs every three seconds while the page is open.\<close>

definition refreshWalletState :: "config \<Rightarrow> string ext \<Rightarrow> string ext \<Rightarrow> wallet \<Rightarrow> wallet" where
  "refreshWalletState cfg addr net w =
    (if falsy_str (freighterGetAddress addr) then w\<lparr> wl_address := None, wl_connected := False, wl_wrongNetwork := False \<rparr>
     else w\<lparr> wl_address := freighterGetAddress addr, wl_connected := True, wl_wrongNetwork := \<not> isOnTestnet cfg net \<rparr>)"

datatype connect_result = NotInstalled | ConnectFailed "string option" | SwitchNetwork | WalletConnected

definition handleConnect :: "config \<Rightarrow> unit ext \<Rightarrow> unit ext \<Rightarrow> string ext \<Rightarrow> string ext \<Rightarrow> wallet \<Rightarrow> connect_result \<times> wallet" where
  "handleConnect cfg installed access addr net w =
    (if \<not> freighterIsInstalled installed then (NotInstalled, w)
     else case freighterConnect access addr of
       Inl e \<Rightarrow> (ConnectFailed e, w\<lparr> wl_connecting := False \<rparr>)
     | Inr a \<Rightarrow> (if isOnTestnet cfg net then WalletConnected else SwitchNetwork,
         w\<lparr> wl_address := Some a, wl_connected := True, wl_wrongNetwork := \<not> isOnTestnet cfg net, wl_connecting := False \<rparr>))"

definition wallet_ok :: "wallet \<Rightarrow> bool" where
  "wallet_ok w \<longleftrightarrow> (wl_connected w \<longleftrightarrow> wl_address w \<noteq> None) \<and> (wl_wrongNetwork w \<longrightarrow> wl_connected w)"

lemma wallet_ops_ok [simp]:
  "wallet_ok initial_wallet"
  "wallet_ok (disconnect w)"
  "wallet_ok (refreshWalletState cfg addr net w)"
  "wallet_ok w \<Longrightarrow> wallet_ok (snd (handleConnect cfg installed access addr net w))"
proof -
  show "wallet_ok (refreshWalletState cfg addr net w)"
    by (cases "freighterGetAddress addr") (auto simp: wallet_ok_def refreshWalletState_def)
qed (auto simp: wallet_ok_def initial_wallet_def disconnect_def handleConnect_def split: sum.splits)

text \<open>The extension still gives the address away after a disconnection, and the next refresh takes it back.\<close>

lemma disconnect_undone:
  assumes "a \<noteq> []"
  shows "wl_address (refreshWalletState cfg (ExtOk a) net (disconnect w)) = Some a \<and>
    wl_connected (refreshWalletState cfg (ExtOk a) net (disconnect w))"
  using assms by (simp add: refreshWalletState_def freighterGetAddress_def)

subsection \<open>Fill notifications\<close>

text \<open>
  The fills shown and the time of the next query; \<open>at\<close> reads the time of a fill and \<open>None\<close> is a request
  that fails. The queries start five seconds back.
\<close>

record 'f notices =
  nt_since :: int
  nt_fills :: "'f list"

definition notices_start :: "int \<Rightarrow> 'f notices \<Rightarrow> 'f notices" where
  "notices_start now n = n\<lparr> nt_since := now - 5000 \<rparr>"

definition poll_notices :: "('f \<Rightarrow> int) \<Rightarrow> 'f list option \<Rightarrow> 'f notices \<Rightarrow> 'f notices" where
  "poll_notices at_of answer n = (case answer of None \<Rightarrow> n
     | Some data \<Rightarrow> if data = [] then n
         else \<lparr> nt_since = Max (set (map at_of data)) + 1, nt_fills = take 20 (data @ nt_fills n) \<rparr>)"

definition dismiss_notice :: "('f \<Rightarrow> string) \<Rightarrow> string \<Rightarrow> 'f notices \<Rightarrow> 'f notices" where
  "dismiss_notice id_of i n = n\<lparr> nt_fills := filter (\<lambda>f. id_of f \<noteq> i) (nt_fills n) \<rparr>"

definition is_on_chain :: "string \<Rightarrow> bool" where
  "is_on_chain txHash \<longleftrightarrow> \<not> prefix ''dbfill'' txHash"

definition formatRawPrice :: "string \<Rightarrow> string" where
  "formatRawPrice v = to_fixed 4 (js_div (string_to_number v) PRICE_SCALE)"

definition formatRawAmount :: "string \<Rightarrow> string" where
  "formatRawAmount v = to_fixed 4 (js_div (string_to_number v) AMOUNT_SCALE)"

text \<open>
  The server answers with fills strictly later than the query, which starts one millisecond after the last
  fill: nothing is shown twice, but a fill of exactly that millisecond never is.
\<close>

lemma notices_not_repeated:
  assumes "poll_notices at_of (Some data) n = n'" and "\<forall>f \<in> set later. nt_since n' < at_of f" and "f \<in> set data"
  shows "f \<notin> set later"
proof (cases "data = []")
  case False
  have "at_of f \<le> Max (set (map at_of data))" using assms(3) by simp
  moreover have "nt_since n' = Max (set (map at_of data)) + 1" using assms(1) False by (auto simp: poll_notices_def)
  ultimately show ?thesis using assms(2) by force
qed (use assms(3) in simp)

lemma notice_missed:
  assumes "f \<in> set data" and "\<forall>g \<in> set data. at_of g \<le> at_of f" and "at_of g = at_of f + 1"
  shows "\<not> nt_since (poll_notices at_of (Some data) n) < at_of g"
proof -
  have "Max (set (map at_of data)) = at_of f" using assms(1,2) by (intro Max_eqI) auto
  then show ?thesis using assms by (auto simp: poll_notices_def)
qed

subsection \<open>Signing a settlement\<close>

record 's sign_client =
  sc_network :: bool
  sc_signEntry :: "string \<Rightarrow> string option ext"
  sc_post :: "int \<Rightarrow> json \<Rightarrow> 's \<Rightarrow> (int \<times> json option) option \<times> 's"

text \<open>The error shown, or \<open>None\<close> for a message of a library.\<close>

datatype sign_result = Signed | SignError "json option"

definition sign_answer :: "(int \<times> json option) option \<Rightarrow> sign_result" where
  "sign_answer r = (case r of None \<Rightarrow> SignError None
   | Some (status, body) \<Rightarrow> (let data = (case body of None \<Rightarrow> JObj [] | Some b \<Rightarrow> b) in
       if 200 \<le> status \<and> status < 300 \<and> js_field data ''ok'' \<noteq> Some (JBool False) then Signed
       else SignError (Some (case js_field data ''error'' of Some e \<Rightarrow> if e = JNull then JStr ''Settlement signing failed'' else e
           | None \<Rightarrow> JStr ''Settlement signing failed''))))"

definition item_xdr :: "pending_item \<Rightarrow> string" where
  "item_xdr p = (case json_str (pi_authEntryXdr p) of None \<Rightarrow> [] | Some x \<Rightarrow> x)"

definition sign_entry :: "'s sign_client \<Rightarrow> pending_item \<Rightarrow> string or_throw" where
  "sign_entry S p = (if pi_retryNeeded p then Inr (item_xdr p)
     else if \<not> sc_network S then Inl (Some ''Freighter is on the wrong network'')
     else freighterSignAuthEntry (sc_signEntry S (item_xdr p)))"

definition sign_body :: "string \<Rightarrow> string \<Rightarrow> json" where
  "sign_body addr entry = JObj [(''address'', JStr addr), (''signedAuthEntry'', JStr entry)]"

definition signSettlement :: "'s sign_client \<Rightarrow> string \<Rightarrow> pending_item \<Rightarrow> 's \<Rightarrow> sign_result \<times> 's" where
  "signSettlement S addr p s = (case sign_entry S p of
     Inl e \<Rightarrow> (SignError (map_option JStr e), s)
   | Inr entry \<Rightarrow> (let (r, s1) = sc_post S (pi_id p) (sign_body addr entry) s in (sign_answer r, s1)))"

subsection \<open>Deposits and withdrawals\<close>

text \<open>The typed amount, the figure the buttons write, and whether an amount exceeds what there is.\<close>

definition onAmount :: "string \<Rightarrow> string" where
  "onAmount v = one_point (filter (\<lambda>c. is_digit c \<or> c = CHR ''.'') v)"

definition human_or_zero :: "int option \<Rightarrow> number" where
  "human_or_zero b = (case b of None \<Rightarrow> Fin 0 | Some n \<Rightarrow> amountToHuman n)"

definition max_button :: "int option \<Rightarrow> string" where
  "max_button b = to_fixed 2 (human_or_zero b)"

definition half_button :: "int option \<Rightarrow> string" where
  "half_button b = to_fixed 2 (js_div (human_or_zero b) (Fin 2))"

datatype transfer = Deposit | Withdraw

definition overMax :: "transfer \<Rightarrow> int option \<Rightarrow> int option \<Rightarrow> string \<Rightarrow> bool" where
  "overMax k balance walletBalance amount = (let amt = float_or_zero amount in
     (k = Withdraw \<and> js_lt (human_or_zero balance) amt) \<or>
     (k = Deposit \<and> walletBalance \<noteq> None \<and> js_lt (human_or_zero walletBalance) amt))"

definition transfer_disabled :: "bool \<Rightarrow> transfer \<Rightarrow> int option \<Rightarrow> int option \<Rightarrow> string \<Rightarrow> bool" where
  "transfer_disabled loading k balance walletBalance amount \<longleftrightarrow>
     loading \<or> amount = [] \<or> js_le (float_or_zero amount) (Fin 0) \<or> overMax k balance walletBalance amount"

text \<open>
  One press of the button: the outcome, the wallet store and the amount left in the field. The
  conversion to raw units stands before the \<open>try\<close>, so that its exception escapes.
\<close>

datatype transfer_outcome = Ignored | InvalidAmount | OtherNetwork | Escaped | TransferFailed string | Confirmed int

definition transfer_call :: "config \<Rightarrow> invoke_io \<Rightarrow> transfer \<Rightarrow> string \<Rightarrow> int \<Rightarrow> string + int" where
  "transfer_call cfg io k user raw = (case k of
     Deposit \<Rightarrow> deposit io (CONTRACTS_cfg cfg) user raw (usdc (ASSETS_cfg cfg))
   | Withdraw \<Rightarrow> withdraw io (CONTRACTS_cfg cfg) user raw (usdc (ASSETS_cfg cfg)))"

definition run_transfer :: "config \<Rightarrow> invoke_io \<Rightarrow> string ext \<Rightarrow> transfer \<Rightarrow> wallet \<Rightarrow> string \<Rightarrow> transfer_outcome \<times> wallet \<times> string" where
  "run_transfer cfg io net k w amount =
    (if falsy_str (wl_address w) \<or> amount = [] then (Ignored, w, amount)
     else let parsed = parse_float amount in
       if \<not> is_finite parsed \<or> js_le parsed (Fin 0) then (InvalidAmount, w, amount)
       else if \<not> isOnTestnet cfg net then (OtherNetwork, w\<lparr> wl_wrongNetwork := True \<rparr>, amount)
       else let w1 = w\<lparr> wl_wrongNetwork := False \<rparr> in
         (case humanToAmount parsed of None \<Rightarrow> (Escaped, w1, amount)
          | Some raw \<Rightarrow> (case transfer_call cfg io k (the (wl_address w)) raw of
              Inl e \<Rightarrow> (TransferFailed e, w1, amount)
            | Inr ledger \<Rightarrow> (Confirmed ledger, w1, []))))"

text \<open>
  A confirmed transfer moved the typed amount of the connected user on the configured network: the call
  was simulated, signed and sent, and one of its thirty polls saw it in that ledger.
\<close>

lemma invoke_succeeds:
  assumes "invokeContract io c meth args source = Inr l"
  shows "iv_account io source \<and> iv_simError io c meth args = Some None \<and> iv_sign io source \<and> iv_sendError io meth = Some None \<and>
    (\<exists>j < 30. iv_poll io meth j = Some (PollSuccess l))"
proof -
  have "iv_account io source" "iv_simError io c meth args = Some None" "iv_sign io source" "iv_sendError io meth = Some None"
    and p: "invoke_poll (iv_poll io meth) 0 30 = Inr l"
    using assms by (auto simp: invokeContract_def split: if_splits option.splits)
  then show ?thesis using invoke_poll_success [OF p] by auto
qed

lemma confirmed_transfer:
  assumes "run_transfer cfg io net k w amount = (Confirmed l, w', rest)"
  shows "\<exists>user raw. wl_address w = Some user \<and> humanToAmount (parse_float amount) = Some raw \<and> js_lt (Fin 0) (parse_float amount) \<and>
    transfer_call cfg io k user raw = Inr l \<and> isOnTestnet cfg net \<and> \<not> wl_wrongNetwork w' \<and> rest = []"
proof -
  obtain user where u: "wl_address w = Some user"
    using assms by (cases "wl_address w") (auto simp: run_transfer_def)
  have f: "is_finite (parse_float amount)" "\<not> js_le (parse_float amount) (Fin 0)" "isOnTestnet cfg net"
    using assms by (auto simp: run_transfer_def Let_def split: if_splits)
  then have "js_lt (Fin 0) (parse_float amount)"
    by (cases "parse_float amount") auto
  then show ?thesis using assms u f
    by (auto simp: run_transfer_def Let_def split: if_splits option.splits sum.splits)
qed

text \<open>The buttons round to cents, also up: the whole balance can be more than there is.\<close>

lemma max_exceeds_balance:
  "max_button (Some 109990000) = ''11.00'' \<and> transfer_disabled False Withdraw (Some 109990000) None (max_button (Some 109990000))"
  by code_simp

end
