(* ===== verification/Landing_Page.thy ===== *)
theory Landing_Page
  imports Wallet_Actions
begin

text \<open>
  The landing page (\<open>app/LandingPage.tsx\<close>): the connection of a wallet from it and from the order ticket, the
  carousel of its cards, the status ticker and the sign-up field. Cards are shown in a strip that repeats
  \<open>CAROUSEL_CLONES\<close> of them at either end; the strip moves by one card, and at the end of the movement jumps
  from a repeated card to the original.
\<close>

subsection \<open>Connecting from other screens\<close>

text \<open>The ticket has its own copy of the wallet button's function.\<close>

definition ticket_connect :: "config \<Rightarrow> unit ext \<Rightarrow> unit ext \<Rightarrow> string ext \<Rightarrow> string ext \<Rightarrow> wallet \<Rightarrow> connect_result \<times> wallet" where
  "ticket_connect cfg installed access addr net w =
    (if \<not> freighterIsInstalled installed then (NotInstalled, w)
     else let w1 = w\<lparr> wl_connecting := True \<rparr> in
       (case freighterConnect access addr of
          Inl e \<Rightarrow> (ConnectFailed e, w1\<lparr> wl_connecting := False \<rparr>)
        | Inr a \<Rightarrow> let ok = isOnTestnet cfg net; w2 = w1\<lparr> wl_address := Some a, wl_connected := True, wl_wrongNetwork := \<not> ok \<rparr> in
            (if ok then WalletConnected else SwitchNetwork, w2\<lparr> wl_connecting := False \<rparr>)))"

lemma ticket_connect_eq [simp]: "ticket_connect = handleConnect"
  by (intro ext) (simp add: ticket_connect_def handleConnect_def Let_def split: sum.split)

text \<open>The landing page's outcome, whether it goes on to the trading page, and the wallet.\<close>

definition landing_connect ::
  "config \<Rightarrow> unit ext \<Rightarrow> unit ext \<Rightarrow> string ext \<Rightarrow> string ext \<Rightarrow> wallet \<Rightarrow> connect_result option \<times> bool \<times> wallet" where
  "landing_connect cfg installed access addr net w =
    (if wl_connected w then (None, True, w)
     else if \<not> freighterIsInstalled installed then (Some NotInstalled, False, w)
     else let w1 = w\<lparr> wl_connecting := True \<rparr> in
       (case freighterConnect access addr of
          Inl e \<Rightarrow> (Some (ConnectFailed e), False, w1\<lparr> wl_connecting := False \<rparr>)
        | Inr a \<Rightarrow> let ok = isOnTestnet cfg net; w2 = w1\<lparr> wl_address := Some a, wl_connected := True, wl_wrongNetwork := \<not> ok \<rparr> in
            (Some (if ok then WalletConnected else SwitchNetwork), True, w2\<lparr> wl_connecting := False \<rparr>)))"

text \<open>It goes on exactly when a wallet is connected, on whatever network, and leaves the store as the wallet button would.\<close>

lemma landing_goes_on: "landing_connect cfg installed access addr net w = (r, go, w') \<Longrightarrow> go = wl_connected w'"
  by (auto simp: landing_connect_def Let_def split: if_splits sum.splits)

lemma landing_connect_wallet:
  "snd (snd (landing_connect cfg installed access addr net w)) = (if wl_connected w then w else snd (handleConnect cfg installed access addr net w))"
  by (simp add: landing_connect_def handleConnect_def Let_def split: sum.split)

subsection \<open>The carousel\<close>

definition CAROUSEL_CLONES :: int where
  "CAROUSEL_CLONES = 2"

definition SOLUTIONS :: "string list" where
  "SOLUTIONS = [''Perpetuals'', ''On-Chain Settlement'', ''CLOB Matching'', ''Risk & Liquidation'']"

definition cards :: int where
  "cards = int (List.length SOLUTIONS)"

definition allCards :: "string list" where
  "allCards = drop (List.length SOLUTIONS - nat CAROUSEL_CLONES) SOLUTIONS @ SOLUTIONS @ take (nat CAROUSEL_CLONES) SOLUTIONS"

text \<open>JavaScript's remainder has the sign of the dividend.\<close>

definition js_rem :: "int \<Rightarrow> int \<Rightarrow> int" where
  "js_rem a b = (if a < 0 then - ((- a) mod \<bar>b\<bar>) else a mod \<bar>b\<bar>)"

definition realIdx :: "int \<Rightarrow> int" where
  "realIdx i = js_rem (js_rem (i - CAROUSEL_CLONES) cards + cards) cards"

record carousel =
  ca_idx :: int
  ca_moving :: bool
  ca_drag :: "int option"

definition initial_carousel :: carousel where
  "initial_carousel = \<lparr> ca_idx = CAROUSEL_CLONES, ca_moving = False, ca_drag = None \<rparr>"

definition goNext :: "carousel \<Rightarrow> carousel" where
  "goNext c = (if ca_moving c then c else c\<lparr> ca_moving := True, ca_idx := ca_idx c + 1 \<rparr>)"

definition goPrev :: "carousel \<Rightarrow> carousel" where
  "goPrev c = (if ca_moving c then c else c\<lparr> ca_moving := True, ca_idx := ca_idx c - 1 \<rparr>)"

definition handleCarouselTransitionEnd :: "carousel \<Rightarrow> carousel" where
  "handleCarouselTransitionEnd c = (let c = c\<lparr> ca_moving := False \<rparr> in
     if cards + CAROUSEL_CLONES \<le> ca_idx c then c\<lparr> ca_idx := CAROUSEL_CLONES \<rparr>
     else if ca_idx c < CAROUSEL_CLONES then c\<lparr> ca_idx := cards + CAROUSEL_CLONES - 1 \<rparr> else c)"

definition handlePointerDown :: "int \<Rightarrow> carousel \<Rightarrow> carousel" where
  "handlePointerDown x c = c\<lparr> ca_drag := Some x \<rparr>"

definition handlePointerUp :: "int \<Rightarrow> carousel \<Rightarrow> carousel" where
  "handlePointerUp x c = (case ca_drag c of None \<Rightarrow> c | Some s \<Rightarrow>
     let delta = x - s; c = c\<lparr> ca_drag := None \<rparr> in
     if delta < - 60 then goNext c else if 60 < delta then goPrev c else c)"

inductive carousel_step :: "carousel \<Rightarrow> carousel \<Rightarrow> bool" where
  next_button: "carousel_step c (goNext c)"
| prev_button: "carousel_step c (goPrev c)"
| move_ended: "carousel_step c (handleCarouselTransitionEnd c)"
| pointer_down: "carousel_step c (handlePointerDown x c)"
| pointer_up: "carousel_step c (handlePointerUp x c)"

inductive carousel_reach :: "carousel \<Rightarrow> bool" where
  start: "carousel_reach initial_carousel"
| step: "carousel_reach c \<Longrightarrow> carousel_step c c' \<Longrightarrow> carousel_reach c'"

lemma cards_eq [simp]: "cards = 4"
  by (simp add: cards_def SOLUTIONS_def)

lemma js_rem_wrap: "js_rem (js_rem a 4 + 4) 4 = a mod 4"
proof -
  have b: "0 \<le> b mod 4 \<and> b mod 4 < 4" for b :: int by simp
  have "(- ((- a) mod 4) + 4) mod 4 = (- ((- a) mod 4)) mod 4" by (rule mod_add_self2)
  also have "\<dots> = a mod 4" by (simp add: mod_minus_eq)
  finally have "(4 - (- a) mod 4) mod 4 = a mod 4" by (simp add: algebra_simps)
  then show ?thesis using b [of "- a"] b [of a] by (auto simp: js_rem_def)
qed

lemma realIdx_mod: "realIdx i = (i - 2) mod 4"
  unfolding realIdx_def cards_eq CAROUSEL_CLONES_def by (rule js_rem_wrap)

text \<open>At rest the strip stands on an original card, and it is never further than one card away from them.\<close>

definition carousel_ok :: "carousel \<Rightarrow> bool" where
  "carousel_ok c \<longleftrightarrow> 1 \<le> ca_idx c \<and> ca_idx c \<le> 6 \<and> (\<not> ca_moving c \<longrightarrow> 2 \<le> ca_idx c \<and> ca_idx c \<le> 5)"

lemma go_ok: "carousel_ok c \<Longrightarrow> carousel_ok (goNext c)" "carousel_ok c \<Longrightarrow> carousel_ok (goPrev c)"
  by (auto simp: carousel_ok_def goNext_def goPrev_def)

lemma carousel_step_ok: "carousel_step c c' \<Longrightarrow> carousel_ok c \<Longrightarrow> carousel_ok c'"
proof (induction rule: carousel_step.induct)
  case (move_ended c)
  then show ?case by (simp add: carousel_ok_def handleCarouselTransitionEnd_def CAROUSEL_CLONES_def Let_def)
next
  case (pointer_down c x)
  then show ?case by (simp add: carousel_ok_def handlePointerDown_def)
next
  case (pointer_up c x)
  have "carousel_ok (c\<lparr> ca_drag := None \<rparr>)" using pointer_up by (simp add: carousel_ok_def)
  then show ?case using pointer_up go_ok by (auto simp: handlePointerUp_def Let_def split: option.split)
qed (simp_all add: go_ok)

lemma carousel_reach_ok: "carousel_reach c \<Longrightarrow> carousel_ok c"
  by (induction rule: carousel_reach.induct) (auto simp: carousel_ok_def initial_carousel_def CAROUSEL_CLONES_def dest: carousel_step_ok)

text \<open>The jump at the end of a movement is not seen: the highlighted card stays, and so do the cards from it on.\<close>

lemma carousel_places: "carousel_reach c \<Longrightarrow> ca_idx c \<in> {1, 2, 3, 4, 5, 6} \<and> (\<not> ca_moving c \<longrightarrow> ca_idx c \<in> {2, 3, 4, 5})"
  using carousel_reach_ok [of c] by (auto simp: carousel_ok_def)

lemma jump_keeps_card: "carousel_reach c \<Longrightarrow> realIdx (ca_idx (handleCarouselTransitionEnd c)) = realIdx (ca_idx c)"
  using carousel_places [of c] by (auto simp: handleCarouselTransitionEnd_def CAROUSEL_CLONES_def realIdx_mod Let_def)

lemma card_in_place: "0 \<le> i \<Longrightarrow> i < 8 \<Longrightarrow> allCards ! nat i = SOLUTIONS ! nat (realIdx i)"
proof -
  assume "0 \<le> i" "i < 8"
  then have "i \<in> {0, 1, 2, 3, 4, 5, 6, 7}" by auto
  then show ?thesis by (auto simp: realIdx_mod allCards_def SOLUTIONS_def CAROUSEL_CLONES_def)
qed

text \<open>Three cards fit a wide screen. At rest all three places are filled, but after the last card the strip moves to where the third one is empty.\<close>

definition shown_cards :: "carousel \<Rightarrow> string list" where
  "shown_cards c = take 3 (drop (nat (ca_idx c)) allCards)"

lemma three_cards_at_rest: "carousel_reach c \<Longrightarrow> \<not> ca_moving c \<Longrightarrow> List.length (shown_cards c) = 3"
  using carousel_places [of c] by (auto simp: shown_cards_def allCards_def SOLUTIONS_def CAROUSEL_CLONES_def)

lemma third_place_empty:
  assumes "carousel_reach c" and "\<not> ca_moving c" and "ca_idx c = 5"
  shows "shown_cards (goNext c) = [''Perpetuals'', ''On-Chain Settlement'']"
  using assms by (simp add: goNext_def shown_cards_def allCards_def SOLUTIONS_def CAROUSEL_CLONES_def)

subsection \<open>The status ticker and the sign-up field\<close>

definition SYSTEM_STATUS :: "string list" where
  "SYSTEM_STATUS = [''01. Oracle Feed'', ''02. CLOB Matcher'', ''03. Margin Engine'', ''04. Vault'', ''05. Order Gateway'',
     ''06. Liquidation'', ''07. Insurance Fund'', ''08. Risk Engine'', ''09. Funding'', ''10. State Indexer'']"

definition next_status :: "nat \<Rightarrow> nat" where
  "next_status p = (p + 1) mod List.length SYSTEM_STATUS"

lemma status_cycle: "(next_status ^^ k) 0 = k mod 10"
proof (induction k)
  case (Suc k)
  then show ?case by (simp add: next_status_def SYSTEM_STATUS_def mod_Suc_eq)
qed simp

definition handleFtSubscribe :: "string \<times> bool \<Rightarrow> string \<times> bool" where
  "handleFtSubscribe s = (if fst s = [] then s else ([], True))"

text \<open>The address typed goes nowhere: the state afterwards, and so all that is shown, is the same for every address.\<close>

lemma address_dropped: "e \<noteq> [] \<Longrightarrow> e' \<noteq> [] \<Longrightarrow> handleFtSubscribe (e, b) = handleFtSubscribe (e', b')"
  by (simp add: handleFtSubscribe_def)

end
