(* ===== verification/Settlement_Flow.thy ===== *)
theory Settlement_Flow
  imports Settlement_Correct Wallet_Actions
begin

text \<open>
  A settlement from the match to the chain: the wallets of \<open>Wallet_Actions\<close> plugged into the sign handler
  of \<open>Settlement_Jobs\<close>, then the reconciler. When both parties sign, the transaction is sent; what becomes
  of the job and the fill is then up to the network: confirmed and stamped when it executes the transaction,
  failed and left in the book when it does not - and with the documented \<open>toEnvelope\<close> the transaction
  lacks the very entries the parties signed.
\<close>

subsection \<open>Following one job through the table\<close>

lemma load_job_update:
  assumes "\<And>j. settle_job i (f j) = settle_job i j"
  shows "load_job i (update_jobs P f d) = map_option (\<lambda>j. if P j then f j else j) (load_job i d)"
proof -
  have "find_row (settle_job i) (update_where P f t) = map_option (\<lambda>j. if P j then f j else j) (find_row (settle_job i) t)" for t
    using assms by (induction t) auto
  then show ?thesis by (simp add: load_job_def update_jobs_def)
qed

lemma load_job_id: "load_job i d = Some j \<Longrightarrow> j_id j = i \<and> j_kind j = settle_kind"
  by (auto simp: load_job_def settle_job_def dest: find_row_Some)

lemma load_job_keep [simp]:
  "load_job i (update_jobs P (add_entry t mk e) d) = map_option (\<lambda>j. if P j then add_entry t mk e j else j) (load_job i d)"
  "load_job i (update_jobs P (set_status st t) d) = map_option (\<lambda>j. if P j then set_status st t j else j) (load_job i d)"
  by (rule load_job_update, simp add: settle_job_def)+

lemma load_job_recorded [simp]:
  "load_job i (record_hash t i h d) = map_option (\<lambda>j. j\<lparr> j_submittedHash := Some h, j_updatedAt := t \<rparr>) (load_job i d)"
  using load_job_update [of i "\<lambda>j. j\<lparr> j_submittedHash := Some h, j_updatedAt := t \<rparr>" "\<lambda>j. j_id j = i" d]
  by (cases "load_job i d") (auto simp: record_hash_def settle_job_def dest: load_job_id)

lemma first_queued:
  assumes "load_job i d = Some j" and "j_status j = QUEUED"
  shows "\<exists>rest. returning (queued_job i) (db_jobs d) = j # rest"
proof -
  have "\<exists>rest. returning (queued_job i) t = j # rest" if "find_row (settle_job i) t = Some j" for t
    using that assms(2) by (induction t) (auto simp: queued_job_def split: if_splits)
  then show ?thesis using assms(1) by (simp add: load_job_def)
qed

lemma merge_loaded:
  assumes "load_job i d = Some j" and "j_status j = QUEUED" and "j_unsignedXdr j = Some x"
  shows "merge_entry t i mk e d = (Some (Some (jsonb_concat x (JObj [(entry_field mk, JStr e)]))),
    update_jobs (queued_job i) (add_entry t mk e) d)"
  using first_queued [OF assms(1,2)] assms(3) by (auto simp: merge_entry_def add_entry_def)

lemma claim_loaded:
  assumes "load_job i d = Some j" and "j_status j = QUEUED"
  shows "claim_queued t i d = (True, update_jobs (\<lambda>j. j_id j = i \<and> j_status j = QUEUED) (set_status SUBMITTED t) d)"
proof -
  have "j \<in> set (db_jobs d)" "j_id j = i" using assms by (auto simp: load_job_def settle_job_def dest: find_row_Some)
  then show ?thesis using assms(2) by (auto simp: claim_queued_def claim_where_def returning_empty_iff)
qed

lemma text_field_merge:
  assumes "k' \<noteq> k"
  shows "text_field (jsonb_concat (JObj kvs) (JObj [(k, v)])) k' = text_field (JObj kvs) k'"
  using assms by (simp add: text_field_def js_field_merge)

subsection \<open>One signature\<close>

text \<open>The request of a wallet reaches the handler; an unhandled exception is a 500 without a JSON body.\<close>

definition sign_api :: "sign_env \<Rightarrow> (string \<Rightarrow> string option) \<Rightarrow> int \<Rightarrow> json \<Rightarrow> buckets \<times> database \<Rightarrow>
    (int \<times> json option) option \<times> (buckets \<times> database)" where
  "sign_api G headers i body s = (case POST_sign G \<lparr> req_header = headers, req_body = Some body \<rparr> (Some i) s of
     (None, s1) \<Rightarrow> (Some (500, None), s1) | (Some r, s1) \<Rightarrow> (Some (resp_status r, Some (resp_body r)), s1))"

definition sign_wallet :: "sign_env \<Rightarrow> (string \<Rightarrow> string option) \<Rightarrow> (string \<Rightarrow> string option ext) \<Rightarrow> (buckets \<times> database) sign_client" where
  "sign_wallet G headers sign = \<lparr> sc_network = True, sc_signEntry = sign, sc_post = sign_api G headers \<rparr>"

text \<open>A request with entry \<open>e\<close> of party \<open>addr\<close> that the handler admits, with statements that do not fail.\<close>

definition admits :: "sign_env \<Rightarrow> (string \<Rightarrow> string option) \<Rightarrow> string \<Rightarrow> string \<Rightarrow> buckets \<Rightarrow> buckets \<Rightarrow> bool" where
  "admits G headers addr e bs bs1 \<longleftrightarrow> (let req = \<lparr> req_header = headers, req_body = Some (sign_body addr e) \<rparr> in
     \<not> bodyTooLarge req 12288 \<and> e \<noteq> [] \<and> length e \<le> 8192 \<and> ch_validEntry (sg_chain G) e \<and>
     addr \<noteq> [] \<and> isValidEd25519PublicKey (sg_crypto G) addr \<and>
     rateLimit (sg_limiter G) (sg_now G) (requestKey req addr) 30 bs = (True, bs1) \<and> (\<forall>k. \<not> sg_fail G k))"

lemma admitted_request:
  assumes a: "admits G headers addr e bs bs1" and l: "load_job i d = Some job" "j_status job = QUEUED" "j_unsignedXdr job = Some data" "data \<noteq> JNull"
    and p: "party_address (sg_crypto G) data ''makerAddress''" "party_address (sg_crypto G) data ''takerAddress''"
    and role: "mk = (js_field data ''makerAddress'' = Some (JStr addr))" "mk \<or> js_field data ''takerAddress'' = Some (JStr addr)"
  shows "POST_sign G \<lparr> req_header = headers, req_body = Some (sign_body addr e) \<rparr> (Some i) (bs, d) =
    (let (r, d1) = sign_merged G i (jsonb_concat data (JObj [(entry_field mk, JStr e)])) (update_jobs (queued_job i) (add_entry (sg_now G) mk e) d)
     in (r, bs1, d1))"
proof -
  have "sign_loaded G i job addr e d =
      sign_merged G i (jsonb_concat data (JObj [(entry_field mk, JStr e)])) (update_jobs (queued_job i) (add_entry (sg_now G) mk e) d)"
    using assms by (simp add: sign_loaded_def Let_def admits_def merge_loaded) blast
  then show ?thesis using a l(1)
    by (simp add: POST_sign_def sign_body_def admits_def Let_def map_get_def json_str_def)
qed

lemma wallet_signs:
  assumes "pi_id p = i" and "\<not> pi_retryNeeded p" and "sign (item_xdr p) = ExtOk (Some e)" and "e \<noteq> []"
    and "POST_sign G \<lparr> req_header = headers, req_body = Some (sign_body addr e) \<rparr> (Some i) s = (Some (Resp 200 b), s1)"
    and "js_field b ''ok'' = Some (JBool True)"
  shows "signSettlement (sign_wallet G headers sign) addr p s = (Signed, s1)"
  using assms by (simp add: signSettlement_def sign_entry_def sign_wallet_def freighterSignAuthEntry_def ext_value_def
      sign_api_def sign_answer_def)

subsection \<open>Both signatures, then the confirmation\<close>

text \<open>What a job that waits for signatures looks like: the matcher's payload between two different accounts.\<close>

definition unsigned_job :: "crypto \<Rightarrow> pending_settlement \<Rightarrow> match_result \<Rightarrow> tx_job \<Rightarrow> bool" where
  "unsigned_job c ps m j \<longleftrightarrow> j_status j = QUEUED \<and> j_unsignedXdr j = Some (job_payload ps m) \<and>
     ps_makerAddress ps \<noteq> [] \<and> ps_takerAddress ps \<noteq> [] \<and> ps_makerAddress ps \<noteq> ps_takerAddress ps \<and> ps_assembledTxXdr ps \<noteq> [] \<and>
     isValidEd25519PublicKey c (ps_makerAddress ps) \<and> isValidEd25519PublicKey c (ps_takerAddress ps)"

text \<open>
  A network that takes the rebuilt transaction into its queue (\<open>sendTransaction\<close> runs no contract, so it
  does not look at the authorization entries).
\<close>

definition accepts :: "sign_env \<Rightarrow> string \<Rightarrow> string \<Rightarrow> string \<Rightarrow> string \<Rightarrow> bool" where
  "accepts G xdr em et h \<longleftrightarrow> (\<exists>secret pk st sq. sg_secret G = Some secret \<and> secret \<noteq> [] \<and>
     ch_fromSecret (sg_chain G) secret = Inr pk \<and> ch_envelope (sg_chain G) xdr = Inr st \<and> ch_sequence (sg_chain G) pk = Inr sq \<and>
     ch_validEntry (sg_chain G) em \<and> ch_validEntry (sg_chain G) et \<and>
     (\<forall>tx. rt_auth tx = ch_inject (sg_chain G) st [em, et] \<and> rt_sequence tx = sq \<and> rt_source tx = pk \<and> rt_op tx = st_op st \<longrightarrow> ch_send (sg_chain G) tx = Inr (SendOk h)))"

definition once_signed :: "pending_settlement \<Rightarrow> match_result \<Rightarrow> string \<Rightarrow> json" where
  "once_signed ps m em = jsonb_concat (job_payload ps m) (JObj [(''makerSignedEntry'', JStr em)])"

definition twice_signed :: "pending_settlement \<Rightarrow> match_result \<Rightarrow> string \<Rightarrow> string \<Rightarrow> json" where
  "twice_signed ps m em et = jsonb_concat (once_signed ps m em) (JObj [(''takerSignedEntry'', JStr et)])"

lemma signed_fields:
  "js_field (once_signed ps m em) k = (if k = ''makerSignedEntry'' then Some (JStr em) else js_field (job_payload ps m) k)"
  "js_field (twice_signed ps m em et) k = (if k = ''takerSignedEntry'' then Some (JStr et)
     else if k = ''makerSignedEntry'' then Some (JStr em) else js_field (job_payload ps m) k)"
proof -
  obtain kvs where p: "job_payload ps m = JObj kvs" by (simp add: job_payload_def)
  show o: "js_field (once_signed ps m em) k = (if k = ''makerSignedEntry'' then Some (JStr em) else js_field (job_payload ps m) k)" for k
    by (simp only: once_signed_def p js_field_merge)
  obtain kvs' where "once_signed ps m em = JObj kvs'" by (simp add: once_signed_def p jsonb_concat_def)
  then show "js_field (twice_signed ps m em et) k = (if k = ''takerSignedEntry'' then Some (JStr et)
     else if k = ''makerSignedEntry'' then Some (JStr em) else js_field (job_payload ps m) k)"
    using o by (simp only: twice_signed_def js_field_merge)
qed

lemma payload_values [simp]:
  "js_field (job_payload ps m) ''makerAddress'' = Some (JStr (ps_makerAddress ps))"
  "js_field (job_payload ps m) ''takerAddress'' = Some (JStr (ps_takerAddress ps))"
  "js_field (job_payload ps m) ''makerAuthXdr'' = Some (JStr (ps_makerAuthXdr ps))"
  "js_field (job_payload ps m) ''takerAuthXdr'' = Some (JStr (ps_takerAuthXdr ps))"
  "js_field (job_payload ps m) ''assembledTxXdr'' = Some (JStr (ps_assembledTxXdr ps))"
  "js_field (job_payload ps m) ''makerSignedEntry'' = None"
  "js_field (job_payload ps m) ''takerSignedEntry'' = None"
  by (simp_all add: job_payload_def map_get_def)

lemma payload_object: "job_payload ps m \<noteq> JNull" "once_signed ps m em \<noteq> JNull" "twice_signed ps m em et \<noteq> JNull"
  by (simp_all add: job_payload_def once_signed_def twice_signed_def jsonb_concat_def)

text \<open>The maker signs first: the entry is stored and the other party is awaited.\<close>

lemma maker_signs:
  assumes j: "load_job i d = Some job" "unsigned_job (sg_crypto G) ps m job"
    and a: "admits G headers (ps_makerAddress ps) em bs bs1" and w: "sign (ps_makerAuthXdr ps) = ExtOk (Some em)"
  shows "\<exists>p d1. pending_of (ps_makerAddress ps) job = Some p \<and>
     signSettlement (sign_wallet G headers sign) (ps_makerAddress ps) p (bs, d) = (Signed, bs1, d1) \<and>
     d1 = update_jobs (queued_job i) (add_entry (sg_now G) True em) d"
proof -
  define d1 where "d1 = update_jobs (queued_job i) (add_entry (sg_now G) True em) d"
  have j': "j_status job = QUEUED" "j_unsignedXdr job = Some (job_payload ps m)" using j(2) by (simp_all add: unsigned_job_def)
  have "\<not> both_signed (job_payload ps m)" by (simp add: both_signed_def)
  then obtain p where p: "pending_of (ps_makerAddress ps) job = Some p" "pi_id p = i" "\<not> pi_retryNeeded p" "item_xdr p = ps_makerAuthXdr ps"
    using j' load_job_id [OF j(1)] payload_object [of ps m] by (simp add: pending_of_def Let_def entry_field_def item_xdr_def json_str_def)
  have pa: "party_address (sg_crypto G) (job_payload ps m) ''makerAddress''" "party_address (sg_crypto G) (job_payload ps m) ''takerAddress''"
    using j(2) by (simp_all add: party_address_def unsigned_job_def)
  have "\<not> both_signed (once_signed ps m em)" by (simp add: both_signed_def signed_fields)
  then have "sign_merged G i (once_signed ps m em) d1 = (Some (status_resp ''waiting_for_other_party''), d1)"
    by (simp add: sign_merged_def)
  then have "POST_sign G \<lparr> req_header = headers, req_body = Some (sign_body (ps_makerAddress ps) em) \<rparr> (Some i) (bs, d) =
      (Some (status_resp ''waiting_for_other_party''), bs1, d1)"
    using admitted_request [OF a j(1) j' payload_object(1) pa, of True]
    by (simp add: once_signed_def d1_def entry_field_def)
  then have "signSettlement (sign_wallet G headers sign) (ps_makerAddress ps) p (bs, d) = (Signed, bs1, d1)"
    using p w a by (intro wallet_signs [where i = i and e = em and b = "JObj [(''ok'', JBool True), (''status'', JStr ''waiting_for_other_party'')]"])
      (simp_all add: admits_def Let_def status_resp_def map_get_def)
  then show ?thesis using p(1) d1_def by blast
qed

text \<open>The taker signs second: the job is claimed, the transaction rebuilt with both entries, sent and recorded.\<close>

definition signed_job_of :: "tx_job \<Rightarrow> json \<Rightarrow> tx_status \<Rightarrow> string option \<Rightarrow> tx_job \<Rightarrow> bool" where
  "signed_job_of job data st h j \<longleftrightarrow> j_id j = j_id job \<and> j_network j = j_network job \<and> j_status j = st \<and>
     j_unsignedXdr j = Some data \<and> j_submittedHash j = h"

lemma both_broadcast:
  assumes "accepts G (ps_assembledTxXdr ps) em et h" and "ps_assembledTxXdr ps \<noteq> []" "em \<noteq> []" "et \<noteq> []"
  shows "\<exists>secret. sg_secret G = Some secret \<and> secret \<noteq> [] \<and> broadcast (sg_chain G) (sg_cfg G) secret (twice_signed ps m em et) = Inr h"
proof -
  have "text_field (twice_signed ps m em et) ''assembledTxXdr'' = Some (ps_assembledTxXdr ps)"
      "text_field (twice_signed ps m em et) ''makerSignedEntry'' = Some em" "text_field (twice_signed ps m em et) ''takerSignedEntry'' = Some et"
    using assms(2-4) by (simp_all add: text_field_def signed_fields)
  with assms(1) show ?thesis
    by (auto simp: accepts_def broadcast_def rebuild_tx_def try_then_def)
qed

lemma taker_signs:
  assumes j: "load_job i d = Some job" "j_status job = QUEUED" "j_unsignedXdr job = Some (once_signed ps m em)" "em \<noteq> []"
    and u: "unsigned_job (sg_crypto G) ps m job0"
    and a: "admits G headers (ps_takerAddress ps) et bs bs1" and w: "sign (ps_takerAuthXdr ps) = ExtOk (Some et)"
    and c: "accepts G (ps_assembledTxXdr ps) em et h"
  shows "\<exists>p d1 job1. pending_of (ps_takerAddress ps) job = Some p \<and>
     signSettlement (sign_wallet G headers sign) (ps_takerAddress ps) p (bs, d) = (Signed, bs1, d1) \<and>
     load_job i d1 = Some job1 \<and> signed_job_of job (twice_signed ps m em et) SUBMITTED (Some h) job1 \<and>
     db_orders d1 = db_orders d \<and> db_fills d1 = db_fills d"
proof -
  let ?claim = "\<lambda>j. j_id j = i \<and> j_status j = QUEUED"
  define d0 where "d0 = update_jobs (queued_job i) (add_entry (sg_now G) False et) d"
  define d1 where "d1 = record_hash (sg_now G) i h (update_jobs ?claim (set_status SUBMITTED (sg_now G)) d0)"
  have ps: "ps_makerAddress ps \<noteq> ps_takerAddress ps" "ps_assembledTxXdr ps \<noteq> []" using u by (simp_all add: unsigned_job_def)
  have et: "et \<noteq> []" and nf: "\<not> sg_fail G k" for k using a by (simp_all add: admits_def Let_def)
  have i: "j_id job = i" "j_kind job = settle_kind" using load_job_id [OF j(1)] by simp_all
  have nb: "\<not> both_signed (once_signed ps m em)" by (simp add: both_signed_def signed_fields)
  obtain p where p: "pending_of (ps_takerAddress ps) job = Some p" "pi_id p = i" "\<not> pi_retryNeeded p" "item_xdr p = ps_takerAuthXdr ps"
    using j nb i ps payload_object(2) [of ps m em]
    by (simp add: pending_of_def Let_def entry_field_def item_xdr_def json_str_def signed_fields)
  have pa: "party_address (sg_crypto G) (once_signed ps m em) ''makerAddress''" "party_address (sg_crypto G) (once_signed ps m em) ''takerAddress''"
    using u by (simp_all add: party_address_def unsigned_job_def signed_fields)
  have q: "queued_job i job" using j(2) i by (simp add: queued_job_def settle_job_def)
  define job0 where "job0 = add_entry (sg_now G) False et job"
  have l0: "load_job i d0 = Some job0" "j_status job0 = QUEUED" using j(1,2) q by (simp_all add: d0_def job0_def)
  have x0: "j_unsignedXdr job0 = Some (twice_signed ps m em et)"
    using j(3) by (simp add: job0_def add_entry_def twice_signed_def entry_field_def)
  obtain secret where s: "sg_secret G = Some secret" "secret \<noteq> []"
      "broadcast (sg_chain G) (sg_cfg G) secret (twice_signed ps m em et) = Inr h"
    using both_broadcast [OF c ps(2) j(4) et] by blast
  have "both_signed (twice_signed ps m em et)" using j(4) et by (simp add: both_signed_def signed_fields)
  then have "sign_merged G i (twice_signed ps m em et) d0 = (Some (submitted_resp h), d1)"
    using nf s by (simp add: sign_merged_def claim_loaded [OF l0] submit_claimed_def d1_def)
  then have post: "POST_sign G \<lparr> req_header = headers, req_body = Some (sign_body (ps_takerAddress ps) et) \<rparr> (Some i) (bs, d) =
      (Some (submitted_resp h), bs1, d1)"
    using admitted_request [OF a j(1,2,3) payload_object(2) pa, of False] ps(1)
    by (simp add: twice_signed_def d0_def entry_field_def signed_fields)
  have "signSettlement (sign_wallet G headers sign) (ps_takerAddress ps) p (bs, d) = (Signed, bs1, d1)"
    using p w post et by (intro wallet_signs [where i = i and e = et
        and b = "JObj [(''ok'', JBool True), (''status'', JStr ''submitted''), (''hash'', JStr h)]"]) (simp_all add: submitted_resp_def map_get_def)
  moreover have "\<exists>job1. load_job i d1 = Some job1 \<and> signed_job_of job (twice_signed ps m em et) SUBMITTED (Some h) job1"
    using l0 x0 i by (auto simp: d1_def signed_job_of_def job0_def set_status_def)
  moreover have "db_orders d1 = db_orders d \<and> db_fills d1 = db_fills d" by (simp add: d1_def d0_def record_hash_def)
  ultimately show ?thesis using p(1) by blast
qed

text \<open>The reconciler sees the transaction and stamps the fill.\<close>

lemma submitted_confirms:
  assumes j: "load_job i d = Some job" "j_status job = SUBMITTED" "j_submittedHash job = Some h" "h \<noteq> []"
    and R: "ch_poll (rc_chain R) h 0 = Inr (PollSuccess ledger)" "recon_ok R" and hp: "has_parties (payload job)"
    and nn: "nonce_readable (payload job) ''makerNonce''" "nonce_readable (payload job) ''takerNonce''"
  shows "\<exists>d1 job1. reconcileSubmitted R job d = (True, d1) \<and> load_job i d1 = Some job1 \<and> j_status job1 = CONFIRMED \<and>
     db_orders d1 = db_orders d \<and>
     db_fills d1 = update_where (\<lambda>f. party_fill job (payload job) f \<and> nonce_matches (payload job) ''makerNonce'' (f_makerNonce f) \<and>
       nonce_matches (payload job) ''takerNonce'' (f_takerNonce f)) (settle_fill_row h ledger) (db_fills d)"
proof -
  have "load_job i (update_fills P f d') = load_job i d'" for P f d' by (simp add: load_job_def)
  then show ?thesis using assms load_job_id [OF j(1)]
    by (simp add: reconcileSubmitted_def Let_def mark_confirmed_def recon_ok_def) (simp add: update_fills_def)
qed

text \<open>A transaction that failed on the chain only marks its job: the fill it should have settled stays booked, and the filled orders stay filled.\<close>

lemma failed_settlement_stays_booked:
  assumes "load_job i d = Some job" and "j_status job = SUBMITTED" and "j_submittedHash job = Some h" and "h \<noteq> []"
    and "ch_poll (rc_chain R) h 0 = Inr PollFailed" and "recon_ok R"
  shows "\<exists>d1. reconcileSubmitted R job d = (True, d1) \<and> db_orders d1 = db_orders d \<and> db_fills d1 = db_fills d \<and>
    map_option final (load_job i d1) = Some True"
proof -
  have "load_job i (mark_failed (\<lambda>j. j_id j = i \<and> j_status j = SUBMITTED) t msg d) =
      Some ((set_status FAILED t job)\<lparr> j_lastError := Some msg \<rparr>)" for t msg
    unfolding mark_failed_def using assms(1,2) load_job_id [OF assms(1)]
    by (subst load_job_update) (auto simp: settle_job_def)
  then show ?thesis using assms load_job_id [OF assms(1)]
    by (simp add: reconcileSubmitted_def Let_def recon_ok_def final_def) (simp add: mark_failed_def)
qed

subsection \<open>From the match to the chain\<close>

text \<open>The tick records the match and leaves a job for its two unsigned orders.\<close>

definition queues :: "matcher_env \<Rightarrow> match_result \<Rightarrow> pending_settlement \<Rightarrow> database \<Rightarrow> bool" where
  "queues E m ps d \<longleftrightarrow> no_faults E \<and> fresh_hash E (match_hash m) d \<and> oid (maker m) \<noteq> oid (taker m) \<and>
     has_room (oid (maker m)) (fillSize m) (db_orders d) \<and> has_room (oid (taker m)) (fillSize m) (db_orders d) \<and>
     \<not> falsy_str (me_secret E) \<and> (falsy_str (signature (maker m)) \<or> falsy_str (signature (taker m))) \<and>
     simulateSettleFill (me_rpc E) (me_cfg E) m (match_hash m) (the (me_secret E)) = Some ps \<and>
     (\<forall>j \<in> set (db_jobs d). \<not> same_job (me_network E) settle_kind (match_hash m) j)"

lemma match_queues_job:
  assumes "queues E m ps d"
  shows "\<exists>d1 i job. fill_and_settle E m d = (True, d1) \<and> load_job i d1 = Some job \<and> job_for E ps m job \<and>
     db_orders d1 = fill_row_orders m (db_orders d) \<and> db_fills d1 = db_fills d @ [fill_of (me_network E) (me_now E) m]"
proof -
  obtain d1 job where r: "fill_and_settle E m d = (True, d1)" "db_orders d1 = fill_row_orders m (db_orders d)"
      "db_fills d1 = db_fills d @ [fill_of (me_network E) (me_now E) m]" "db_jobs d1 = db_jobs d @ [job]" "job_for E ps m job"
      "j_id job = next_job_id (db_jobs d)" "j_kind job = settle_kind"
    using fill_and_settle_row [of E m d ps] assms unfolding queues_def by blast
  have "find_row (settle_job (j_id job)) (js @ [job]) = Some job" if "\<forall>j \<in> set js. j_id j \<noteq> j_id job" for js
    using that r(7) by (induction js) (auto simp: settle_job_def)
  then have "load_job (j_id job) d1 = Some job"
    using r(4,6) next_job_id_fresh [of _ "db_jobs d"] by (fastforce simp: load_job_def)
  then show ?thesis using r by blast
qed

lemma only_new_fill:
  assumes "fresh_hash E (match_hash m) d" and "payload job = twice_signed ps m em et" and "j_network job = me_network E"
    and "ps_makerAddress ps = owner (maker m)" "ps_takerAddress ps = owner (taker m)" "owner (maker m) \<noteq> []" "owner (taker m) \<noteq> []"
  shows "update_where (\<lambda>f. party_fill job (payload job) f \<and> nonce_matches (payload job) ''makerNonce'' (f_makerNonce f) \<and>
       nonce_matches (payload job) ''takerNonce'' (f_takerNonce f)) g (db_fills d @ [fill_of (me_network E) (me_now E) m]) =
     db_fills d @ [g (fill_of (me_network E) (me_now E) m)]"
proof -
  let ?P = "\<lambda>f. party_fill job (payload job) f \<and> nonce_matches (payload job) ''makerNonce'' (f_makerNonce f) \<and>
       nonce_matches (payload job) ''takerNonce'' (f_takerNonce f)"
  have t: "text_field (twice_signed ps m em et) k = text_field (job_payload ps m) k" if "k \<noteq> ''makerSignedEntry''" "k \<noteq> ''takerSignedEntry''" for k
    using that by (simp add: text_field_def signed_fields)
  have "\<forall>f \<in> set (db_fills d). \<not> ?P f"
    using assms(1,3) by (auto simp: assms(2) party_fill_def t fresh_hash_def)
  moreover have "?P (fill_of (me_network E) (me_now E) m)"
    using assms by (simp add: party_fill_def t fill_of_def)
  ultimately show ?thesis by (simp add: update_where_idle)
qed

lemma both_sign:
  assumes q: "load_job i d = Some job" "unsigned_job (sg_crypto G) ps m job" "sg_crypto H = sg_crypto G"
    and M: "admits G hdM (ps_makerAddress ps) em bs bs1" "signM (ps_makerAuthXdr ps) = ExtOk (Some em)"
    and T: "admits H hdT (ps_takerAddress ps) et bs1 bs2" "signT (ps_takerAuthXdr ps) = ExtOk (Some et)"
    and acc: "accepts H (ps_assembledTxXdr ps) em et h"
  shows "\<exists>p d1 job1 p1 d2 job2. pending_of (ps_makerAddress ps) job = Some p \<and>
     signSettlement (sign_wallet G hdM signM) (ps_makerAddress ps) p (bs, d) = (Signed, bs1, d1) \<and>
     load_job i d1 = Some job1 \<and> pending_of (ps_takerAddress ps) job1 = Some p1 \<and>
     signSettlement (sign_wallet H hdT signT) (ps_takerAddress ps) p1 (bs1, d1) = (Signed, bs2, d2) \<and>
     load_job i d2 = Some job2 \<and> signed_job_of job (twice_signed ps m em et) SUBMITTED (Some h) job2 \<and>
     db_orders d2 = db_orders d \<and> db_fills d2 = db_fills d"
proof -
  obtain p d1 where s1: "pending_of (ps_makerAddress ps) job = Some p"
      "signSettlement (sign_wallet G hdM signM) (ps_makerAddress ps) p (bs, d) = (Signed, bs1, d1)"
      and d1: "d1 = update_jobs (queued_job i) (add_entry (sg_now G) True em) d"
    using maker_signs [OF q(1,2), of hdM em bs bs1 signM] M by blast
  define job1 where "job1 = add_entry (sg_now G) True em job"
  have "queued_job i job" using q(2) load_job_id [OF q(1)] by (simp add: queued_job_def settle_job_def unsigned_job_def)
  then have l: "load_job i d1 = Some job1" "j_status job1 = QUEUED" using q by (simp_all add: d1 job1_def unsigned_job_def)
  have x: "j_unsignedXdr job1 = Some (once_signed ps m em)"
    using q(2) by (simp add: job1_def add_entry_def once_signed_def entry_field_def unsigned_job_def)
  have em: "em \<noteq> []" using M(1) by (simp add: admits_def Let_def)
  obtain p1 d2 job2 where s2: "pending_of (ps_takerAddress ps) job1 = Some p1"
      "signSettlement (sign_wallet H hdT signT) (ps_takerAddress ps) p1 (bs1, d1) = (Signed, bs2, d2)" "load_job i d2 = Some job2"
      and j2: "signed_job_of job1 (twice_signed ps m em et) SUBMITTED (Some h) job2"
      and t: "db_orders d2 = db_orders d1" "db_fills d2 = db_fills d1"
    using taker_signs [OF l x em, of H job hdT et bs1 bs2 signT h] q(2,3) T acc by auto
  have "signed_job_of job (twice_signed ps m em et) SUBMITTED (Some h) job2" using j2 by (simp add: signed_job_of_def job1_def)
  moreover have "db_orders d2 = db_orders d" "db_fills d2 = db_fills d" using t by (simp_all add: d1)
  ultimately show ?thesis using s1 l(1) s2 by blast
qed

definition stamp_fill :: "match_result \<Rightarrow> string \<Rightarrow> int \<Rightarrow> matcher_env \<Rightarrow> fill_row" where
  "stamp_fill m h ledger E = settle_fill_row h ledger (fill_of (me_network E) (me_now E) m)"

text \<open>What the reconciler makes of the submitted job, by the answer of the network.\<close>

lemma submitted_outcome:
  assumes "queues E m ps d" and "load_job i d3 = Some job''" and "signed_job_of job (twice_signed ps m em et) SUBMITTED (Some h) job''"
    and "job_for E ps m job" and "owner (maker m) \<noteq> []" "owner (taker m) \<noteq> []" and "h \<noteq> []" and "recon_ok R"
    and "db_orders d3 = fill_row_orders m (db_orders d)" "db_fills d3 = db_fills d @ [fill_of (me_network E) (me_now E) m]"
  shows "ch_poll (rc_chain R) h 0 = Inr (PollSuccess ledger) \<Longrightarrow> \<exists>d4. reconcileSubmitted R job'' d3 = (True, d4) \<and>
      map_option j_status (load_job i d4) = Some CONFIRMED \<and> db_orders d4 = fill_row_orders m (db_orders d) \<and>
      db_fills d4 = db_fills d @ [stamp_fill m h ledger E]"
    and "ch_poll (rc_chain R) h 0 = Inr PollFailed \<Longrightarrow> \<exists>d4. reconcileSubmitted R job'' d3 = (True, d4) \<and>
      map_option final (load_job i d4) = Some True \<and> db_orders d4 = fill_row_orders m (db_orders d) \<and>
      db_fills d4 = db_fills d @ [fill_of (me_network E) (me_now E) m]"
proof -
  have ps: "ps_makerAddress ps = owner (maker m)" "ps_takerAddress ps = owner (taker m)"
    using assms(1) simulate_fields unfolding queues_def by blast+
  have pl: "payload job'' = twice_signed ps m em et" "j_network job'' = me_network E"
    using assms(3,4) by (simp_all add: signed_job_of_def payload_def job_for_def)
  have st: "j_status job'' = SUBMITTED" "j_submittedHash job'' = Some h" using assms(3) by (simp_all add: signed_job_of_def)
  have hp: "has_parties (payload job'')"
    using ps assms(5,6) by (simp add: pl has_parties_def text_field_def signed_fields) (simp add: job_payload_def map_get_def)
  have nn: "nonce_readable (payload job'') ''makerNonce''" "nonce_readable (payload job'') ''takerNonce''"
    by (simp_all add: pl nonce_readable_def text_field_def signed_fields) (simp_all add: job_payload_def map_get_def signed_digits_show_int)
  have "fresh_hash E (match_hash m) d" using assms(1) by (simp add: queues_def)
  note new = only_new_fill [OF this pl ps assms(5,6), of "settle_fill_row h ledger"]
  { assume "ch_poll (rc_chain R) h 0 = Inr (PollSuccess ledger)"
    from submitted_confirms [OF assms(2) st assms(7) this assms(8) hp nn]
    show "\<exists>d4. reconcileSubmitted R job'' d3 = (True, d4) \<and>
      map_option j_status (load_job i d4) = Some CONFIRMED \<and> db_orders d4 = fill_row_orders m (db_orders d) \<and>
      db_fills d4 = db_fills d @ [stamp_fill m h ledger E]"
      using assms(9,10) new by (auto simp: stamp_fill_def) }
  { assume "ch_poll (rc_chain R) h 0 = Inr PollFailed"
    from failed_settlement_stays_booked [OF assms(2) st assms(7) this assms(8)]
    show "\<exists>d4. reconcileSubmitted R job'' d3 = (True, d4) \<and>
      map_option final (load_job i d4) = Some True \<and> db_orders d4 = fill_row_orders m (db_orders d) \<and>
      db_fills d4 = db_fills d @ [fill_of (me_network E) (me_now E) m]"
      using assms(9,10) by auto }
qed

text \<open>
  A match of two unsigned orders: the tick books it and queues its job; the job is offered to the maker's
  wallet, whose signature is stored; then to the taker's, whose signature sends the transaction. When the
  network fails it - as it does when the entries the parties signed are missing - the reconciler only marks
  the job: orders stay filled and the fill stays booked.
\<close>

lemma match_signed_in_vain:
  assumes "queues E m ps d" and "ps_assembledTxXdr ps \<noteq> []"
    and "isValidEd25519PublicKey (sg_crypto G) (owner (maker m))" "isValidEd25519PublicKey (sg_crypto G) (owner (taker m))"
    and "owner (maker m) \<noteq> owner (taker m)" "sg_crypto H = sg_crypto G"
    and "admits G hdM (owner (maker m)) em bs bs1" "signM (ps_makerAuthXdr ps) = ExtOk (Some em)"
    and "admits H hdT (owner (taker m)) et bs1 bs2" "signT (ps_takerAuthXdr ps) = ExtOk (Some et)"
    and "accepts H (ps_assembledTxXdr ps) em et h" "h \<noteq> []"
    and "ch_poll (rc_chain R) h 0 = Inr PollFailed" "recon_ok R"
  shows "\<exists>i d1 job p d2 job' p' d3 job'' d4. fill_and_settle E m d = (True, d1) \<and>
     load_job i d1 = Some job \<and> pending_of (owner (maker m)) job = Some p \<and>
     signSettlement (sign_wallet G hdM signM) (owner (maker m)) p (bs, d1) = (Signed, bs1, d2) \<and>
     load_job i d2 = Some job' \<and> pending_of (owner (taker m)) job' = Some p' \<and>
     signSettlement (sign_wallet H hdT signT) (owner (taker m)) p' (bs1, d2) = (Signed, bs2, d3) \<and>
     load_job i d3 = Some job'' \<and> reconcileSubmitted R job'' d3 = (True, d4) \<and>
     map_option final (load_job i d4) = Some True \<and>
     db_orders d4 = fill_row_orders m (db_orders d) \<and>
     db_fills d4 = db_fills d @ [fill_of (me_network E) (me_now E) m]"
proof -
  have ps: "ps_makerAddress ps = owner (maker m)" "ps_takerAddress ps = owner (taker m)"
    using assms(1) simulate_fields unfolding queues_def by blast+
  have ne: "owner (maker m) \<noteq> []" "owner (taker m) \<noteq> []" using assms(7,9) by (simp_all add: admits_def Let_def)
  obtain d1 i job where q: "fill_and_settle E m d = (True, d1)" "load_job i d1 = Some job" "job_for E ps m job"
      "db_orders d1 = fill_row_orders m (db_orders d)" "db_fills d1 = db_fills d @ [fill_of (me_network E) (me_now E) m]"
    using match_queues_job [OF assms(1)] by blast
  have u: "unsigned_job (sg_crypto G) ps m job"
    using q(3) ps ne assms(2-5) by (simp add: unsigned_job_def job_for_def)
  obtain p d2 job' p' d3 job'' where s: "pending_of (owner (maker m)) job = Some p"
      "signSettlement (sign_wallet G hdM signM) (owner (maker m)) p (bs, d1) = (Signed, bs1, d2)"
      "load_job i d2 = Some job'" "pending_of (owner (taker m)) job' = Some p'"
      "signSettlement (sign_wallet H hdT signT) (owner (taker m)) p' (bs1, d2) = (Signed, bs2, d3)"
      "load_job i d3 = Some job''" and j: "signed_job_of job (twice_signed ps m em et) SUBMITTED (Some h) job''"
      and t: "db_orders d3 = db_orders d1" "db_fills d3 = db_fills d1"
    using both_sign [OF q(2) u assms(6), unfolded ps, of hdM em bs bs1 signM hdT et bs2 signT h] assms(7-11) by blast
  from submitted_outcome(2) [OF assms(1) s(6) j q(3) ne assms(12,14) _ _ assms(13)] t q(4,5)
  show ?thesis using q(1,2) s by metis
qed

subsection \<open>Who may hand in an entry\<close>

text \<open>
  Nothing in a sign request proves that it comes from the address it names: any admitted request that names
  the maker of a job replaces the entry the maker handed in before.
\<close>

lemma entry_replaced_by_anyone:
  assumes a: "admits G headers addr e bs bs1" and l: "load_job i d = Some job" "j_status job = QUEUED" "j_unsignedXdr job = Some (JObj kvs)"
    and p: "party_address (sg_crypto G) (JObj kvs) ''makerAddress''" "party_address (sg_crypto G) (JObj kvs) ''takerAddress''"
    and maker: "js_field (JObj kvs) ''makerAddress'' = Some (JStr addr)" and one: "js_field (JObj kvs) ''takerSignedEntry'' = None"
  shows "\<exists>r d1 job1. POST_sign G \<lparr> req_header = headers, req_body = Some (sign_body addr e) \<rparr> (Some i) (bs, d) = (r, bs1, d1) \<and>
    load_job i d1 = Some job1 \<and> js_field (payload job1) ''makerSignedEntry'' = Some (JStr e)"
proof -
  define x where "x = jsonb_concat (JObj kvs) (JObj [(''makerSignedEntry'', JStr e)])"
  have "js_field x ''takerSignedEntry'' = None" using one by (simp only: x_def js_field_merge) simp
  then have "\<not> both_signed x" by (simp add: both_signed_def)
  then have run: "POST_sign G \<lparr> req_header = headers, req_body = Some (sign_body addr e) \<rparr> (Some i) (bs, d) =
      (Some (status_resp ''waiting_for_other_party''), bs1, update_jobs (queued_job i) (add_entry (sg_now G) True e) d)"
    using admitted_request [OF a l _ p, of True] maker by (simp add: sign_merged_def entry_field_def x_def)
  have "queued_job i job" using l load_job_id [OF l(1)] by (simp add: queued_job_def settle_job_def)
  then have "load_job i (update_jobs (queued_job i) (add_entry (sg_now G) True e) d) = Some (add_entry (sg_now G) True e job)"
    using l(1) by simp
  moreover have "js_field (payload (add_entry (sg_now G) True e job)) ''makerSignedEntry'' = Some (JStr e)"
    using l(3) by (simp add: payload_add_entry entry_field_def)
  ultimately show ?thesis using run by blast
qed

subsection \<open>A concrete run\<close>

definition sample_refused :: recon_env where
  "sample_refused = sample_recon\<lparr> rc_chain := sample_chain\<lparr> ch_poll := (\<lambda>_ _. Inr PollFailed) \<rparr> \<rparr>"

lemma sample_admits:
  "admits sample_sign (\<lambda>_. None) ''GM'' ''em'' [] [(''GM:unknown'', \<lparr> b_count = 1, b_resetAt = 62000 \<rparr>)]"
  "admits sample_sign (\<lambda>_. None) ''GT'' ''et'' [(''GM:unknown'', \<lparr> b_count = 1, b_resetAt = 62000 \<rparr>)]
     [(''GM:unknown'', \<lparr> b_count = 1, b_resetAt = 62000 \<rparr>), (''GT:unknown'', \<lparr> b_count = 1, b_resetAt = 62000 \<rparr>)]"
  by (simp_all add: admits_def sample_sign_def sample_chain_def sample_sig_crypto_def rateLimit_def distributedRateLimit_def localRateLimit_def
      purge_expired_def MAX_KEYS_def WINDOW_MS_def requestKey_def js_or_str_def bodyTooLarge_def map_get_def Let_def)

text \<open>Both parties of a sample match sign, with the SDK that copies; the network refuses, and the fill stays.\<close>

lemma sample_signed_in_vain:
  "envelope_copied (sg_chain sample_sign) \<and>
   (\<exists>i d1 job'' d3 d4. fill_and_settle (sample_env (Some ''s'')) sample_fill sample_db = (True, d1) \<and>
     load_job i d3 = Some job'' \<and> reconcileSubmitted sample_refused job'' d3 = (True, d4) \<and>
     map_option final (load_job i d4) = Some True \<and>
     db_fills d4 = [fill_of (me_network (sample_env (Some ''s''))) 1000 sample_fill])"
proof -
  let ?E = "sample_env (Some ''s'')"
  obtain ps where ps: "simulateSettleFill sample_rpc default_config sample_fill (match_hash sample_fill) ''s'' = Some ps" "ps_assembledTxXdr ps \<noteq> []"
    by (simp add: simulateSettleFill_def build_call_def sample_rpc_def list_all_def Let_def)
  have q: "queues ?E sample_fill ps sample_db"
    using ps(1) sample_fresh
    by (simp add: queues_def no_faults_def has_room_def sample_fill_def) (simp add: sample_db_def sample_row_def)
  have a: "accepts sample_sign (ps_assembledTxXdr ps) ''em'' ''et'' ''hash''"
    by (simp add: accepts_def sample_sign_def sample_chain_def)
  have o: "owner (maker sample_fill) = ''GM''" "owner (taker sample_fill) = ''GT''"
    by (simp_all add: sample_fill_def sample_db_def sample_row_def)
  have v: "isValidEd25519PublicKey (sg_crypto sample_sign) ''GM''" "isValidEd25519PublicKey (sg_crypto sample_sign) ''GT''"
    by (simp_all add: sample_sign_def sample_sig_crypto_def)
  have r: "ch_poll (rc_chain sample_refused) ''hash'' 0 = Inr PollFailed" "recon_ok sample_refused"
    by (simp_all add: sample_refused_def sample_recon_def recon_ok_def)
  have c: "envelope_copied (sg_chain sample_sign)" by (simp add: envelope_copied_def sample_sign_def sample_chain_def)
  note match_signed_in_vain [OF q ps(2), unfolded o, OF v _ refl sample_admits(1) _ sample_admits(2) _ a _ r,
      of "\<lambda>_. ExtOk (Some ''em'')" "\<lambda>_. ExtOk (Some ''et'')"]
  then show ?thesis using c by (fastforce simp: sample_db_def)
qed

end
