(* ===== verification/Spec2Isabelle.thy ===== *)
theory Spec2Isabelle
  imports Exchange_Types Trade_Tests Stress_Test Oracle_Correct Liquidation_Correct Ttl_Keeper Monitor_Correct Book_Correct Stream_Correct Stats_Correct Insurance_Seed Live_Gate Account_Panels Market_Polls Ticket_Form Landing_Page Service_Runs Settlement_Flow
begin

text \<open>
  Kryon, a perpetual-futures exchange on Stellar: a model of its off-chain services and of the logic of its
  web client (\<open>client/\<close>), with the theorems that make them correct.

  \<^bold>\<open>The program.\<close> A wallet signs an order text; the API route checks it and appends a row to PostgreSQL;
  the matcher service reads the open rows every tick, runs a price-time pass, books every match as a fill and
  either settles it on the chain at once (both orders carry settlement signatures) or queues a job that both
  wallets have to sign. The sign route collects the two entries and broadcasts; the reconciler confirms,
  retries or expires jobs. The oracle keeper publishes prices, which the matcher uses as a band and the
  liquidation keeper to close underwater accounts. The indexer copies contract state into the database, the
  aggregator rolls fills up into statistics, the view routes and the WebSocket server publish the book, trades
  and statistics, and monitor and TTL keeper watch over it all. Scripts deploy, rewire and hand over the contracts.

  \<^bold>\<open>Theories and code\<close> (paths under \<open>src/client\<close>; each map entry names the lines).
  \<^item> Runtime: \<open>Kryon_Prelude\<close> (SQL statements on lists of rows, theorem collections), \<open>Js_Number\<close> (binary64
    with rounding, BigInt conversions), \<open>Js_Runtime\<close> (strings, \<open>Map\<close>, the stable sort), \<open>Js_Json\<close>.
  \<^item> Data: \<open>Kryon_Config\<close> (\<open>config/index.ts\<close>), \<open>Order_Messages\<close> (\<open>lib/market/order-intent.ts\<close>,
    \<open>signing-message.ts\<close>, \<open>signed-intent.ts\<close>), \<open>Order_Validation\<close> (\<open>lib/validation.ts\<close>), \<open>Exchange_Db\<close>
    (the Prisma schema), \<open>Http_Common\<close> (\<open>lib/rate-limit.ts\<close>, \<open>lib/db.ts\<close>).
  \<^item> Trading: \<open>Matching_Engine\<close> and \<open>Matcher_Service\<close> (\<open>scripts/matcher-service.ts\<close>), \<open>Settlement_Client\<close>
    (\<open>lib/stellar/settlement.ts\<close>), \<open>Order_Intake\<close> (\<open>app/api/orders/**\<close>), \<open>Settlement_Jobs\<close>
    (\<open>app/api/settlements/**\<close>, \<open>scripts/settlement-reconciler.ts\<close>, \<open>clear-stale-jobs.ts\<close>), with their theorems
    in \<open>Matching_Correct\<close>, \<open>Matcher_Correct\<close>, \<open>Settlement_Correct\<close>; all of them over one database in
    \<open>Exchange_System\<close>, whose rows \<open>Exchange_Types\<close> shows to stay well typed and whose settlement jobs
    \<open>Exchange_Jobs\<close> shows to be settled directly.
  \<^item> Keepers: \<open>Oracle_Keeper\<close>/\<open>Oracle_Correct\<close> (\<open>scripts/oracle-keeper.ts\<close>, \<open>lib/oracle-activity.ts\<close>),
    \<open>Chain_Views\<close> (\<open>lib/stellar/scval.ts\<close>, \<open>invoke.ts\<close>, \<open>contracts.ts\<close>, \<open>oracle.ts\<close>),
    \<open>Liquidation_Keeper\<close>/\<open>Liquidation_Correct\<close>, \<open>Ttl_Keeper\<close>, \<open>Monitor\<close>/\<open>Monitor_Correct\<close>.
  \<^item> Views: \<open>Book_View\<close>/\<open>Book_Correct\<close> (\<open>app/api/markets/**\<close>, \<open>app/api/fills\<close>),
    \<open>Stream_Client\<close>, \<open>Stream_Server\<close>, \<open>Stream_Correct\<close> (\<open>lib/market/websocket.ts\<close>, \<open>scripts/ws-server.ts\<close>),
    \<open>Trading_Math\<close> (\<open>lib/math.ts\<close>, \<open>lib/format.ts\<close>), \<open>Trading_Stats\<close>/\<open>Stats_Correct\<close> (\<open>lib/stats.ts\<close>,
    \<open>scripts/stats-aggregator.ts\<close>), \<open>State_Indexer\<close>, \<open>Account_Views\<close> (\<open>app/api/leaderboard\<close>,
    \<open>portfolio\<close>, \<open>funding\<close>, \<open>ready\<close>, \<open>health\<close>).
  \<^item> Web client: \<open>Order_Client\<close> (\<open>lib/stellar/freighter.ts\<close>, \<open>lib/market/matcher.ts\<close>, \<open>stores/orders.ts\<close>,
    \<open>useOrderReconciliation.ts\<close>), \<open>Order_Ticket\<close> (\<open>OrderEntry.tsx\<close>, \<open>PositionsTable.tsx\<close>,
    \<open>OpenOrdersTable.tsx\<close>) and \<open>Ticket_Form\<close> (the ticket's inputs as events, with the figures of the tables),
    \<open>Landing_Page\<close>, \<open>Market_Feed\<close> and, with the interleaving of its
    polls, \<open>Market_Polls\<close> (\<open>stores/market.ts\<close>, \<open>MarketDataProvider.tsx\<close>, \<open>OrderBook.tsx\<close>),
    \<open>Wallet_Actions\<close> (\<open>stores/wallet.ts\<close>, \<open>WalletConnect.tsx\<close>, \<open>SettlementModal.tsx\<close>,
    \<open>DepositWithdrawDialog.tsx\<close>), \<open>Account_Panels\<close> (what the account bar, market header, history tables,
    portfolio and leaderboard pages, settings and chart compute), and \<open>Settlement_Flow\<close>, which plugs the wallets into the sign route.
  \<^item> Operations: \<open>Service_Runs\<close> (what the services check, do before their loops, and read), \<open>Ops_Scripts\<close> (\<open>lib/secrets-check.ts\<close>, \<open>production-gate.ts\<close>, \<open>seed-markets.ts\<close>,
    \<open>apply-migration.ts\<close>, the admin transfer and its verification), \<open>Deploy_Common\<close>, \<open>Mainnet_Deploy\<close>,
    \<open>Mainnet_Correct\<close> (\<open>mainnet-deploy.ts\<close>), \<open>Redeploy_Scripts\<close> (\<open>rewire-liquidation.ts\<close>,
    \<open>redeploy-core.ts\<close>), \<open>Testnet_Scripts\<close> (\<open>redeploy-oracle.ts\<close>, \<open>redeploy-engine-xlm.ts\<close>, the USDC set-up
    scripts, \<open>update-oracle-publisher.ts\<close>, and the rewriting of source files), \<open>Insurance_Seed\<close>
    (\<open>mainnet-seed-insurance.ts\<close>, \<open>setup-usdc-trustline.ts\<close>), \<open>Live_Gate\<close> (\<open>live-production-gate.ts\<close>).
  \<^item> Tests against a running system: \<open>Load_Test\<close>, \<open>Trade_Tests\<close> (\<open>soak-test.ts\<close>, \<open>e2e-testnet.ts\<close>), \<open>Stress_Test\<close>
    (\<open>stress-test.ts\<close>, \<open>failure-recovery-test.ts\<close>): their verdicts, and what they can find of the modelled services.

  \<^bold>\<open>How the code is read.\<close> A handler, tick or script is a function from the state it finds (the database, the
  limiter's buckets, its own variables) and a record of its environment to a result and the state it leaves.
  An SQL statement is one atomic update of a list of rows. The environment says what the code cannot know: the
  clock, what a request or an RPC call returns, and which statements fail, by a predicate on the operation and
  the number of the statement, so that every partial run is an instance. Exceptions and early returns are values
  (\<open>option\<close>, a sum type or a datatype of outcomes). The Stellar SDK (key checks, hashing, XDR, transactions) is
  a record of functions (\<open>crypto\<close>, \<open>rpc\<close>, \<open>chain\<close>, \<open>deploy_net\<close>); what a theorem needs of it is a hypothesis
  (for example \<open>network_truthful\<close>: what landed stays, and positive answers are true). Concurrency is explicit where
  it matters: \<open>sign_step\<close> interleaves the atomic steps of any number of sign requests, and \<open>exchange_step\<close> those
  of all services; the streaming client and server are step relations too.

  \<^bold>\<open>What is shown.\<close>
  \<^item> Trading: the matching pass never overfills, respects prices, owners and price-time priority and leaves no
    cross, market orders included; a tick records exactly its matches, inside the oracle band; a match of signed
    orders is booked exactly when its transaction is confirmed, and otherwise undone but for the price and volume of
    its market; in every reachable state of the whole exchange the order table is sound and every order is signed by its owner, and
    only the owner cancels, the stored rows conform to the types and keys the schema declares, and no settlement
    is ever queued for signatures. An order accepted by the API is never quarantined by the matcher, and an order a
    wallet submits reaches the book.
  \<^item> Settlement: a sign request changes only the entry of the party it names; concurrent requests never broadcast a
    job twice; finished jobs stay finished; an expired job gives the book back. The reconciler stops exactly after five
    failing ticks in a row, and a tick fails when its queries do. \<open>Settlement_Flow\<close> follows a queued match to the end: with
    the SDK's documented \<open>toEnvelope\<close> the entries both parties signed never reach the network, and the failed job leaves
    fill and orders booked.
  \<^item> Keepers: published prices follow a majority of the sources, USDC is published less than one basis point beyond
    the halt threshold at most, an active tick leaves no price stale that the network would take, only underwater accounts are liquidated, in the order of the reference list;
    the TTL keeper extends exactly what is near archival; the monitor's alerts are outages of a separate automaton.
  \<^item> Views: the book shows exactly the open limit orders, expired ones included; trades are streamed once and in order; client and server agree
    on subscriptions; a fill is booked once and the two roll-ups of the statistics agree; the indexer's generated
    SQL writes what was read.
  \<^item> Operations: the deployment's checkpoint never claims an upload, instance or call that has not landed, through any
    failures of runs that are not dry, and a deployment that ends well is complete, but for initializations that someone
    else may have made with other arguments; a rewiring that ends well has pointed the core at the new contracts.
  \<^item> Text and wire formats: the order text determines the order, the wire form is read back as the order, and an
    order text is never a cancellation text.

  \<^bold>\<open>Locales.\<close> The interfaces between the parts, each interpreted on the model's own definitions: \<open>js_map_laws\<close>
  and \<open>js_counter\<close> (the insertion-ordered \<open>Map\<close> and the counters kept in one), \<open>stable_sorting\<close>, \<open>book_sweep\<close>
  and \<open>book_pass\<close> (what a sweep along one side of the book needs, for the market and the limit pass),
  \<open>tick_invariant\<close> (what every statement of a tick keeps), \<open>upsert_table\<close> (the tables of the statistics).

  \<^bold>\<open>Bounds.\<close> Loops of the code that are bounded are bounded here by the same constants: 30 polls of a submission
  and of a wallet invocation, 10 after a resubmission, 2 to 5 attempts of retried calls, 45 and 60 polls in the
  deployment scripts. The loops of the matching pass recurse on the lists they consume. Nothing has fuel.

  \<^bold>\<open>Clocks and snapshots.\<close> A handler reads the clock once, so the \<open>createdAt\<close> of an accepted order is the time at
  which it was validated; the oracle keeper has a clock for each asset's turn and its confirmation; the answers of the chain
  are the same throughout a tick of the liquidation keeper. A run of the statistics aggregator reads the state it starts
  from and its own writes, not fills that are booked while it runs.

  \<^bold>\<open>Not modelled.\<close> The Rust contracts under \<open>kryon-protocol\<close> (another language; the services see them through
  calls, which are parameters). The markup, styling, timers and query caches of the React components, and the
  parts that only display (the landing page's effects, the TradingView widget, markets page, navigation). The scenarios of the test scripts, beyond
  the conditions and verdicts, and the one-off diagnosis scripts. The documentation site, build configuration and assets. Console
  output everywhere, and texts with characters beyond Latin-1 after those characters.
\<close>

end
